(* ===== verification/Prelude.thy ===== *)
theory Prelude
  imports Main "HOL-Library.Char_ord" "HOL-Library.List_Lexorder" "HOL-Library.Product_Lexorder" "HOL-Library.Code_Target_Numeral"
begin

text \<open>
  What every component of the development shares.

  \<^item> \<open>('a, 'e) result\<close> is Rust's \<open>Result\<close>; \<open>'a run\<close> marks a computation that may panic
    (an \<open>expect\<close> that fails, an arithmetic operation the library documents as panicking).
  \<^item> A Rust \<open>String\<close>, \<open>&str\<close> or \<open>Vec<u8>\<close> is the list of its bytes: \<^typ>\<open>char\<close> is an 8-bit
    byte, so \<^typ>\<open>string\<close> is a byte string, \<open>len()\<close> is \<^const>\<open>length\<close>, and equality, order
    (\<open>Char_ord\<close>, \<open>List_Lexorder\<close>) and slicing are those of the bytes. Theory \<open>Utf8\<close> has the
    UTF-8 structure the code relies on.
  \<^item> A \<open>DateTime<Utc>\<close> is an \<^typ>\<open>int\<close>, the nanoseconds since the epoch; a \<open>Uuid\<close> is its 128-bit
    value as a \<^typ>\<open>nat\<close>.
\<close>

named_theorems result_simps \<open>unfolding of the result and run combinators\<close>

section \<open>Results and panics\<close>

datatype ('a, 'e) result = Ok 'a | Err 'e

datatype 'a run = Ret 'a | Panic

primrec bind_result :: "('a, 'e) result \<Rightarrow> ('a \<Rightarrow> ('b, 'e) result) \<Rightarrow> ('b, 'e) result" where
  "bind_result (Ok a) f = f a"
| "bind_result (Err e) f = Err e"

primrec map_err :: "('e \<Rightarrow> 'f) \<Rightarrow> ('a, 'e) result \<Rightarrow> ('a, 'f) result" where
  "map_err g (Ok a) = Ok a"
| "map_err g (Err e) = Err (g e)"

primrec map_ok :: "('a \<Rightarrow> 'b) \<Rightarrow> ('a, 'e) result \<Rightarrow> ('b, 'e) result" where
  "map_ok g (Ok a) = Ok (g a)"
| "map_ok g (Err e) = Err e"

primrec is_ok :: "('a, 'e) result \<Rightarrow> bool" where
  "is_ok (Ok a) = True"
| "is_ok (Err e) = False"

primrec ok_or :: "'a option \<Rightarrow> 'e \<Rightarrow> ('a, 'e) result" where
  "ok_or None e = Err e"
| "ok_or (Some a) e = Ok a"

text \<open>\<open>Result::expect\<close>: the value, or a panic.\<close>

primrec expect :: "('a, 'e) result \<Rightarrow> 'a run" where
  "expect (Ok a) = Ret a"
| "expect (Err e) = Panic"

primrec bind_run :: "'a run \<Rightarrow> ('a \<Rightarrow> 'b run) \<Rightarrow> 'b run" where
  "bind_run (Ret a) f = f a"
| "bind_run Panic f = Panic"

lemma bind_result_Ok_iff [result_simps]:
  "bind_result r f = Ok b \<longleftrightarrow> (\<exists>a. r = Ok a \<and> f a = Ok b)"
  by (cases r) auto

lemma bind_result_Err_iff [result_simps]:
  "bind_result r f = Err e \<longleftrightarrow> r = Err e \<or> (\<exists>a. r = Ok a \<and> f a = Err e)"
  by (cases r) auto

lemma map_err_Ok_iff [result_simps]: "map_err g r = Ok a \<longleftrightarrow> r = Ok a"
  by (cases r) auto

lemma map_err_Err_iff [result_simps]: "map_err g r = Err e \<longleftrightarrow> (\<exists>d. r = Err d \<and> e = g d)"
  by (cases r) auto

lemma map_ok_Ok_iff [result_simps]: "map_ok g r = Ok b \<longleftrightarrow> (\<exists>a. r = Ok a \<and> b = g a)"
  by (cases r) auto

lemma ok_or_Ok_iff [result_simps]: "ok_or v e = Ok a \<longleftrightarrow> v = Some a"
  by (cases v) auto

lemma ok_or_Err_iff [result_simps]: "ok_or v e = Err d \<longleftrightarrow> v = None \<and> d = e"
  by (cases v) auto

lemma bind_run_Ret_iff [result_simps]:
  "bind_run r f = Ret b \<longleftrightarrow> (\<exists>a. r = Ret a \<and> f a = Ret b)"
  by (cases r) auto

lemma expect_Ret_iff [result_simps]: "expect r = Ret a \<longleftrightarrow> r = Ok a"
  by (cases r) auto

lemma is_ok_iff: "is_ok r \<longleftrightarrow> (\<exists>a. r = Ok a)"
  by (cases r) auto

lemma not_Ok_iff: "(\<forall>a. r \<noteq> Ok a) \<longleftrightarrow> (\<exists>e. r = Err e)"
  by (cases r) auto

section \<open>Names of the model's base types\<close>

type_synonym bytes = string
type_synonym uuid = nat
type_synonym datetime = int

text \<open>One second of a \<open>chrono::Duration\<close>, in nanoseconds.\<close>

definition seconds :: "int \<Rightarrow> int" where
  "seconds n = n * 1000000000"

end
