(* ===== verification/Utf8.thy ===== *)
theory Utf8
  imports Prelude
begin

text \<open>
  The part of Rust's \<open>str\<close> and \<open>String\<close> the agent uses, over byte strings: scalar values
  (\<open>chars\<close>), validity (\<open>from_utf8\<close>), character boundaries and the loop that walks back to one,
  UTF-16 code units (the sort key of RFC 8785), white space, ASCII case, and the decimal and hex
  formats. The lemmas give what the components need of them: concatenation and truncation keep
  validity, UTF-16 encoding is injective on valid strings, decimal and hex formats are injective.
\<close>

section \<open>UTF-8\<close>

abbreviation byte_of :: "char \<Rightarrow> nat" where
  "byte_of \<equiv> of_char"

text \<open>A continuation byte \<open>10xxxxxx\<close>.\<close>

definition is_cont :: "char \<Rightarrow> bool" where
  "is_cont c \<longleftrightarrow> 128 \<le> byte_of c \<and> byte_of c < 192"

text \<open>
  \<open>str::chars\<close>: the bytes grouped by scalar value. A lead byte takes the continuation bytes that
  follow it; every other byte stands alone. The groups always concatenate to the string.
\<close>

function utf8_chars :: "string \<Rightarrow> string list" where
  "utf8_chars [] = []"
| "utf8_chars (c # cs) =
     (if 192 \<le> byte_of c
      then (c # takeWhile is_cont cs) # utf8_chars (dropWhile is_cont cs)
      else [c] # utf8_chars cs)"
  by pat_completeness auto
termination
  by (relation "measure length") (auto simp: length_dropWhile_le le_imp_less_Suc)

text \<open>One group is a well-formed UTF-8 sequence (RFC 3629: no overlong form, no surrogate).\<close>

fun utf8_seq_ok :: "string \<Rightarrow> bool" where
  "utf8_seq_ok [a] = (byte_of a < 128)"
| "utf8_seq_ok [a, b] = (194 \<le> byte_of a \<and> byte_of a \<le> 223)"
| "utf8_seq_ok [a, b, c] =
     (224 \<le> byte_of a \<and> byte_of a \<le> 239 \<and> (byte_of a = 224 \<longrightarrow> 160 \<le> byte_of b)
      \<and> (byte_of a = 237 \<longrightarrow> byte_of b \<le> 159))"
| "utf8_seq_ok [a, b, c, d] =
     (240 \<le> byte_of a \<and> byte_of a \<le> 244 \<and> (byte_of a = 240 \<longrightarrow> 144 \<le> byte_of b)
      \<and> (byte_of a = 244 \<longrightarrow> byte_of b \<le> 143))"
| "utf8_seq_ok s = False"

text \<open>\<open>String::from_utf8\<close> accepts exactly these byte strings.\<close>

definition utf8_valid :: "bytes \<Rightarrow> bool" where
  "utf8_valid s \<longleftrightarrow> list_all utf8_seq_ok (utf8_chars s)"

definition from_utf8 :: "bytes \<Rightarrow> string option" where
  "from_utf8 b = (if utf8_valid b then Some b else None)"

text \<open>The scalar value (\<open>char as u32\<close>) of one group.\<close>

fun scalar :: "string \<Rightarrow> nat" where
  "scalar [a] = byte_of a"
| "scalar [a, b] = (byte_of a - 192) * 64 + (byte_of b - 128)"
| "scalar [a, b, c] =
     (byte_of a - 224) * 4096 + (byte_of b - 128) * 64 + (byte_of c - 128)"
| "scalar [a, b, c, d] =
     (byte_of a - 240) * 262144 + (byte_of b - 128) * 4096 + (byte_of c - 128) * 64
      + (byte_of d - 128)"
| "scalar s = 0"

definition utf16_units :: "nat \<Rightarrow> nat list" where
  "utf16_units v = (if v < 65536 then [v]
     else [55296 + (v - 65536) div 1024, 56320 + (v - 65536) mod 1024])"

text \<open>\<open>str::encode_utf16\<close>.\<close>

definition encode_utf16 :: "string \<Rightarrow> nat list" where
  "encode_utf16 s = concat (map (\<lambda>g. utf16_units (scalar g)) (utf8_chars s))"

text \<open>\<open>str::is_char_boundary\<close>, and the loop that walks an index back to a boundary.\<close>

definition is_char_boundary :: "string \<Rightarrow> nat \<Rightarrow> bool" where
  "is_char_boundary s i \<longleftrightarrow> i = 0 \<or> i = length s \<or> (i < length s \<and> \<not> is_cont (s ! i))"

primrec floor_boundary :: "string \<Rightarrow> nat \<Rightarrow> nat" where
  "floor_boundary s 0 = 0"
| "floor_boundary s (Suc i) =
     (if is_char_boundary s (Suc i) then Suc i else floor_boundary s i)"

lemma concat_utf8_chars [simp]: "concat (utf8_chars s) = s"
  by (induction s rule: utf8_chars.induct) auto

lemma utf8_chars_eq_Nil [simp]: "utf8_chars s = [] \<longleftrightarrow> s = []"
  by (cases s) auto

lemma utf8_chars_inject: "utf8_chars s = utf8_chars t \<Longrightarrow> s = t"
  by (metis concat_utf8_chars)

lemma floor_boundary_le: "floor_boundary s i \<le> i"
  by (induction i) auto

lemma floor_boundary_boundary: "is_char_boundary s (floor_boundary s i)"
  by (induction i) (auto simp: is_char_boundary_def)

section \<open>White space, ASCII case, decimal and hex\<close>

text \<open>\<open>char::is_whitespace\<close>: the Unicode property White\_Space.\<close>

definition is_whitespace :: "nat \<Rightarrow> bool" where
  "is_whitespace v \<longleftrightarrow> (9 \<le> v \<and> v \<le> 13) \<or> v = 32 \<or> v = 133 \<or> v = 160 \<or> v = 5760
     \<or> (8192 \<le> v \<and> v \<le> 8202) \<or> v = 8232 \<or> v = 8233 \<or> v = 8239 \<or> v = 8287 \<or> v = 12288"

text \<open>\<open>str::trim\<close> over the scalar groups.\<close>

definition trim_str :: "string \<Rightarrow> string" where
  "trim_str s =
     (let ws = (\<lambda>g. is_whitespace (scalar g))
      in concat (rev (dropWhile ws (rev (dropWhile ws (utf8_chars s))))))"

text \<open>\<open>to_ascii_lowercase\<close> and \<open>eq_ignore_ascii_case\<close>.\<close>

definition ascii_lower_byte :: "char \<Rightarrow> char" where
  "ascii_lower_byte c = (if 65 \<le> byte_of c \<and> byte_of c \<le> 90 then char_of (byte_of c + 32) else c)"

definition to_ascii_lowercase :: "string \<Rightarrow> string" where
  "to_ascii_lowercase s = map ascii_lower_byte s"

definition eq_ignore_ascii_case :: "string \<Rightarrow> string \<Rightarrow> bool" where
  "eq_ignore_ascii_case a b \<longleftrightarrow> to_ascii_lowercase a = to_ascii_lowercase b"

text \<open>\<open>str::contains\<close> with a string pattern.\<close>

fun str_contains :: "string \<Rightarrow> string \<Rightarrow> bool" where
  "str_contains [] p = (p = [])"
| "str_contains (c # cs) p = (take (length p) (c # cs) = p \<or> str_contains cs p)"

text \<open>\<open>to_string\<close> of an integer, and \<open>{:02x}\<close> of a byte.\<close>

definition digit :: "nat \<Rightarrow> char" where
  "digit d = char_of (48 + d)"

fun nat_str :: "nat \<Rightarrow> string" where
  "nat_str n = (if n < 10 then [digit n] else nat_str (n div 10) @ [digit (n mod 10)])"

declare nat_str.simps [simp del]

definition int_str :: "int \<Rightarrow> string" where
  "int_str i = (if i < 0 then CHR ''-'' # nat_str (nat (- i)) else nat_str (nat i))"

definition hex_digit :: "nat \<Rightarrow> char" where
  "hex_digit d = (if d < 10 then char_of (48 + d) else char_of (87 + d))"

definition hex_byte :: "char \<Rightarrow> string" where
  "hex_byte b = [hex_digit (byte_of b div 16), hex_digit (byte_of b mod 16)]"

definition hex_str :: "bytes \<Rightarrow> string" where
  "hex_str bs = concat (map hex_byte bs)"

text \<open>\<open>str::split\<close> and \<open>str::split_once\<close> at an ASCII character.\<close>

fun split_char :: "char \<Rightarrow> string \<Rightarrow> string list" where
  "split_char c [] = [[]]"
| "split_char c (x # xs) =
     (if x = c then [] # split_char c xs
      else case split_char c xs of [] \<Rightarrow> [[x]] | p # ps \<Rightarrow> (x # p) # ps)"

definition split_once :: "char \<Rightarrow> string \<Rightarrow> (string \<times> string) option" where
  "split_once c s =
     (if c \<in> set s then Some (takeWhile (\<lambda>x. x \<noteq> c) s, tl (dropWhile (\<lambda>x. x \<noteq> c) s)) else None)"

text \<open>\<open>str::splitn\<close>: at most \<open>n\<close> pieces, the last one unsplit.\<close>

fun splitn :: "nat \<Rightarrow> char \<Rightarrow> string \<Rightarrow> string list" where
  "splitn 0 c s = []"
| "splitn (Suc 0) c s = [s]"
| "splitn (Suc (Suc n)) c s = (case split_once c s of None \<Rightarrow> [s] | Some (a, b) \<Rightarrow> a # splitn (Suc n) c b)"

text \<open>\<open>str::lines\<close>: the final line terminator is optional, and one carriage return before it goes.\<close>

definition strip_cr :: "string \<Rightarrow> string" where
  "strip_cr s = (if s \<noteq> [] \<and> last s = CHR 0x0D then butlast s else s)"

definition str_lines :: "string \<Rightarrow> string list" where
  "str_lines s =
     (let ps = split_char CHR 0x0A s
      in map strip_cr (butlast ps) @ (if last ps = [] then [] else [last ps]))"

lemma split_once_append: "c \<notin> set a \<Longrightarrow> split_once c (a @ c # b) = Some (a, b)"
  by (induction a) (auto simp: split_once_def)

lemma splitn_append: "c \<notin> set a \<Longrightarrow> splitn (Suc (Suc n)) c (a @ c # b) = a # splitn (Suc n) c b"
  by (simp add: split_once_append)

section \<open>Lemmas on groups and validity\<close>

text \<open>A group in \<^const>\<open>utf8_chars\<close> is one non-lead byte, or a lead byte and continuation bytes.\<close>

fun group_shape :: "string \<Rightarrow> bool" where
  "group_shape [] = False"
| "group_shape (c # cs) = (if 192 \<le> byte_of c then list_all is_cont cs else cs = [])"

lemma utf8_chars_shape: "g \<in> set (utf8_chars s) \<Longrightarrow> group_shape g"
  by (induction s rule: utf8_chars.induct)
    (auto simp: list_all_iff dest: set_takeWhileD split: if_splits)

lemma utf8_chars_append:
  assumes "b = [] \<or> \<not> is_cont (hd b)"
  shows "utf8_chars (a @ b) = utf8_chars a @ utf8_chars b"
  using assms
proof (induction a rule: utf8_chars.induct)
  case (2 c cs)
  have tw: "takeWhile is_cont (cs @ b) = takeWhile is_cont cs"
    using 2(3) by (induction cs) (cases b; auto)+
  have dw: "dropWhile is_cont (cs @ b) = dropWhile is_cont cs @ b"
    using 2(3) by (induction cs) (cases b; auto)+
  show ?case using 2 by (simp add: tw dw)
qed simp

lemma utf8_valid_Nil [simp]: "utf8_valid []"
  by (simp add: utf8_valid_def)

lemma seq_ok_hd: "utf8_seq_ok g \<Longrightarrow> group_shape g \<Longrightarrow> \<not> is_cont (hd g)"
  by (cases g rule: utf8_seq_ok.cases) (auto simp: is_cont_def split: if_splits)

lemma utf8_valid_hd:
  assumes "utf8_valid s" and "s \<noteq> []"
  shows "\<not> is_cont (hd s)"
proof -
  from assms(2) obtain c cs where s: "s = c # cs" by (cases s) auto
  show ?thesis
  proof (cases "192 \<le> byte_of c")
    case False
    with assms(1) s show ?thesis
      by (simp add: utf8_valid_def is_cont_def)
  qed (simp add: s is_cont_def)
qed

lemma utf8_valid_append:
  "utf8_valid a \<Longrightarrow> utf8_valid b \<Longrightarrow> utf8_valid (a @ b)"
  using utf8_valid_hd [of b] utf8_chars_append [of b a]
  by (cases "b = []") (auto simp: utf8_valid_def)

lemma utf8_valid_concat: "list_all utf8_valid xs \<Longrightarrow> utf8_valid (concat xs)"
  by (induction xs) (auto intro: utf8_valid_append)

lemma utf8_valid_ascii: "list_all (\<lambda>c. byte_of c < 128) s \<Longrightarrow> utf8_valid s"
proof (induction s)
  case (Cons c s)
  then show ?case by (simp add: utf8_valid_def)
qed simp

text \<open>One group of a valid string is itself a valid string with that one group.\<close>

lemma utf8_chars_group:
  "group_shape g \<Longrightarrow> utf8_chars g = [g]"
  by (cases g) (auto simp: list_all_iff takeWhile_eq_all_conv dropWhile_eq_Nil_conv split: if_splits)

lemma utf8_valid_groups:
  "utf8_valid s \<Longrightarrow> set gs \<subseteq> set (utf8_chars s) \<Longrightarrow> utf8_valid (concat gs)"
  by (intro utf8_valid_concat)
    (auto simp: list_all_iff utf8_valid_def utf8_chars_group utf8_chars_shape)

section \<open>UTF-16 code units are injective on valid strings\<close>

lemma base_digits_unique:
  assumes "x * k + y = x' * k + (y' :: nat)" and "y < k" and "y' < k"
  shows "x = x' \<and> y = y'"
proof -
  have "(x * k + y) div k = x" "(x' * k + y') div k = x'"
    using assms(2,3) by auto
  with assms(1) show ?thesis by auto
qed

lemma is_contE:
  assumes "is_cont b"
  obtains y where "byte_of b = 128 + y" and "y < 64"
  using assms that [of "byte_of b - 128"] by (auto simp: is_cont_def)

lemma byte_rangeE:
  assumes "k \<le> byte_of a" and "byte_of a \<le> m"
  obtains x where "byte_of a = k + x" and "x \<le> m - k"
  using assms that [of "byte_of a - k"] by auto

text \<open>The forms of a valid group: its bytes as digits, its scalar value, and their ranges.\<close>

lemma seq_ok_cases:
  assumes "utf8_seq_ok g" and "group_shape g"
  obtains
    (one) a where "g = [a]" "byte_of a < 128" "scalar g = byte_of a"
  | (two) a b x y where "g = [a, b]" "byte_of a = 192 + x" "byte_of b = 128 + y"
      "2 \<le> x" "x < 32" "y < 64" "scalar g = x * 64 + y"
  | (three) a b c x y z where "g = [a, b, c]"
      "byte_of a = 224 + x" "byte_of b = 128 + y" "byte_of c = 128 + z"
      "x < 16" "y < 64" "z < 64" "x = 0 \<Longrightarrow> 32 \<le> y" "x = 13 \<Longrightarrow> y < 32"
      "scalar g = (x * 64 + y) * 64 + z"
  | (four) a b c d x y z w where "g = [a, b, c, d]"
      "byte_of a = 240 + x" "byte_of b = 128 + y" "byte_of c = 128 + z" "byte_of d = 128 + w"
      "x < 5" "y < 64" "z < 64" "w < 64" "x = 0 \<Longrightarrow> 16 \<le> y" "x = 4 \<Longrightarrow> y < 16"
      "scalar g = ((x * 64 + y) * 64 + z) * 64 + w"
  using assms(1)
proof (cases g rule: utf8_seq_ok.cases)
  case (1 a)
  with assms that(1) show ?thesis by simp
next
  case (2 a b)
  with assms have r: "192 \<le> byte_of a" "byte_of a \<le> 223" "194 \<le> byte_of a" and "is_cont b" by auto
  obtain x where x: "byte_of a = 192 + x" "x \<le> 223 - 192" using r(1,2) by (rule byte_rangeE)
  obtain y where y: "byte_of b = 128 + y" "y < 64" using \<open>is_cont b\<close> by (rule is_contE)
  show ?thesis by (rule that(2) [of a b x y]) (use 2 x y r(3) in simp_all)
next
  case (3 a b c)
  with assms have r: "224 \<le> byte_of a" "byte_of a \<le> 239" and "is_cont b" "is_cont c"
    and i: "byte_of a = 224 \<longrightarrow> 160 \<le> byte_of b" "byte_of a = 237 \<longrightarrow> byte_of b \<le> 159" by auto
  obtain x where x: "byte_of a = 224 + x" "x \<le> 239 - 224" using r(1,2) by (rule byte_rangeE)
  obtain y where y: "byte_of b = 128 + y" "y < 64" using \<open>is_cont b\<close> by (rule is_contE)
  obtain z where z: "byte_of c = 128 + z" "z < 64" using \<open>is_cont c\<close> by (rule is_contE)
  show ?thesis by (rule that(3) [of a b c x y z]) (use 3 x y z i in simp_all)
next
  case (4 a b c d)
  with assms have r: "240 \<le> byte_of a" "byte_of a \<le> 244" and "is_cont b" "is_cont c" "is_cont d"
    and i: "byte_of a = 240 \<longrightarrow> 144 \<le> byte_of b" "byte_of a = 244 \<longrightarrow> byte_of b \<le> 143" by auto
  obtain x where x: "byte_of a = 240 + x" "x \<le> 244 - 240" using r(1,2) by (rule byte_rangeE)
  obtain y where y: "byte_of b = 128 + y" "y < 64" using \<open>is_cont b\<close> by (rule is_contE)
  obtain z where z: "byte_of c = 128 + z" "z < 64" using \<open>is_cont c\<close> by (rule is_contE)
  obtain w where w: "byte_of d = 128 + w" "w < 64" using \<open>is_cont d\<close> by (rule is_contE)
  show ?thesis by (rule that(4) [of a b c d x y z w]) (use 4 x y z w i in simp_all)
qed simp_all

lemma byte_eqI: "byte_of a = n \<Longrightarrow> byte_of b = n \<Longrightarrow> a = b"
  by (metis of_char_eq_iff)

lemma seq_ok_scalar_inject:
  assumes g: "utf8_seq_ok g" "group_shape g" and h: "utf8_seq_ok h" "group_shape h"
    and eq: "scalar g = scalar h" and len: "length g = length h"
  shows "g = h"
proof -
  note digits = base_digits_unique [where k = 64]
  from g show ?thesis
  proof (cases rule: seq_ok_cases)
    case (one a)
    with h len eq show ?thesis by (cases rule: seq_ok_cases [of h]) simp_all
  next
    case g2: (two a b x y)
    from h show ?thesis
    proof (cases rule: seq_ok_cases)
      case h2: (two a' b' x' y')
      have "x = x' \<and> y = y'"
        using eq g2 h2 by (intro digits) simp_all
      with g2 h2 show ?thesis by (auto intro: byte_eqI)
    qed (use g2 len in simp_all)
  next
    case g3: (three a b c x y z)
    from h show ?thesis
    proof (cases rule: seq_ok_cases)
      case h3: (three a' b' c' x' y' z')
      have 1: "x * 64 + y = x' * 64 + y' \<and> z = z'"
        using eq g3(10,7) h3(10,7) by (intro digits) simp_all
      have "x = x' \<and> y = y'" using 1 g3(6) h3(6) by (intro digits) simp_all
      with 1 g3 h3 show ?thesis by (auto intro: byte_eqI)
    qed (use g3 len in simp_all)
  next
    case g4: (four a b c d x y z w)
    from h show ?thesis
    proof (cases rule: seq_ok_cases)
      case h4: (four a' b' c' d' x' y' z' w')
      have 1: "(x * 64 + y) * 64 + z = (x' * 64 + y') * 64 + z' \<and> w = w'"
        using eq g4(12,9) h4(12,9) by (intro digits) simp_all
      have 2: "x * 64 + y = x' * 64 + y' \<and> z = z'"
        using 1 g4(8) h4(8) by (intro digits) simp_all
      have "x = x' \<and> y = y'" using 2 g4(7) h4(7) by (intro digits) simp_all
      with 1 2 g4 h4 show ?thesis by (auto intro: byte_eqI)
    qed (use g4 len in simp_all)
  qed
qed

text \<open>The scalar value determines the number of bytes, and is never a surrogate.\<close>

lemma seq_ok_length:
  assumes "utf8_seq_ok g" and "group_shape g"
  shows "length g = (if scalar g < 128 then 1 else if scalar g < 2048 then 2
     else if scalar g < 65536 then 3 else 4)"
  using assms
proof (cases rule: seq_ok_cases)
  case (three a b c x y z)
  have "2048 \<le> (x * 64 + y) * 64 + z" using three(8) by (cases "x = 0") auto
  moreover have "(x * 64 + y) * 64 + z < 65536" using three(5,6,7) by simp
  ultimately show ?thesis using three by simp
next
  case (four a b c d x y z w)
  have "65536 \<le> ((x * 64 + y) * 64 + z) * 64 + w" using four(10) by (cases "x = 0") auto
  then show ?thesis using four by simp
qed simp_all

lemma seq_ok_not_surrogate:
  assumes "utf8_seq_ok g" and "group_shape g"
  shows "\<not> (55296 \<le> scalar g \<and> scalar g < 57344)"
  using assms
proof (cases rule: seq_ok_cases)
  case (three a b c x y z)
  consider "x \<le> 12" | "x = 13" | "14 \<le> x" by linarith
  then show ?thesis
    by cases (use three(6,7,9,10) in simp_all)
next
  case (four a b c d x y z w)
  have "65536 \<le> ((x * 64 + y) * 64 + z) * 64 + w" using four(10) by (cases "x = 0") auto
  then show ?thesis using four by simp
qed simp_all

lemma seq_ok_bound:
  assumes "utf8_seq_ok g" and "group_shape g"
  shows "scalar g < 1114112"
  using assms
proof (cases rule: seq_ok_cases)
  case (four a b c d x y z w)
  have "((x * 64 + y) * 64 + z) * 64 + w < 1114112"
    using four(6-9,11) by (cases "x = 4") auto
  then show ?thesis using four by simp
qed simp_all

lemma utf16_units_inject:
  assumes "utf16_units v @ xs = utf16_units w @ ys"
    and "\<not> (55296 \<le> v \<and> v < 57344)" "\<not> (55296 \<le> w \<and> w < 57344)"
    and "v < 1114112" "w < 1114112"
  shows "v = w \<and> xs = ys"
proof (cases "v < 65536"; cases "w < 65536")
  assume "\<not> v < 65536" "\<not> w < 65536"
  with assms(1) have "(v - 65536) div 1024 = (w - 65536) div 1024"
    "(v - 65536) mod 1024 = (w - 65536) mod 1024" "xs = ys"
    by (auto simp: utf16_units_def)
  then have "v - 65536 = w - 65536" by (metis div_mult_mod_eq)
  with \<open>\<not> v < 65536\<close> \<open>\<not> w < 65536\<close> \<open>xs = ys\<close> show ?thesis by simp
qed (use assms in \<open>auto simp: utf16_units_def\<close>)

lemma encode_utf16_groups_inject:
  assumes "list_all utf8_seq_ok gs" "list_all group_shape gs"
    and "list_all utf8_seq_ok hs" "list_all group_shape hs"
    and "concat (map (\<lambda>g. utf16_units (scalar g)) gs) = concat (map (\<lambda>g. utf16_units (scalar g)) hs)"
  shows "gs = hs"
  using assms
proof (induction gs arbitrary: hs)
  case Nil
  then show ?case by (cases hs) (auto simp: utf16_units_def split: if_splits)
next
  case (Cons g gs)
  have "hs \<noteq> []" using Cons.prems(5) by (auto simp: utf16_units_def split: if_splits)
  then obtain h hs' where hs: "hs = h # hs'" by (cases hs) auto
  have ok: "utf8_seq_ok g" "group_shape g" "utf8_seq_ok h" "group_shape h"
    using Cons.prems hs by auto
  have eq: "scalar g = scalar h \<and> concat (map (\<lambda>g. utf16_units (scalar g)) gs)
      = concat (map (\<lambda>g. utf16_units (scalar g)) hs')"
    using Cons.prems(5) hs ok
    by (intro utf16_units_inject) (auto simp del: not_less
        dest: seq_ok_not_surrogate seq_ok_bound)
  have "g = h"
    using eq ok seq_ok_length [of g] seq_ok_length [of h] by (intro seq_ok_scalar_inject) auto
  moreover have "gs = hs'"
    using Cons.prems hs eq by (intro Cons.IH) auto
  ultimately show ?case using hs by simp
qed

lemma encode_utf16_inject:
  assumes "utf8_valid s" and "utf8_valid t" and "encode_utf16 s = encode_utf16 t"
  shows "s = t"
proof -
  have "utf8_chars s = utf8_chars t"
    using assms
    by (intro encode_utf16_groups_inject)
      (auto simp: utf8_valid_def encode_utf16_def list_all_iff intro: utf8_chars_shape)
  then show ?thesis by (rule utf8_chars_inject)
qed

section \<open>Truncation at a character boundary\<close>

lemma utf8_valid_take:
  assumes "utf8_valid s" and "is_char_boundary s i"
  shows "utf8_valid (take i s)"
proof (cases "i = 0")
  case False
  then have "drop i s = [] \<or> \<not> is_cont (hd (drop i s))"
    using assms(2) by (auto simp: is_char_boundary_def hd_drop_conv_nth)
  then have "utf8_chars (take i s @ drop i s) = utf8_chars (take i s) @ utf8_chars (drop i s)"
    by (rule utf8_chars_append)
  with assms(1) have "list_all utf8_seq_ok (utf8_chars (take i s) @ utf8_chars (drop i s))"
    by (simp add: utf8_valid_def)
  then show ?thesis unfolding utf8_valid_def list_all_append ..
qed simp

lemma seq_ok_length_le: "utf8_seq_ok g \<Longrightarrow> length g \<le> 4"
  by (cases g rule: utf8_seq_ok.cases) auto

lemma takeWhile_cont_group:
  assumes "group_shape g" and "utf8_seq_ok g" and "k < length g"
    and "r = [] \<or> \<not> is_cont (hd r)"
  shows "length (takeWhile is_cont (drop k g @ r)) \<le> 3"
proof -
  obtain c cs where g: "g = c # cs" using assms(1) by (cases g) auto
  have tr: "takeWhile is_cont r = []" using assms(4) by (cases r) auto
  show ?thesis
  proof (cases k)
    case 0
    have "\<not> is_cont c" using seq_ok_hd [OF assms(2,1)] g by simp
    with 0 g show ?thesis by simp
  next
    case (Suc k')
    have "\<forall>x \<in> set (drop k' cs). is_cont x"
      using assms(1) g by (auto simp: list_all_iff dest: in_set_dropD split: if_splits)
    then have "takeWhile is_cont (drop k' cs @ r) = drop k' cs"
      using tr by simp
    then show ?thesis using Suc g seq_ok_length_le [OF assms(2)] by simp
  qed
qed

lemma cont_run_le_3:
  assumes "list_all utf8_seq_ok gs" and "list_all group_shape gs"
  shows "length (takeWhile is_cont (drop k (concat gs))) \<le> 3"
  using assms
proof (induction gs arbitrary: k)
  case outer: (Cons g gs)
  show ?case
  proof (cases "k < length g")
    case True
    have "concat gs = [] \<or> \<not> is_cont (hd (concat gs))"
    proof (cases gs)
      case (Cons h hs)
      with outer.prems have h: "utf8_seq_ok h" "group_shape h" by simp_all
      then obtain c cs where "h = c # cs" by (cases h) simp_all
      with Cons seq_ok_hd [OF h] show ?thesis by simp
    qed simp
    with outer.prems True have "length (takeWhile is_cont (drop k g @ concat gs)) \<le> 3"
      by (intro takeWhile_cont_group) simp_all
    with True show ?thesis by simp
  next
    case False
    with outer show ?thesis by simp
  qed
qed simp

lemma utf8_chars_shapes: "list_all group_shape (utf8_chars s)"
  using utf8_chars_shape by (auto simp: list_all_iff)

lemma utf8_valid_cont_run:
  assumes "utf8_valid s"
  shows "length (takeWhile is_cont (drop k s)) \<le> 3"
  using cont_run_le_3 [OF assms [unfolded utf8_valid_def] utf8_chars_shapes, of k] by simp

lemma floor_boundary_run:
  "i < length s \<Longrightarrow> \<forall>j. floor_boundary s i < j \<and> j \<le> i \<longrightarrow> is_cont (s ! j)"
proof (induction i)
  case (Suc i)
  then show ?case by (auto simp: is_char_boundary_def le_Suc_eq)
qed simp

lemma le_length_takeWhile:
  "list_all P (take n xs) \<Longrightarrow> n \<le> length xs \<Longrightarrow> n \<le> length (takeWhile P xs)"
proof (induction n arbitrary: xs)
  case (Suc n)
  then show ?case by (cases xs) auto
qed simp

lemma floor_boundary_length: "floor_boundary s (length s) = length s"
  by (cases s) (auto simp: is_char_boundary_def)

text \<open>In a valid string the walk back to a boundary moves at most three bytes.\<close>

lemma floor_boundary_ge:
  assumes "utf8_valid s" and "i \<le> length s"
  shows "i \<le> floor_boundary s i + 3"
proof (cases "i = length s")
  case True
  then show ?thesis by (simp add: floor_boundary_length)
next
  case False
  with assms(2) have i: "i < length s" by simp
  let ?f = "floor_boundary s i"
  have "list_all is_cont (take (i - ?f) (drop (Suc ?f) s))"
    using floor_boundary_run [OF i] i by (auto simp: list_all_length)
  then have "i - ?f \<le> length (takeWhile is_cont (drop (Suc ?f) s))"
    using i by (intro le_length_takeWhile) auto
  also have "\<dots> \<le> 3" by (rule utf8_valid_cont_run [OF assms(1)])
  finally show ?thesis by simp
qed

section \<open>Decimal and hex formats are injective\<close>

definition is_digit :: "char \<Rightarrow> bool" where
  "is_digit c \<longleftrightarrow> 48 \<le> byte_of c \<and> byte_of c < 58"

lemma byte_of_digit: "d < 10 \<Longrightarrow> byte_of (digit d) = 48 + d"
  by (simp add: digit_def of_char_of)

lemma nat_str_digits: "list_all is_digit (nat_str n)"
proof (induction n rule: nat_str.induct)
  case (1 n)
  then show ?case
    by (subst nat_str.simps) (simp add: is_digit_def [of "digit _"] byte_of_digit)
qed

lemma nat_str_not_Nil [simp]: "nat_str n \<noteq> []"
  by (subst nat_str.simps) simp

definition read_nat :: "string \<Rightarrow> nat" where
  "read_nat s = foldl (\<lambda>n c. n * 10 + (byte_of c - 48)) 0 s"

lemma read_nat_str: "read_nat (nat_str n) = n"
proof (induction n rule: nat_str.induct)
  case (1 n)
  show ?case
  proof (cases "n < 10")
    case True
    then show ?thesis
      by (subst nat_str.simps) (simp add: read_nat_def byte_of_digit)
  next
    case False
    with 1 have "read_nat (nat_str (n div 10)) = n div 10" by simp
    with False show ?thesis
      by (subst nat_str.simps) (simp add: read_nat_def byte_of_digit)
  qed
qed

lemma nat_str_inject: "nat_str m = nat_str n \<Longrightarrow> m = n"
  by (metis read_nat_str)

lemma nat_str_hd_not_minus: "hd (nat_str n) \<noteq> CHR ''-''"
  using nat_str_digits [of n] by (cases "nat_str n") (auto simp: is_digit_def)

lemma int_str_inject: "int_str i = int_str j \<Longrightarrow> i = j"
proof -
  assume eq: "int_str i = int_str j"
  have sign: "i < 0 \<longleftrightarrow> j < 0"
    using eq nat_str_hd_not_minus [of "nat i"] nat_str_hd_not_minus [of "nat j"]
    by (auto simp: int_str_def split: if_splits) (metis list.sel(1))+
  then have "nat (- i) = nat (- j) \<or> nat i = nat j" "i < 0 \<longrightarrow> nat (- i) = nat (- j)"
    "\<not> i < 0 \<longrightarrow> nat i = nat j"
    using eq by (auto simp: int_str_def dest: nat_str_inject)
  with sign show ?thesis by linarith
qed

lemma byte_of_hex_digit: "d < 16 \<Longrightarrow> byte_of (hex_digit d) = (if d < 10 then 48 + d else 87 + d)"
  by (simp add: hex_digit_def)

lemma hex_digit_inject:
  assumes "c < 16" and "d < 16"
  shows "hex_digit c = hex_digit d \<longleftrightarrow> c = d"
proof
  assume "hex_digit c = hex_digit d"
  then have "byte_of (hex_digit c) = byte_of (hex_digit d)" by simp
  with assms show "c = d"
    by (simp only: byte_of_hex_digit split: if_splits)
qed simp

lemma hex_byte_inject: "hex_byte a = hex_byte b \<longleftrightarrow> a = b"
proof
  assume "hex_byte a = hex_byte b"
  moreover have "byte_of a div 16 < 16" "byte_of b div 16 < 16"
    by (simp_all add: div_less_iff_less_mult)
  ultimately have "byte_of a div 16 = byte_of b div 16" "byte_of a mod 16 = byte_of b mod 16"
    by (simp_all add: hex_byte_def hex_digit_inject)
  then have "byte_of a = byte_of b" by (metis div_mult_mod_eq)
  then show "a = b" by simp
qed simp

lemma length_hex_str [simp]: "length (hex_str b) = 2 * length b"
  by (induction b) (auto simp: hex_str_def hex_byte_def)

lemma hex_str_inject: "hex_str a = hex_str b \<Longrightarrow> a = b"
proof (induction a arbitrary: b)
  case Nil
  then show ?case by (cases b) (auto simp: hex_str_def hex_byte_def)
next
  case (Cons x a)
  then obtain y b' where b: "b = y # b'"
    by (cases b) (auto simp: hex_str_def hex_byte_def)
  with Cons.prems have "hex_byte x = hex_byte y" "hex_str a = hex_str b'"
    by (auto simp: hex_str_def hex_byte_def)
  with Cons.IH b show ?case by (simp add: hex_byte_inject)
qed

lemma hex_digit_ascii: "d < 16 \<Longrightarrow> byte_of (hex_digit d) < 128"
  by (simp add: byte_of_hex_digit)

lemma hex_str_valid [simp]: "utf8_valid (hex_str b)"
proof -
  have "utf8_valid (hex_byte c)" for c
    by (rule utf8_valid_ascii) (simp add: hex_byte_def hex_digit_ascii div_less_iff_less_mult)
  then show ?thesis unfolding hex_str_def by (intro utf8_valid_concat) (simp add: list_all_iff)
qed

end
