(* ===== verification/Json.thy ===== *)
theory Json
  imports Utf8 "HOL-Library.Multiset"
begin

text \<open>
  \<open>serde_json::Value\<close> and the RFC 8785 canonical serializer of
  \<open>crates/sda-device-control/src/canonicalize.rs\<close>, the pre-image of every job signature and of the
  evidence chain. Objects are association lists with distinct keys in the map's iteration order.
  The lemmas show that canonicalisation fails exactly on floats, ignores the order of object
  members, loses nothing else (two values with the same canonical bytes are equal up to member
  order), and always produces valid UTF-8.
\<close>

section \<open>Values\<close>

text \<open>A \<open>Number\<close>: a \<open>u64\<close>, a negative \<open>i64\<close>, or an \<open>f64\<close> given by its bit pattern.\<close>

datatype json_number = PosInt nat | NegInt int | Float nat

datatype json =
    JNull
  | JBool bool
  | JNumber json_number
  | JString string
  | JArray "json list"
  | JObject "(string \<times> json) list"

definition as_i64 :: "json_number \<Rightarrow> int option" where
  "as_i64 n = (case n of PosInt u \<Rightarrow> if u < 2 ^ 63 then Some (int u) else None
                       | NegInt i \<Rightarrow> Some i | Float f \<Rightarrow> None)"

definition as_u64 :: "json_number \<Rightarrow> nat option" where
  "as_u64 n = (case n of PosInt u \<Rightarrow> Some u | NegInt i \<Rightarrow> None | Float f \<Rightarrow> None)"

text \<open>\<open>f64::is_finite\<close>: the eleven exponent bits are not all ones.\<close>

definition f64_is_finite :: "nat \<Rightarrow> bool" where
  "f64_is_finite f \<longleftrightarrow> (f div 2 ^ 52) mod 2048 \<noteq> 2047"

text \<open>\<open>Option::or_else\<close>.\<close>

definition or_else :: "'a option \<Rightarrow> 'a option \<Rightarrow> 'a option" where
  "or_else a b = (case a of Some x \<Rightarrow> Some x | None \<Rightarrow> b)"

text \<open>\<open>Value::get\<close> with a string key, \<open>as_str\<close> and \<open>as_u64\<close>.\<close>

definition value_get :: "string \<Rightarrow> json \<Rightarrow> json option" where
  "value_get k v = (case v of JObject m \<Rightarrow> map_of m k | _ \<Rightarrow> None)"

definition value_str :: "json \<Rightarrow> string option" where
  "value_str v = (case v of JString s \<Rightarrow> Some s | _ \<Rightarrow> None)"

definition value_u64 :: "json \<Rightarrow> nat option" where
  "value_u64 v = (case v of JNumber n \<Rightarrow> as_u64 n | _ \<Rightarrow> None)"

section \<open>The canonical serializer\<close>

datatype canonicalize_error = FloatNotAllowed nat | NonFinite json_number

text \<open>
  The third test of the source, \<open>as_f64\<close>, is reached by floats only: \<open>as_i64\<close> or \<open>as_u64\<close>
  answers for every integer.
\<close>

definition write_number :: "json_number \<Rightarrow> (bytes, canonicalize_error) result" where
  "write_number n =
     (case as_i64 n of
        Some i \<Rightarrow> Ok (int_str i)
      | None \<Rightarrow>
          (case as_u64 n of
             Some u \<Rightarrow> Ok (nat_str u)
           | None \<Rightarrow>
               (case n of
                  Float f \<Rightarrow> if \<not> f64_is_finite f then Err (NonFinite n)
                             else Err (FloatNotAllowed f)
                | _ \<Rightarrow> Err (NonFinite n))))"

definition hex4 :: "nat \<Rightarrow> string" where
  "hex4 v = map hex_digit [v div 4096 mod 16, v div 256 mod 16, v div 16 mod 16, v mod 16]"

text \<open>The escape of one character: the group of its UTF-8 bytes.\<close>

definition escape_char :: "string \<Rightarrow> bytes" where
  "escape_char g =
     (let v = scalar g in
      if v = 34 then [CHR 0x5C, CHR 0x22]
      else if v = 92 then [CHR 0x5C, CHR 0x5C]
      else if v = 10 then [CHR 0x5C, CHR ''n'']
      else if v = 13 then [CHR 0x5C, CHR ''r'']
      else if v = 9 then [CHR 0x5C, CHR ''t'']
      else if v = 8 then [CHR 0x5C, CHR ''b'']
      else if v = 12 then [CHR 0x5C, CHR ''f'']
      else if v < 32 then [CHR 0x5C, CHR ''u''] @ hex4 v
      else g)"

definition write_string :: "string \<Rightarrow> bytes" where
  "write_string s = CHR 0x22 # concat (map escape_char (utf8_chars s)) @ [CHR 0x22]"

text \<open>\<open>utf16_compare\<close> orders keys by their UTF-16 code units; \<open>sort_by\<close> is a stable sort by it.\<close>

definition sort_members :: "(string \<times> 'v) list \<Rightarrow> (string \<times> 'v) list" where
  "sort_members m = sort_key (\<lambda>kv. encode_utf16 (fst kv)) m"

lemma size_list_sort_members [simp]: "size_list f (sort_members m) = size_list f m"
proof -
  have "mset (sort_members m) = mset m" by (simp add: sort_members_def)
  then have "sum_list (map f (sort_members m)) = sum_list (map f m)"
    by (metis mset_map sum_mset_sum_list)
  moreover have "length (sort_members m) = length m" by (simp add: sort_members_def)
  ultimately show ?thesis by (simp add: size_list_conv_sum_list)
qed

lemma size_prod_snd: "size_prod (\<lambda>_. 0) f = (\<lambda>kv. Suc (f (snd kv)))"
  by (rule ext) (simp add: size_prod_simp)

function (sequential)
      write_value :: "json \<Rightarrow> (bytes, canonicalize_error) result"
  and write_items :: "bool \<Rightarrow> json list \<Rightarrow> (bytes, canonicalize_error) result"
  and write_members :: "bool \<Rightarrow> (string \<times> json) list \<Rightarrow> (bytes, canonicalize_error) result"
where
  "write_value JNull = Ok ''null''"
| "write_value (JBool True) = Ok ''true''"
| "write_value (JBool False) = Ok ''false''"
| "write_value (JNumber n) = write_number n"
| "write_value (JString s) = Ok (write_string s)"
| "write_value (JArray arr) = map_ok (\<lambda>b. ''['' @ b @ '']'') (write_items True arr)"
| "write_value (JObject m) = map_ok (\<lambda>b. ''{'' @ b @ ''}'') (write_members True (sort_members m))"
| "write_items first [] = Ok []"
| "write_items first (v # vs) =
     bind_result (write_value v) (\<lambda>b.
     bind_result (write_items False vs) (\<lambda>rest.
     Ok ((if first then [] else '','') @ b @ rest)))"
| "write_members first [] = Ok []"
| "write_members first (kv # kvs) =
     bind_result (write_value (snd kv)) (\<lambda>b.
     bind_result (write_members False kvs) (\<lambda>rest.
     Ok ((if first then [] else '','') @ write_string (fst kv) @ '':'' @ b @ rest)))"
  by pat_completeness auto
termination
proof (relation "measure (\<lambda>a. case a of Inl v \<Rightarrow> size v
    | Inr (Inl (_, vs)) \<Rightarrow> size_list size vs
    | Inr (Inr (_, kvs)) \<Rightarrow> size_list (\<lambda>kv. Suc (size (snd kv))) kvs)", goal_cases)
qed (auto simp: size_prod_snd)

definition canonicalize :: "json \<Rightarrow> (bytes, canonicalize_error) result" where
  "canonicalize v = write_value v"

section \<open>Well-formed values and normal forms\<close>

text \<open>What every \<open>Value\<close> satisfies: number ranges, valid UTF-8, distinct member names.\<close>

definition number_wf :: "json_number \<Rightarrow> bool" where
  "number_wf n = (case n of PosInt u \<Rightarrow> u < 2 ^ 64 | NegInt i \<Rightarrow> - (2 ^ 63) \<le> i \<and> i < 0
                          | Float f \<Rightarrow> f < 2 ^ 64)"

fun json_wf :: "json \<Rightarrow> bool" where
  "json_wf JNull = True"
| "json_wf (JBool b) = True"
| "json_wf (JNumber n) = number_wf n"
| "json_wf (JString s) = utf8_valid s"
| "json_wf (JArray vs) = (\<forall>v \<in> set vs. json_wf v)"
| "json_wf (JObject m) = (distinct (map fst m) \<and> (\<forall>kv \<in> set m. utf8_valid (fst kv)) \<and>
     (\<forall>kv \<in> set m. json_wf (snd kv)))"

fun has_float :: "json \<Rightarrow> bool" where
  "has_float (JNumber (Float f)) = True"
| "has_float (JArray vs) = (\<exists>v \<in> set vs. has_float v)"
| "has_float (JObject m) = (\<exists>kv \<in> set m. has_float (snd kv))"
| "has_float v = False"

text \<open>The value with the members of every object in canonical order.\<close>

fun json_norm :: "json \<Rightarrow> json" where
  "json_norm (JArray vs) = JArray (map json_norm vs)"
| "json_norm (JObject m) = JObject (sort_members (map (\<lambda>kv. (fst kv, json_norm (snd kv))) m))"
| "json_norm v = v"

text \<open>The bytes of a value whose members are in order already.\<close>

definition emit_number :: "json_number \<Rightarrow> bytes" where
  "emit_number n = (case n of PosInt u \<Rightarrow> nat_str u | NegInt i \<Rightarrow> int_str i | Float f \<Rightarrow> [])"

definition emit_list :: "bytes list \<Rightarrow> bytes" where
  "emit_list bs = (case bs of [] \<Rightarrow> [] | b # bs' \<Rightarrow> b @ concat (map (\<lambda>c. '','' @ c) bs'))"

fun emit :: "json \<Rightarrow> bytes" where
  "emit JNull = ''null''"
| "emit (JBool b) = (if b then ''true'' else ''false'')"
| "emit (JNumber n) = emit_number n"
| "emit (JString s) = write_string s"
| "emit (JArray vs) = ''['' @ emit_list (map emit vs) @ '']''"
| "emit (JObject m) = ''{'' @ emit_list (map (\<lambda>kv. write_string (fst kv) @ '':'' @ emit (snd kv)) m) @ ''}''"

lemma set_sort_members [simp]: "set (sort_members m) = set m"
  by (simp add: sort_members_def)

lemma mset_sort_members [simp]: "mset (sort_members m) = mset m"
  by (simp add: sort_members_def)

lemma sort_members_map_snd:
  "sort_members (map (\<lambda>kv. (fst kv, f (snd kv))) m) = map (\<lambda>kv. (fst kv, f (snd kv))) (sort_members m)"
proof (induction m)
  case Nil
  then show ?case by (simp add: sort_members_def)
next
  case (Cons a m)
  have "insort_key (\<lambda>kv. encode_utf16 (fst kv)) (fst a, f (snd a)) (map (\<lambda>kv. (fst kv, f (snd kv))) xs)
    = map (\<lambda>kv. (fst kv, f (snd kv))) (insort_key (\<lambda>kv. encode_utf16 (fst kv)) a xs)" for xs
    by (induction xs) auto
  then show ?case using Cons.IH by (simp add: sort_members_def)
qed

lemma int_str_nonneg: "int_str (int n) = nat_str n"
  by (simp add: int_str_def)

lemma write_number_emit:
  "number_wf n \<Longrightarrow> write_number n = (case n of
     Float f \<Rightarrow> Err (if f64_is_finite f then FloatNotAllowed f else NonFinite n)
   | _ \<Rightarrow> Ok (emit_number n))"
  by (auto simp: write_number_def emit_number_def as_i64_def as_u64_def int_str_nonneg
      split: json_number.splits)

lemma write_number_ok: "number_wf n \<Longrightarrow> \<not> has_float (JNumber n) \<Longrightarrow> write_number n = Ok (emit_number n)"
  by (cases n) (auto simp: write_number_emit)

lemma write_items_emit:
  assumes "\<And>v. v \<in> set vs \<Longrightarrow> write_value v = Ok (emit (json_norm v))"
  shows "write_items b vs = Ok (if b then emit_list (map (emit o json_norm) vs)
    else concat (map (\<lambda>v. '','' @ emit (json_norm v)) vs))"
  using assms
proof (induction vs arbitrary: b)
  case Nil
  then show ?case by (simp add: emit_list_def)
next
  case (Cons a vs)
  then show ?case by (simp add: emit_list_def bind_result_def comp_def)
qed

lemma write_members_emit:
  assumes "\<And>kv. kv \<in> set m \<Longrightarrow> write_value (snd kv) = Ok (emit (json_norm (snd kv)))"
  shows "write_members b m = Ok (let bs = map (\<lambda>kv. write_string (fst kv) @ '':'' @ emit (json_norm (snd kv))) m
    in if b then emit_list bs else concat (map (\<lambda>c. '','' @ c) bs))"
  using assms
proof (induction m arbitrary: b)
  case Nil
  then show ?case by (simp add: emit_list_def)
next
  case (Cons a vs)
  then show ?case by (simp add: emit_list_def bind_result_def comp_def Let_def)
qed

lemma write_value_emit:
  "json_wf v \<Longrightarrow> \<not> has_float v \<Longrightarrow> write_value v = Ok (emit (json_norm v))"
proof (induction v rule: json_norm.induct)
  case (1 vs)
  then have "write_items True vs = Ok (emit_list (map (emit o json_norm) vs))"
    by (subst write_items_emit) auto
  then show ?case by (simp add: map_ok_def)
next
  case (2 m)
  then have "write_members True (sort_members m)
     = Ok (emit_list (map (\<lambda>kv. write_string (fst kv) @ '':'' @ emit (json_norm (snd kv))) (sort_members m)))"
    by (subst write_members_emit) auto
  then show ?case by (simp add: map_ok_def sort_members_map_snd comp_def)
qed (auto simp: write_number_ok)

lemma is_ok_bind_result: "is_ok (bind_result r f) \<longleftrightarrow> is_ok r \<and> (\<forall>a. r = Ok a \<longrightarrow> is_ok (f a))"
  by (cases r) (auto simp: bind_result_def is_ok_iff)

lemma is_ok_map_ok [simp]: "is_ok (map_ok f r) = is_ok r"
  by (cases r) (auto simp: map_ok_def is_ok_iff)

lemma is_ok_Ok [simp]: "is_ok (Ok a)"
  by (simp add: is_ok_iff)

lemma is_ok_Err [simp]: "\<not> is_ok (Err e)"
  by (simp add: is_ok_iff)

lemma is_ok_write_items: "is_ok (write_items b vs) \<longleftrightarrow> (\<forall>v \<in> set vs. is_ok (write_value v))"
proof (induction vs arbitrary: b)
  case (Cons a vs)
  then show ?case by (cases "write_value a") (simp_all add: is_ok_bind_result)
qed simp

lemma is_ok_write_members:
  "is_ok (write_members b m) \<longleftrightarrow> (\<forall>kv \<in> set m. is_ok (write_value (snd kv)))"
proof (induction m arbitrary: b)
  case (Cons a m)
  then show ?case by (cases "write_value (snd a)") (simp_all add: is_ok_bind_result)
qed simp

lemma is_ok_write_bool: "is_ok (write_value (JBool b))"
  by (cases b) simp_all

lemma write_value_is_ok: "is_ok (write_value v) \<longleftrightarrow> \<not> has_float v"
  by (induction v rule: has_float.induct)
    (auto simp: write_number_def as_i64_def as_u64_def is_ok_write_items is_ok_write_members is_ok_write_bool)

section \<open>Strings are written unambiguously\<close>

definition escape_byte :: "char \<Rightarrow> bytes" where
  "escape_byte c = escape_char [c]"

lemma group_multi:
  assumes "utf8_seq_ok g" "group_shape g" "length g \<noteq> 1"
  shows "128 \<le> scalar g" and "\<forall>c \<in> set g. 128 \<le> byte_of c"
proof -
  show "128 \<le> scalar g" using seq_ok_length [OF assms(1,2)] assms(3) by (auto split: if_splits)
  show "\<forall>c \<in> set g. 128 \<le> byte_of c"
    using assms(2,3) by (cases g) (auto simp: list_all_iff is_cont_def split: if_splits)
qed

lemma escape_char_bytes:
  assumes "utf8_seq_ok g" "group_shape g"
  shows "escape_char g = concat (map escape_byte g)"
proof (cases "length g = 1")
  case True
  then show ?thesis by (auto simp: escape_byte_def length_Suc_conv)
next
  case False
  have "escape_byte c = [c]" if "c \<in> set g" for c
    using group_multi(2) [OF assms False] that by (auto simp: escape_byte_def escape_char_def Let_def)
  then have eq: "map escape_byte g = map (\<lambda>c. [c]) g" by simp
  have "escape_char g = g"
    using group_multi(1) [OF assms False] by (auto simp: escape_char_def Let_def)
  then show ?thesis unfolding eq by simp
qed

lemma write_string_bytes:
  assumes "utf8_valid s"
  shows "write_string s = CHR 0x22 # concat (map escape_byte s) @ [CHR 0x22]"
proof -
  have "concat (map escape_char gs) = concat (map escape_byte (concat gs))"
    if "list_all utf8_seq_ok gs" "list_all group_shape gs" for gs
    using that by (induction gs) (auto simp: escape_char_bytes)
  from this [OF assms [unfolded utf8_valid_def] utf8_chars_shapes]
  show ?thesis by (simp add: write_string_def)
qed

definition short_escapes :: "(char \<times> char) list" where
  "short_escapes = [(CHR 0x22, CHR 0x22), (CHR 0x5C, CHR 0x5C), (CHR 0x0A, CHR ''n''),
     (CHR 0x0D, CHR ''r''), (CHR 0x09, CHR ''t''), (CHR 0x08, CHR ''b''), (CHR 0x0C, CHR ''f'')]"

lemma hex4_control: "v < 32 \<Longrightarrow> hex4 v = [CHR ''0'', CHR ''0'', hex_digit (v div 16), hex_digit (v mod 16)]"
  by (simp add: hex4_def hex_digit_def) (rule byte_eqI [of _ 48]; simp)

lemma short_escapes_dom:
  "c \<notin> fst ` set short_escapes \<longleftrightarrow> byte_of c \<notin> {34, 92, 10, 13, 9, 8, 12}"
  by (auto simp: short_escapes_def intro: byte_eqI)

lemma escape_byte_cases:
  obtains
    (special) e where "escape_byte c = [CHR 0x5C, e]" "(c, e) \<in> set short_escapes"
  | (control) "escape_byte c = [CHR 0x5C, CHR ''u'', CHR ''0'', CHR ''0'', hex_digit (byte_of c div 16), hex_digit (byte_of c mod 16)]"
      "byte_of c < 32"
  | (plain) "escape_byte c = [c]" "c \<noteq> CHR 0x22" "c \<noteq> CHR 0x5C"
proof (cases "c \<in> fst ` set short_escapes")
  case True
  then obtain e where e: "(c, e) \<in> set short_escapes" by auto
  then have "escape_byte c = [CHR 0x5C, e]"
    by (auto simp: short_escapes_def escape_byte_def escape_char_def)
  with e show thesis using special by blast
next
  case False
  note no = False [unfolded short_escapes_dom]
  show thesis
  proof (cases "byte_of c < 32")
    case True
    with no have "escape_byte c = [CHR 0x5C, CHR ''u'', CHR ''0'', CHR ''0'', hex_digit (byte_of c div 16), hex_digit (byte_of c mod 16)]"
      by (simp add: escape_byte_def escape_char_def hex4_control Let_def)
    then show thesis using True control by blast
  next
    case False
    with no have "escape_byte c = [c]" by (simp add: escape_byte_def escape_char_def)
    moreover have "c \<noteq> CHR 0x22" "c \<noteq> CHR 0x5C" using no by auto
    ultimately show thesis using plain by blast
  qed
qed

lemma escape_byte_prefix:
  assumes "escape_byte c @ x = escape_byte d @ y"
  shows "c = d \<and> x = y"
proof (cases c rule: escape_byte_cases)
  case c: (special e)
  show ?thesis
  proof (cases d rule: escape_byte_cases)
    case d: (special e')
    from c(1) d(1) assms have "e = e'" "x = y" by auto
    then show ?thesis using c(2) d(2) by (auto simp: short_escapes_def)
  next
    case d: control
    with c(1) assms have "e = CHR ''u''" by auto
    then show ?thesis using c(2) by (auto simp: short_escapes_def)
  qed (use c(1) assms in auto)
next
  case c: control
  show ?thesis
  proof (cases d rule: escape_byte_cases)
    case d: (special e)
    with c(1) assms have "e = CHR ''u''" by auto
    then show ?thesis using d(2) by (auto simp: short_escapes_def)
  next
    case d: control
    have "byte_of c div 16 = byte_of d div 16" "byte_of c mod 16 = byte_of d mod 16" "x = y"
      using c d assms hex_digit_inject by auto
    then show ?thesis by (metis div_mult_mod_eq of_char_eq_iff)
  qed (use c(1) assms in auto)
next
  case plain
  then show ?thesis using assms by (cases d rule: escape_byte_cases) auto
qed

lemma escape_byte_hd: "escape_byte c @ x \<noteq> CHR 0x22 # y"
  by (cases c rule: escape_byte_cases) auto

lemma escape_bytes_prefix:
  "concat (map escape_byte s) @ CHR 0x22 # x = concat (map escape_byte t) @ CHR 0x22 # y \<Longrightarrow> s = t \<and> x = y"
proof (induction s arbitrary: t)
  case Nil
  then show ?case using escape_byte_hd [THEN not_sym] by (cases t) auto
next
  case (Cons c s)
  then obtain d t' where t: "t = d # t'" using escape_byte_hd by (cases t) auto
  with Cons.prems have "escape_byte c @ (concat (map escape_byte s) @ CHR 0x22 # x)
    = escape_byte d @ (concat (map escape_byte t') @ CHR 0x22 # y)" by simp
  from escape_byte_prefix [OF this] Cons.IH show ?case unfolding t by blast
qed

lemma write_string_prefix:
  assumes "utf8_valid s" "utf8_valid t" "write_string s @ x = write_string t @ y"
  shows "s = t \<and> x = y"
  using assms(3) escape_bytes_prefix [of s x t y]
  by (simp add: write_string_bytes [OF assms(1)] write_string_bytes [OF assms(2)])

section \<open>Canonical bytes determine the value up to member order\<close>

text \<open>What may follow a value inside a canonical document.\<close>

definition delim :: "bytes \<Rightarrow> bool" where
  "delim r \<longleftrightarrow> r = [] \<or> hd r \<in> {CHR '','', CHR '']'', CHR ''}''}"

lemma delim_Cons [simp]: "delim (c # r) \<longleftrightarrow> c \<in> {CHR '','', CHR '']'', CHR ''}''}"
  by (simp add: delim_def)

lemma delim_not_digit: "delim r \<Longrightarrow> r = [] \<or> \<not> is_digit (hd r)"
  by (auto simp: delim_def is_digit_def)

lemma takeWhile_digits:
  assumes "list_all P s" "r = [] \<or> \<not> P (hd r)"
  shows "takeWhile P (s @ r) = s"
  using assms by (cases r) (auto simp: list_all_iff takeWhile_append2)

lemma digits_prefix:
  assumes "list_all is_digit a" "list_all is_digit b" "delim r" "delim s" "a @ r = b @ s"
  shows "a = b \<and> r = s"
proof -
  have "takeWhile is_digit (a @ r) = a" "takeWhile is_digit (b @ s) = b"
    using assms delim_not_digit by (blast intro: takeWhile_digits)+
  then show ?thesis using assms(5) by auto
qed

lemma emit_number_prefix:
  assumes "number_wf m" "number_wf n" "\<not> has_float (JNumber m)" "\<not> has_float (JNumber n)"
    and "delim r" "delim s" "emit_number m @ r = emit_number n @ s"
  shows "m = n \<and> r = s"
proof -
  have D: "nat_str a @ r = nat_str b @ s \<Longrightarrow> a = b \<and> r = s" for a b
    using digits_prefix [OF nat_str_digits nat_str_digits assms(5,6)] nat_str_inject by blast
  have M: "nat_str a @ x \<noteq> CHR ''-'' # y" for a x y
    using nat_str_hd_not_minus [of a] by (cases "nat_str a") auto
  have N: "emit_number (NegInt i) = CHR ''-'' # nat_str (nat (- i))" if "number_wf (NegInt i)" for i
    using that by (simp add: emit_number_def number_wf_def int_str_def)
  have P: "emit_number (PosInt a) = nat_str a" for a by (simp add: emit_number_def)
  show ?thesis
  proof (cases m)
    case m: (PosInt a)
    show ?thesis
    proof (cases n)
      case (PosInt b)
      then show ?thesis using assms(7) D [of a b] by (simp add: P m)
    next
      case (NegInt j)
      then have False using assms(2,7) M [of a r] by (simp add: P N m)
      then show ?thesis ..
    qed (use assms(4) in simp)
  next
    case m: (NegInt i)
    show ?thesis
    proof (cases n)
      case (PosInt b)
      then have False using assms(1,7) M [of b s, THEN not_sym] by (simp add: P N m)
      then show ?thesis ..
    next
      case (NegInt j)
      then have "nat (- i) = nat (- j) \<and> r = s" using assms(1,2,7) D [of "nat (- i)" "nat (- j)"] by (simp add: N m)
      then show ?thesis using NegInt m assms(1,2) by (simp add: number_wf_def nat_eq_iff)
    qed (use assms(4) in simp)
  qed (use assms(3) in simp)
qed

text \<open>The first byte tells the kind of a value.\<close>

definition lead_kind :: "char \<Rightarrow> nat" where
  "lead_kind c = (if c = CHR ''n'' then 0 else if c = CHR ''t'' then 1 else if c = CHR ''f'' then 2
     else if is_digit c \<or> c = CHR ''-'' then 3 else if c = CHR 0x22 then 4
     else if c = CHR ''['' then 5 else if c = CHR ''{'' then 6 else 7)"

definition kind :: "json \<Rightarrow> nat" where
  "kind v = (case v of JNull \<Rightarrow> 0 | JBool b \<Rightarrow> if b then 1 else 2 | JNumber n \<Rightarrow> 3 | JString s \<Rightarrow> 4
     | JArray vs \<Rightarrow> 5 | JObject m \<Rightarrow> 6)"

lemma is_digit_lead: "is_digit c \<Longrightarrow> lead_kind c = 3"
  by (auto simp: lead_kind_def is_digit_def)

lemma nat_str_lead: "\<exists>c cs. nat_str a = c # cs \<and> lead_kind c = 3"
  using nat_str_digits [of a] by (cases "nat_str a") (auto simp: is_digit_lead)

lemma lead_kinds [simp]:
  "lead_kind CHR ''n'' = 0" "lead_kind CHR ''t'' = 1" "lead_kind CHR ''f'' = 2"
  "lead_kind CHR ''-'' = 3" "lead_kind CHR 0x22 = 4" "lead_kind CHR ''['' = 5"
  "lead_kind CHR ''{'' = 6"
  by (simp_all add: lead_kind_def is_digit_def)

lemma emit_lead:
  assumes "json_wf v" "\<not> has_float v"
  shows "\<exists>c cs. emit v = c # cs \<and> lead_kind c = kind v"
proof (cases v)
  case (JNumber n)
  show ?thesis
  proof (cases n)
    case (PosInt a)
    then show ?thesis using nat_str_lead [of a] JNumber by (simp add: emit_number_def kind_def)
  next
    case (NegInt i)
    then show ?thesis using assms JNumber by (simp add: emit_number_def number_wf_def int_str_def kind_def)
  qed (use assms JNumber in simp)
qed (simp_all add: write_string_def kind_def)

lemma kind_less: "kind v < 7"
  by (simp add: kind_def split: json.split)

lemma emit_kind:
  assumes "json_wf v" "\<not> has_float v" "json_wf w" "\<not> has_float w" "emit v @ r = emit w @ s"
  shows "kind v = kind w"
  using emit_lead [OF assms(1,2)] emit_lead [OF assms(3,4)] assms(5) by fastforce

lemma emit_not_close:
  assumes "json_wf v" "\<not> has_float v"
  shows "emit v @ r \<noteq> CHR '']'' # s"
proof -
  have "lead_kind CHR '']'' = 7" by (simp add: lead_kind_def is_digit_def)
  then show ?thesis using emit_lead [OF assms] kind_less [of v] by auto
qed

lemma emit_tail_prefix:
  assumes "\<And>x y r s. x \<in> set xs \<Longrightarrow> y \<in> set ys \<Longrightarrow> delim r \<Longrightarrow> delim s \<Longrightarrow> f x @ r = f y @ s \<Longrightarrow> x = y \<and> r = s"
    and "c = CHR '']'' \<or> c = CHR ''}''"
    and "concat (map (\<lambda>x. '','' @ f x) xs) @ c # r = concat (map (\<lambda>x. '','' @ f x) ys) @ c # s"
  shows "xs = ys \<and> r = s"
  using assms(1,3)
proof (induction xs arbitrary: ys)
  case Nil
  then show ?case using assms(2) by (cases ys) auto
next
  case (Cons x xs)
  then obtain y ys' where ys: "ys = y # ys'" using assms(2) by (cases ys) auto
  let ?t = "\<lambda>zs q. concat (map (\<lambda>x. '','' @ f x) zs) @ c # q"
  have delim: "delim (?t zs q)" for zs q using assms(2) by (cases zs) auto
  have "f x @ ?t xs r = f y @ ?t ys' s" using Cons.prems(2) by (simp add: ys)
  then have "x = y" and t: "?t xs r = ?t ys' s"
    using Cons.prems(1) [of x y "?t xs r" "?t ys' s"] delim by (auto simp: ys)
  moreover have "xs = ys' \<and> r = s"
    by (rule Cons.IH [OF _ t]) (rule Cons.prems(1); simp add: ys)
  ultimately show ?case by (simp add: ys)
qed

lemma emit_list_prefix:
  assumes "\<And>x y r s. x \<in> set xs \<Longrightarrow> y \<in> set ys \<Longrightarrow> delim r \<Longrightarrow> delim s \<Longrightarrow> f x @ r = f y @ s \<Longrightarrow> x = y \<and> r = s"
    and c: "c = CHR '']'' \<or> c = CHR ''}''"
    and no: "\<And>x r s. x \<in> set xs \<union> set ys \<Longrightarrow> f x @ r \<noteq> c # s"
    and eq: "emit_list (map f xs) @ c # r = emit_list (map f ys) @ c # s"
  shows "xs = ys \<and> r = s"
proof (cases xs)
  case Nil
  then show ?thesis using eq no [THEN not_sym] by (cases ys) (auto simp: emit_list_def)
next
  case (Cons x xs')
  then obtain y ys' where ys: "ys = y # ys'" using eq no by (cases ys) (auto simp: emit_list_def)
  let ?t = "\<lambda>zs q. concat (map (\<lambda>x. '','' @ f x) zs) @ c # q"
  have delim: "delim (?t zs q)" for zs q using c by (cases zs) auto
  have "f x @ ?t xs' r = f y @ ?t ys' s" using eq by (simp add: ys Cons emit_list_def comp_def)
  then have "x = y" and t: "?t xs' r = ?t ys' s"
    using assms(1) [of x y "?t xs' r" "?t ys' s"] delim by (auto simp: ys Cons)
  moreover have "xs' = ys' \<and> r = s"
    by (rule emit_tail_prefix [OF _ c t]) (rule assms(1); simp add: ys Cons)
  ultimately show ?thesis by (simp add: ys Cons)
qed

lemma emit_member_prefix:
  assumes "\<And>r s. delim r \<Longrightarrow> delim s \<Longrightarrow> emit (snd p) @ r = emit (snd q) @ s \<Longrightarrow> snd p = snd q \<and> r = s"
    and "utf8_valid (fst p)" "utf8_valid (fst q)" "delim r" "delim s"
    and "(write_string (fst p) @ '':'' @ emit (snd p)) @ r = (write_string (fst q) @ '':'' @ emit (snd q)) @ s"
  shows "p = q \<and> r = s"
proof -
  have "fst p = fst q \<and> '':'' @ emit (snd p) @ r = '':'' @ emit (snd q) @ s"
    using assms(6) by (intro write_string_prefix [OF assms(2,3)]) simp
  with assms(1) [OF assms(4,5)] show ?thesis by (auto simp: prod_eq_iff)
qed

lemma emit_prefix:
  "json_wf v \<Longrightarrow> json_wf w \<Longrightarrow> \<not> has_float v \<Longrightarrow> \<not> has_float w \<Longrightarrow> delim r \<Longrightarrow> delim s \<Longrightarrow>
   emit v @ r = emit w @ s \<Longrightarrow> v = w \<and> r = s"
proof (induction v arbitrary: w r s rule: emit.induct)
  case 1
  then have "w = JNull" using emit_kind [OF 1(1,3,2,4,7)] by (auto simp: kind_def split: json.splits if_splits)
  then show ?case using 1(7) by simp
next
  case (2 b)
  then have "w = JBool b" using emit_kind [OF 2(1,3,2,4,7)] by (auto simp: kind_def split: json.splits if_splits)
  then show ?case using 2(7) by (simp split: if_splits)
next
  case (3 n)
  then obtain k where "w = JNumber k" using emit_kind [OF 3(1,3,2,4,7)] by (auto simp: kind_def split: json.splits if_splits)
  then show ?case using 3 emit_number_prefix [of n k r s] by simp
next
  case (4 t)
  then obtain k where "w = JString k" using emit_kind [OF 4(1,3,2,4,7)] by (auto simp: kind_def split: json.splits if_splits)
  then show ?case using 4 write_string_prefix [of t k r s] by simp
next
  case (5 xs)
  then obtain ys where w: "w = JArray ys" using emit_kind [OF 5(2,4,3,5,8)] by (auto simp: kind_def split: json.splits if_splits)
  have "xs = ys \<and> r = s"
  proof (rule emit_list_prefix [where f = emit and c = "CHR '']''"])
    show "emit_list (map emit xs) @ CHR '']'' # r = emit_list (map emit ys) @ CHR '']'' # s"
      using 5(8) by (simp add: w)
    show "emit x @ r \<noteq> CHR '']'' # s" if "x \<in> set xs \<union> set ys" for x r s
      using that 5(2-5) by (intro emit_not_close) (auto simp: w)
    show "x = y \<and> r = s" if "x \<in> set xs" "y \<in> set ys" "delim r" "delim s" "emit x @ r = emit y @ s" for x y r s
      using that 5(1) [OF that(1) _ _ _ _ that(3-5)] 5(2-5) by (simp add: w)
  qed simp
  then show ?case by (simp add: w)
next
  case (6 m)
  then obtain k where w: "w = JObject k" using emit_kind [OF 6(2,4,3,5,8)] by (auto simp: kind_def split: json.splits if_splits)
  have "m = k \<and> r = s"
  proof (rule emit_list_prefix [where f = "\<lambda>kv. write_string (fst kv) @ '':'' @ emit (snd kv)" and c = "CHR ''}''"])
    show "p = q \<and> r = s" if "p \<in> set m" "q \<in> set k" "delim r" "delim s"
      "(write_string (fst p) @ '':'' @ emit (snd p)) @ r = (write_string (fst q) @ '':'' @ emit (snd q)) @ s" for p q r s
    proof (rule emit_member_prefix [OF _ _ _ that(3-5)])
      show "snd p = snd q \<and> r = s" if "delim r" "delim s" "emit (snd p) @ r = emit (snd q) @ s" for r s
        using 6(1) [OF \<open>p \<in> set m\<close> _ _ _ _ that] \<open>p \<in> set m\<close> \<open>q \<in> set k\<close> 6(2-5) by (simp add: w)
    qed (use that(1,2) 6(2,3) in \<open>simp_all add: w\<close>)
  qed (use 6(8) in \<open>simp_all add: w write_string_def\<close>)
  then show ?case by (simp add: w)
qed

lemma json_norm_wf: "json_wf v \<Longrightarrow> json_wf (json_norm v)"
proof (induction v rule: json_norm.induct)
  case (2 m)
  let ?m = "map (\<lambda>kv. (fst kv, json_norm (snd kv))) m"
  have "distinct (map fst (sort_members ?m)) = distinct (map fst ?m)"
    by (rule mset_eq_imp_distinct_iff) (simp add: image_mset.compositionality comp_def)
  then show ?case using 2 by (auto simp: comp_def)
qed auto

lemma json_norm_has_float: "has_float (json_norm v) = has_float v"
  by (induction v rule: json_norm.induct) auto

lemma canonicalize_eq:
  assumes "json_wf v" "json_wf w" "\<not> has_float v" "\<not> has_float w"
  shows "canonicalize v = canonicalize w \<longleftrightarrow> json_norm v = json_norm w"
proof -
  have "delim []" by (simp add: delim_def)
  then have "emit (json_norm v) = emit (json_norm w) \<Longrightarrow> json_norm v = json_norm w"
    using emit_prefix [of "json_norm v" "json_norm w" "[]" "[]"] assms
    by (simp add: json_norm_wf json_norm_has_float)
  then show ?thesis using assms by (auto simp: canonicalize_def write_value_emit)
qed

lemma sort_members_perm:
  assumes "mset m = mset k" "distinct (map fst m)" "\<forall>kv \<in> set m. utf8_valid (fst kv)"
  shows "sort_members m = sort_members k"
proof -
  have "inj_on (\<lambda>kv. encode_utf16 (fst kv)) (set m)"
  proof (rule inj_onI)
    fix p q assume "p \<in> set m" "q \<in> set m" "encode_utf16 (fst p) = encode_utf16 (fst q)"
    then have "fst p = fst q" using assms(3) encode_utf16_inject by blast
    then show "p = q" using \<open>p \<in> set m\<close> \<open>q \<in> set m\<close> assms(2) by (metis eq_key_imp_eq_value prod.collapse)
  qed
  moreover have "mset (sort_members m) = mset (sort_members k)" using assms(1) by simp
  ultimately show ?thesis
    unfolding sort_members_def using assms(1) by (intro sort_key_inj_key_eq) auto
qed

lemma canonicalize_perm:
  assumes "mset m = mset k" "json_wf (JObject m)"
  shows "canonicalize (JObject m) = canonicalize (JObject k)"
proof -
  have "sort_members m = sort_members k" using assms by (intro sort_members_perm) auto
  then show ?thesis by (simp add: canonicalize_def)
qed

lemma utf8_valid_Cons_ascii [simp]: "byte_of c < 128 \<Longrightarrow> utf8_valid (c # s) = utf8_valid s"
  by (simp add: utf8_valid_def)

lemma escape_char_valid:
  assumes "utf8_valid s" "g \<in> set (utf8_chars s)"
  shows "utf8_valid (escape_char g)"
proof (cases "escape_char g = g")
  case True
  have "utf8_valid (concat [g])" using assms by (intro utf8_valid_groups) auto
  then show ?thesis using True by simp
next
  case False
  then have "list_all (\<lambda>c. byte_of c < 128) (escape_char g)"
    by (auto simp: escape_char_def Let_def hex4_def hex_digit_ascii)
  then show ?thesis by (rule utf8_valid_ascii)
qed

lemma write_string_valid: "utf8_valid s \<Longrightarrow> utf8_valid (write_string s)"
proof -
  assume s: "utf8_valid s"
  have q: "utf8_valid [CHR 0x22]" by (rule utf8_valid_ascii) simp
  have "utf8_valid (concat (map escape_char (utf8_chars s)))"
    using s by (intro utf8_valid_concat) (auto simp: list_all_iff escape_char_valid)
  then have "utf8_valid ([CHR 0x22] @ concat (map escape_char (utf8_chars s)) @ [CHR 0x22])"
    using q by (intro utf8_valid_append)
  then show ?thesis by (simp add: write_string_def)
qed

lemma nat_str_valid: "utf8_valid (nat_str n)"
  using nat_str_digits [of n] by (intro utf8_valid_ascii) (auto simp: list_all_iff is_digit_def)

lemma emit_list_valid:
  assumes "\<forall>b \<in> set bs. utf8_valid b"
  shows "utf8_valid (emit_list bs)"
proof (cases bs)
  case (Cons b bs')
  have "utf8_valid ('','' @ c)" if "c \<in> set bs'" for c
    using that assms Cons by simp
  then have "utf8_valid (concat (map (\<lambda>c. '','' @ c) bs'))"
    by (intro utf8_valid_concat) (auto simp: list_all_iff)
  moreover have "utf8_valid b" using assms Cons by simp
  ultimately show ?thesis unfolding Cons emit_list_def list.case by (rule utf8_valid_append [rotated])
qed (simp add: emit_list_def)

lemma emit_valid: "json_wf v \<Longrightarrow> utf8_valid (emit v)"
proof (induction v rule: emit.induct)
  case (3 n)
  have "utf8_valid ([CHR ''-''] @ nat_str a)" for a
    by (intro utf8_valid_append nat_str_valid utf8_valid_ascii) simp
  then show ?case by (auto simp: emit_number_def int_str_def nat_str_valid split: json_number.splits)
next
  case (5 vs)
  have "utf8_valid (''['' @ emit_list (map emit vs) @ '']'')"
    using 5 by (intro utf8_valid_append emit_list_valid utf8_valid_ascii) auto
  then show ?case by simp
next
  case (6 m)
  have "utf8_valid (write_string (fst kv) @ '':'' @ emit (snd kv))" if "kv \<in> set m" for kv
    using 6 that by (simp add: utf8_valid_append write_string_valid)
  then have "utf8_valid (''{'' @ emit_list (map (\<lambda>kv. write_string (fst kv) @ '':'' @ emit (snd kv)) m) @ ''}'')"
    by (intro utf8_valid_append emit_list_valid utf8_valid_ascii) auto
  then show ?case by simp
qed (auto simp: write_string_valid intro: utf8_valid_ascii)

lemma canonicalize_utf8:
  assumes "json_wf v" "canonicalize v = Ok b"
  shows "from_utf8 b = Some b"
proof -
  have "\<not> has_float v" using assms(2) write_value_is_ok [of v] by (simp add: canonicalize_def)
  then show ?thesis using assms emit_valid [OF json_norm_wf]
    by (auto simp: canonicalize_def write_value_emit from_utf8_def)
qed

section \<open>Properties\<close>

text \<open>
  C13: the signed bytes determine the payload. Two well-formed, float-free JSON values have the
  same canonical encoding exactly when they are equal up to the order of object members (at every
  depth), so a signature over the canonical bytes fixes the value and survives member reordering.
\<close>

theorem canonicalize_eq_iff:
  assumes "json_wf v" and "json_wf w" and "\<not> has_float v" and "\<not> has_float w"
  shows "canonicalize v = canonicalize w \<longleftrightarrow> json_norm v = json_norm w"
  using assms by (rule canonicalize_eq)

theorem canonicalize_eq_iff_witness:
  "canonicalize (JObject [(''b'', JNumber (PosInt 1)), (''a'', JArray [JNull, JString ''x''])])
   = canonicalize (JObject [(''a'', JArray [JNull, JString ''x'']), (''b'', JNumber (PosInt 1))])"
proof (subst canonicalize_eq_iff)
  show "json_norm (JObject [(''b'', JNumber (PosInt 1)), (''a'', JArray [JNull, JString ''x''])])
    = json_norm (JObject [(''a'', JArray [JNull, JString ''x'']), (''b'', JNumber (PosInt 1))])"
    by code_simp
qed (code_simp)+

text \<open>
  Canonicalisation is total on the payloads of the wire schemas. It fails exactly when a
  floating-point number occurs somewhere in the value, at any depth.
\<close>

theorem canonicalize_ok_iff: "is_ok (canonicalize v) \<longleftrightarrow> \<not> has_float v"
  by (simp add: canonicalize_def write_value_is_ok)

text \<open>
  C37: the canonical bytes are text. For every well-formed value they decode as UTF-8, which is
  what lets \<open>to_event_payload\<close> and the test helpers turn them into a \<open>String\<close>.
\<close>

theorem canonicalize_from_utf8:
  assumes "json_wf v" and "canonicalize v = Ok b"
  shows "from_utf8 b = Some b"
  using assms by (rule canonicalize_utf8)

theorem canonicalize_from_utf8_witness:
  "from_utf8 ''[null,\"x\"]'' = Some ''[null,\"x\"]''"
proof (rule canonicalize_from_utf8)
  show "json_wf (JArray [JNull, JString ''x''])" by code_simp
  show "canonicalize (JArray [JNull, JString ''x'']) = Ok ''[null,\"x\"]''" by code_simp
qed

end
