(* ===== verification/DeviceTypes.thy ===== *)
theory DeviceTypes
  imports Json
begin

text \<open>
  The shared types of the Device Control schemas: \<open>crates/sda-device-control/src/types.rs\<close> and
  \<open>version.rs\<close>, with the JSON value that the derived serializer gives each of them. Enum tags are
  the variant names in \<open>snake_case\<close>; a struct becomes an object, a \<open>Vec<u8>\<close> an array of numbers,
  and an \<open>Option\<close> field marked \<open>skip_serializing_if\<close> is left out when it is \<open>None\<close>. The lemmas
  show the wire tags distinct, so that no two actions or outcomes share a signed encoding.
\<close>

section \<open>Versions\<close>

definition FINDING_SCHEMA_VERSION :: nat where "FINDING_SCHEMA_VERSION = 1"
definition RECOMMENDATION_SCHEMA_VERSION :: nat where "RECOMMENDATION_SCHEMA_VERSION = 1"
definition SIGNED_ACTION_JOB_SCHEMA_VERSION :: nat where "SIGNED_ACTION_JOB_SCHEMA_VERSION = 1"
definition ACTION_RESULT_SCHEMA_VERSION :: nat where "ACTION_RESULT_SCHEMA_VERSION = 1"
definition EVIDENCE_RECORD_SCHEMA_VERSION :: nat where "EVIDENCE_RECORD_SCHEMA_VERSION = 1"

section \<open>Enumerations and structs\<close>

datatype Severity = Info | Low | Medium | High | Critical

datatype PlatformOs = Windows | Macos | Linux

datatype PlatformArch = X86_64 | Aarch64 | I686 | Armv7

record Platform =
  os :: PlatformOs
  version :: string
  arch :: PlatformArch
  distro :: "string option"

record AgentVersion =
  version :: string
  build_sha :: string
  channel :: string

datatype FindingKind =
    PermanentAdmin | OutdatedApp | DeviceMissing | UnapprovedSoftware | AdminAccessRequested
  | PostureViolation | VulnerabilityMatch | AdminDrift | DeviceControlBundleVerificationFailure
  | DiskEncryptionOff | FirewallOff | ScreenLockOff | OsPatchOverdue | RecoveryKeyNotEscrowed
  | DeviceLost | ConfigProfileTampered | Other

datatype ActionKind =
    InstallPackage | UpdatePackage | UninstallPackage | GrantJitAdmin | RevokeAdmin | RunScript
  | PushAppControlPolicy | StartRemoteSupport | EndRemoteSupport | QueryAdHoc | RemoteWipe
  | RemoteLock | EnterLostMode | ExitLostMode | EscrowRecoveryKey | InstallOsUpdate
  | ApplyConfigProfile | EnableDiskEncryption | EnableFirewall | SetScreenLock | IsolateHost
  | UnisolateHost

datatype ActionStatus = Success | Failure | Refused | Skipped

datatype JobRefused =
    SchemaParseError | UnknownKeyId | BadSignature | Expired | TenantMismatch | DeviceMismatch
  | ActionNotPermitted | OutsideWindow | ArgsParseError | PreconditionFailed | NotImplemented
  | WipeRequiresDualControl | LocalKeyNotAuthorisedForAction

section \<open>Wire encodings\<close>

text \<open>Serde's \<open>snake_case\<close> rule: an underscore before every capital but the first, all lowered.\<close>

definition is_ascii_upper :: "char \<Rightarrow> bool" where
  "is_ascii_upper c \<longleftrightarrow> 65 \<le> byte_of c \<and> byte_of c \<le> 90"

fun snake_tail :: "string \<Rightarrow> string" where
  "snake_tail [] = []"
| "snake_tail (c # cs) =
     (if is_ascii_upper c then [CHR ''_'', ascii_lower_byte c] else [c]) @ snake_tail cs"

definition snake_case :: "string \<Rightarrow> string" where
  "snake_case s = (case s of [] \<Rightarrow> [] | c # cs \<Rightarrow> ascii_lower_byte c # snake_tail cs)"

primrec platform_os_tag :: "PlatformOs \<Rightarrow> string" where
  "platform_os_tag Windows = snake_case ''Windows''"
| "platform_os_tag Macos = snake_case ''Macos''"
| "platform_os_tag Linux = snake_case ''Linux''"

primrec platform_arch_tag :: "PlatformArch \<Rightarrow> string" where
  "platform_arch_tag X86_64 = ''x86_64''"
| "platform_arch_tag Aarch64 = snake_case ''Aarch64''"
| "platform_arch_tag I686 = snake_case ''I686''"
| "platform_arch_tag Armv7 = snake_case ''Armv7''"

text \<open>The \<open>{:?}\<close> of an action is its variant name.\<close>

primrec action_kind_name :: "ActionKind \<Rightarrow> string" where
  "action_kind_name InstallPackage = ''InstallPackage''"
| "action_kind_name UpdatePackage = ''UpdatePackage''"
| "action_kind_name UninstallPackage = ''UninstallPackage''"
| "action_kind_name GrantJitAdmin = ''GrantJitAdmin''"
| "action_kind_name RevokeAdmin = ''RevokeAdmin''"
| "action_kind_name RunScript = ''RunScript''"
| "action_kind_name PushAppControlPolicy = ''PushAppControlPolicy''"
| "action_kind_name StartRemoteSupport = ''StartRemoteSupport''"
| "action_kind_name EndRemoteSupport = ''EndRemoteSupport''"
| "action_kind_name QueryAdHoc = ''QueryAdHoc''"
| "action_kind_name RemoteWipe = ''RemoteWipe''"
| "action_kind_name RemoteLock = ''RemoteLock''"
| "action_kind_name EnterLostMode = ''EnterLostMode''"
| "action_kind_name ExitLostMode = ''ExitLostMode''"
| "action_kind_name EscrowRecoveryKey = ''EscrowRecoveryKey''"
| "action_kind_name InstallOsUpdate = ''InstallOsUpdate''"
| "action_kind_name ApplyConfigProfile = ''ApplyConfigProfile''"
| "action_kind_name EnableDiskEncryption = ''EnableDiskEncryption''"
| "action_kind_name EnableFirewall = ''EnableFirewall''"
| "action_kind_name SetScreenLock = ''SetScreenLock''"
| "action_kind_name IsolateHost = ''IsolateHost''"
| "action_kind_name UnisolateHost = ''UnisolateHost''"

definition action_kind_tag :: "ActionKind \<Rightarrow> string" where
  "action_kind_tag a = snake_case (action_kind_name a)"

primrec action_status_tag :: "ActionStatus \<Rightarrow> string" where
  "action_status_tag Success = snake_case ''Success''"
| "action_status_tag Failure = snake_case ''Failure''"
| "action_status_tag Refused = snake_case ''Refused''"
| "action_status_tag Skipped = snake_case ''Skipped''"

primrec job_refused_tag :: "JobRefused \<Rightarrow> string" where
  "job_refused_tag SchemaParseError = snake_case ''SchemaParseError''"
| "job_refused_tag UnknownKeyId = snake_case ''UnknownKeyId''"
| "job_refused_tag BadSignature = snake_case ''BadSignature''"
| "job_refused_tag Expired = snake_case ''Expired''"
| "job_refused_tag TenantMismatch = snake_case ''TenantMismatch''"
| "job_refused_tag DeviceMismatch = snake_case ''DeviceMismatch''"
| "job_refused_tag ActionNotPermitted = snake_case ''ActionNotPermitted''"
| "job_refused_tag OutsideWindow = snake_case ''OutsideWindow''"
| "job_refused_tag ArgsParseError = snake_case ''ArgsParseError''"
| "job_refused_tag PreconditionFailed = snake_case ''PreconditionFailed''"
| "job_refused_tag NotImplemented = snake_case ''NotImplemented''"
| "job_refused_tag WipeRequiresDualControl = snake_case ''WipeRequiresDualControl''"
| "job_refused_tag LocalKeyNotAuthorisedForAction = snake_case ''LocalKeyNotAuthorisedForAction''"

section \<open>Serialized structs\<close>

text \<open>
  How the \<open>uuid\<close> and \<open>chrono\<close> crates print an id and a UTC timestamp; \<open>wire_ok\<close> states what
  their documentation promises: distinct values print differently, in ASCII.
\<close>

record wire =
  uuid_fmt :: "uuid \<Rightarrow> string"
  dt_fmt :: "datetime \<Rightarrow> string"

definition wire_ok :: "wire \<Rightarrow> bool" where
  "wire_ok w \<longleftrightarrow> inj (uuid_fmt w) \<and> inj (dt_fmt w) \<and>
     (\<forall>u. utf8_valid (uuid_fmt w u)) \<and> (\<forall>t. utf8_valid (dt_fmt w t))"

text \<open>A field that \<open>skip_serializing_if = "Option::is_none"\<close> may leave out.\<close>

definition opt_field :: "string \<Rightarrow> json option \<Rightarrow> (string \<times> json) list" where
  "opt_field k v = (case v of None \<Rightarrow> [] | Some j \<Rightarrow> [(k, j)])"

definition nat_value :: "nat \<Rightarrow> json" where
  "nat_value n = JNumber (PosInt n)"

text \<open>A \<open>Vec<u8>\<close> or \<open>[u8]\<close> serializes as a sequence of integers.\<close>

definition bytes_value :: "bytes \<Rightarrow> json" where
  "bytes_value b = JArray (map (\<lambda>c. nat_value (byte_of c)) b)"

text \<open>\<open>serde_json::Map::insert\<close>: replace the entry of a key, or add one.\<close>

fun obj_insert :: "string \<Rightarrow> json \<Rightarrow> (string \<times> json) list \<Rightarrow> (string \<times> json) list" where
  "obj_insert k v [] = [(k, v)]"
| "obj_insert k v ((k', v') # m) = (if k' = k then (k, v) # m else (k', v') # obj_insert k v m)"

definition platform_to_value :: "Platform \<Rightarrow> json" where
  "platform_to_value p = JObject
     ([(''os'', JString (platform_os_tag (os p))),
       (''version'', JString (Platform.version p)),
       (''arch'', JString (platform_arch_tag (arch p)))] @
      opt_field ''distro'' (map_option JString (distro p)))"

definition agent_version_to_value :: "AgentVersion \<Rightarrow> json" where
  "agent_version_to_value a = JObject
     [(''version'', JString (AgentVersion.version a)),
      (''build_sha'', JString (build_sha a)),
      (''channel'', JString (AgentVersion.channel a))]"

section \<open>Lemmas\<close>

lemma has_float_bytes_value [simp]: "\<not> has_float (bytes_value b)"
  by (simp add: bytes_value_def nat_value_def)

lemma has_float_nat_value [simp]: "\<not> has_float (nat_value n)"
  by (simp add: nat_value_def)

lemma bytes_value_inject [simp]: "bytes_value a = bytes_value b \<longleftrightarrow> a = b"
proof -
  have "inj (\<lambda>c. nat_value (byte_of c))" by (rule injI) (simp add: nat_value_def)
  then show ?thesis by (simp add: bytes_value_def inj_map_eq_map)
qed

lemma json_wf_bytes_value [simp]: "json_wf (bytes_value b)"
proof -
  have "byte_of c < 2 ^ 64" for c
    by (rule less_trans [of _ 256]) simp_all
  then show ?thesis by (simp add: bytes_value_def nat_value_def number_wf_def)
qed

lemma action_kind_tag_inject: "action_kind_tag a = action_kind_tag b \<Longrightarrow> a = b"
proof -
  have "distinct (map action_kind_tag [InstallPackage, UpdatePackage, UninstallPackage, GrantJitAdmin,
    RevokeAdmin, RunScript, PushAppControlPolicy, StartRemoteSupport, EndRemoteSupport, QueryAdHoc,
    RemoteWipe, RemoteLock, EnterLostMode, ExitLostMode, EscrowRecoveryKey, InstallOsUpdate,
    ApplyConfigProfile, EnableDiskEncryption, EnableFirewall, SetScreenLock, IsolateHost,
    UnisolateHost])" (is "distinct (map _ ?all)")
    by code_simp
  then have "inj_on action_kind_tag (set ?all)" by (simp only: distinct_map)
  moreover have "x \<in> set ?all" for x by (cases x) simp_all
  ultimately show "action_kind_tag a = action_kind_tag b \<Longrightarrow> a = b" by (meson inj_onD)
qed

lemma job_refused_tag_inject: "job_refused_tag a = job_refused_tag b \<Longrightarrow> a = b"
proof -
  have "distinct (map job_refused_tag [SchemaParseError, UnknownKeyId, BadSignature, Expired,
    TenantMismatch, DeviceMismatch, ActionNotPermitted, OutsideWindow, ArgsParseError,
    PreconditionFailed, NotImplemented, WipeRequiresDualControl, LocalKeyNotAuthorisedForAction])"
    (is "distinct (map _ ?all)")
    by code_simp
  then have "inj_on job_refused_tag (set ?all)" by (simp only: distinct_map)
  moreover have "x \<in> set ?all" for x by (cases x) simp_all
  ultimately show "job_refused_tag a = job_refused_tag b \<Longrightarrow> a = b" by (meson inj_onD)
qed

lemma platform_os_tag_inject: "platform_os_tag a = platform_os_tag b \<Longrightarrow> a = b"
  by (cases a; cases b; simp add: snake_case_def ascii_lower_byte_def)

lemma platform_arch_tag_inject: "platform_arch_tag a = platform_arch_tag b \<Longrightarrow> a = b"
  by (cases a; cases b; simp add: snake_case_def ascii_lower_byte_def is_ascii_upper_def)

lemma action_status_tag_inject: "action_status_tag a = action_status_tag b \<Longrightarrow> a = b"
  by (cases a; cases b; simp add: snake_case_def ascii_lower_byte_def is_ascii_upper_def)

end

