(* ===== verification/SignedJob.thy ===== *)
theory SignedJob
  imports DeviceTypes
begin

text \<open>
  \<open>crates/sda-device-control/src/signed_job.rs\<close>: the signed job envelope, its structural checks,
  and the strict per-action argument schemas with their caps. What the agent takes from other
  crates is a parameter: \<open>serde_json::to_vec\<close> and \<open>from_value\<close> (one derived decoder per struct),
  the \<open>IpNet\<close> parser and the \<open>{:?}\<close> printer of strings. The lemmas show that a parsed argument
  struct is always of the job's action and inside every documented cap.
\<close>

section \<open>Limits\<close>

definition SIGNED_JOB_ARGS_MAX_BYTES :: nat where "SIGNED_JOB_ARGS_MAX_BYTES = 64 * 1024"
definition GRANT_JIT_ADMIN_MAX_DURATION_MINUTES :: nat where
  "GRANT_JIT_ADMIN_MAX_DURATION_MINUTES = 480"
definition RUN_SCRIPT_MAX_TIMEOUT_SECONDS :: nat where "RUN_SCRIPT_MAX_TIMEOUT_SECONDS = 30 * 60"
definition START_REMOTE_SUPPORT_MAX_DURATION_MINUTES :: nat where
  "START_REMOTE_SUPPORT_MAX_DURATION_MINUTES = 240"
definition QUERY_AD_HOC_MAX_ROWS :: nat where "QUERY_AD_HOC_MAX_ROWS = 10000"

section \<open>The job\<close>

record AdditionalSignature =
  signature :: bytes
  key_id :: string

record SignedActionJob =
  job_id :: uuid
  tenant_id :: uuid
  device_id :: uuid
  schema_version :: nat
  recommendation_id :: "uuid option"
  action :: ActionKind
  args :: json
  not_before :: datetime
  not_after :: datetime
  signature :: bytes
  key_id :: string
  correlation_id :: "uuid option"
  additional_signatures :: "AdditionalSignature list"

datatype SignedJobError =
    SchemaVersionUnsupported nat
  | ArgsTooLarge (actual: nat) (max_bytes: nat)
  | InvalidWindow
  | ArgsParseError (action_of: ActionKind) (detail: string)

section \<open>Argument structs\<close>

record RemoteWipeArgs =
  reason :: string
  crypto_shred_only :: bool
  wait_for_ac :: bool

record RemoteLockArgs =
  message :: string

record EnterLostModeArgs =
  message :: string

type_synonym ExitLostModeArgs = unit

record EscrowRecoveryKeyArgs =
  force :: bool

record InstallOsUpdateArgs =
  include_security :: bool
  include_feature :: bool
  reboot_policy :: string

record ApplyConfigProfileArgs =
  profile_id :: uuid
  profile_sha256 :: string

type_synonym EnableDiskEncryptionArgs = unit

type_synonym EnableFirewallArgs = unit

record SetScreenLockArgs =
  timeout_secs :: nat

record InstallPackageArgs =
  package_id :: string
  version :: string
  channel :: string
  source_url :: string
  sha256 :: string

record UpdatePackageArgs =
  package_id :: string
  to_version :: string
  channel :: string

record UninstallPackageArgs =
  package_id :: string
  version :: string

record GrantJitAdminArgs =
  user :: string
  duration_minutes :: nat
  reason :: string
  approver_id :: uuid

record RevokeAdminArgs =
  user :: string
  reason :: string

record RunScriptArgs =
  script_id :: string
  script_sha256 :: string
  args :: "string list"
  timeout_seconds :: nat

record PushAppControlPolicyArgs =
  policy_id :: uuid
  policy_sha256 :: string
  policy_url :: string

record StartRemoteSupportArgs =
  operator_id :: uuid
  session_id :: uuid
  consent_required :: bool
  max_duration_minutes :: nat

record EndRemoteSupportArgs =
  session_id :: uuid
  reason :: string

record QueryAdHocArgs =
  query_id :: uuid
  engine :: string
  sql :: string
  max_rows :: nat

record IsolateHostArgs =
  extra_allow_ips :: "string list"
  reason :: "string option"

record UnisolateHostArgs =
  reason :: "string option"

datatype JobArgs =
    InstallPackage InstallPackageArgs
  | UpdatePackage UpdatePackageArgs
  | UninstallPackage UninstallPackageArgs
  | GrantJitAdmin GrantJitAdminArgs
  | RevokeAdmin RevokeAdminArgs
  | RunScript RunScriptArgs
  | PushAppControlPolicy PushAppControlPolicyArgs
  | StartRemoteSupport StartRemoteSupportArgs
  | EndRemoteSupport EndRemoteSupportArgs
  | QueryAdHoc QueryAdHocArgs
  | RemoteWipe RemoteWipeArgs
  | RemoteLock RemoteLockArgs
  | EnterLostMode EnterLostModeArgs
  | ExitLostMode ExitLostModeArgs
  | EscrowRecoveryKey EscrowRecoveryKeyArgs
  | InstallOsUpdate InstallOsUpdateArgs
  | ApplyConfigProfile ApplyConfigProfileArgs
  | EnableDiskEncryption EnableDiskEncryptionArgs
  | EnableFirewall EnableFirewallArgs
  | SetScreenLock SetScreenLockArgs
  | IsolateHost IsolateHostArgs
  | UnisolateHost UnisolateHostArgs

section \<open>Structural checks and argument parsing\<close>

text \<open>
  The crates the parser calls: \<open>to_vec\<close>, the derived \<open>Deserialize\<close> of every argument struct with
  its error text, \<open>str::parse::<IpNet>\<close> with its error text, and \<open>format!("{:?}")\<close> of a string.
\<close>

record args_env =
  to_vec :: "json \<Rightarrow> (bytes, string) result"
  de_InstallPackage :: "json \<Rightarrow> (InstallPackageArgs, string) result"
  de_UpdatePackage :: "json \<Rightarrow> (UpdatePackageArgs, string) result"
  de_UninstallPackage :: "json \<Rightarrow> (UninstallPackageArgs, string) result"
  de_GrantJitAdmin :: "json \<Rightarrow> (GrantJitAdminArgs, string) result"
  de_RevokeAdmin :: "json \<Rightarrow> (RevokeAdminArgs, string) result"
  de_RunScript :: "json \<Rightarrow> (RunScriptArgs, string) result"
  de_PushAppControlPolicy :: "json \<Rightarrow> (PushAppControlPolicyArgs, string) result"
  de_StartRemoteSupport :: "json \<Rightarrow> (StartRemoteSupportArgs, string) result"
  de_EndRemoteSupport :: "json \<Rightarrow> (EndRemoteSupportArgs, string) result"
  de_QueryAdHoc :: "json \<Rightarrow> (QueryAdHocArgs, string) result"
  de_RemoteWipe :: "json \<Rightarrow> (RemoteWipeArgs, string) result"
  de_RemoteLock :: "json \<Rightarrow> (RemoteLockArgs, string) result"
  de_EnterLostMode :: "json \<Rightarrow> (EnterLostModeArgs, string) result"
  de_ExitLostMode :: "json \<Rightarrow> (ExitLostModeArgs, string) result"
  de_EscrowRecoveryKey :: "json \<Rightarrow> (EscrowRecoveryKeyArgs, string) result"
  de_InstallOsUpdate :: "json \<Rightarrow> (InstallOsUpdateArgs, string) result"
  de_ApplyConfigProfile :: "json \<Rightarrow> (ApplyConfigProfileArgs, string) result"
  de_EnableDiskEncryption :: "json \<Rightarrow> (EnableDiskEncryptionArgs, string) result"
  de_EnableFirewall :: "json \<Rightarrow> (EnableFirewallArgs, string) result"
  de_SetScreenLock :: "json \<Rightarrow> (SetScreenLockArgs, string) result"
  de_IsolateHost :: "json \<Rightarrow> (IsolateHostArgs, string) result"
  de_UnisolateHost :: "json \<Rightarrow> (UnisolateHostArgs, string) result"
  parse_ipnet :: "string \<Rightarrow> (unit, string) result"
  debug_str :: "string \<Rightarrow> string"

definition validate_structure :: "args_env \<Rightarrow> SignedActionJob \<Rightarrow> (unit, SignedJobError) result" where
  "validate_structure e j =
     (if schema_version j \<noteq> SIGNED_ACTION_JOB_SCHEMA_VERSION
      then Err (SchemaVersionUnsupported (schema_version j))
      else bind_result
        (map_err (SignedJobError.ArgsParseError (action j)) (map_ok length (to_vec e (SignedActionJob.args j))))
        (\<lambda>bytes.
           if bytes > SIGNED_JOB_ARGS_MAX_BYTES then Err (ArgsTooLarge bytes SIGNED_JOB_ARGS_MAX_BYTES)
           else if not_before j > not_after j then Err InvalidWindow
           else Ok ()))"

definition is_lower_hex_64 :: "string \<Rightarrow> bool" where
  "is_lower_hex_64 s \<longleftrightarrow> length s = 64 \<and>
     (\<forall>g \<in> set (utf8_chars s). (48 \<le> scalar g \<and> scalar g \<le> 57) \<or> (97 \<le> scalar g \<and> scalar g \<le> 102))"

definition exceeds :: "string \<Rightarrow> nat \<Rightarrow> nat \<Rightarrow> string" where
  "exceeds field n cap = field @ '' = '' @ nat_str n @ '' exceeds cap of '' @ nat_str cap"

fun check_cidrs :: "args_env \<Rightarrow> string list \<Rightarrow> (unit, string) result" where
  "check_cidrs e [] = Ok ()"
| "check_cidrs e (cidr # rest) =
     (case parse_ipnet e cidr of
        Err m \<Rightarrow> Err (''extra_allow_ips entry '' @ debug_str e cidr @ '' invalid: '' @ m)
      | Ok _ \<Rightarrow> check_cidrs e rest)"

text \<open>
  \<open>JobArgs::parse\<close>. In the \<open>RemoteLock\<close> arm the loop walks the index back to a character boundary
  before \<open>String::truncate\<close>, which panics elsewhere; \<open>floor_boundary\<close> always is one.
\<close>

primrec parse_job_args :: "args_env \<Rightarrow> ActionKind \<Rightarrow> json \<Rightarrow> (JobArgs, string) result" where
  "parse_job_args e ActionKind.InstallPackage = (\<lambda>a. map_ok JobArgs.InstallPackage (de_InstallPackage e a))"
| "parse_job_args e ActionKind.UpdatePackage = (\<lambda>a. map_ok JobArgs.UpdatePackage (de_UpdatePackage e a))"
| "parse_job_args e ActionKind.UninstallPackage = (\<lambda>a. map_ok JobArgs.UninstallPackage (de_UninstallPackage e a))"
| "parse_job_args e ActionKind.GrantJitAdmin = (\<lambda>a. bind_result (de_GrantJitAdmin e a) (\<lambda>v.
     if duration_minutes v = 0 then Err ''duration_minutes must be > 0''
     else if duration_minutes v > GRANT_JIT_ADMIN_MAX_DURATION_MINUTES
       then Err (exceeds ''duration_minutes'' (duration_minutes v) GRANT_JIT_ADMIN_MAX_DURATION_MINUTES)
     else Ok (JobArgs.GrantJitAdmin v)))"
| "parse_job_args e ActionKind.RevokeAdmin = (\<lambda>a. map_ok JobArgs.RevokeAdmin (de_RevokeAdmin e a))"
| "parse_job_args e ActionKind.RunScript = (\<lambda>a. bind_result (de_RunScript e a) (\<lambda>v.
     if timeout_seconds v = 0 then Err ''timeout_seconds must be > 0''
     else if timeout_seconds v > RUN_SCRIPT_MAX_TIMEOUT_SECONDS
       then Err (exceeds ''timeout_seconds'' (timeout_seconds v) RUN_SCRIPT_MAX_TIMEOUT_SECONDS)
     else if \<not> is_lower_hex_64 (script_sha256 v)
       then Err ''script_sha256 must be 64 lowercase hex chars''
     else Ok (JobArgs.RunScript v)))"
| "parse_job_args e ActionKind.PushAppControlPolicy = (\<lambda>a. bind_result (de_PushAppControlPolicy e a) (\<lambda>v.
     if \<not> is_lower_hex_64 (policy_sha256 v) then Err ''policy_sha256 must be 64 lowercase hex chars''
     else Ok (JobArgs.PushAppControlPolicy v)))"
| "parse_job_args e ActionKind.StartRemoteSupport = (\<lambda>a. bind_result (de_StartRemoteSupport e a) (\<lambda>v.
     if max_duration_minutes v = 0 then Err ''max_duration_minutes must be > 0''
     else if max_duration_minutes v > START_REMOTE_SUPPORT_MAX_DURATION_MINUTES
       then Err (exceeds ''max_duration_minutes'' (max_duration_minutes v)
              START_REMOTE_SUPPORT_MAX_DURATION_MINUTES)
     else Ok (JobArgs.StartRemoteSupport v)))"
| "parse_job_args e ActionKind.EndRemoteSupport = (\<lambda>a. map_ok JobArgs.EndRemoteSupport (de_EndRemoteSupport e a))"
| "parse_job_args e ActionKind.QueryAdHoc = (\<lambda>a. bind_result (de_QueryAdHoc e a) (\<lambda>v.
     if max_rows v = 0 then Err ''max_rows must be > 0''
     else if max_rows v > QUERY_AD_HOC_MAX_ROWS
       then Err (exceeds ''max_rows'' (max_rows v) QUERY_AD_HOC_MAX_ROWS)
     else Ok (JobArgs.QueryAdHoc v)))"
| "parse_job_args e ActionKind.RemoteWipe = (\<lambda>a. bind_result (de_RemoteWipe e a) (\<lambda>v.
     if trim_str (RemoteWipeArgs.reason v) = [] then Err ''reason must be non-empty''
     else Ok (JobArgs.RemoteWipe v)))"
| "parse_job_args e ActionKind.RemoteLock = (\<lambda>a. bind_result (de_RemoteLock e a) (\<lambda>v.
     let m = RemoteLockArgs.message v in
     Ok (JobArgs.RemoteLock
       (if length m > 240 then RemoteLockArgs.message_update (\<lambda>_. take (floor_boundary m 240) m) v
        else v))))"
| "parse_job_args e ActionKind.EnterLostMode = (\<lambda>a. bind_result (de_EnterLostMode e a) (\<lambda>v.
     if trim_str (EnterLostModeArgs.message v) = [] then Err ''message must be non-empty''
     else Ok (JobArgs.EnterLostMode v)))"
| "parse_job_args e ActionKind.ExitLostMode = (\<lambda>a. map_ok JobArgs.ExitLostMode (de_ExitLostMode e a))"
| "parse_job_args e ActionKind.EscrowRecoveryKey = (\<lambda>a. map_ok JobArgs.EscrowRecoveryKey (de_EscrowRecoveryKey e a))"
| "parse_job_args e ActionKind.InstallOsUpdate = (\<lambda>a. bind_result (de_InstallOsUpdate e a) (\<lambda>v.
     if reboot_policy v \<notin> {''never'', ''if_required'', ''force''}
     then Err (''reboot_policy = '' @ debug_str e (reboot_policy v) @ ''; expected never|if_required|force'')
     else Ok (JobArgs.InstallOsUpdate v)))"
| "parse_job_args e ActionKind.ApplyConfigProfile = (\<lambda>a. bind_result (de_ApplyConfigProfile e a) (\<lambda>v.
     if \<not> is_lower_hex_64 (profile_sha256 v) then Err ''profile_sha256 must be 64 lowercase hex chars''
     else Ok (JobArgs.ApplyConfigProfile v)))"
| "parse_job_args e ActionKind.EnableDiskEncryption = (\<lambda>a. map_ok JobArgs.EnableDiskEncryption (de_EnableDiskEncryption e a))"
| "parse_job_args e ActionKind.EnableFirewall = (\<lambda>a. map_ok JobArgs.EnableFirewall (de_EnableFirewall e a))"
| "parse_job_args e ActionKind.SetScreenLock = (\<lambda>a. bind_result (de_SetScreenLock e a) (\<lambda>v.
     if timeout_secs v = 0 \<or> timeout_secs v > 3600
     then Err (''timeout_secs = '' @ nat_str (timeout_secs v) @ ''; must be in 1..=3600'')
     else Ok (JobArgs.SetScreenLock v)))"
| "parse_job_args e ActionKind.IsolateHost = (\<lambda>a. bind_result (de_IsolateHost e a) (\<lambda>v.
     bind_result (check_cidrs e (extra_allow_ips v)) (\<lambda>_. Ok (JobArgs.IsolateHost v))))"
| "parse_job_args e ActionKind.UnisolateHost = (\<lambda>a. map_ok JobArgs.UnisolateHost (de_UnisolateHost e a))"

definition parse_args :: "args_env \<Rightarrow> SignedActionJob \<Rightarrow> (JobArgs, SignedJobError) result" where
  "parse_args e j =
     map_err (SignedJobError.ArgsParseError (action j)) (parse_job_args e (action j) (SignedActionJob.args j))"

section \<open>What a successful parse guarantees\<close>

primrec action_of_args :: "JobArgs \<Rightarrow> ActionKind" where
  "action_of_args (JobArgs.InstallPackage v) = ActionKind.InstallPackage"
| "action_of_args (JobArgs.UpdatePackage v) = ActionKind.UpdatePackage"
| "action_of_args (JobArgs.UninstallPackage v) = ActionKind.UninstallPackage"
| "action_of_args (JobArgs.GrantJitAdmin v) = ActionKind.GrantJitAdmin"
| "action_of_args (JobArgs.RevokeAdmin v) = ActionKind.RevokeAdmin"
| "action_of_args (JobArgs.RunScript v) = ActionKind.RunScript"
| "action_of_args (JobArgs.PushAppControlPolicy v) = ActionKind.PushAppControlPolicy"
| "action_of_args (JobArgs.StartRemoteSupport v) = ActionKind.StartRemoteSupport"
| "action_of_args (JobArgs.EndRemoteSupport v) = ActionKind.EndRemoteSupport"
| "action_of_args (JobArgs.QueryAdHoc v) = ActionKind.QueryAdHoc"
| "action_of_args (JobArgs.RemoteWipe v) = ActionKind.RemoteWipe"
| "action_of_args (JobArgs.RemoteLock v) = ActionKind.RemoteLock"
| "action_of_args (JobArgs.EnterLostMode v) = ActionKind.EnterLostMode"
| "action_of_args (JobArgs.ExitLostMode v) = ActionKind.ExitLostMode"
| "action_of_args (JobArgs.EscrowRecoveryKey v) = ActionKind.EscrowRecoveryKey"
| "action_of_args (JobArgs.InstallOsUpdate v) = ActionKind.InstallOsUpdate"
| "action_of_args (JobArgs.ApplyConfigProfile v) = ActionKind.ApplyConfigProfile"
| "action_of_args (JobArgs.EnableDiskEncryption v) = ActionKind.EnableDiskEncryption"
| "action_of_args (JobArgs.EnableFirewall v) = ActionKind.EnableFirewall"
| "action_of_args (JobArgs.SetScreenLock v) = ActionKind.SetScreenLock"
| "action_of_args (JobArgs.IsolateHost v) = ActionKind.IsolateHost"
| "action_of_args (JobArgs.UnisolateHost v) = ActionKind.UnisolateHost"

text \<open>Sixty-four lower-case hex digits, stated on the bytes.\<close>

definition hex64 :: "string \<Rightarrow> bool" where
  "hex64 s \<longleftrightarrow> length s = 64 \<and> set s \<subseteq> set ''0123456789abcdef''"

text \<open>A decoded Rust string is UTF-8, and then \<open>is_lower_hex_64\<close> pins down its bytes.\<close>

definition sha_ok :: "string \<Rightarrow> bool" where
  "sha_ok s \<longleftrightarrow> (utf8_valid s \<longrightarrow> hex64 s)"

definition args_ok :: "args_env \<Rightarrow> JobArgs \<Rightarrow> bool" where
  "args_ok e a = (case a of
     JobArgs.GrantJitAdmin v \<Rightarrow> 0 < duration_minutes v \<and> duration_minutes v \<le> 480
   | JobArgs.RunScript v \<Rightarrow> 0 < timeout_seconds v \<and> timeout_seconds v \<le> 1800 \<and> sha_ok (script_sha256 v)
   | JobArgs.PushAppControlPolicy v \<Rightarrow> sha_ok (policy_sha256 v)
   | JobArgs.StartRemoteSupport v \<Rightarrow> 0 < max_duration_minutes v \<and> max_duration_minutes v \<le> 240
   | JobArgs.QueryAdHoc v \<Rightarrow> 0 < max_rows v \<and> max_rows v \<le> 10000
   | JobArgs.RemoteWipe v \<Rightarrow> trim_str (RemoteWipeArgs.reason v) \<noteq> []
   | JobArgs.RemoteLock v \<Rightarrow> length (RemoteLockArgs.message v) \<le> 240
   | JobArgs.EnterLostMode v \<Rightarrow> trim_str (EnterLostModeArgs.message v) \<noteq> []
   | JobArgs.InstallOsUpdate v \<Rightarrow> reboot_policy v \<in> {''never'', ''if_required'', ''force''}
   | JobArgs.ApplyConfigProfile v \<Rightarrow> sha_ok (profile_sha256 v)
   | JobArgs.SetScreenLock v \<Rightarrow> 1 \<le> timeout_secs v \<and> timeout_secs v \<le> 3600
   | JobArgs.IsolateHost v \<Rightarrow> (\<forall>c \<in> set (extra_allow_ips v). is_ok (parse_ipnet e c))
   | _ \<Rightarrow> True)"

lemma is_lower_hex_64_hex:
  assumes "utf8_valid s" "is_lower_hex_64 s"
  shows "hex64 s"
proof -
  have "set g \<subseteq> set ''0123456789abcdef''" if g: "g \<in> set (utf8_chars s)" for g
  proof -
    have ok: "utf8_seq_ok g" "group_shape g"
      using assms(1) g utf8_chars_shape by (auto simp: utf8_valid_def list_all_iff)
    have r: "(48 \<le> scalar g \<and> scalar g \<le> 57) \<or> (97 \<le> scalar g \<and> scalar g \<le> 102)"
      using assms(2) g by (auto simp: is_lower_hex_64_def)
    then have "length g = 1" using seq_ok_length [OF ok] by auto
    then obtain c where c: "g = [c]" by (auto simp: length_Suc_conv)
    have "byte_of c \<in> set (map byte_of ''0123456789abcdef'')" using r unfolding c by simp presburger
    then obtain d where "d \<in> set ''0123456789abcdef''" "byte_of c = byte_of d" unfolding set_map by (rule imageE)
    then have "c \<in> set ''0123456789abcdef''" by (simp only: of_char_eq_iff)
    then show ?thesis unfolding c list.set by (rule insert_subsetI) (rule empty_subsetI)
  qed
  then have "set (concat (utf8_chars s)) \<subseteq> set ''0123456789abcdef''" unfolding set_concat by blast
  then show ?thesis using assms(2) by (simp add: hex64_def is_lower_hex_64_def)
qed

lemma is_lower_hex_64_sha_ok: "is_lower_hex_64 s \<Longrightarrow> sha_ok s"
  by (simp add: sha_ok_def is_lower_hex_64_hex)

lemma check_cidrs_Ok: "check_cidrs e cs = Ok () \<longleftrightarrow> (\<forall>c \<in> set cs. is_ok (parse_ipnet e c))"
  by (induction cs) (auto split: result.splits)

lemmas parse_caps =
  GRANT_JIT_ADMIN_MAX_DURATION_MINUTES_def RUN_SCRIPT_MAX_TIMEOUT_SECONDS_def
  START_REMOTE_SUPPORT_MAX_DURATION_MINUTES_def QUERY_AD_HOC_MAX_ROWS_def

lemma parse_job_args_action: "parse_job_args e k a = Ok r \<Longrightarrow> action_of_args r = k"
  by (cases k) (auto simp: result_simps Let_def split: if_splits)

lemma parse_job_args_ok:
  assumes "parse_job_args e k a = Ok r"
  shows "args_ok e r"
proof (cases "k = ActionKind.RemoteLock")
  case True
  then obtain v where r: "r = JobArgs.RemoteLock (let m = RemoteLockArgs.message v in
      if length m > 240 then RemoteLockArgs.message_update (\<lambda>_. take (floor_boundary m 240) m) v else v)"
    using assms by (auto simp: result_simps Let_def)
  show ?thesis
    unfolding r args_ok_def Let_def by (simp add: order.trans [OF floor_boundary_le])
next
  case False
  then show ?thesis using assms
    by (cases k) (auto simp: result_simps args_ok_def parse_caps is_lower_hex_64_sha_ok check_cidrs_Ok
      split: if_splits)
qed

lemma parse_args_Ok_iff:
  "parse_args e j = Ok r \<longleftrightarrow> parse_job_args e (action j) (SignedActionJob.args j) = Ok r"
  by (simp add: parse_args_def result_simps)

lemma validate_structure_Ok_iff:
  "validate_structure e j = Ok () \<longleftrightarrow> schema_version j = 1 \<and>
     (\<exists>b. to_vec e (SignedActionJob.args j) = Ok b \<and> length b \<le> 65536) \<and> not_before j \<le> not_after j"
  by (auto simp: validate_structure_def result_simps SIGNED_ACTION_JOB_SCHEMA_VERSION_def
      SIGNED_JOB_ARGS_MAX_BYTES_def not_less split: if_splits)

lemma lock_message_bounds:
  assumes "de_RemoteLock e a = Ok v" "utf8_valid (RemoteLockArgs.message v)"
  shows "\<exists>w. parse_job_args e ActionKind.RemoteLock a = Ok (JobArgs.RemoteLock w) \<and>
     (\<exists>n. RemoteLockArgs.message w = take n (RemoteLockArgs.message v)) \<and>
     utf8_valid (RemoteLockArgs.message w) \<and>
     length (RemoteLockArgs.message w) \<le> 240 \<and>
     min 237 (length (RemoteLockArgs.message v)) \<le> length (RemoteLockArgs.message w) \<and>
     (length (RemoteLockArgs.message v) \<le> 240 \<longrightarrow> w = v)"
proof (cases "length (RemoteLockArgs.message v) > 240")
  case True
  let ?m = "RemoteLockArgs.message v" and ?n = "floor_boundary (RemoteLockArgs.message v) 240"
  have "?n \<le> 240" "240 \<le> ?n + 3" "utf8_valid (take ?n ?m)"
    using True assms(2) floor_boundary_le [of ?m 240] floor_boundary_ge [of ?m 240]
      utf8_valid_take floor_boundary_boundary by auto
  then show ?thesis using True assms(1) by (auto simp: bind_result_def Let_def)
next
  case False
  then show ?thesis using assms
    by (auto simp: bind_result_def Let_def intro!: exI [of _ "length (RemoteLockArgs.message v)"])
qed

section \<open>Properties\<close>

text \<open>Concrete decoders for the witnesses: a job carries a grant of \<open>args\<close> minutes or a lock message.\<close>

definition sample_args_env :: args_env where
  "sample_args_env = \<lparr>
     to_vec = (\<lambda>v. Ok ''{}''),
     de_InstallPackage = (\<lambda>v. Err ''e''), de_UpdatePackage = (\<lambda>v. Err ''e''),
     de_UninstallPackage = (\<lambda>v. Err ''e''),
     de_GrantJitAdmin = (\<lambda>v. case v of
        JNumber (PosInt n) \<Rightarrow> Ok \<lparr>GrantJitAdminArgs.user = ''ada'', duration_minutes = n,
          reason = ''patch'', approver_id = 7\<rparr>
      | _ \<Rightarrow> Err ''invalid type''),
     de_RevokeAdmin = (\<lambda>v. Err ''e''), de_RunScript = (\<lambda>v. Err ''e''),
     de_PushAppControlPolicy = (\<lambda>v. Err ''e''), de_StartRemoteSupport = (\<lambda>v. Err ''e''),
     de_EndRemoteSupport = (\<lambda>v. Err ''e''), de_QueryAdHoc = (\<lambda>v. Err ''e''),
     de_RemoteWipe = (\<lambda>v. case v of
        JString s \<Rightarrow> Ok \<lparr>RemoteWipeArgs.reason = s, crypto_shred_only = False, wait_for_ac = False\<rparr>
      | _ \<Rightarrow> Err ''invalid type''),
     de_RemoteLock = (\<lambda>v. case v of
        JString s \<Rightarrow> Ok \<lparr>RemoteLockArgs.message = s\<rparr> | _ \<Rightarrow> Err ''invalid type''),
     de_EnterLostMode = (\<lambda>v. Err ''e''), de_ExitLostMode = (\<lambda>v. Ok ()),
     de_EscrowRecoveryKey = (\<lambda>v. Err ''e''), de_InstallOsUpdate = (\<lambda>v. Err ''e''),
     de_ApplyConfigProfile = (\<lambda>v. Err ''e''), de_EnableDiskEncryption = (\<lambda>v. Ok ()),
     de_EnableFirewall = (\<lambda>v. Ok ()), de_SetScreenLock = (\<lambda>v. Err ''e''),
     de_IsolateHost = (\<lambda>v. Err ''e''), de_UnisolateHost = (\<lambda>v. Err ''e''),
     parse_ipnet = (\<lambda>s. Err ''invalid IP address syntax''), debug_str = (\<lambda>s. s)\<rparr>"

definition sample_job :: SignedActionJob where
  "sample_job = \<lparr>job_id = 1, tenant_id = 2, device_id = 3, schema_version = 1,
     recommendation_id = None, action = ActionKind.GrantJitAdmin, args = JNumber (PosInt 60),
     not_before = 0, not_after = 3600000000000, signature = ''s'', key_id = ''k1'',
     correlation_id = None, additional_signatures = []\<rparr>"

text \<open>
  Whatever the argument decoders accept, a job whose arguments parse carries the argument
  struct of its own action, within every cap: a JIT grant of 1 to 480 minutes, a script timeout of
  1 to 1800 seconds and a 64-digit hex hash, a support session of 1 to 240 minutes, 1 to 10000
  query rows, a screen-lock timeout of 1 to 3600 seconds, a lock message of at most 240 bytes,
  non-blank wipe and lost-mode texts, a known reboot policy, and only well-formed CIDR ranges.
\<close>

theorem parse_args_within_caps:
  assumes "parse_args e j = Ok r"
  shows "action_of_args r = action j \<and> args_ok e r"
  using assms parse_job_args_action parse_job_args_ok by (auto simp: parse_args_Ok_iff)

theorem parse_args_within_caps_witness:
  "args_ok sample_args_env (JobArgs.GrantJitAdmin \<lparr>GrantJitAdminArgs.user = ''ada'',
     duration_minutes = 60, reason = ''patch'', approver_id = 7\<rparr>)"
proof -
  have "parse_args sample_args_env sample_job = Ok (JobArgs.GrantJitAdmin
    \<lparr>GrantJitAdminArgs.user = ''ada'', duration_minutes = 60, reason = ''patch'', approver_id = 7\<rparr>)"
    by code_simp
  from parse_args_within_caps [OF this] show ?thesis by simp
qed

text \<open>
  The lock-screen message is truncated without harm. For every message the parser returns a
  prefix that is still valid UTF-8, has at most 240 bytes, drops at most three bytes more than the
  cap demands, and is the message itself when that already fits.
\<close>

theorem remote_lock_message_truncation:
  assumes "de_RemoteLock e a = Ok v" and "utf8_valid (RemoteLockArgs.message v)"
  shows "\<exists>w. parse_job_args e ActionKind.RemoteLock a = Ok (JobArgs.RemoteLock w) \<and>
     (\<exists>n. RemoteLockArgs.message w = take n (RemoteLockArgs.message v)) \<and>
     utf8_valid (RemoteLockArgs.message w) \<and>
     length (RemoteLockArgs.message w) \<le> 240 \<and>
     min 237 (length (RemoteLockArgs.message v)) \<le> length (RemoteLockArgs.message w) \<and>
     (length (RemoteLockArgs.message v) \<le> 240 \<longrightarrow> w = v)"
  using assms by (rule lock_message_bounds)

theorem remote_lock_message_truncation_witness:
  "\<exists>w. parse_job_args sample_args_env ActionKind.RemoteLock (JString (replicate 300 CHR ''a''))
     = Ok (JobArgs.RemoteLock w) \<and> 237 \<le> length (RemoteLockArgs.message w)
     \<and> length (RemoteLockArgs.message w) \<le> 240"
proof -
  let ?m = "replicate 300 CHR ''a''"
  have "de_RemoteLock sample_args_env (JString ?m) = Ok \<lparr>RemoteLockArgs.message = ?m\<rparr>"
    by (simp add: sample_args_env_def)
  moreover have "utf8_valid (RemoteLockArgs.message \<lparr>RemoteLockArgs.message = ?m\<rparr>)"
    by (simp add: utf8_valid_ascii list_all_iff)
  ultimately show ?thesis using remote_lock_message_truncation by fastforce
qed

text \<open>
  \<open>validate_structure\<close> accepts a job exactly when its schema version is 1, its arguments
  serialize to at most 64 KiB and its validity window is not inverted.
\<close>

theorem validate_structure_accepts_iff:
  "validate_structure e j = Ok () \<longleftrightarrow> schema_version j = 1 \<and>
     (\<exists>b. to_vec e (SignedActionJob.args j) = Ok b \<and> length b \<le> 65536) \<and> not_before j \<le> not_after j"
  by (rule validate_structure_Ok_iff)

end
