(* ===== verification/ActionReport.thy ===== *)
theory ActionReport
  imports SignedJob
begin

text \<open>
  \<open>crates/sda-device-control/src/action_result.rs\<close>: the report on an executed or refused job, its
  structural checks, and the bound on the captured output. The lemmas show the bound exact up to
  the three bytes a UTF-8 boundary can cost, and characterise the reports that validate.
\<close>

definition ACTION_RESULT_OUTPUT_MAX_BYTES :: nat where "ACTION_RESULT_OUTPUT_MAX_BYTES = 64 * 1024"

text \<open>The marker contains an em dash, three bytes of UTF-8.\<close>

definition TRUNCATION_MARKER :: string where
  "TRUNCATION_MARKER = ''[output truncated '' @ [CHR 0xE2, CHR 0x80, CHR 0x94] @
     '' full bytes hashed in evidence] ''"

record ActionResult =
  job_id :: uuid
  tenant_id :: uuid
  device_id :: uuid
  schema_version :: nat
  action :: ActionKind
  status :: ActionStatus
  refused_reason :: "JobRefused option"
  started_at :: datetime
  finished_at :: datetime
  exit_code :: "int option"
  output_text :: string
  output_truncated :: bool
  evidence_id :: uuid

datatype ActionResultError =
    SchemaVersionUnsupported nat
  | BadTimeOrder
  | MissingRefusedReason
  | UnexpectedRefusedReason ActionStatus
  | RefusedHadSideEffect
  | OutputTooLarge nat nat

definition validate_result :: "ActionResult \<Rightarrow> (unit, ActionResultError) result" where
  "validate_result r =
     (if ActionResult.schema_version r \<noteq> ACTION_RESULT_SCHEMA_VERSION
      then Err (ActionResultError.SchemaVersionUnsupported (ActionResult.schema_version r))
      else if started_at r > finished_at r then Err BadTimeOrder
      else
        (case (case status r of
            Refused \<Rightarrow>
              if refused_reason r = None then Err MissingRefusedReason
              else if started_at r \<noteq> finished_at r then Err RefusedHadSideEffect
              else Ok ()
          | other \<Rightarrow>
              if refused_reason r \<noteq> None then Err (UnexpectedRefusedReason other) else Ok ()) of
          Err e \<Rightarrow> Err e
        | Ok _ \<Rightarrow>
            if length (output_text r) > ACTION_RESULT_OUTPUT_MAX_BYTES
            then Err (OutputTooLarge (length (output_text r)) ACTION_RESULT_OUTPUT_MAX_BYTES)
            else Ok ()))"

definition bound_output :: "string \<Rightarrow> string \<times> bool" where
  "bound_output out =
     (if length out \<le> ACTION_RESULT_OUTPUT_MAX_BYTES then (out, False)
      else let limit = floor_boundary out (ACTION_RESULT_OUTPUT_MAX_BYTES - length TRUNCATION_MARKER)
           in (TRUNCATION_MARKER @ take limit out, True))"

section \<open>Lemmas\<close>

lemma length_TRUNCATION_MARKER [simp]: "length TRUNCATION_MARKER = 53"
  by (simp add: TRUNCATION_MARKER_def)

lemma utf8_valid_TRUNCATION_MARKER: "utf8_valid TRUNCATION_MARKER"
  by code_simp

lemma bound_output_cases:
  assumes "utf8_valid out" and "65536 < length out"
  shows "\<exists>n. bound_output out = (TRUNCATION_MARKER @ take n out, True) \<and> n \<le> 65483 \<and> 65480 \<le> n
     \<and> utf8_valid (take n out)"
proof -
  let ?n = "floor_boundary out 65483"
  have "?n \<le> 65483" "65483 \<le> ?n + 3" "utf8_valid (take ?n out)"
    using assms floor_boundary_le [of out 65483] floor_boundary_ge [of out 65483]
      utf8_valid_take floor_boundary_boundary by auto
  moreover have "bound_output out = (TRUNCATION_MARKER @ take ?n out, True)"
    using assms(2) by (simp add: bound_output_def ACTION_RESULT_OUTPUT_MAX_BYTES_def Let_def)
  ultimately show ?thesis by auto
qed

lemma bound_output_length: "length (fst (bound_output out)) \<le> 65536"
proof -
  have "floor_boundary out 65483 \<le> 65483" by (rule floor_boundary_le)
  then show ?thesis by (simp add: bound_output_def ACTION_RESULT_OUTPUT_MAX_BYTES_def Let_def)
qed

lemma validate_result_Ok_iff:
  "validate_result r = Ok () \<longleftrightarrow> ActionResult.schema_version r = 1 \<and> started_at r \<le> finished_at r \<and>
     (refused_reason r \<noteq> None \<longleftrightarrow> status r = Refused) \<and>
     (status r = Refused \<longrightarrow> started_at r = finished_at r) \<and> length (output_text r) \<le> 65536"
  by (cases "status r"; cases "refused_reason r")
    (auto simp: validate_result_def ACTION_RESULT_SCHEMA_VERSION_def ACTION_RESULT_OUTPUT_MAX_BYTES_def)

section \<open>Properties\<close>

text \<open>
  Bounding the output is safe. Output of at most 64 KiB passes unchanged and unmarked; longer
  valid UTF-8 output becomes the truncation marker followed by a prefix of the original, still
  valid UTF-8, never longer than 64 KiB and at most three bytes shorter.
\<close>

theorem bound_output_spec:
  assumes "utf8_valid out"
  shows "if length out \<le> 65536 then bound_output out = (out, False)
     else \<exists>n. bound_output out = (TRUNCATION_MARKER @ take n out, True) \<and>
       utf8_valid (TRUNCATION_MARKER @ take n out) \<and>
       65533 \<le> length (TRUNCATION_MARKER @ take n out) \<and>
       length (TRUNCATION_MARKER @ take n out) \<le> 65536"
proof (cases "length out \<le> 65536")
  case True
  then show ?thesis by (simp add: bound_output_def ACTION_RESULT_OUTPUT_MAX_BYTES_def)
next
  case False
  then obtain n where n: "bound_output out = (TRUNCATION_MARKER @ take n out, True)" "n \<le> 65483"
    "65480 \<le> n" "utf8_valid (take n out)"
    using bound_output_cases [OF assms] by auto
  have "utf8_valid (TRUNCATION_MARKER @ take n out)"
    using n(4) by (intro utf8_valid_append utf8_valid_TRUNCATION_MARKER)
  then show ?thesis using n False by (auto simp: min_def intro!: exI [of _ n])
qed

theorem bound_output_spec_witness:
  "bound_output ''done'' = (''done'', False) \<and>
   (\<exists>n. bound_output (replicate 70000 CHR ''x'') = (TRUNCATION_MARKER @ take n (replicate 70000 CHR ''x''), True))"
proof
  show "bound_output ''done'' = (''done'', False)"
    using bound_output_spec [of "''done''"] by (simp add: utf8_valid_def)
  have "utf8_valid (replicate 70000 CHR ''x'')" by (rule utf8_valid_ascii) (simp add: list_all_iff)
  from bound_output_spec [OF this]
  show "\<exists>n. bound_output (replicate 70000 CHR ''x'') = (TRUNCATION_MARKER @ take n (replicate 70000 CHR ''x''), True)"
    unfolding length_replicate by auto
qed

text \<open>
  A report validates exactly when it has version 1, does not end before it starts, carries a
  refusal reason if and only if it is a refusal, shows no elapsed time for a refusal, and keeps
  its output within 64 KiB.
\<close>

theorem validate_result_iff:
  "validate_result r = Ok () \<longleftrightarrow> ActionResult.schema_version r = 1 \<and> started_at r \<le> finished_at r \<and>
     (refused_reason r \<noteq> None \<longleftrightarrow> status r = Refused) \<and>
     (started_at r = finished_at r \<or> status r \<in> {Success, Failure, Skipped}) \<and> length (output_text r) \<le> 65536"
  by (cases "status r") (auto simp: validate_result_Ok_iff)

end
