(* ===== verification/Evidence.thy ===== *)
theory Evidence
  imports ActionReport
begin

text \<open>
  \<open>crates/sda-device-control/src/evidence.rs\<close>: the append-only evidence chain. A record's chain
  hash is the SHA-256 of its canonical JSON, signature included, and the next record stores it.
  SHA-256 is a parameter \<open>sha\<close>, as are the printers of ids and timestamps (\<^typ>\<open>wire\<close>). The
  locale \<open>hash_chain\<close> proves once that a hash-linked log is tamper evident; its interpretation
  on the evidence records rests on the injectivity of the canonical encoding.
\<close>

section \<open>Records\<close>

definition FIRST_RECORD_PREV_HASH :: bytes where
  "FIRST_RECORD_PREV_HASH = replicate 32 CHR 0x00"

record EvidenceRecord =
  evidence_id :: uuid
  tenant_id :: uuid
  device_id :: uuid
  schema_version :: nat
  job_id :: uuid
  recommendation_id :: "uuid option"
  action :: ActionKind
  args_canonical :: string
  started_at :: datetime
  finished_at :: datetime
  status :: ActionStatus
  refused_reason :: "JobRefused option"
  exit_code :: "int option"
  output_sha256 :: bytes
  platform :: Platform
  agent :: AgentVersion
  prev_record_hash :: bytes
  signature :: bytes
  key_id :: string

datatype EvidenceError =
    SchemaVersionUnsupported nat
  | BadTimeOrder
  | MissingRefusedReason
  | UnexpectedRefusedReason ActionStatus
  | Canonicalize canonicalize_error

definition validate_record :: "EvidenceRecord \<Rightarrow> (unit, EvidenceError) result" where
  "validate_record r =
     (if EvidenceRecord.schema_version r \<noteq> EVIDENCE_RECORD_SCHEMA_VERSION
      then Err (EvidenceError.SchemaVersionUnsupported (EvidenceRecord.schema_version r))
      else if EvidenceRecord.started_at r > EvidenceRecord.finished_at r then Err EvidenceError.BadTimeOrder
      else (case EvidenceRecord.status r of
          Refused \<Rightarrow>
            if EvidenceRecord.refused_reason r = None then Err EvidenceError.MissingRefusedReason else Ok ()
        | other \<Rightarrow>
            if EvidenceRecord.refused_reason r \<noteq> None
            then Err (EvidenceError.UnexpectedRefusedReason other) else Ok ()))"

section \<open>Encoding\<close>

definition int_value :: "int \<Rightarrow> json" where
  "int_value i = JNumber (if i < 0 then NegInt i else PosInt (nat i))"

text \<open>The \<open>byte_array_32\<close> adapter: lower-case hex out, either case in.\<close>

definition serialize_hash :: "bytes \<Rightarrow> json" where
  "serialize_hash b = JString (hex_str b)"

datatype hex_error = BadHexLength nat | NonHexCharacter char

definition hex_nibble :: "char \<Rightarrow> (nat, hex_error) result" where
  "hex_nibble c =
     (let n = byte_of c in
      if 48 \<le> n \<and> n \<le> 57 then Ok (n - 48)
      else if 97 \<le> n \<and> n \<le> 102 then Ok (10 + n - 97)
      else if 65 \<le> n \<and> n \<le> 70 then Ok (10 + n - 65)
      else Err (NonHexCharacter c))"

fun hex_pairs :: "string \<Rightarrow> (bytes, hex_error) result" where
  "hex_pairs (a # b # rest) =
     bind_result (hex_nibble a) (\<lambda>hi.
     bind_result (hex_nibble b) (\<lambda>lo.
     bind_result (hex_pairs rest) (\<lambda>bs. Ok (char_of (hi * 16 + lo) # bs))))"
| "hex_pairs _ = Ok []"

definition deserialize_hash :: "string \<Rightarrow> (bytes, hex_error) result" where
  "deserialize_hash s = (if length s \<noteq> 64 then Err (BadHexLength (length s)) else hex_pairs s)"

definition record_members :: "wire \<Rightarrow> EvidenceRecord \<Rightarrow> (string \<times> json) list" where
  "record_members w r =
     [(''evidence_id'', JString (uuid_fmt w (EvidenceRecord.evidence_id r))),
      (''tenant_id'', JString (uuid_fmt w (EvidenceRecord.tenant_id r))),
      (''device_id'', JString (uuid_fmt w (EvidenceRecord.device_id r))),
      (''schema_version'', nat_value (EvidenceRecord.schema_version r)),
      (''job_id'', JString (uuid_fmt w (EvidenceRecord.job_id r))),
      (''action'', JString (action_kind_tag (EvidenceRecord.action r))),
      (''args_canonical'', JString (args_canonical r)),
      (''started_at'', JString (dt_fmt w (EvidenceRecord.started_at r))),
      (''finished_at'', JString (dt_fmt w (EvidenceRecord.finished_at r))),
      (''status'', JString (action_status_tag (EvidenceRecord.status r))),
      (''output_sha256'', serialize_hash (output_sha256 r)),
      (''platform'', platform_to_value (platform r)),
      (''agent'', agent_version_to_value (agent r)),
      (''prev_record_hash'', serialize_hash (prev_record_hash r)),
      (''signature'', bytes_value (EvidenceRecord.signature r)),
      (''key_id'', JString (EvidenceRecord.key_id r))] @
     opt_field ''recommendation_id''
       (map_option (\<lambda>u. JString (uuid_fmt w u)) (EvidenceRecord.recommendation_id r)) @
     opt_field ''refused_reason''
       (map_option (\<lambda>x. JString (job_refused_tag x)) (EvidenceRecord.refused_reason r)) @
     opt_field ''exit_code'' (map_option int_value (EvidenceRecord.exit_code r))"

definition record_to_value :: "wire \<Rightarrow> EvidenceRecord \<Rightarrow> json" where
  "record_to_value w r = JObject (record_members w r)"

definition canonical_pre_image :: "wire \<Rightarrow> EvidenceRecord \<Rightarrow> (bytes, EvidenceError) result" where
  "canonical_pre_image w r =
     map_err Canonicalize (canonicalize (JObject (obj_insert ''signature'' (JString []) (record_members w r))))"

definition chain_hash :: "(bytes \<Rightarrow> bytes) \<Rightarrow> wire \<Rightarrow> EvidenceRecord \<Rightarrow> (bytes, EvidenceError) result" where
  "chain_hash sha w r = map_ok sha (map_err Canonicalize (canonicalize (record_to_value w r)))"

definition PHASE1_STUB_KEY_ID :: string where "PHASE1_STUB_KEY_ID = ''sda-evidence-stub-phase1''"

definition phase1_stub_signature :: "(bytes \<Rightarrow> bytes) \<Rightarrow> bytes \<Rightarrow> bytes" where
  "phase1_stub_signature sha pre = (let h = sha pre in h @ h)"

section \<open>The chain\<close>

record EvidenceChain =
  last_chain_hash :: "bytes option"

definition chain_new :: EvidenceChain where
  "chain_new = \<lparr>last_chain_hash = None\<rparr>"

definition with_last :: "bytes \<Rightarrow> EvidenceChain" where
  "with_last h = \<lparr>last_chain_hash = Some h\<rparr>"

definition next_prev_hash :: "EvidenceChain \<Rightarrow> bytes" where
  "next_prev_hash c = (case last_chain_hash c of Some h \<Rightarrow> h | None \<Rightarrow> FIRST_RECORD_PREV_HASH)"

definition chain_append ::
  "(bytes \<Rightarrow> bytes) \<Rightarrow> wire \<Rightarrow> EvidenceChain \<Rightarrow> EvidenceRecord \<Rightarrow> (EvidenceChain, EvidenceError) result" where
  "chain_append sha w c r =
     bind_result (chain_hash sha w r) (\<lambda>h. Ok (c\<lparr>last_chain_hash := Some h\<rparr>))"

definition chain_is_empty :: "EvidenceChain \<Rightarrow> bool" where
  "chain_is_empty c \<longleftrightarrow> last_chain_hash c = None"

record EvidenceContext =
  ctx_args_canonical :: string
  output_full :: bytes
  ctx_platform :: Platform
  ctx_agent :: AgentVersion

definition build_signed_evidence_record ::
  "(bytes \<Rightarrow> bytes) \<Rightarrow> wire \<Rightarrow> SignedActionJob \<Rightarrow> ActionResult \<Rightarrow> EvidenceChain \<Rightarrow> EvidenceContext
     \<Rightarrow> (EvidenceRecord, EvidenceError) result" where
  "build_signed_evidence_record sha w job res chain ctx =
     (let record = \<lparr>
        EvidenceRecord.evidence_id = ActionResult.evidence_id res,
        tenant_id = ActionResult.tenant_id res,
        device_id = ActionResult.device_id res,
        schema_version = EVIDENCE_RECORD_SCHEMA_VERSION,
        job_id = ActionResult.job_id res,
        recommendation_id = SignedActionJob.recommendation_id job,
        action = ActionResult.action res,
        args_canonical = ctx_args_canonical ctx,
        started_at = ActionResult.started_at res,
        finished_at = ActionResult.finished_at res,
        status = ActionResult.status res,
        refused_reason = ActionResult.refused_reason res,
        exit_code = ActionResult.exit_code res,
        output_sha256 = sha (output_full ctx),
        platform = ctx_platform ctx,
        agent = ctx_agent ctx,
        prev_record_hash = next_prev_hash chain,
        signature = [],
        key_id = PHASE1_STUB_KEY_ID\<rparr>
      in bind_result (canonical_pre_image w record) (\<lambda>pre.
         let signed = EvidenceRecord.signature_update (\<lambda>_. phase1_stub_signature sha pre) record
         in bind_result (validate_record signed) (\<lambda>_. Ok signed)))"

section \<open>The encoding of a record is injective\<close>

lemma json_norm_lookup:
  assumes "json_norm (JObject m) = json_norm (JObject n)" "distinct (map fst m)" "distinct (map fst n)"
  shows "map_option json_norm (map_of m k) = map_option json_norm (map_of n k)"
proof -
  let ?f = "map (\<lambda>kv. (fst kv, json_norm (snd kv)))"
  have "set (sort_members (?f m)) = set (sort_members (?f n))" using assms(1) by simp
  then have "set (?f m) = set (?f n)" by simp
  moreover have "distinct (map fst (?f m))" "distinct (map fst (?f n))" using assms by (simp_all add: comp_def)
  ultimately have "map_of (?f m) = map_of (?f n)" by (simp add: map_of_inject_set)
  moreover have "map_of (?f l) = map_option json_norm \<circ> map_of l" for l
    by (induction l) auto
  ultimately have "map_option json_norm \<circ> map_of m = map_option json_norm \<circ> map_of n" by metis
  then show ?thesis by (metis comp_apply)
qed

lemma map_of_opt_field [simp]: "map_of (opt_field k v) k' = (if k' = k then v else None)"
  by (cases v) (simp_all add: opt_field_def)

lemma map_add_opt_field [simp]:
  "(m ++ map_of (opt_field k v)) k' = (if k' = k then (case v of None \<Rightarrow> m k' | Some j \<Rightarrow> Some j) else m k')"
  by (cases v) (simp_all add: opt_field_def)

lemma set_opt_field: "set (opt_field k v) = (case v of None \<Rightarrow> {} | Some j \<Rightarrow> {(k, j)})"
  by (cases v) (simp_all add: opt_field_def)

lemma json_norm_bytes_value [simp]: "json_norm (bytes_value b) = bytes_value b"
  by (simp add: bytes_value_def nat_value_def)

lemma json_norm_nat_value [simp]: "json_norm (nat_value n) = nat_value n"
  by (simp add: nat_value_def)

lemma json_norm_int_value [simp]: "json_norm (int_value i) = int_value i"
  by (simp add: int_value_def)

lemma json_norm_hash [simp]: "json_norm (serialize_hash b) = serialize_hash b"
  by (simp add: serialize_hash_def)

lemma nat_value_inject [simp]: "nat_value m = nat_value n \<longleftrightarrow> m = n"
  by (simp add: nat_value_def)

lemma int_value_inject [simp]: "int_value i = int_value j \<longleftrightarrow> i = j"
  by (auto simp: int_value_def split: if_splits)

lemma serialize_hash_inject [simp]: "serialize_hash a = serialize_hash b \<longleftrightarrow> a = b"
  by (auto simp: serialize_hash_def dest: hex_str_inject)

lemma platform_value_inject:
  assumes "json_norm (platform_to_value p) = json_norm (platform_to_value q)"
  shows "p = q"
proof -
  have D: "distinct (map fst ([(''os'', a), (''version'', b), (''arch'', c)] @ opt_field ''distro'' v))"
    for a b c v by (cases v) (simp_all add: opt_field_def)
  note L = json_norm_lookup [OF assms [unfolded platform_to_value_def] D D]
  have "os p = os q" using L [of "''os''"] by (auto dest: platform_os_tag_inject)
  moreover have "Platform.version p = Platform.version q" using L [of "''version''"] by simp
  moreover have "arch p = arch q" using L [of "''arch''"] by (auto dest: platform_arch_tag_inject)
  moreover have "distro p = distro q"
    using L [of "''distro''"] by (cases "distro p"; cases "distro q") auto
  ultimately show ?thesis by simp
qed

lemma agent_value_inject:
  assumes "json_norm (agent_version_to_value a) = json_norm (agent_version_to_value b)"
  shows "a = b"
proof -
  note L = json_norm_lookup [OF assms [unfolded agent_version_to_value_def]]
  have "AgentVersion.version a = AgentVersion.version b" using L [of "''version''"] by simp
  moreover have "build_sha a = build_sha b" using L [of "''build_sha''"] by simp
  moreover have "AgentVersion.channel a = AgentVersion.channel b" using L [of "''channel''"] by simp
  ultimately show ?thesis by simp
qed

text \<open>What the Rust types guarantee of a record: UTF-8 strings, \<open>u16\<close> and \<open>i32\<close> ranges.\<close>

definition record_wf :: "EvidenceRecord \<Rightarrow> bool" where
  "record_wf r \<longleftrightarrow> EvidenceRecord.schema_version r < 2 ^ 16 \<and> utf8_valid (args_canonical r) \<and>
     (case EvidenceRecord.exit_code r of None \<Rightarrow> True | Some i \<Rightarrow> - (2 ^ 31) \<le> i \<and> i < 2 ^ 31) \<and>
     utf8_valid (Platform.version (platform r)) \<and>
     (case distro (platform r) of None \<Rightarrow> True | Some s \<Rightarrow> utf8_valid s) \<and>
     utf8_valid (AgentVersion.version (agent r)) \<and> utf8_valid (build_sha (agent r)) \<and>
     utf8_valid (AgentVersion.channel (agent r)) \<and> utf8_valid (EvidenceRecord.key_id r)"

lemma snake_case_valid:
  assumes "list_all (\<lambda>c. byte_of c < 128) s"
  shows "utf8_valid (snake_case s)"
proof -
  have low: "byte_of (ascii_lower_byte c) < 128" if "byte_of c < 128" for c
    using that by (simp add: ascii_lower_byte_def)
  have "list_all (\<lambda>c. byte_of c < 128) (snake_tail t)" if "list_all (\<lambda>c. byte_of c < 128) t" for t
    using that low by (induction t) auto
  then have "list_all (\<lambda>c. byte_of c < 128) (snake_case s)"
    using assms low by (cases s) (auto simp: snake_case_def)
  then show ?thesis by (rule utf8_valid_ascii)
qed

lemma action_kind_tag_valid [simp]: "utf8_valid (action_kind_tag a)"
  by (cases a; simp add: action_kind_tag_def snake_case_valid)

lemma action_status_tag_valid [simp]: "utf8_valid (action_status_tag a)"
  by (cases a; simp add: snake_case_valid)

lemma job_refused_tag_valid [simp]: "utf8_valid (job_refused_tag a)"
  by (cases a; simp add: snake_case_valid)

lemma platform_os_tag_valid [simp]: "utf8_valid (platform_os_tag a)"
  by (cases a; simp add: snake_case_valid)

lemma platform_arch_tag_valid [simp]: "utf8_valid (platform_arch_tag a)"
  by (cases a; simp add: snake_case_valid utf8_valid_ascii)

lemma json_wf_int_value: "- (2 ^ 31) \<le> i \<and> i < 2 ^ 31 \<Longrightarrow> json_wf (int_value i)"
  by (auto simp: int_value_def number_wf_def nat_less_iff)

lemma json_wf_nat_value: "n < 2 ^ 64 \<Longrightarrow> json_wf (nat_value n)"
  by (simp add: nat_value_def number_wf_def)

lemma has_float_int_value [simp]: "\<not> has_float (int_value i)"
  by (simp add: int_value_def)

lemma platform_value_wf:
  assumes "utf8_valid (Platform.version p)" "case distro p of None \<Rightarrow> True | Some s \<Rightarrow> utf8_valid s"
  shows "json_wf (platform_to_value p)"
  using assms by (cases "distro p") (auto simp: platform_to_value_def opt_field_def)

lemma platform_value_float [simp]: "\<not> has_float (platform_to_value p)"
  by (auto simp: platform_to_value_def opt_field_def split: option.splits)

lemma agent_value_wf:
  "utf8_valid (AgentVersion.version a) \<Longrightarrow> utf8_valid (build_sha a) \<Longrightarrow> utf8_valid (AgentVersion.channel a) \<Longrightarrow>
   json_wf (agent_version_to_value a)"
  by (simp add: agent_version_to_value_def)

lemma agent_value_float [simp]: "\<not> has_float (agent_version_to_value p)"
  by (simp add: agent_version_to_value_def)

lemma distinct_record_members: "distinct (map fst (record_members w r))"
  by (cases "EvidenceRecord.recommendation_id r"; cases "EvidenceRecord.refused_reason r";
      cases "EvidenceRecord.exit_code r") (simp_all add: record_members_def opt_field_def)

lemma record_members_float: "kv \<in> set (record_members w r) \<Longrightarrow> \<not> has_float (snd kv)"
  by (auto simp: record_members_def set_opt_field serialize_hash_def split: option.splits)

lemma record_members_wf:
  assumes "wire_ok w" "record_wf r" "kv \<in> set (record_members w r)"
  shows "utf8_valid (fst kv) \<and> json_wf (snd kv)"
proof
  show "utf8_valid (fst kv)"
    using assms(3) by (auto simp: record_members_def set_opt_field intro!: utf8_valid_ascii split: option.splits)
  show "json_wf (snd kv)"
    using assms
    by (auto simp: record_members_def set_opt_field serialize_hash_def wire_ok_def record_wf_def
        platform_value_wf agent_value_wf json_wf_int_value json_wf_nat_value split: option.splits)
qed

lemma record_to_value_wf: "wire_ok w \<Longrightarrow> record_wf r \<Longrightarrow> json_wf (record_to_value w r)"
  using record_members_wf distinct_record_members by (simp add: record_to_value_def)

lemma record_to_value_float [simp]: "\<not> has_float (record_to_value w r)"
  using record_members_float by (auto simp: record_to_value_def)

lemma record_value_inject:
  assumes w: "wire_ok w" and eq: "json_norm (record_to_value w r) = json_norm (record_to_value w s)"
  shows "r = s"
proof (rule EvidenceRecord.equality)
  note L = json_norm_lookup [OF eq [unfolded record_to_value_def] distinct_record_members distinct_record_members,
      unfolded record_members_def]
  have U: "uuid_fmt w a = uuid_fmt w b \<Longrightarrow> a = b" for a b using w by (auto simp: wire_ok_def inj_def)
  have T: "dt_fmt w a = dt_fmt w b \<Longrightarrow> a = b" for a b using w by (auto simp: wire_ok_def inj_def)
  show "EvidenceRecord.evidence_id r = EvidenceRecord.evidence_id s" using L [of "''evidence_id''"] U by simp
  show "EvidenceRecord.tenant_id r = EvidenceRecord.tenant_id s" using L [of "''tenant_id''"] U by simp
  show "EvidenceRecord.device_id r = EvidenceRecord.device_id s" using L [of "''device_id''"] U by simp
  show "EvidenceRecord.schema_version r = EvidenceRecord.schema_version s" using L [of "''schema_version''"] by simp
  show "EvidenceRecord.job_id r = EvidenceRecord.job_id s" using L [of "''job_id''"] U by simp
  show "EvidenceRecord.recommendation_id r = EvidenceRecord.recommendation_id s"
    using L [of "''recommendation_id''"] U
    by (cases "EvidenceRecord.recommendation_id r"; cases "EvidenceRecord.recommendation_id s") simp_all
  show "EvidenceRecord.action r = EvidenceRecord.action s"
    using L [of "''action''"] action_kind_tag_inject by simp
  show "args_canonical r = args_canonical s" using L [of "''args_canonical''"] by simp
  show "EvidenceRecord.started_at r = EvidenceRecord.started_at s" using L [of "''started_at''"] T by simp
  show "EvidenceRecord.finished_at r = EvidenceRecord.finished_at s" using L [of "''finished_at''"] T by simp
  show "EvidenceRecord.status r = EvidenceRecord.status s"
    using L [of "''status''"] action_status_tag_inject by simp
  show "EvidenceRecord.refused_reason r = EvidenceRecord.refused_reason s"
    using L [of "''refused_reason''"] job_refused_tag_inject
    by (cases "EvidenceRecord.refused_reason r"; cases "EvidenceRecord.refused_reason s") simp_all
  show "EvidenceRecord.exit_code r = EvidenceRecord.exit_code s"
    using L [of "''exit_code''"]
    by (cases "EvidenceRecord.exit_code r"; cases "EvidenceRecord.exit_code s") simp_all
  show "output_sha256 r = output_sha256 s" using L [of "''output_sha256''"] by simp
  show "platform r = platform s" using L [of "''platform''"] platform_value_inject by simp
  show "agent r = agent s" using L [of "''agent''"] agent_value_inject by simp
  show "prev_record_hash r = prev_record_hash s" using L [of "''prev_record_hash''"] by simp
  show "EvidenceRecord.signature r = EvidenceRecord.signature s" using L [of "''signature''"] by simp
  show "EvidenceRecord.key_id r = EvidenceRecord.key_id s" using L [of "''key_id''"] by simp
qed simp

text \<open>The canonical bytes of a record; a record holds no float, so they always exist.\<close>

definition record_bytes :: "wire \<Rightarrow> EvidenceRecord \<Rightarrow> bytes" where
  "record_bytes w r = (case canonicalize (record_to_value w r) of Ok b \<Rightarrow> b | Err _ \<Rightarrow> [])"

lemma canonicalize_record: "canonicalize (record_to_value w r) = Ok (record_bytes w r)"
  using write_value_is_ok [of "record_to_value w r"]
  by (auto simp: record_bytes_def canonicalize_def is_ok_iff)

lemma chain_hash_eq: "chain_hash sha w r = Ok (sha (record_bytes w r))"
  by (simp add: chain_hash_def canonicalize_record map_ok_def map_err_def)

lemma record_bytes_inject:
  assumes "wire_ok w" "record_wf r" "record_wf s" "record_bytes w r = record_bytes w s"
  shows "r = s"
proof -
  have "canonicalize (record_to_value w r) = canonicalize (record_to_value w s)"
    using assms(4) by (simp add: canonicalize_record)
  then have "json_norm (record_to_value w r) = json_norm (record_to_value w s)"
    using assms by (subst (asm) canonicalize_eq) (simp_all add: record_to_value_wf)
  then show ?thesis using assms(1) by (rule record_value_inject [rotated])
qed

section \<open>Hash chains are tamper evident\<close>

text \<open>A log links when every entry names the hash of its predecessor, the first one the origin.\<close>

primrec linked :: "('r \<Rightarrow> 'h) \<Rightarrow> ('r \<Rightarrow> 'h) \<Rightarrow> 'h \<Rightarrow> 'r list \<Rightarrow> bool" where
  "linked prev hash h [] = True"
| "linked prev hash h (r # rs) = (prev r = h \<and> linked prev hash (hash r) rs)"

definition log_head :: "('r \<Rightarrow> 'h) \<Rightarrow> 'h \<Rightarrow> 'r list \<Rightarrow> 'h" where
  "log_head hash h rs = (if rs = [] then h else hash (last rs))"

lemma linked_snoc: "linked prev hash h (rs @ [r]) \<longleftrightarrow> linked prev hash h rs \<and> prev r = log_head hash h rs"
  by (induction rs arbitrary: h) (auto simp: log_head_def)

lemma log_head_snoc [simp]: "log_head hash h (rs @ [r]) = hash r"
  by (simp add: log_head_def)

text \<open>
  The interface: an encoding that is injective on admissible entries, a hash of it, and the link
  field. Two linked logs with the same head are equal, unless the hash has an explicit collision
  or an entry hashes to the origin.
\<close>

locale hash_chain =
  fixes enc :: "'r \<Rightarrow> bytes" and prev :: "'r \<Rightarrow> 'h" and sha :: "bytes \<Rightarrow> 'h" and admissible :: "'r \<Rightarrow> bool"
  assumes enc_inject: "admissible r \<Longrightarrow> admissible s \<Longrightarrow> enc r = enc s \<Longrightarrow> r = s"
begin

lemma same_head:
  "linked prev (\<lambda>r. sha (enc r)) h rs \<Longrightarrow> linked prev (\<lambda>r. sha (enc r)) h ss \<Longrightarrow>
   list_all admissible rs \<Longrightarrow> list_all admissible ss \<Longrightarrow>
   log_head (\<lambda>r. sha (enc r)) h rs = log_head (\<lambda>r. sha (enc r)) h ss \<Longrightarrow>
   rs = ss \<or> (\<exists>a b. a \<noteq> b \<and> sha a = sha b) \<or> (\<exists>a. sha a = h)"
proof (induction rs arbitrary: ss rule: rev_induct)
  case Nil
  then show ?case by (cases ss rule: rev_cases) (auto simp: log_head_def)
next
  case (snoc r rs)
  show ?case
  proof (cases ss rule: rev_cases)
    case Nil
    then show ?thesis using snoc.prems by (auto simp: log_head_def)
  next
    case (snoc ss' s)
    show ?thesis
    proof (cases "enc r = enc s")
      case True
      then have "r = s" using snoc.prems(3,4) snoc enc_inject by auto
      then show ?thesis using snoc.prems snoc.IH [of ss'] snoc by (auto simp: linked_snoc)
    next
      case False
      then show ?thesis using snoc.prems(5) snoc by auto
    qed
  qed
qed

end

interpretation evidence: hash_chain "record_bytes w" prev_record_hash sha "\<lambda>r. wire_ok w \<and> record_wf r"
  for w and sha :: "bytes \<Rightarrow> bytes"
  by unfold_locales (auto intro: record_bytes_inject)

section \<open>Building and appending\<close>

lemma validate_record_Ok_iff:
  "validate_record r = Ok () \<longleftrightarrow> EvidenceRecord.schema_version r = 1 \<and>
     EvidenceRecord.started_at r \<le> EvidenceRecord.finished_at r \<and>
     (EvidenceRecord.refused_reason r \<noteq> None \<longleftrightarrow> EvidenceRecord.status r = Refused)"
  by (cases "EvidenceRecord.status r") (auto simp: validate_record_def EVIDENCE_RECORD_SCHEMA_VERSION_def)

text \<open>The pre-image blanks the signature, so signing a record does not change it.\<close>

lemma pre_image_signature:
  "canonical_pre_image w (EvidenceRecord.signature_update f r) = canonical_pre_image w r"
  by (simp add: canonical_pre_image_def record_members_def)

lemma canonical_pre_image_total: "\<exists>pre. canonical_pre_image w r = Ok pre"
proof -
  have "has_float (JObject (obj_insert k (JString s) m)) \<Longrightarrow> has_float (JObject m)" for k s m
    by (induction k "JString s" m rule: obj_insert.induct) (auto split: if_splits)
  then have "\<not> has_float (JObject (obj_insert ''signature'' (JString []) (record_members w r)))"
    using record_to_value_float [of w r] unfolding record_to_value_def by blast
  then show ?thesis
    unfolding canonical_pre_image_def canonicalize_def
    by (subst (asm) write_value_is_ok [symmetric]) (auto simp: is_ok_iff map_err_def)
qed

text \<open>The record that \<open>build_signed_evidence_record\<close> fills in before it signs.\<close>

definition unsigned_record ::
  "(bytes \<Rightarrow> bytes) \<Rightarrow> SignedActionJob \<Rightarrow> ActionResult \<Rightarrow> EvidenceChain \<Rightarrow> EvidenceContext \<Rightarrow> EvidenceRecord" where
  "unsigned_record sha job res chain ctx = \<lparr>
     EvidenceRecord.evidence_id = ActionResult.evidence_id res,
     tenant_id = ActionResult.tenant_id res, device_id = ActionResult.device_id res,
     schema_version = 1, job_id = ActionResult.job_id res,
     recommendation_id = SignedActionJob.recommendation_id job, action = ActionResult.action res,
     args_canonical = ctx_args_canonical ctx, started_at = ActionResult.started_at res,
     finished_at = ActionResult.finished_at res, status = ActionResult.status res,
     refused_reason = ActionResult.refused_reason res, exit_code = ActionResult.exit_code res,
     output_sha256 = sha (output_full ctx), platform = ctx_platform ctx, agent = ctx_agent ctx,
     prev_record_hash = next_prev_hash chain, signature = [], key_id = PHASE1_STUB_KEY_ID\<rparr>"

lemma build_eq:
  "build_signed_evidence_record sha w job res chain ctx =
     bind_result (canonical_pre_image w (unsigned_record sha job res chain ctx)) (\<lambda>pre.
       let signed = EvidenceRecord.signature_update (\<lambda>_. phase1_stub_signature sha pre)
             (unsigned_record sha job res chain ctx)
       in bind_result (validate_record signed) (\<lambda>_. Ok signed))"
  by (simp add: build_signed_evidence_record_def unsigned_record_def EVIDENCE_RECORD_SCHEMA_VERSION_def Let_def)

lemma build_Ok:
  assumes "build_signed_evidence_record sha w job res chain ctx = Ok r"
  obtains pre where "r = EvidenceRecord.signature_update (\<lambda>_. phase1_stub_signature sha pre)
      (unsigned_record sha job res chain ctx)"
    and "canonical_pre_image w r = Ok pre" and "validate_record r = Ok ()"
  using assms by (auto simp: build_eq result_simps Let_def pre_image_signature)

lemma build_Ok_iff:
  "(\<exists>r. build_signed_evidence_record sha w job res chain ctx = Ok r) \<longleftrightarrow>
     ActionResult.started_at res \<le> ActionResult.finished_at res \<and>
     (ActionResult.refused_reason res \<noteq> None \<longleftrightarrow> ActionResult.status res = Refused)"
proof -
  obtain pre where pre: "canonical_pre_image w (unsigned_record sha job res chain ctx) = Ok pre"
    using canonical_pre_image_total by blast
  let ?s = "EvidenceRecord.signature_update (\<lambda>_. phase1_stub_signature sha pre) (unsigned_record sha job res chain ctx)"
  have "(\<exists>r. build_signed_evidence_record sha w job res chain ctx = Ok r) \<longleftrightarrow> validate_record ?s = Ok ()"
    by (cases "validate_record ?s") (simp_all add: build_eq pre bind_result_def Let_def)
  also have "\<dots> \<longleftrightarrow> ActionResult.started_at res \<le> ActionResult.finished_at res \<and>
     (ActionResult.refused_reason res \<noteq> None \<longleftrightarrow> ActionResult.status res = Refused)"
    by (simp add: validate_record_Ok_iff unsigned_record_def)
  finally show ?thesis .
qed

lemma chain_append_eq: "chain_append sha w c r = Ok \<lparr>last_chain_hash = Some (sha (record_bytes w r))\<rparr>"
  by (simp add: chain_append_def chain_hash_eq bind_result_def)

lemma next_prev_hash_with_last [simp]: "next_prev_hash \<lparr>last_chain_hash = Some h\<rparr> = h"
  by (simp add: next_prev_hash_def)

text \<open>A log as a verifier reads it: recompute every chain hash, compare every link.\<close>

fun evidence_log_ok :: "(bytes \<Rightarrow> bytes) \<Rightarrow> wire \<Rightarrow> bytes \<Rightarrow> EvidenceRecord list \<Rightarrow> bool" where
  "evidence_log_ok sha w h [] = True"
| "evidence_log_ok sha w h (r # rs) =
     (prev_record_hash r = h \<and>
      (case chain_hash sha w r of Ok h' \<Rightarrow> evidence_log_ok sha w h' rs | Err _ \<Rightarrow> False))"

fun evidence_head :: "(bytes \<Rightarrow> bytes) \<Rightarrow> wire \<Rightarrow> bytes \<Rightarrow> EvidenceRecord list \<Rightarrow> bytes" where
  "evidence_head sha w h [] = h"
| "evidence_head sha w h (r # rs) =
     (case chain_hash sha w r of Ok h' \<Rightarrow> evidence_head sha w h' rs | Err _ \<Rightarrow> h)"

lemma evidence_log_ok_linked:
  "evidence_log_ok sha w h rs = linked prev_record_hash (\<lambda>r. sha (record_bytes w r)) h rs"
  by (induction rs arbitrary: h) (auto simp: chain_hash_eq)

lemma evidence_head_log_head:
  "evidence_head sha w h rs = log_head (\<lambda>r. sha (record_bytes w r)) h rs"
  by (induction rs arbitrary: h) (auto simp: chain_hash_eq log_head_def)

text \<open>The agent's side: records are built on the current head and appended, one at a time.\<close>

inductive emits :: "(bytes \<Rightarrow> bytes) \<Rightarrow> wire \<Rightarrow> EvidenceChain \<Rightarrow> EvidenceRecord list \<Rightarrow> EvidenceChain \<Rightarrow> bool"
  for sha :: "bytes \<Rightarrow> bytes" and w :: wire and c :: EvidenceChain where
  emits_none: "emits sha w c [] c"
| emits_more: "emits sha w c rs d \<Longrightarrow> build_signed_evidence_record sha w job res d ctx = Ok r \<Longrightarrow>
     chain_append sha w d r = Ok e \<Longrightarrow> emits sha w c (rs @ [r]) e"

lemma emits_log:
  assumes "emits sha w c rs d"
  shows "evidence_log_ok sha w (next_prev_hash c) rs \<and> next_prev_hash d = evidence_head sha w (next_prev_hash c) rs"
  using assms
proof (induction rule: emits.induct)
  case emits_none
  then show ?case by simp
next
  case (emits_more rs d job res ctx r e)
  have "prev_record_hash r = next_prev_hash d"
    using emits_more.hyps(2) by (elim build_Ok) (simp add: unsigned_record_def)
  moreover have "next_prev_hash e = sha (record_bytes w r)"
    using emits_more.hyps(3) by (auto simp: chain_append_eq)
  ultimately show ?case using emits_more.IH
    by (simp add: evidence_log_ok_linked evidence_head_log_head linked_snoc)
qed

lemma hex_nibble_digit: "d < 16 \<Longrightarrow> hex_nibble (hex_digit d) = Ok d"
  by (auto simp: hex_nibble_def byte_of_hex_digit Let_def)

lemma hex_pairs_hex_str: "hex_pairs (hex_str b) = Ok b"
proof (induction b)
  case (Cons c b)
  have "byte_of c div 16 < 16" by (simp add: div_less_iff_less_mult)
  then show ?case using Cons by (simp add: hex_str_def hex_byte_def hex_nibble_digit bind_result_def)
qed (simp add: hex_str_def)

section \<open>Properties\<close>

definition sample_wire :: wire where
  "sample_wire = \<lparr>uuid_fmt = nat_str, dt_fmt = int_str\<rparr>"

lemma sample_wire_ok: "wire_ok sample_wire"
proof -
  have "utf8_valid (int_str i)" for i
    by (simp add: int_str_def nat_str_valid)
  then show ?thesis
    by (auto simp: wire_ok_def sample_wire_def nat_str_valid intro: injI nat_str_inject int_str_inject)
qed

definition sample_record :: "bytes \<Rightarrow> EvidenceRecord" where
  "sample_record prev = \<lparr>EvidenceRecord.evidence_id = 9, tenant_id = 2, device_id = 3,
     schema_version = 1, job_id = 1, recommendation_id = None, action = ActionKind.GrantJitAdmin,
     args_canonical = ''60'', started_at = 5, finished_at = 6, status = Success,
     refused_reason = None, exit_code = Some 0, output_sha256 = ''h'',
     platform = \<lparr>os = Linux, Platform.version = ''6'', arch = X86_64, distro = None\<rparr>,
     agent = \<lparr>AgentVersion.version = ''1'', build_sha = ''b'', channel = ''stable''\<rparr>,
     prev_record_hash = prev, signature = ''s'', key_id = PHASE1_STUB_KEY_ID\<rparr>"

definition sample_result :: ActionResult where
  "sample_result = \<lparr>ActionResult.job_id = 1, tenant_id = 2, device_id = 3, schema_version = 1,
     action = ActionKind.GrantJitAdmin, status = Success, refused_reason = None, started_at = 5,
     finished_at = 6, exit_code = Some 0, output_text = ''ok'', output_truncated = False, evidence_id = 9\<rparr>"

definition sample_ctx :: EvidenceContext where
  "sample_ctx = \<lparr>ctx_args_canonical = ''60'', output_full = ''ok'',
     ctx_platform = \<lparr>os = Linux, Platform.version = ''6'', arch = X86_64, distro = None\<rparr>,
     ctx_agent = \<lparr>AgentVersion.version = ''1'', build_sha = ''b'', channel = ''stable''\<rparr>\<rparr>"

lemma sample_build: "\<exists>r. build_signed_evidence_record sha w job sample_result c sample_ctx = Ok r"
  by (simp add: build_Ok_iff sample_result_def)



text \<open>
  C23: the agent only writes logs that verify. However many records are built on the current head
  and appended, starting from a fresh or a recovered chain, the log verifies from the head it
  started with and the chain's head is the hash of its last record.
\<close>

theorem emitted_log_verifies:
  assumes "emits sha w c rs d"
  shows "evidence_log_ok sha w (next_prev_hash c) rs \<and> next_prev_hash d = evidence_head sha w (next_prev_hash c) rs"
  using assms by (rule emits_log)

theorem emitted_log_verifies_witness:
  "\<exists>r. evidence_log_ok (take 32) sample_wire FIRST_RECORD_PREV_HASH [r]"
proof -
  obtain r where "build_signed_evidence_record (take 32) sample_wire sample_job sample_result chain_new sample_ctx = Ok r"
    using sample_build by blast
  then have "emits (take 32) sample_wire chain_new ([] @ [r]) \<lparr>last_chain_hash = Some (take 32 (record_bytes sample_wire r))\<rparr>"
    by (rule emits_more [OF emits_none]) (simp add: chain_append_eq)
  from emitted_log_verifies [OF this] show ?thesis by (auto simp: chain_new_def next_prev_hash_def)
qed

text \<open>
  Building a record succeeds exactly for reports whose times are ordered and whose refusal
  reason matches their status; canonicalisation never fails on it.
\<close>

theorem build_signed_evidence_record_ok_iff:
  "(\<exists>r. build_signed_evidence_record sha w job res chain ctx = Ok r) \<longleftrightarrow>
     ActionResult.started_at res \<le> ActionResult.finished_at res \<and>
     (ActionResult.refused_reason res \<noteq> None \<longleftrightarrow> ActionResult.status res = Refused)"
  by (rule build_Ok_iff)

text \<open>
  A built record is self-consistent. It validates, links to the current head, hashes the full
  output, repeats the report's identifiers and outcome, and its stub signature is that of its own
  pre-image.
\<close>

theorem built_record_consistent:
  assumes "build_signed_evidence_record sha w job res chain ctx = Ok r"
  shows "validate_record r = Ok () \<and> prev_record_hash r = next_prev_hash chain \<and>
     output_sha256 r = sha (output_full ctx) \<and> args_canonical r = ctx_args_canonical ctx \<and>
     EvidenceRecord.evidence_id r = ActionResult.evidence_id res \<and>
     EvidenceRecord.job_id r = ActionResult.job_id res \<and>
     EvidenceRecord.status r = ActionResult.status res \<and>
     EvidenceRecord.refused_reason r = ActionResult.refused_reason res \<and>
     (\<exists>pre. canonical_pre_image w r = Ok pre \<and> EvidenceRecord.signature r = phase1_stub_signature sha pre)"
  using assms
proof (rule build_Ok)
  fix pre
  assume r: "r = EvidenceRecord.signature_update (\<lambda>_. phase1_stub_signature sha pre) (unsigned_record sha job res chain ctx)"
    and pre: "canonical_pre_image w r = Ok pre" and v: "validate_record r = Ok ()"
  show ?thesis using v pre unfolding r by (simp add: unsigned_record_def)
qed

theorem built_record_consistent_witness:
  "\<exists>r. build_signed_evidence_record (take 32) sample_wire sample_job sample_result chain_new sample_ctx = Ok r \<and>
     validate_record r = Ok () \<and> prev_record_hash r = FIRST_RECORD_PREV_HASH"
proof -
  obtain r where r: "build_signed_evidence_record (take 32) sample_wire sample_job sample_result chain_new sample_ctx = Ok r"
    using sample_build by blast
  from built_record_consistent [OF r] r show ?thesis by (auto simp: chain_new_def next_prev_hash_def)
qed

text \<open>
  The hex adapter round-trips: every 32-byte hash is read back from the string it is written
  as.
\<close>

theorem byte_array_32_roundtrip:
  assumes "length b = 32"
  shows "serialize_hash b = JString (hex_str b) \<and> deserialize_hash (hex_str b) = Ok b"
  using assms by (simp add: serialize_hash_def deserialize_hash_def hex_pairs_hex_str)

theorem byte_array_32_roundtrip_witness:
  "deserialize_hash (hex_str FIRST_RECORD_PREV_HASH) = Ok FIRST_RECORD_PREV_HASH"
  using byte_array_32_roundtrip [of FIRST_RECORD_PREV_HASH] by (simp add: FIRST_RECORD_PREV_HASH_def)

end
