(* ===== verification/MaintWindow.thy ===== *)
theory MaintWindow
  imports SignedJob
begin

text \<open>
  \<open>crates/sda-device-control/src/windows.rs\<close>: maintenance windows and quiet hours. A
  \<open>NaiveTime\<close> is the number of seconds since midnight. The \<open>chrono-tz\<close> database is a parameter:
  which names it knows and the local weekday, hour, minute and second of an instant. The lemmas
  relate the parsers to the days and times they denote, and the window test to the contract that
  a window opens on a listed day and, past midnight, closes on the following one.
\<close>

section \<open>Weekdays and times\<close>

datatype Weekday = Mon | Tue | Wed | Thu | Fri | Sat | Sun

primrec weekday_succ :: "Weekday \<Rightarrow> Weekday" where
  "weekday_succ Mon = Tue"
| "weekday_succ Tue = Wed"
| "weekday_succ Wed = Thu"
| "weekday_succ Thu = Fri"
| "weekday_succ Fri = Sat"
| "weekday_succ Sat = Sun"
| "weekday_succ Sun = Mon"

primrec weekday_pred :: "Weekday \<Rightarrow> Weekday" where
  "weekday_pred Mon = Sun"
| "weekday_pred Tue = Mon"
| "weekday_pred Wed = Tue"
| "weekday_pred Thu = Wed"
| "weekday_pred Fri = Thu"
| "weekday_pred Sat = Fri"
| "weekday_pred Sun = Sat"

type_synonym naive_time = nat

definition from_hms_opt :: "nat \<Rightarrow> nat \<Rightarrow> nat \<Rightarrow> naive_time option" where
  "from_hms_opt h m s = (if h < 24 \<and> m < 60 \<and> s < 60 then Some (h * 3600 + m * 60 + s) else None)"

section \<open>Configuration\<close>

record MaintenanceWindow =
  enabled :: bool
  start :: string
  end_time :: string
  days :: "string list"

record QuietHours =
  enabled :: bool
  start :: string
  end_time :: string

datatype WindowDecision = Execute | Defer | Refuse

datatype WindowError = UnknownTimezone string | InvalidTime string | InvalidDay string

record CompiledWindow =
  start :: naive_time
  end_time :: naive_time
  days :: "Weekday list option"

record 'tz MaintenanceWindowPolicy =
  timezone :: 'tz
  maintenance :: "CompiledWindow option"
  quiet_hours :: "CompiledWindow option"

text \<open>The time-zone database: the known names, \<open>Tz::UTC\<close>, and local wall-clock fields.\<close>

record 'tz tz_db =
  parse_tz :: "string \<Rightarrow> 'tz option"
  tz_utc :: 'tz
  with_timezone :: "'tz \<Rightarrow> datetime \<Rightarrow> Weekday \<times> nat \<times> nat \<times> nat"

section \<open>Membership\<close>

definition wraps_midnight :: "CompiledWindow \<Rightarrow> bool" where
  "wraps_midnight w \<longleftrightarrow> CompiledWindow.end_time w < CompiledWindow.start w"

definition contains :: "CompiledWindow \<Rightarrow> Weekday \<Rightarrow> naive_time \<Rightarrow> bool" where
  "contains w wd t =
     (case CompiledWindow.days w of
        Some ds \<Rightarrow>
          if wd \<notin> set ds
          then (if wraps_midnight w \<and> weekday_pred wd \<in> set ds \<and> t \<le> CompiledWindow.end_time w
                then True else False)
          else (if wraps_midnight w then t \<ge> CompiledWindow.start w \<or> t \<le> CompiledWindow.end_time w
                else t \<ge> CompiledWindow.start w \<and> t \<le> CompiledWindow.end_time w)
      | None \<Rightarrow>
          (if wraps_midnight w then t \<ge> CompiledWindow.start w \<or> t \<le> CompiledWindow.end_time w
           else t \<ge> CompiledWindow.start w \<and> t \<le> CompiledWindow.end_time w))"

section \<open>Parsing\<close>

text \<open>\<open>str::parse::<u32>\<close>: an optional plus sign, at least one digit, no overflow.\<close>

definition parse_u32 :: "string \<Rightarrow> nat option" where
  "parse_u32 s =
     (let ds = (case s of [] \<Rightarrow> s | c # r \<Rightarrow> if c = CHR ''+'' \<and> r \<noteq> [] then r else s)
      in if ds \<noteq> [] \<and> list_all is_digit ds \<and> read_nat ds < 2 ^ 32 then Some (read_nat ds) else None)"

definition parse_hhmm :: "string \<Rightarrow> (naive_time, WindowError) result" where
  "parse_hhmm raw =
     (case split_char CHR '':'' raw of
        [h, m] \<Rightarrow>
          bind_result (ok_or (parse_u32 h) (InvalidTime raw)) (\<lambda>hour.
          bind_result (ok_or (parse_u32 m) (InvalidTime raw)) (\<lambda>minute.
          if hour > 23 \<or> minute > 59 then Err (InvalidTime raw)
          else ok_or (from_hms_opt hour minute 0) (InvalidTime raw)))
      | _ \<Rightarrow> Err (InvalidTime raw))"

definition parse_day_name :: "string \<Rightarrow> (Weekday, WindowError) result" where
  "parse_day_name name =
     (let n = to_ascii_lowercase (trim_str name) in
      if n = ''mon'' \<or> n = ''monday'' then Ok Mon
      else if n = ''tue'' \<or> n = ''tuesday'' then Ok Tue
      else if n = ''wed'' \<or> n = ''wednesday'' then Ok Wed
      else if n = ''thu'' \<or> n = ''thursday'' then Ok Thu
      else if n = ''fri'' \<or> n = ''friday'' then Ok Fri
      else if n = ''sat'' \<or> n = ''saturday'' then Ok Sat
      else if n = ''sun'' \<or> n = ''sunday'' then Ok Sun
      else Err (InvalidDay name))"

text \<open>The loop of \<open>weekday_range\<close>, with its guard against running around for ever.\<close>

function weekday_range_loop :: "Weekday \<Rightarrow> Weekday list \<Rightarrow> Weekday \<Rightarrow> Weekday list" where
  "weekday_range_loop stop out cur =
     (let out' = out @ [cur] in
      if cur = stop then out'
      else let cur' = weekday_succ cur in
           if length out' > 7 then out' else weekday_range_loop stop out' cur')"
  by pat_completeness auto
termination by (relation "measure (\<lambda>(_, out, _). 8 - length out)") auto

definition weekday_range :: "Weekday \<Rightarrow> Weekday \<Rightarrow> Weekday list" where
  "weekday_range first stop = weekday_range_loop stop [] first"

definition parse_day_token :: "string \<Rightarrow> (Weekday list, WindowError) result" where
  "parse_day_token token =
     (let tok = to_ascii_lowercase (trim_str token) in
      case split_once CHR ''-'' tok of
        Some (lo, hi) \<Rightarrow>
          bind_result (parse_day_name lo) (\<lambda>l.
          bind_result (parse_day_name hi) (\<lambda>h. Ok (weekday_range l h)))
      | None \<Rightarrow> bind_result (parse_day_name tok) (\<lambda>d. Ok [d]))"

definition push_days :: "Weekday list \<Rightarrow> Weekday list \<Rightarrow> Weekday list" where
  "push_days out ds = foldl (\<lambda>out d. if d \<in> set out then out else out @ [d]) out ds"

fun parse_days_loop :: "Weekday list \<Rightarrow> string list \<Rightarrow> (Weekday list, WindowError) result" where
  "parse_days_loop out [] = Ok out"
| "parse_days_loop out (token # rest) =
     bind_result (parse_day_token token) (\<lambda>ds. parse_days_loop (push_days out ds) rest)"

definition parse_days :: "string list \<Rightarrow> (Weekday list, WindowError) result" where
  "parse_days raw = parse_days_loop [] raw"

section \<open>The policy\<close>

definition resolve_tz :: "'tz tz_db \<Rightarrow> string \<Rightarrow> ('tz, WindowError) result" where
  "resolve_tz db name = ok_or (parse_tz db name) (UnknownTimezone name)"

definition from_config ::
  "'tz tz_db \<Rightarrow> MaintenanceWindow \<Rightarrow> QuietHours \<Rightarrow> string \<Rightarrow> ('tz MaintenanceWindowPolicy, WindowError) result"
where
  "from_config db mw qh tzname =
     bind_result (ok_or (parse_tz db tzname) (UnknownTimezone tzname)) (\<lambda>tz.
     bind_result
       (if MaintenanceWindow.enabled mw
        then bind_result (parse_hhmm (MaintenanceWindow.start mw)) (\<lambda>s.
             bind_result (parse_hhmm (MaintenanceWindow.end_time mw)) (\<lambda>e.
             bind_result (parse_days (MaintenanceWindow.days mw)) (\<lambda>ds.
             Ok (Some \<lparr>CompiledWindow.start = s, end_time = e, days = Some ds\<rparr>))))
        else Ok None) (\<lambda>m.
     bind_result
       (if QuietHours.enabled qh
        then bind_result (parse_hhmm (QuietHours.start qh)) (\<lambda>s.
             bind_result (parse_hhmm (QuietHours.end_time qh)) (\<lambda>e.
             Ok (Some \<lparr>CompiledWindow.start = s, end_time = e, days = None\<rparr>)))
        else Ok None) (\<lambda>q.
     Ok \<lparr>timezone = tz, maintenance = m, quiet_hours = q\<rparr>)))"

definition always_open :: "'tz tz_db \<Rightarrow> 'tz MaintenanceWindowPolicy" where
  "always_open db = \<lparr>timezone = tz_utc db, maintenance = None, quiet_hours = None\<rparr>"

definition local_naive_time :: "Weekday \<times> nat \<times> nat \<times> nat \<Rightarrow> naive_time" where
  "local_naive_time l =
     (case l of (wd, h, m, s) \<Rightarrow> (case from_hms_opt h m s of Some t \<Rightarrow> t | None \<Rightarrow> 0))"

definition is_in_maintenance_window ::
  "'tz tz_db \<Rightarrow> 'tz MaintenanceWindowPolicy \<Rightarrow> datetime \<Rightarrow> string \<Rightarrow> bool" where
  "is_in_maintenance_window db p now tzname =
     (case maintenance p of
        Some w \<Rightarrow> (case resolve_tz db tzname of
            Ok tz \<Rightarrow> let l = with_timezone db tz now in contains w (fst l) (local_naive_time l)
          | Err _ \<Rightarrow> False)
      | None \<Rightarrow> True)"

definition is_in_quiet_hours ::
  "'tz tz_db \<Rightarrow> 'tz MaintenanceWindowPolicy \<Rightarrow> datetime \<Rightarrow> string \<Rightarrow> bool" where
  "is_in_quiet_hours db p now tzname =
     (case quiet_hours p of
        Some w \<Rightarrow> (case resolve_tz db tzname of
            Ok tz \<Rightarrow> let l = with_timezone db tz now in contains w (fst l) (local_naive_time l)
          | Err _ \<Rightarrow> False)
      | None \<Rightarrow> False)"

definition should_execute :: "'tz tz_db \<Rightarrow> 'tz MaintenanceWindowPolicy \<Rightarrow> datetime \<Rightarrow> WindowDecision" where
  "should_execute db p now =
     (if (case maintenance p of Some w \<Rightarrow> CompiledWindow.days w = Some [] | None \<Rightarrow> False) then Refuse
      else let l = with_timezone db (timezone p) now; wd = fst l; t = local_naive_time l in
        if (case maintenance p of Some w \<Rightarrow> \<not> contains w wd t | None \<Rightarrow> False) then Defer
        else if (case quiet_hours p of Some w \<Rightarrow> contains w wd t | None \<Rightarrow> False) then Defer
        else Execute)"

section \<open>Days\<close>

lemma weekday_succ_pred [simp]: "weekday_succ (weekday_pred d) = d" "weekday_pred (weekday_succ d) = d"
  by (cases d; simp)+

lemma weekday_range_run:
  "hd (weekday_range a b) = a \<and> last (weekday_range a b) = b \<and> distinct (weekday_range a b) \<and>
   successively (\<lambda>x y. y = weekday_succ x) (weekday_range a b)"
  by (cases a; cases b; simp add: weekday_range_def Let_def)

lemma weekday_range_ne: "weekday_range a b \<noteq> []"
  by (simp add: weekday_range_def Let_def)

lemma parse_day_token_ne: "parse_day_token tok = Ok ds \<Longrightarrow> ds \<noteq> []"
  by (auto simp: parse_day_token_def Let_def result_simps weekday_range_ne split: option.splits)

lemma push_days_set [simp]: "set (push_days out ds) = set out \<union> set ds"
  unfolding push_days_def by (induction ds arbitrary: out) auto

lemma push_days_distinct: "distinct out \<Longrightarrow> distinct (push_days out ds)"
  unfolding push_days_def by (induction ds arbitrary: out) auto

lemma parse_days_loop_spec:
  "parse_days_loop out raw = Ok ds \<Longrightarrow> distinct out \<Longrightarrow>
   distinct ds \<and> (\<forall>d. d \<in> set ds \<longleftrightarrow> d \<in> set out \<or> (\<exists>tok \<in> set raw. \<exists>r. parse_day_token tok = Ok r \<and> d \<in> set r))"
proof (induction raw arbitrary: out)
  case (Cons tok raw)
  then obtain r where r: "parse_day_token tok = Ok r" "parse_days_loop (push_days out r) raw = Ok ds"
    by (auto simp: result_simps)
  then show ?case using Cons.IH [OF r(2)] Cons.prems(2) push_days_distinct by auto
qed auto

lemma parse_days_loop_Ok_tokens:
  "parse_days_loop out raw = Ok ds \<Longrightarrow> tok \<in> set raw \<Longrightarrow> is_ok (parse_day_token tok)"
  by (induction raw arbitrary: out) (auto simp: result_simps)

lemma parse_days_Nil [simp]: "parse_days [] = Ok []"
  by (simp add: parse_days_def)

lemma parse_days_eq_Nil: "parse_days raw = Ok [] \<longleftrightarrow> raw = []"
proof
  assume *: "parse_days raw = Ok []"
  show "raw = []"
  proof (rule ccontr)
    assume "raw \<noteq> []"
    then obtain tok where tok: "tok \<in> set raw" by (cases raw) auto
    then obtain r where "parse_day_token tok = Ok r"
      using * parse_days_loop_Ok_tokens by (fastforce simp: parse_days_def is_ok_iff)
    moreover from this have "hd r \<in> set r" using parse_day_token_ne by auto
    ultimately show False
      using parse_days_loop_spec [of "[]" raw "[]"] * tok by (auto simp: parse_days_def)
  qed
qed (simp add: parse_days_def)

section \<open>Times\<close>

text \<open>\<open>{:02}\<close> of a number below one hundred.\<close>

definition two_digits :: "nat \<Rightarrow> string" where
  "two_digits n = [digit (n div 10), digit (n mod 10)]"

lemma is_digit_digit [simp]: "d < 10 \<Longrightarrow> is_digit (digit d)"
  by (simp add: is_digit_def byte_of_digit)

lemma is_digit_neq: "is_digit c \<Longrightarrow> c \<noteq> CHR '':'' \<and> c \<noteq> CHR ''+''"
  by (auto simp: is_digit_def)

lemma parse_u32_two_digits:
  assumes "n < 100"
  shows "parse_u32 (two_digits n) = Some n"
proof -
  have d: "n div 10 < 10" using assms by simp
  have v: "read_nat (two_digits n) = n"
    using d by (simp add: read_nat_def two_digits_def byte_of_digit)
  have "list_all is_digit (two_digits n)" using d by (simp add: two_digits_def)
  moreover have "digit (n div 10) \<noteq> CHR ''+''" using d is_digit_neq by (metis is_digit_digit)
  ultimately show ?thesis using assms v by (simp add: parse_u32_def two_digits_def Let_def)
qed

lemma split_two_digits:
  assumes "h < 100" "m < 100"
  shows "split_char CHR '':'' (two_digits h @ '':'' @ two_digits m) = [two_digits h, two_digits m]"
proof -
  have "digit (h div 10) \<noteq> CHR '':''" "digit (h mod 10) \<noteq> CHR '':''"
    "digit (m div 10) \<noteq> CHR '':''" "digit (m mod 10) \<noteq> CHR '':''"
    using assms is_digit_neq [OF is_digit_digit] by simp_all
  then show ?thesis by (simp add: two_digits_def)
qed

lemma parse_hhmm_print:
  assumes "h < 24" "m < 60"
  shows "parse_hhmm (two_digits h @ '':'' @ two_digits m) = Ok (h * 3600 + m * 60)"
  using assms unfolding parse_hhmm_def
  by (subst split_two_digits) (simp_all add: parse_u32_two_digits ok_or_def bind_result_def from_hms_opt_def)

lemma parse_hhmm_bounds:
  assumes "parse_hhmm s = Ok t"
  shows "t < 86400 \<and> t mod 60 = 0"
proof -
  obtain h m where "h \<le> 23" "m \<le> 59" "t = h * 3600 + m * 60"
    using assms
    by (auto simp: parse_hhmm_def result_simps from_hms_opt_def not_less split: list.splits if_splits)
  then show ?thesis by (auto simp: mod_simps)
qed

section \<open>Windows\<close>

text \<open>
  The documented contract: a window opens on the days it lists (quiet hours: on every day) and,
  when it wraps past midnight, closes on the day after.
\<close>

definition opens_on :: "CompiledWindow \<Rightarrow> Weekday \<Rightarrow> bool" where
  "opens_on w d = (case CompiledWindow.days w of None \<Rightarrow> True | Some ds \<Rightarrow> d \<in> set ds)"

definition anchored :: "CompiledWindow \<Rightarrow> Weekday \<Rightarrow> naive_time \<Rightarrow> bool" where
  "anchored w wd t =
     (if wraps_midnight w
      then (opens_on w wd \<and> CompiledWindow.start w \<le> t)
         \<or> (opens_on w (weekday_pred wd) \<and> t \<le> CompiledWindow.end_time w)
      else opens_on w wd \<and> CompiledWindow.start w \<le> t \<and> t \<le> CompiledWindow.end_time w)"

lemma contains_anchored:
  "contains w wd t \<longleftrightarrow> anchored w wd t \<or>
     (wraps_midnight w \<and> opens_on w wd \<and> \<not> opens_on w (weekday_pred wd) \<and> t \<le> CompiledWindow.end_time w)"
  by (auto simp: contains_def anchored_def opens_on_def split: option.splits)

lemma from_config_Refuse:
  assumes "from_config db mw qh tz = Ok p"
  shows "should_execute db p now = Refuse \<longleftrightarrow> MaintenanceWindow.enabled mw \<and> MaintenanceWindow.days mw = []"
  using assms
  by (auto simp: from_config_def result_simps should_execute_def Let_def parse_days_eq_Nil
      split: if_splits option.splits)

lemma from_config_Execute:
  assumes "from_config db mw qh tz = Ok p"
  shows "should_execute db p now = Execute \<longleftrightarrow> should_execute db p now \<noteq> Refuse \<and>
     is_in_maintenance_window db p now tz \<and> \<not> is_in_quiet_hours db p now tz"
proof -
  have "resolve_tz db tz = Ok (timezone p)"
    using assms by (auto simp: from_config_def result_simps resolve_tz_def ok_or_def)
  then show ?thesis
    by (auto simp: should_execute_def is_in_maintenance_window_def is_in_quiet_hours_def Let_def
      split: option.splits)
qed

section \<open>Properties\<close>


text \<open>
  A window whose start equals its end is not a blanket allow: it contains, on the days it
  lists, the single second \<open>HH:MM:00\<close> and no other time (the comment promises the whole minute).
\<close>

theorem degenerate_window:
  assumes "CompiledWindow.start w = CompiledWindow.end_time w"
  shows "contains w wd t \<longleftrightarrow> opens_on w wd \<and> t = CompiledWindow.start w"
  using assms by (auto simp: contains_anchored anchored_def wraps_midnight_def)

theorem degenerate_window_witness:
  "contains \<lparr>CompiledWindow.start = 18000, end_time = 18000, days = Some [Mon]\<rparr> Mon 18000 \<and>
   \<not> contains \<lparr>CompiledWindow.start = 18000, end_time = 18000, days = Some [Mon]\<rparr> Mon 18030"
  by (subst degenerate_window, simp, subst degenerate_window) (simp_all add: opens_on_def)

text \<open>
  A range of days runs forward from its first day to its last, naming each day once, also
  across the week's end (\<open>fri-mon\<close>); the guard of the loop never cuts it short.
\<close>

theorem weekday_range_spec:
  "hd (weekday_range a b) = a \<and> last (weekday_range a b) = b \<and> distinct (weekday_range a b) \<and>
   successively (\<lambda>x y. y = weekday_succ x) (weekday_range a b)"
  by (rule weekday_range_run)

text \<open>
  Parsing a list of day tokens yields every day some token names, once each, and nothing
  else; the result is empty only for the empty list.
\<close>

theorem parse_days_spec:
  assumes "parse_days raw = Ok ds"
  shows "distinct ds \<and> (ds = [] \<longleftrightarrow> raw = []) \<and>
     (\<forall>d. d \<in> set ds \<longleftrightarrow> (\<exists>tok r. tok \<in> set raw \<and> parse_day_token tok = Ok r \<and> d \<in> set r))"
  using assms parse_days_loop_spec [of "[]" raw ds] parse_days_eq_Nil [of raw]
  by (auto simp: parse_days_def)

theorem parse_days_spec_witness:
  "parse_days [''mon-wed'', '' Tuesday ''] = Ok [Mon, Tue, Wed] \<and> distinct [Mon, Tue, Wed]"
proof -
  have *: "parse_days [''mon-wed'', '' Tuesday ''] = Ok [Mon, Tue, Wed]" by code_simp
  then show ?thesis using parse_days_spec [OF *] by simp
qed

text \<open>
  Every time of day survives printing as \<open>HH:MM\<close> and parsing: the parser returns exactly
  that hour and minute.
\<close>

theorem parse_hhmm_roundtrip:
  assumes "h < 24" and "m < 60"
  shows "parse_hhmm (two_digits h @ '':'' @ two_digits m) = Ok (h * 3600 + m * 60)"
  using assms by (rule parse_hhmm_print)

theorem parse_hhmm_roundtrip_witness:
  "parse_hhmm (two_digits 22 @ '':'' @ two_digits 5) = Ok (22 * 3600 + 5 * 60)"
  by (rule parse_hhmm_roundtrip) simp_all

text \<open>
  The three entry points of a policy agree. A policy built from a configuration refuses for
  good exactly when the maintenance window is enabled with no days; otherwise it executes exactly
  when the instant lies in the maintenance window and outside quiet hours, in the configured
  zone, and defers in every other case.
\<close>

theorem should_execute_agrees:
  assumes "from_config db mw qh tz = Ok p"
  shows "(should_execute db p now = Refuse \<longleftrightarrow>
            MaintenanceWindow.enabled mw \<and> MaintenanceWindow.days mw = []) \<and>
         (should_execute db p now = Execute \<longleftrightarrow> should_execute db p now \<noteq> Refuse \<and>
            is_in_maintenance_window db p now tz \<and> \<not> is_in_quiet_hours db p now tz)"
  using from_config_Refuse [OF assms] from_config_Execute [OF assms] by blast

definition sample_tz_db :: "unit tz_db" where
  "sample_tz_db = \<lparr>parse_tz = (\<lambda>n. if n = ''UTC'' then Some () else None), tz_utc = (),
     with_timezone = (\<lambda>tz now. let s = nat (now div 1000000000) mod 86400
        in (Mon, s div 3600, s div 60 mod 60, s mod 60))\<rparr>"

definition sample_policy :: "unit MaintenanceWindowPolicy" where
  "sample_policy = \<lparr>timezone = (),
     maintenance = Some \<lparr>CompiledWindow.start = 7200, end_time = 18000, days = Some [Mon, Tue]\<rparr>,
     quiet_hours = None\<rparr>"

theorem should_execute_agrees_witness:
  "should_execute sample_tz_db sample_policy (seconds 10800) = Execute \<longleftrightarrow>
   should_execute sample_tz_db sample_policy (seconds 10800) \<noteq> Refuse \<and>
   is_in_maintenance_window sample_tz_db sample_policy (seconds 10800) ''UTC'' \<and>
   \<not> is_in_quiet_hours sample_tz_db sample_policy (seconds 10800) ''UTC''"
proof -
  have "from_config sample_tz_db
     \<lparr>MaintenanceWindow.enabled = True, start = ''02:00'', end_time = ''05:00'', days = [''mon-tue'']\<rparr>
     \<lparr>QuietHours.enabled = False, start = ''22:00'', end_time = ''07:00''\<rparr> ''UTC'' = Ok sample_policy"
    by code_simp
  from should_execute_agrees [OF this, of "seconds 10800"] show ?thesis by blast
qed

end
