(* ===== verification/Router.thy ===== *)
theory Router
  imports Evidence MaintWindow
begin

text \<open>
  \<open>crates/sda-device-control/src/router.rs\<close>: the signed-job validation pipeline, its hooks (the
  conservative stub and the Ed25519-backed production set), and the job processor that turns every
  job into a report and a chained evidence record. Ed25519 verification, the id generator, the
  compact JSON printer and \<open>chrono\<close>'s representable range are parameters; \<open>DateTime\<close> arithmetic
  panics outside that range, and so does the model. The lemmas give the exact acceptance
  condition, the two-approver rule for wipes (once, in a locale interpreted for both hook sets),
  and that processing always returns a valid, chained outcome.
\<close>

section \<open>Time arithmetic\<close>

record chrono_range =
  utc_min :: datetime
  utc_max :: datetime

text \<open>\<open>DateTime - Duration\<close> and \<open>DateTime + Duration\<close> panic on overflow.\<close>

definition dt_range :: "chrono_range \<Rightarrow> datetime \<Rightarrow> datetime run" where
  "dt_range c t = (if utc_min c \<le> t \<and> t \<le> utc_max c then Ret t else Panic)"

definition dt_sub :: "chrono_range \<Rightarrow> datetime \<Rightarrow> int \<Rightarrow> datetime run" where
  "dt_sub c t d = dt_range c (t - d)"

definition dt_add :: "chrono_range \<Rightarrow> datetime \<Rightarrow> int \<Rightarrow> datetime run" where
  "dt_add c t d = dt_range c (t + d)"

definition CLOCK_SKEW_TOLERANCE :: int where
  "CLOCK_SKEW_TOLERANCE = seconds 60"

section \<open>Hooks\<close>

record JobValidationHooks =
  verify_signature :: "SignedActionJob \<Rightarrow> (unit, JobRefused) result"
  action_permitted :: "ActionKind \<Rightarrow> bool"
  in_window :: "datetime \<Rightarrow> bool"
  verify_additional_signature :: "SignedActionJob \<Rightarrow> AdditionalSignature \<Rightarrow> (unit, JobRefused) result"
  approver_user_id :: "string \<Rightarrow> uuid option"
  is_local_ephemeral_key :: "string \<Rightarrow> bool"

text \<open>The stub overrides the first three methods and keeps the trait's defaults for the rest.\<close>

definition Phase1Stub :: JobValidationHooks where
  "Phase1Stub = \<lparr>
     verify_signature = (\<lambda>job. Err UnknownKeyId),
     action_permitted = (\<lambda>action. True),
     in_window = (\<lambda>now. True),
     verify_additional_signature = (\<lambda>job sig. Err BadSignature),
     approver_user_id = (\<lambda>kid. None),
     is_local_ephemeral_key = (\<lambda>kid. False)\<rparr>"

record 'vk ProductionHooks =
  keys :: "string \<rightharpoonup> 'vk"
  permitted_actions :: "ActionKind set option"
  local_ephemeral_key_ids :: "string set"
  approver_user_ids :: "string \<rightharpoonup> uuid"

text \<open>Collecting pairs into a \<open>HashMap\<close> keeps the last entry of a repeated key.\<close>

definition hooks_new :: "(string \<times> 'vk) list \<Rightarrow> 'vk ProductionHooks" where
  "hooks_new ks = \<lparr>keys = map_of (rev ks), permitted_actions = None,
     local_ephemeral_key_ids = {}, approver_user_ids = (\<lambda>_. None)\<rparr>"

definition with_permitted_actions :: "ActionKind set \<Rightarrow> 'vk ProductionHooks \<Rightarrow> 'vk ProductionHooks" where
  "with_permitted_actions actions p = p\<lparr>permitted_actions := Some actions\<rparr>"

definition register_local_ephemeral_key :: "string \<Rightarrow> 'vk ProductionHooks \<Rightarrow> 'vk ProductionHooks" where
  "register_local_ephemeral_key k p = p\<lparr>local_ephemeral_key_ids := insert k (local_ephemeral_key_ids p)\<rparr>"

definition upsert_key :: "string \<Rightarrow> 'vk \<Rightarrow> 'vk ProductionHooks \<Rightarrow> 'vk ProductionHooks" where
  "upsert_key k v p = p\<lparr>keys := (keys p)(k \<mapsto> v)\<rparr>"

definition register_approver :: "string \<Rightarrow> uuid \<Rightarrow> 'vk ProductionHooks \<Rightarrow> 'vk ProductionHooks" where
  "register_approver k u p = p\<lparr>approver_user_ids := (approver_user_ids p)(k \<mapsto> u)\<rparr>"

definition with_approver :: "string \<Rightarrow> uuid \<Rightarrow> 'vk ProductionHooks \<Rightarrow> 'vk ProductionHooks" where
  "with_approver k u p = p\<lparr>approver_user_ids := (approver_user_ids p)(k \<mapsto> u)\<rparr>"

definition additional_to_value :: "AdditionalSignature \<Rightarrow> json" where
  "additional_to_value s = JObject
     [(''signature'', bytes_value (AdditionalSignature.signature s)),
      (''key_id'', JString (AdditionalSignature.key_id s))]"

text \<open>\<open>serde_json::to_value(job)\<close>; empty \<open>additional_signatures\<close> and absent ids are left out.\<close>

definition job_members :: "wire \<Rightarrow> SignedActionJob \<Rightarrow> (string \<times> json) list" where
  "job_members w j =
     [(''job_id'', JString (uuid_fmt w (SignedActionJob.job_id j))),
      (''tenant_id'', JString (uuid_fmt w (SignedActionJob.tenant_id j))),
      (''device_id'', JString (uuid_fmt w (SignedActionJob.device_id j))),
      (''schema_version'', nat_value (SignedActionJob.schema_version j)),
      (''action'', JString (action_kind_tag (SignedActionJob.action j))),
      (''args'', SignedActionJob.args j),
      (''not_before'', JString (dt_fmt w (not_before j))),
      (''not_after'', JString (dt_fmt w (not_after j))),
      (''signature'', bytes_value (SignedActionJob.signature j)),
      (''key_id'', JString (SignedActionJob.key_id j))] @
     opt_field ''recommendation_id''
       (map_option (\<lambda>u. JString (uuid_fmt w u)) (SignedActionJob.recommendation_id j)) @
     opt_field ''correlation_id''
       (map_option (\<lambda>u. JString (uuid_fmt w u)) (correlation_id j)) @
     opt_field ''additional_signatures''
       (if additional_signatures j = [] then None
        else Some (JArray (map additional_to_value (additional_signatures j))))"

definition signing_pre_image :: "wire \<Rightarrow> SignedActionJob \<Rightarrow> (bytes, JobRefused) result" where
  "signing_pre_image w j =
     map_err (\<lambda>_. BadSignature)
       (canonicalize (JObject
          (obj_insert ''additional_signatures'' (JArray [])
            (obj_insert ''signature'' (JArray []) (job_members w j)))))"

text \<open>Look the key up, rebuild the pre-image, check the length of the signature, verify.\<close>

definition verify_with ::
  "('vk \<Rightarrow> bytes \<Rightarrow> bytes \<Rightarrow> bool) \<Rightarrow> wire \<Rightarrow> 'vk ProductionHooks \<Rightarrow> SignedActionJob \<Rightarrow> string \<Rightarrow> bytes
     \<Rightarrow> (unit, JobRefused) result" where
  "verify_with ed w p j kid sig =
     bind_result (ok_or (keys p kid) UnknownKeyId) (\<lambda>key.
     bind_result (signing_pre_image w j) (\<lambda>pre.
     if length sig \<noteq> 64 then Err BadSignature
     else if ed key pre sig then Ok () else Err BadSignature))"

definition production_hooks ::
  "('vk \<Rightarrow> bytes \<Rightarrow> bytes \<Rightarrow> bool) \<Rightarrow> wire \<Rightarrow> 'vk ProductionHooks \<Rightarrow> JobValidationHooks" where
  "production_hooks ed w p = \<lparr>
     verify_signature = (\<lambda>j. verify_with ed w p j (SignedActionJob.key_id j) (SignedActionJob.signature j)),
     action_permitted = (\<lambda>a. case permitted_actions p of Some s \<Rightarrow> a \<in> s | None \<Rightarrow> True),
     in_window = (\<lambda>now. True),
     verify_additional_signature = (\<lambda>j s.
       verify_with ed w p j (AdditionalSignature.key_id s) (AdditionalSignature.signature s)),
     approver_user_id = approver_user_ids p,
     is_local_ephemeral_key = (\<lambda>k. k \<in> local_ephemeral_key_ids p)\<rparr>"

section \<open>Validation\<close>

record AgentIdentity =
  tenant_id :: uuid
  device_id :: uuid

record ValidatedJob =
  job_args :: JobArgs

definition structural_to_refused :: "SignedJobError \<Rightarrow> JobRefused" where
  "structural_to_refused e = (case e of
     SignedJobError.SchemaVersionUnsupported _ \<Rightarrow> SchemaParseError
   | ArgsTooLarge _ _ \<Rightarrow> SchemaParseError
   | InvalidWindow \<Rightarrow> SchemaParseError
   | SignedJobError.ArgsParseError _ _ \<Rightarrow> JobRefused.ArgsParseError)"

text \<open>Step 11: the loop over the additional signatures, then sort, dedup and compare lengths.\<close>

fun collect_approvers ::
  "JobValidationHooks \<Rightarrow> SignedActionJob \<Rightarrow> uuid list \<Rightarrow> AdditionalSignature list \<Rightarrow> (uuid list, JobRefused) result"
where
  "collect_approvers h j acc [] = Ok acc"
| "collect_approvers h j acc (s # sigs) =
     bind_result (map_err (\<lambda>_. WipeRequiresDualControl) (verify_additional_signature h j s)) (\<lambda>_.
     bind_result (ok_or (approver_user_id h (AdditionalSignature.key_id s)) WipeRequiresDualControl) (\<lambda>i.
     collect_approvers h j (acc @ [i]) sigs))"

definition dual_control :: "JobValidationHooks \<Rightarrow> SignedActionJob \<Rightarrow> (unit, JobRefused) result" where
  "dual_control h j =
     (if SignedActionJob.action j = ActionKind.RemoteWipe then
        if additional_signatures j = [] then Err WipeRequiresDualControl
        else
          bind_result (ok_or (approver_user_id h (SignedActionJob.key_id j)) WipeRequiresDualControl) (\<lambda>primary.
          bind_result (collect_approvers h j [primary] (additional_signatures j)) (\<lambda>approvers.
          if length (remdups_adj (sort approvers)) \<noteq> length approvers
          then Err WipeRequiresDualControl else Ok ()))
      else Ok ())"

text \<open>Step 12: what an agent-local key may sign.\<close>

definition local_key_gate :: "JobValidationHooks \<Rightarrow> SignedActionJob \<Rightarrow> (unit, JobRefused) result" where
  "local_key_gate h j =
     (if is_local_ephemeral_key h (SignedActionJob.key_id j) then
        let allowed = SignedActionJob.action j \<in>
          {ActionKind.EnableDiskEncryption, ActionKind.EnableFirewall, ActionKind.SetScreenLock}
        in if \<not> allowed \<or> SignedActionJob.recommendation_id j \<noteq> None
           then Err LocalKeyNotAuthorisedForAction else Ok ()
      else Ok ())"

definition validate ::
  "chrono_range \<Rightarrow> args_env \<Rightarrow> SignedActionJob \<Rightarrow> AgentIdentity \<Rightarrow> datetime \<Rightarrow> JobValidationHooks
     \<Rightarrow> (ValidatedJob, JobRefused) result run" where
  "validate c e j me now h =
     (case validate_structure e j of Err err \<Rightarrow> Ret (Err (structural_to_refused err)) | Ok _ \<Rightarrow>
     (case verify_signature h j of Err r \<Rightarrow> Ret (Err r) | Ok _ \<Rightarrow>
      bind_run (dt_sub c (not_before j) CLOCK_SKEW_TOLERANCE) (\<lambda>lo.
      if now < lo then Ret (Err Expired) else
      bind_run (dt_add c (not_after j) CLOCK_SKEW_TOLERANCE) (\<lambda>hi.
      if now > hi then Ret (Err Expired)
      else if SignedActionJob.tenant_id j \<noteq> AgentIdentity.tenant_id me then Ret (Err TenantMismatch)
      else if SignedActionJob.device_id j \<noteq> AgentIdentity.device_id me then Ret (Err DeviceMismatch)
      else if \<not> action_permitted h (SignedActionJob.action j) then Ret (Err ActionNotPermitted)
      else if \<not> in_window h now then Ret (Err OutsideWindow)
      else Ret
        (bind_result (map_err structural_to_refused (parse_args e j)) (\<lambda>args.
         bind_result (dual_control h j) (\<lambda>_.
         bind_result (local_key_gate h j) (\<lambda>_.
         Ok \<lparr>job_args = args\<rparr>))))))))"

section \<open>Processing\<close>

record ProcessedJob =
  action_result :: ActionResult
  evidence_of :: EvidenceRecord

text \<open>
  What processing takes from outside: SHA-256, the printers, the argument decoders, the range of
  timestamps and the \<open>Display\<close> of a JSON value (compact \<open>serde_json\<close> output).
\<close>

record router_env =
  env_sha :: "bytes \<Rightarrow> bytes"
  env_wire :: wire
  env_args :: args_env
  env_range :: chrono_range
  json_display :: "json \<Rightarrow> string"

primrec refusal_human_readable :: "JobRefused \<Rightarrow> string" where
  "refusal_human_readable SchemaParseError = ''schema_parse_error''"
| "refusal_human_readable UnknownKeyId = ''unknown_key_id''"
| "refusal_human_readable BadSignature = ''bad_signature''"
| "refusal_human_readable Expired = ''expired''"
| "refusal_human_readable TenantMismatch = ''tenant_mismatch''"
| "refusal_human_readable DeviceMismatch = ''device_mismatch''"
| "refusal_human_readable ActionNotPermitted = ''action_not_permitted''"
| "refusal_human_readable OutsideWindow = ''outside_window''"
| "refusal_human_readable JobRefused.ArgsParseError = ''args_parse_error''"
| "refusal_human_readable PreconditionFailed = ''precondition_failed''"
| "refusal_human_readable NotImplemented = ''not_implemented''"
| "refusal_human_readable WipeRequiresDualControl = ''wipe_requires_dual_control''"
| "refusal_human_readable LocalKeyNotAuthorisedForAction = ''local_key_not_authorised_for_action''"

text \<open>The report of a job that had no side effect; \<open>new_id\<close> is the fresh \<open>Uuid::new_v4()\<close>.\<close>

definition no_effect_result ::
  "SignedActionJob \<Rightarrow> datetime \<Rightarrow> uuid \<Rightarrow> ActionStatus \<Rightarrow> JobRefused option \<Rightarrow> string \<Rightarrow> ActionResult" where
  "no_effect_result j now new_id st why text =
     \<lparr>ActionResult.job_id = SignedActionJob.job_id j, tenant_id = SignedActionJob.tenant_id j,
      device_id = SignedActionJob.device_id j, schema_version = ACTION_RESULT_SCHEMA_VERSION,
      action = SignedActionJob.action j, status = st, refused_reason = why, started_at = now,
      finished_at = now, exit_code = None, output_text = fst (bound_output text),
      output_truncated = snd (bound_output text), evidence_id = new_id\<rparr>"

definition phase1_skipped_ack :: "SignedActionJob \<Rightarrow> datetime \<Rightarrow> uuid \<Rightarrow> ActionResult" where
  "phase1_skipped_ack j now new_id = no_effect_result j now new_id Skipped None
     (''phase1_no_op_ack: action '' @ action_kind_name (SignedActionJob.action j) @
      '' accepted but no executor wired in this build'')"

definition phase1_refused :: "SignedActionJob \<Rightarrow> JobRefused \<Rightarrow> datetime \<Rightarrow> uuid \<Rightarrow> ActionResult" where
  "phase1_refused j why now new_id = no_effect_result j now new_id Refused (Some why)
     (''refused: '' @ refusal_human_readable why)"

definition phase2_window_deferred_ack :: "SignedActionJob \<Rightarrow> datetime \<Rightarrow> uuid \<Rightarrow> ActionResult" where
  "phase2_window_deferred_ack j now new_id = no_effect_result j now new_id Skipped None
     (''outside_maintenance_window: deferred '' @ [CHR 0xE2, CHR 0x80, CHR 0x94] @
      '' job will retry on the next open window'')"

definition args_canonical_of :: "router_env \<Rightarrow> json \<Rightarrow> string" where
  "args_canonical_of env a =
     (case canonicalize a of
        Ok b \<Rightarrow> (case from_utf8 b of Some s \<Rightarrow> s | None \<Rightarrow> json_display env a)
      | Err _ \<Rightarrow> json_display env a)"

text \<open>The common tail of both entry points: build the record, append it; both \<open>expect\<close>.\<close>

definition chain_result ::
  "router_env \<Rightarrow> SignedActionJob \<Rightarrow> ActionResult \<Rightarrow> EvidenceChain \<Rightarrow> Platform \<Rightarrow> AgentVersion
     \<Rightarrow> (ProcessedJob \<times> EvidenceChain) run" where
  "chain_result env j res chain plat ag =
     bind_run (expect (build_signed_evidence_record (env_sha env) (env_wire env) j res chain
        \<lparr>ctx_args_canonical = args_canonical_of env (SignedActionJob.args j),
         output_full = output_text res, ctx_platform = plat, ctx_agent = ag\<rparr>)) (\<lambda>ev.
     bind_run (expect (chain_append (env_sha env) (env_wire env) chain ev)) (\<lambda>chain'.
     Ret (\<lparr>action_result = res, evidence_of = ev\<rparr>, chain')))"

definition process_job ::
  "router_env \<Rightarrow> uuid \<Rightarrow> SignedActionJob \<Rightarrow> AgentIdentity \<Rightarrow> datetime \<Rightarrow> JobValidationHooks \<Rightarrow>
   EvidenceChain \<Rightarrow> Platform \<Rightarrow> AgentVersion \<Rightarrow> (ProcessedJob \<times> EvidenceChain) run" where
  "process_job env new_id j me now h chain plat ag =
     bind_run (validate (env_range env) (env_args env) j me now h) (\<lambda>validation.
     let res = (case validation of
            Ok _ \<Rightarrow> phase1_skipped_ack j now new_id
          | Err why \<Rightarrow> phase1_refused j why now new_id)
     in chain_result env j res chain plat ag)"

definition process_job_with_window_policy ::
  "router_env \<Rightarrow> 'tz tz_db \<Rightarrow> uuid \<Rightarrow> SignedActionJob \<Rightarrow> AgentIdentity \<Rightarrow> datetime \<Rightarrow> JobValidationHooks \<Rightarrow>
   'tz MaintenanceWindowPolicy \<Rightarrow> EvidenceChain \<Rightarrow> Platform \<Rightarrow> AgentVersion \<Rightarrow> (ProcessedJob \<times> EvidenceChain) run" where
  "process_job_with_window_policy env db new_id j me now h policy chain plat ag =
     (case should_execute db policy now of
        Execute \<Rightarrow> process_job env new_id j me now h chain plat ag
      | Defer \<Rightarrow> chain_result env j (phase2_window_deferred_ack j now new_id) chain plat ag
      | Refuse \<Rightarrow> chain_result env j (phase1_refused j OutsideWindow now new_id) chain plat ag)"

section \<open>Publication\<close>

datatype payload_error = PayloadCanonicalize canonicalize_error | PayloadUtf8

datatype device_event = DeviceControlActionResult string | EvidenceRecordEvent string

definition result_to_value :: "wire \<Rightarrow> ActionResult \<Rightarrow> json" where
  "result_to_value w r = JObject
     ([(''job_id'', JString (uuid_fmt w (ActionResult.job_id r))),
       (''tenant_id'', JString (uuid_fmt w (ActionResult.tenant_id r))),
       (''device_id'', JString (uuid_fmt w (ActionResult.device_id r))),
       (''schema_version'', nat_value (ActionResult.schema_version r)),
       (''action'', JString (action_kind_tag (ActionResult.action r))),
       (''status'', JString (action_status_tag (ActionResult.status r))),
       (''started_at'', JString (dt_fmt w (ActionResult.started_at r))),
       (''finished_at'', JString (dt_fmt w (ActionResult.finished_at r))),
       (''output'', JString (output_text r)),
       (''output_truncated'', JBool (output_truncated r)),
       (''evidence_id'', JString (uuid_fmt w (ActionResult.evidence_id r)))] @
      opt_field ''refused_reason''
        (map_option (\<lambda>x. JString (job_refused_tag x)) (ActionResult.refused_reason r)) @
      opt_field ''exit_code'' (map_option int_value (ActionResult.exit_code r)))"

definition canonical_payload :: "json \<Rightarrow> (string, payload_error) result" where
  "canonical_payload v =
     bind_result (map_err PayloadCanonicalize (canonicalize v)) (\<lambda>b. ok_or (from_utf8 b) PayloadUtf8)"

definition canonical_action_result_payload :: "wire \<Rightarrow> ActionResult \<Rightarrow> (string, payload_error) result" where
  "canonical_action_result_payload w r = canonical_payload (result_to_value w r)"

definition canonical_evidence_record_payload :: "wire \<Rightarrow> EvidenceRecord \<Rightarrow> (string, payload_error) result" where
  "canonical_evidence_record_payload w r = canonical_payload (record_to_value w r)"

text \<open>The events handed to \<open>publish_to_server\<close>, in order; a payload that fails is skipped.\<close>

definition emit_processed_job :: "wire \<Rightarrow> ProcessedJob \<Rightarrow> device_event list" where
  "emit_processed_job w p =
     (case canonical_action_result_payload w (action_result p) of
        Ok s \<Rightarrow> [DeviceControlActionResult s] | Err _ \<Rightarrow> []) @
     (case canonical_evidence_record_payload w (evidence_of p) of
        Ok s \<Rightarrow> [EvidenceRecordEvent s] | Err _ \<Rightarrow> [])"

section \<open>The acceptance condition\<close>

lemma remdups_adj_sort_distinct: "length (remdups_adj (sort xs)) = length xs \<longleftrightarrow> distinct (xs :: 'a :: linorder list)"
proof
  assume "distinct xs"
  then show "length (remdups_adj (sort xs)) = length xs" by (simp add: remdups_adj_distinct)
next
  assume *: "length (remdups_adj (sort xs)) = length xs"
  have "sorted ys \<Longrightarrow> distinct (remdups_adj ys)" for ys :: "'a list"
    by (induction ys rule: remdups_adj.induct) (auto simp: less_le)
  then have "card (set (remdups_adj (sort xs))) = length (remdups_adj (sort xs))"
    by (intro distinct_card) simp
  then show "distinct xs" using * by (intro card_distinct) simp
qed

lemma collect_approvers_Ok_iff:
  "collect_approvers h j acc sigs = Ok r \<longleftrightarrow>
     (\<forall>s \<in> set sigs. verify_additional_signature h j s = Ok () \<and>
        approver_user_id h (AdditionalSignature.key_id s) \<noteq> None) \<and>
     r = acc @ map (\<lambda>s. the (approver_user_id h (AdditionalSignature.key_id s))) sigs"
  by (induction sigs arbitrary: acc) (auto simp: result_simps)

lemma dual_control_Ok_iff:
  "dual_control h j = Ok () \<longleftrightarrow> (SignedActionJob.action j = ActionKind.RemoteWipe \<longrightarrow>
     additional_signatures j \<noteq> [] \<and>
     (\<forall>s \<in> set (additional_signatures j). verify_additional_signature h j s = Ok () \<and>
        approver_user_id h (AdditionalSignature.key_id s) \<noteq> None) \<and>
     approver_user_id h (SignedActionJob.key_id j) \<noteq> None \<and>
     distinct (map (\<lambda>k. the (approver_user_id h k))
       (SignedActionJob.key_id j # map AdditionalSignature.key_id (additional_signatures j))))"
  by (auto simp: dual_control_def result_simps collect_approvers_Ok_iff remdups_adj_sort_distinct comp_def
      simp del: distinct.simps sort_key_simps)

lemma local_key_gate_Ok_iff:
  "local_key_gate h j = Ok () \<longleftrightarrow> (is_local_ephemeral_key h (SignedActionJob.key_id j) \<longrightarrow>
     SignedActionJob.action j \<in> {ActionKind.EnableDiskEncryption, ActionKind.EnableFirewall, ActionKind.SetScreenLock} \<and>
     SignedActionJob.recommendation_id j = None)"
  by (auto simp: local_key_gate_def)

lemma validate_Ok_iff:
  "validate c e j me now h = Ret (Ok v) \<longleftrightarrow>
     validate_structure e j = Ok () \<and> verify_signature h j = Ok () \<and>
     utc_min c \<le> not_before j - seconds 60 \<and> not_before j - seconds 60 \<le> utc_max c \<and>
     utc_min c \<le> not_after j + seconds 60 \<and> not_after j + seconds 60 \<le> utc_max c \<and>
     not_before j - seconds 60 \<le> now \<and> now \<le> not_after j + seconds 60 \<and>
     SignedActionJob.tenant_id j = AgentIdentity.tenant_id me \<and>
     SignedActionJob.device_id j = AgentIdentity.device_id me \<and>
     action_permitted h (SignedActionJob.action j) \<and> in_window h now \<and>
     parse_args e j = Ok (job_args v) \<and> dual_control h j = Ok () \<and> local_key_gate h j = Ok ()"
  by (cases v)
    (auto simp: validate_def result_simps dt_sub_def dt_add_def dt_range_def CLOCK_SKEW_TOLERANCE_def
      split: result.splits if_splits)

lemma verify_with_Ok_iff:
  "verify_with ed w p j k sig = Ok () \<longleftrightarrow>
     (\<exists>key pre. keys p k = Some key \<and> signing_pre_image w j = Ok pre \<and> length sig = 64 \<and> ed key pre sig)"
  by (auto simp: verify_with_def result_simps)

section \<open>Signers\<close>

text \<open>
  What a hook set promises: a signature it accepts was verified, for some notion of verification
  of a signature by a key over a job. The consequences for accepted jobs are proved once.
\<close>

locale signer_hooks =
  fixes h :: JobValidationHooks and verified :: "string \<Rightarrow> SignedActionJob \<Rightarrow> bytes \<Rightarrow> bool"
  assumes primary_verified: "verify_signature h j = Ok () \<Longrightarrow>
      verified (SignedActionJob.key_id j) j (SignedActionJob.signature j)"
    and additional_verified: "verify_additional_signature h j s = Ok () \<Longrightarrow>
      verified (AdditionalSignature.key_id s) j (AdditionalSignature.signature s)"
begin

lemma accepted_signed:
  assumes "validate c e j me now h = Ret (Ok v)"
  shows "verified (SignedActionJob.key_id j) j (SignedActionJob.signature j)"
  using assms primary_verified by (simp add: validate_Ok_iff)

lemma accepted_wipe:
  assumes "validate c e j me now h = Ret (Ok v)" "SignedActionJob.action j = ActionKind.RemoteWipe"
  shows "\<exists>s a b. s \<in> set (additional_signatures j) \<and>
     verified (SignedActionJob.key_id j) j (SignedActionJob.signature j) \<and>
     verified (AdditionalSignature.key_id s) j (AdditionalSignature.signature s) \<and>
     approver_user_id h (SignedActionJob.key_id j) = Some a \<and>
     approver_user_id h (AdditionalSignature.key_id s) = Some b \<and> a \<noteq> b"
proof -
  have d: "dual_control h j = Ok ()" using assms(1) by (simp add: validate_Ok_iff)
  then obtain s ss where s: "additional_signatures j = s # ss"
    using assms(2) by (auto simp: dual_control_Ok_iff neq_Nil_conv)
  with d assms(2) show ?thesis
    using accepted_signed [OF assms(1)] additional_verified [of j s]
    by (auto simp: dual_control_Ok_iff)
qed

end

definition production_verified ::
  "('vk \<Rightarrow> bytes \<Rightarrow> bytes \<Rightarrow> bool) \<Rightarrow> wire \<Rightarrow> 'vk ProductionHooks \<Rightarrow> string \<Rightarrow> SignedActionJob \<Rightarrow> bytes \<Rightarrow> bool" where
  "production_verified ed w p k j sig \<longleftrightarrow>
     (\<exists>key pre. keys p k = Some key \<and> signing_pre_image w j = Ok pre \<and> length sig = 64 \<and> ed key pre sig)"

interpretation production: signer_hooks "production_hooks ed w p" "production_verified ed w p"
  for ed :: "'vk \<Rightarrow> bytes \<Rightarrow> bytes \<Rightarrow> bool" and w and p
  by unfold_locales (auto simp: production_hooks_def production_verified_def verify_with_Ok_iff)

interpretation stub: signer_hooks Phase1Stub "\<lambda>k j s. False"
  by unfold_locales (simp_all add: Phase1Stub_def)

section \<open>What a signature covers\<close>

lemma map_of_obj_insert [simp]: "map_of (obj_insert k v m) k' = (if k' = k then Some v else map_of m k')"
  by (induction k v m rule: obj_insert.induct) auto

lemma keys_obj_insert [simp]: "fst ` set (obj_insert k v m) = insert k (fst ` set m)"
  by (induction k v m rule: obj_insert.induct) auto

lemma distinct_obj_insert: "distinct (map fst m) \<Longrightarrow> distinct (map fst (obj_insert k v m))"
proof (induction k v m rule: obj_insert.induct)
  case (2 k v k' v' m)
  have "k' \<notin> fst ` set (obj_insert k v m)" if "k' \<noteq> k" using 2 that by auto
  then show ?case using 2 by auto
qed auto

lemma obj_insert_subset: "kv \<in> set (obj_insert k v m) \<Longrightarrow> kv = (k, v) \<or> kv \<in> set m"
  by (induction k v m rule: obj_insert.induct) (auto split: if_splits)

lemma distinct_job_members: "distinct (map fst (job_members w j))"
  by (cases "SignedActionJob.recommendation_id j"; cases "correlation_id j")
    (simp_all add: job_members_def opt_field_def)

text \<open>What the Rust types guarantee of a job.\<close>

definition job_wf :: "SignedActionJob \<Rightarrow> bool" where
  "job_wf j \<longleftrightarrow> SignedActionJob.schema_version j < 2 ^ 16 \<and> json_wf (SignedActionJob.args j) \<and>
     utf8_valid (SignedActionJob.key_id j) \<and>
     (\<forall>s \<in> set (additional_signatures j). utf8_valid (AdditionalSignature.key_id s))"

lemma additional_to_value_wf: "utf8_valid (AdditionalSignature.key_id s) \<Longrightarrow> json_wf (additional_to_value s)"
  by (simp add: additional_to_value_def)

lemma job_members_wf:
  assumes "wire_ok w" "job_wf j" "kv \<in> set (job_members w j)"
  shows "utf8_valid (fst kv) \<and> json_wf (snd kv)"
proof
  show "utf8_valid (fst kv)"
    using assms(3) by (auto simp: job_members_def set_opt_field intro!: utf8_valid_ascii split: option.splits if_splits)
  show "json_wf (snd kv)"
    using assms
    by (auto simp: job_members_def set_opt_field wire_ok_def job_wf_def json_wf_nat_value
        additional_to_value_wf split: option.splits if_splits)
qed

text \<open>The object that is signed.\<close>

definition signed_value :: "wire \<Rightarrow> SignedActionJob \<Rightarrow> json" where
  "signed_value w j = JObject (obj_insert ''additional_signatures'' (JArray [])
     (obj_insert ''signature'' (JArray []) (job_members w j)))"

lemma signed_value_wf:
  assumes "wire_ok w" "job_wf j"
  shows "json_wf (signed_value w j)"
proof -
  have "utf8_valid (fst kv) \<and> json_wf (snd kv)"
    if "kv \<in> set (obj_insert ''additional_signatures'' (JArray []) (obj_insert ''signature'' (JArray []) (job_members w j)))" for kv
  proof -
    have "kv = (''additional_signatures'', JArray []) \<or> kv = (''signature'', JArray []) \<or> kv \<in> set (job_members w j)"
      using that by (blast dest: obj_insert_subset)
    then show ?thesis by (elim disjE) (simp_all add: utf8_valid_ascii job_members_wf [OF assms])
  qed
  then show ?thesis
    by (simp add: signed_value_def distinct_obj_insert distinct_job_members)
qed

lemma signing_pre_image_Ok_iff:
  "signing_pre_image w j = Ok b \<longleftrightarrow> canonicalize (signed_value w j) = Ok b"
  by (simp add: signing_pre_image_def signed_value_def result_simps)

lemma signing_pre_image_signatures:
  "signing_pre_image w (j\<lparr>SignedActionJob.signature := s, additional_signatures := a\<rparr>) = signing_pre_image w j"
  by (simp add: signing_pre_image_def job_members_def opt_field_def
      split: option.splits)

text \<open>The fields of a job that its signatures cover: all but the signatures themselves.\<close>

definition same_signed_content :: "SignedActionJob \<Rightarrow> SignedActionJob \<Rightarrow> bool" where
  "same_signed_content j k \<longleftrightarrow>
     SignedActionJob.job_id j = SignedActionJob.job_id k \<and>
     SignedActionJob.tenant_id j = SignedActionJob.tenant_id k \<and>
     SignedActionJob.device_id j = SignedActionJob.device_id k \<and>
     SignedActionJob.schema_version j = SignedActionJob.schema_version k \<and>
     SignedActionJob.recommendation_id j = SignedActionJob.recommendation_id k \<and>
     SignedActionJob.action j = SignedActionJob.action k \<and>
     json_norm (SignedActionJob.args j) = json_norm (SignedActionJob.args k) \<and>
     not_before j = not_before k \<and> not_after j = not_after k \<and>
     SignedActionJob.key_id j = SignedActionJob.key_id k \<and> correlation_id j = correlation_id k"

lemma signed_value_binds:
  assumes w: "wire_ok w" and eq: "json_norm (signed_value w j) = json_norm (signed_value w k)"
  shows "same_signed_content j k"
proof -
  note D = distinct_obj_insert [OF distinct_obj_insert [OF distinct_job_members]]
  note L = json_norm_lookup [OF eq [unfolded signed_value_def] D D, unfolded map_of_obj_insert job_members_def]
  have U: "uuid_fmt w a = uuid_fmt w b \<Longrightarrow> a = b" for a b using w by (auto simp: wire_ok_def inj_def)
  have T: "dt_fmt w a = dt_fmt w b \<Longrightarrow> a = b" for a b using w by (auto simp: wire_ok_def inj_def)
  show ?thesis unfolding same_signed_content_def
  proof (intro conjI)
    show "SignedActionJob.job_id j = SignedActionJob.job_id k" using L [of "''job_id''"] U by simp
    show "SignedActionJob.tenant_id j = SignedActionJob.tenant_id k" using L [of "''tenant_id''"] U by simp
    show "SignedActionJob.device_id j = SignedActionJob.device_id k" using L [of "''device_id''"] U by simp
    show "SignedActionJob.schema_version j = SignedActionJob.schema_version k"
      using L [of "''schema_version''"] by simp
    show "SignedActionJob.recommendation_id j = SignedActionJob.recommendation_id k"
      using L [of "''recommendation_id''"] U
      by (cases "SignedActionJob.recommendation_id j"; cases "SignedActionJob.recommendation_id k") simp_all
    show "SignedActionJob.action j = SignedActionJob.action k"
      using L [of "''action''"] action_kind_tag_inject by simp
    show "json_norm (SignedActionJob.args j) = json_norm (SignedActionJob.args k)" using L [of "''args''"] by simp
    show "not_before j = not_before k" using L [of "''not_before''"] T by simp
    show "not_after j = not_after k" using L [of "''not_after''"] T by simp
    show "SignedActionJob.key_id j = SignedActionJob.key_id k" using L [of "''key_id''"] by simp
    show "correlation_id j = correlation_id k"
      using L [of "''correlation_id''"] U by (cases "correlation_id j"; cases "correlation_id k") simp_all
  qed
qed

lemma pre_image_binds:
  assumes "wire_ok w" "job_wf j" "job_wf k" "signing_pre_image w j = Ok b" "signing_pre_image w k = Ok b"
  shows "same_signed_content j k"
proof -
  have c: "canonicalize (signed_value w j) = Ok b" "canonicalize (signed_value w k) = Ok b"
    using assms(4,5) by (simp_all add: signing_pre_image_Ok_iff)
  then have "\<not> has_float (signed_value w j)" "\<not> has_float (signed_value w k)"
    using write_value_is_ok by (metis canonicalize_def is_ok_Ok)+
  then have "json_norm (signed_value w j) = json_norm (signed_value w k)"
    using c signed_value_wf [OF assms(1)] assms(2,3) by (subst canonicalize_eq [symmetric]) simp_all
  then show ?thesis using assms(1) by (intro signed_value_binds)
qed

lemma job_members_float:
  assumes "\<not> has_float (SignedActionJob.args j)" "kv \<in> set (job_members w j)"
  shows "\<not> has_float (snd kv)"
  using assms by (auto simp: job_members_def set_opt_field additional_to_value_def split: option.splits if_splits)

lemma signing_pre_image_total:
  assumes "\<not> has_float (SignedActionJob.args j)"
  shows "\<exists>b. signing_pre_image w j = Ok b"
proof -
  have "\<not> has_float (signed_value w j)"
    using job_members_float [OF assms] unfolding signed_value_def
    by (auto dest!: obj_insert_subset)
  then show ?thesis
    using write_value_is_ok [of "signed_value w j"]
    by (auto simp: signing_pre_image_Ok_iff canonicalize_def is_ok_iff)
qed

section \<open>Processing\<close>

lemma validate_no_panic:
  assumes "utc_min c \<le> not_before j - seconds 60" "not_before j - seconds 60 \<le> utc_max c"
    and "utc_min c \<le> not_after j + seconds 60" "not_after j + seconds 60 \<le> utc_max c"
  shows "\<exists>r. validate c e j me now h = Ret r"
  using assms by (auto simp: validate_def dt_sub_def dt_add_def dt_range_def CLOCK_SKEW_TOLERANCE_def
      split: result.splits)

lemma validate_Panic_iff:
  "validate c e j me now h = Panic \<longleftrightarrow>
     validate_structure e j = Ok () \<and> verify_signature h j = Ok () \<and>
     (\<not> (utc_min c \<le> not_before j - seconds 60 \<and> not_before j - seconds 60 \<le> utc_max c) \<or>
      not_before j - seconds 60 \<le> now \<and>
      \<not> (utc_min c \<le> not_after j + seconds 60 \<and> not_after j + seconds 60 \<le> utc_max c))"
  by (auto simp: validate_def dt_sub_def dt_add_def dt_range_def CLOCK_SKEW_TOLERANCE_def
      split: result.splits)

lemma no_effect_result_valid:
  assumes "why \<noteq> None \<longleftrightarrow> st = Refused"
  shows "validate_result (no_effect_result j now new_id st why text) = Ok ()"
  using assms bound_output_length [of "text"]
  by (simp add: validate_result_Ok_iff no_effect_result_def ACTION_RESULT_SCHEMA_VERSION_def)

lemma chain_result_Ret:
  assumes "res = no_effect_result j now new_id st why text" "why \<noteq> None \<longleftrightarrow> st = Refused"
  shows "\<exists>ev. chain_result env j res chain plat ag = Ret (\<lparr>action_result = res, evidence_of = ev\<rparr>,
       \<lparr>last_chain_hash = Some (env_sha env (record_bytes (env_wire env) ev))\<rparr>) \<and>
     build_signed_evidence_record (env_sha env) (env_wire env) j res chain
       \<lparr>ctx_args_canonical = args_canonical_of env (SignedActionJob.args j),
        output_full = output_text res, ctx_platform = plat, ctx_agent = ag\<rparr> = Ok ev"
proof -
  have "\<exists>ev. build_signed_evidence_record (env_sha env) (env_wire env) j res chain
       \<lparr>ctx_args_canonical = args_canonical_of env (SignedActionJob.args j),
        output_full = output_text res, ctx_platform = plat, ctx_agent = ag\<rparr> = Ok ev"
    using assms by (simp add: build_Ok_iff no_effect_result_def)
  then show ?thesis by (auto simp: chain_result_def expect_def bind_run_def chain_append_eq)
qed

lemma chain_result_spec:
  assumes "res = no_effect_result j now new_id st why text" "why \<noteq> None \<longleftrightarrow> st = Refused"
  shows "\<exists>ev chain'. chain_result env j res chain plat ag = Ret (\<lparr>action_result = res, evidence_of = ev\<rparr>, chain') \<and>
     validate_result res = Ok () \<and> validate_record ev = Ok () \<and>
     ActionResult.status res = st \<and> ActionResult.refused_reason res = why \<and>
     ActionResult.evidence_id res = new_id \<and> EvidenceRecord.evidence_id ev = new_id \<and>
     emits (env_sha env) (env_wire env) chain [ev] chain'"
proof -
  obtain ev where ev: "chain_result env j res chain plat ag = Ret (\<lparr>action_result = res, evidence_of = ev\<rparr>,
       \<lparr>last_chain_hash = Some (env_sha env (record_bytes (env_wire env) ev))\<rparr>)"
    and b: "build_signed_evidence_record (env_sha env) (env_wire env) j res chain
       \<lparr>ctx_args_canonical = args_canonical_of env (SignedActionJob.args j),
        output_full = output_text res, ctx_platform = plat, ctx_agent = ag\<rparr> = Ok ev"
    using chain_result_Ret [OF assms, where env = env and chain = chain and plat = plat and ag = ag] by blast
  have "emits (env_sha env) (env_wire env) chain ([] @ [ev])
     \<lparr>last_chain_hash = Some (env_sha env (record_bytes (env_wire env) ev))\<rparr>"
    using b by (rule emits_more [OF emits_none]) (simp add: chain_append_eq)
  moreover have "validate_record ev = Ok ()" "EvidenceRecord.evidence_id ev = ActionResult.evidence_id res"
    using b by (auto elim!: build_Ok simp: unsigned_record_def)
  moreover have "validate_result res = Ok ()" using assms by (simp add: no_effect_result_valid)
  ultimately show ?thesis using ev assms(1) by (auto simp: no_effect_result_def)
qed

lemmas report_defs = phase1_skipped_ack_def phase1_refused_def phase2_window_deferred_ack_def

text \<open>Everything an outcome of the processor satisfies.\<close>

definition outcome_ok ::
  "router_env \<Rightarrow> uuid \<Rightarrow> EvidenceChain \<Rightarrow> (ProcessedJob \<times> EvidenceChain) \<Rightarrow> ActionStatus \<Rightarrow> JobRefused option \<Rightarrow> bool" where
  "outcome_ok env new_id chain out st why \<longleftrightarrow>
     (let res = action_result (fst out); ev = evidence_of (fst out) in
      validate_result res = Ok () \<and> validate_record ev = Ok () \<and>
      ActionResult.status res = st \<and> ActionResult.refused_reason res = why \<and>
      ActionResult.evidence_id res = new_id \<and> EvidenceRecord.evidence_id ev = new_id \<and>
      prev_record_hash ev = next_prev_hash chain \<and>
      chain_hash (env_sha env) (env_wire env) ev = Ok (next_prev_hash (snd out)) \<and>
      emits (env_sha env) (env_wire env) chain [ev] (snd out))"

lemma chain_result_outcome:
  assumes "res = no_effect_result j now new_id st why text" "why \<noteq> None \<longleftrightarrow> st = Refused"
  shows "\<exists>out. chain_result env j res chain plat ag = Ret out \<and> outcome_ok env new_id chain out st why"
proof -
  obtain ev chain' where r: "chain_result env j res chain plat ag = Ret (\<lparr>action_result = res, evidence_of = ev\<rparr>, chain')"
    and v: "validate_result res = Ok ()" "validate_record ev = Ok ()"
      "ActionResult.status res = st" "ActionResult.refused_reason res = why"
      "ActionResult.evidence_id res = new_id" "EvidenceRecord.evidence_id ev = new_id"
    and e: "emits (env_sha env) (env_wire env) chain [ev] chain'"
    using chain_result_spec [OF assms, where env = env and chain = chain and plat = plat and ag = ag] by blast
  have "prev_record_hash ev = next_prev_hash chain \<and>
     chain_hash (env_sha env) (env_wire env) ev = Ok (next_prev_hash chain')"
    using emits_log [OF e] by (simp add: chain_hash_eq)
  then show ?thesis using r v e by (auto simp: outcome_ok_def)
qed

lemma process_job_outcome:
  assumes "validate (env_range env) (env_args env) j me now h = Ret r"
  shows "\<exists>out. process_job env new_id j me now h chain plat ag = Ret out \<and>
     outcome_ok env new_id chain out (if is_ok r then Skipped else Refused)
       (case r of Ok _ \<Rightarrow> None | Err why \<Rightarrow> Some why)"
proof (cases r)
  case (Ok v)
  then show ?thesis
    using chain_result_outcome [OF refl, where why = None and st = Skipped and env = env and chain = chain and plat = plat and ag = ag] assms
    by (simp add: process_job_def bind_run_def report_defs)
next
  case (Err why)
  then show ?thesis
    using chain_result_outcome [OF refl, where why = "Some why" and st = Refused and env = env and chain = chain and plat = plat and ag = ag] assms
    by (simp add: process_job_def bind_run_def report_defs)
qed

lemma window_policy_outcome:
  assumes "validate (env_range env) (env_args env) j me now h = Ret r"
  shows "\<exists>out. process_job_with_window_policy env db new_id j me now h policy chain plat ag = Ret out \<and>
     (case should_execute db policy now of
        Execute \<Rightarrow> outcome_ok env new_id chain out (if is_ok r then Skipped else Refused)
          (case r of Ok _ \<Rightarrow> None | Err why \<Rightarrow> Some why)
      | Defer \<Rightarrow> outcome_ok env new_id chain out Skipped None
      | Refuse \<Rightarrow> outcome_ok env new_id chain out Refused (Some OutsideWindow))"
proof (cases "should_execute db policy now")
  case Execute
  then show ?thesis using process_job_outcome [OF assms] by (simp add: process_job_with_window_policy_def)
next
  case Defer
  then show ?thesis
    using chain_result_outcome [OF refl, where why = None and st = Skipped and env = env and chain = chain and plat = plat and ag = ag]
    by (simp add: process_job_with_window_policy_def report_defs)
next
  case Refuse
  then show ?thesis
    using chain_result_outcome [OF refl, where why = "Some OutsideWindow" and st = Refused and env = env and chain = chain and plat = plat and ag = ag]
    by (simp add: process_job_with_window_policy_def report_defs)
qed

section \<open>Publication\<close>

lemma canonical_payload_Ok:
  assumes "json_wf v" "\<not> has_float v"
  shows "\<exists>s. canonical_payload v = Ok s"
proof -
  obtain b where b: "canonicalize v = Ok b"
    using assms(2) write_value_is_ok [of v] by (auto simp: canonicalize_def is_ok_iff)
  then have "from_utf8 b = Some b" using canonicalize_utf8 [OF assms(1)] by simp
  then show ?thesis using b by (simp add: canonical_payload_def bind_result_def map_err_def ok_or_def)
qed

definition result_wf :: "ActionResult \<Rightarrow> bool" where
  "result_wf r \<longleftrightarrow> ActionResult.schema_version r < 2 ^ 16 \<and> utf8_valid (output_text r) \<and>
     (case ActionResult.exit_code r of None \<Rightarrow> True | Some i \<Rightarrow> - (2 ^ 31) \<le> i \<and> i < 2 ^ 31)"

lemma result_to_value_wf:
  assumes "wire_ok w" "result_wf r"
  shows "json_wf (result_to_value w r) \<and> \<not> has_float (result_to_value w r)"
proof -
  have U: "utf8_valid (uuid_fmt w u)" "utf8_valid (dt_fmt w t)" for u t using assms(1) by (auto simp: wire_ok_def)
  show ?thesis
    using assms(2)
    by (cases "ActionResult.refused_reason r"; cases "ActionResult.exit_code r")
      (simp_all add: result_to_value_def opt_field_def U result_wf_def json_wf_int_value json_wf_nat_value
        utf8_valid_ascii)
qed

section \<open>Properties\<close>

definition sample_range :: chrono_range where
  "sample_range = \<lparr>utc_min = - (10 ^ 22), utc_max = 10 ^ 22\<rparr>"

definition sample_env :: router_env where
  "sample_env = \<lparr>env_sha = take 32, env_wire = sample_wire, env_args = sample_args_env,
     env_range = sample_range, json_display = (\<lambda>v. [])\<rparr>"

text \<open>Two keys with their approvers; a signature verifies when it repeats the key's letter.\<close>

definition sample_hooks :: "char ProductionHooks" where
  "sample_hooks = register_approver ''k2'' 12 (register_approver ''k1'' 11
     (hooks_new [(''k1'', CHR ''a''), (''k2'', CHR ''b'')]))"

definition sample_ed :: "char \<Rightarrow> bytes \<Rightarrow> bytes \<Rightarrow> bool" where
  "sample_ed key pre sig \<longleftrightarrow> sig = replicate 64 key"

definition sample_signed_job :: SignedActionJob where
  "sample_signed_job = sample_job\<lparr>SignedActionJob.signature := replicate 64 CHR ''a''\<rparr>"

definition sample_wipe_job :: SignedActionJob where
  "sample_wipe_job = sample_signed_job\<lparr>SignedActionJob.action := ActionKind.RemoteWipe,
     SignedActionJob.args := JString ''stolen'',
     additional_signatures := [\<lparr>AdditionalSignature.signature = replicate 64 CHR ''b'', key_id = ''k2''\<rparr>]\<rparr>"

definition sample_identity :: AgentIdentity where
  "sample_identity = \<lparr>AgentIdentity.tenant_id = 2, device_id = 3\<rparr>"

lemma sample_verified:
  assumes "\<not> has_float (SignedActionJob.args j)" "(k, c) \<in> {(''k1'', CHR ''a''), (''k2'', CHR ''b'')}"
  shows "production_verified sample_ed sample_wire sample_hooks k j (replicate 64 c)"
proof -
  have "keys sample_hooks k = Some c" using assms(2) by (auto simp: sample_hooks_def hooks_new_def register_approver_def)
  then show ?thesis using signing_pre_image_total [OF assms(1)]
    by (auto simp: production_verified_def sample_ed_def)
qed

lemmas sample_defs = sample_signed_job_def sample_wipe_job_def sample_job_def sample_range_def
  sample_identity_def sample_hooks_def hooks_new_def register_approver_def



text \<open>
  C2: no wipe without two people. If the production pipeline accepts a \<open>RemoteWipe\<close>, then two
  signatures verify over the job's one canonical pre-image, under keys whose registered approvers
  are two different users.
\<close>

theorem wipe_needs_two_approvers:
  assumes "validate c e j me now (production_hooks ed w p) = Ret (Ok v)"
    and "SignedActionJob.action j = ActionKind.RemoteWipe"
  shows "\<exists>s key1 key2 pre a b. s \<in> set (additional_signatures j) \<and> signing_pre_image w j = Ok pre \<and>
     keys p (SignedActionJob.key_id j) = Some key1 \<and> ed key1 pre (SignedActionJob.signature j) \<and>
     keys p (AdditionalSignature.key_id s) = Some key2 \<and> ed key2 pre (AdditionalSignature.signature s) \<and>
     approver_user_ids p (SignedActionJob.key_id j) = Some a \<and>
     approver_user_ids p (AdditionalSignature.key_id s) = Some b \<and> a \<noteq> b"
  using production.accepted_wipe [OF assms]
  by (auto simp: production_verified_def production_hooks_def)

theorem wipe_needs_two_approvers_witness:
  "\<exists>s key1 key2 pre a b. s \<in> set (additional_signatures sample_wipe_job) \<and>
     signing_pre_image sample_wire sample_wipe_job = Ok pre \<and>
     keys sample_hooks (SignedActionJob.key_id sample_wipe_job) = Some key1 \<and>
     sample_ed key1 pre (SignedActionJob.signature sample_wipe_job) \<and>
     keys sample_hooks (AdditionalSignature.key_id s) = Some key2 \<and>
     sample_ed key2 pre (AdditionalSignature.signature s) \<and>
     approver_user_ids sample_hooks (SignedActionJob.key_id sample_wipe_job) = Some a \<and>
     approver_user_ids sample_hooks (AdditionalSignature.key_id s) = Some b \<and> a \<noteq> b"
proof (rule wipe_needs_two_approvers)
  have "validate_structure sample_args_env sample_wipe_job = Ok ()" by code_simp
  moreover have "parse_args sample_args_env sample_wipe_job = Ok (JobArgs.RemoteWipe
       \<lparr>RemoteWipeArgs.reason = ''stolen'', crypto_shred_only = False, wait_for_ac = False\<rparr>)" by code_simp
  moreover have "production_verified sample_ed sample_wire sample_hooks ''k1'' sample_wipe_job (replicate 64 CHR ''a'')"
    "production_verified sample_ed sample_wire sample_hooks ''k2'' sample_wipe_job (replicate 64 CHR ''b'')"
    by (rule sample_verified; simp add: sample_defs)+
  ultimately show "validate sample_range sample_args_env sample_wipe_job sample_identity 0
     (production_hooks sample_ed sample_wire sample_hooks) = Ret (Ok \<lparr>job_args = JobArgs.RemoteWipe
       \<lparr>RemoteWipeArgs.reason = ''stolen'', crypto_shred_only = False, wait_for_ac = False\<rparr>\<rparr>)"
    unfolding validate_Ok_iff dual_control_Ok_iff local_key_gate_Ok_iff
    by (simp add: production_hooks_def verify_with_Ok_iff production_verified_def seconds_def sample_defs)
  show "SignedActionJob.action sample_wipe_job = ActionKind.RemoteWipe"
    by (simp add: sample_wipe_job_def)
qed

text \<open>
  C7: a signature binds the whole job. Two well-formed jobs with the same signing pre-image agree
  in every field but the signatures: ids, tenant, device, action, arguments (up to member order),
  validity window, key and correlation ids. A captured signature fits no other job.
\<close>

theorem signature_binds_job:
  assumes "wire_ok w" and "job_wf j" and "job_wf k"
    and "signing_pre_image w j = Ok b" and "signing_pre_image w k = Ok b"
  shows "same_signed_content j k"
  using assms by (rule pre_image_binds)

theorem signature_binds_job_witness:
  "same_signed_content sample_job (sample_job\<lparr>SignedActionJob.signature := ''other''\<rparr>)"
proof -
  obtain b where b: "signing_pre_image sample_wire sample_job = Ok b"
    using signing_pre_image_total [of sample_job sample_wire] by (auto simp: sample_job_def)
  then have "signing_pre_image sample_wire (sample_job\<lparr>SignedActionJob.signature := ''other''\<rparr>) = Ok b"
    using signing_pre_image_signatures [where w = sample_wire and j = sample_job and s = "''other''" and a = "[]"]
    by (simp add: sample_job_def)
  moreover have "job_wf sample_job" "job_wf (sample_job\<lparr>SignedActionJob.signature := ''other''\<rparr>)"
    by code_simp+
  ultimately show ?thesis using signature_binds_job [OF sample_wire_ok _ _ b] by blast
qed

text \<open>
  C24: processing a job always ends in a valid outcome. When the validity window leaves room for
  the clock tolerance, the processor returns: a report that validates, marked skipped when the
  pipeline accepts the job and refused with the pipeline's reason otherwise, and an evidence
  record with the same fresh id that validates, links to the old head and becomes the new one.
\<close>

theorem process_job_always_chains:
  assumes "utc_min (env_range env) \<le> not_before j - seconds 60" and "not_before j - seconds 60 \<le> utc_max (env_range env)"
    and "utc_min (env_range env) \<le> not_after j + seconds 60" and "not_after j + seconds 60 \<le> utc_max (env_range env)"
  shows "\<exists>r out. validate (env_range env) (env_args env) j me now h = Ret r \<and>
     process_job env new_id j me now h chain plat ag = Ret out \<and>
     outcome_ok env new_id chain out (if is_ok r then Skipped else Refused)
       (case r of Ok _ \<Rightarrow> None | Err why \<Rightarrow> Some why)"
  using validate_no_panic [OF assms] process_job_outcome by blast

theorem process_job_always_chains_witness:
  "\<exists>r out. validate sample_range sample_args_env sample_job sample_identity 0 Phase1Stub = Ret r \<and>
     process_job sample_env 77 sample_job sample_identity 0 Phase1Stub chain_new
       (ctx_platform sample_ctx) (ctx_agent sample_ctx) = Ret out \<and>
     outcome_ok sample_env 77 chain_new out (if is_ok r then Skipped else Refused)
       (case r of Ok _ \<Rightarrow> None | Err why \<Rightarrow> Some why)"
  using process_job_always_chains [of sample_env sample_job]
  by (simp add: sample_env_def sample_range_def sample_job_def seconds_def)

text \<open>
  The window policy decides first. With a policy, an open window runs the pipeline, a closed
  one yields a chained \<open>Skipped\<close> outcome and an impossible one a chained refusal for
  \<open>OutsideWindow\<close>, in the last two cases whatever the signature of the job.
\<close>

theorem window_policy_outcomes:
  assumes "validate (env_range env) (env_args env) j me now h = Ret r"
  shows "\<exists>out. process_job_with_window_policy env db new_id j me now h policy chain plat ag = Ret out \<and>
     (case should_execute db policy now of
        Execute \<Rightarrow> outcome_ok env new_id chain out (if is_ok r then Skipped else Refused)
          (case r of Ok _ \<Rightarrow> None | Err why \<Rightarrow> Some why)
      | Defer \<Rightarrow> outcome_ok env new_id chain out Skipped None
      | Refuse \<Rightarrow> outcome_ok env new_id chain out Refused (Some OutsideWindow))"
  using assms by (rule window_policy_outcome)

theorem window_policy_outcomes_witness:
  "\<exists>out. process_job_with_window_policy sample_env sample_tz_db 77 sample_job sample_identity 0 Phase1Stub
     sample_policy chain_new (ctx_platform sample_ctx) (ctx_agent sample_ctx) = Ret out \<and>
     outcome_ok sample_env 77 chain_new out Skipped None"
proof -
  have "validate (env_range sample_env) (env_args sample_env) sample_job sample_identity 0 Phase1Stub
    = Ret (Err UnknownKeyId)" by code_simp
  moreover have "should_execute sample_tz_db sample_policy 0 = Defer" by code_simp
  ultimately show ?thesis
    using window_policy_outcomes [of sample_env sample_job sample_identity 0 Phase1Stub "Err UnknownKeyId"
      sample_tz_db 77 sample_policy chain_new "ctx_platform sample_ctx" "ctx_agent sample_ctx"] by simp
qed

text \<open>
  Validation panics instead of refusing when a correctly signed job's window touches the ends
  of the representable range: exactly when the structure and signature pass and subtracting or
  adding the tolerance overflows.
\<close>

theorem validate_panics_iff:
  "validate c e j me now h = Panic \<longleftrightarrow>
     validate_structure e j = Ok () \<and> verify_signature h j = Ok () \<and>
     (not_before j - seconds 60 < utc_min c \<or> utc_max c < not_before j - seconds 60 \<or>
      not_before j - seconds 60 \<le> now \<and>
      (not_after j + seconds 60 < utc_min c \<or> utc_max c < not_after j + seconds 60))"
  by (auto simp: validate_Panic_iff)

text \<open>
  Nothing is lost on the way to the bus. For well-formed reports and records both canonical
  payloads exist, so both events are published, the report first.
\<close>

theorem emit_publishes_both:
  assumes "wire_ok w" and "result_wf (action_result p)" and "record_wf (evidence_of p)"
  shows "\<exists>s t. emit_processed_job w p = [DeviceControlActionResult s, EvidenceRecordEvent t] \<and>
     canonicalize (result_to_value w (action_result p)) = Ok s \<and>
     canonicalize (record_to_value w (evidence_of p)) = Ok t"
proof -
  obtain s where s: "canonical_payload (result_to_value w (action_result p)) = Ok s"
    using canonical_payload_Ok result_to_value_wf [OF assms(1,2)] by blast
  obtain t where t: "canonical_payload (record_to_value w (evidence_of p)) = Ok t"
    using canonical_payload_Ok record_to_value_wf [OF assms(1,3)] record_to_value_float by blast
  have "canonical_payload v = Ok x \<Longrightarrow> canonicalize v = Ok x" for v x
    by (auto simp: canonical_payload_def result_simps from_utf8_def split: if_splits)
  then show ?thesis using s t
    by (simp add: emit_processed_job_def canonical_action_result_payload_def canonical_evidence_record_payload_def)
qed

theorem emit_publishes_both_witness:
  "\<exists>s t. emit_processed_job sample_wire \<lparr>action_result = sample_result,
     evidence_of = sample_record FIRST_RECORD_PREV_HASH\<rparr> = [DeviceControlActionResult s, EvidenceRecordEvent t]"
proof -
  have "result_wf sample_result" "record_wf (sample_record FIRST_RECORD_PREV_HASH)" by code_simp+
  then show ?thesis
    using emit_publishes_both [OF sample_wire_ok, of "\<lparr>action_result = sample_result,
      evidence_of = sample_record FIRST_RECORD_PREV_HASH\<rparr>"] by auto
qed

end
