(* ===== verification/UsbPolicy.thy ===== *)
theory UsbPolicy
  imports DeviceTypes
begin

text \<open>
  \<open>crates/sda-device-control/src/usb_policy.rs\<close>: removable-media policies, their evaluation, the
  audit envelope and the store that swaps policy sets. The \<open>serde_json\<close> decoders of the slice and
  of a row are parameters. The lemmas show that the first match wins by priority and id whatever
  the order of the rows, that audit envelopes are always produced, and (in the locale
  \<open>swap_store\<close>, interpreted on the store) that readers see the set swapped in last.
\<close>

definition POLICY_SLICE_MAX_BYTES :: nat where "POLICY_SLICE_MAX_BYTES = 2 ^ 20"

datatype PolicySetError =
    SliceTooLarge nat nat
  | Json string
  | UnknownAction string string
  | UnknownDeviceClass string string

section \<open>Policies\<close>

datatype DeviceClass = Usb | Removable | Bluetooth | Mtp | Wpd | Audio | NetworkTether | OtherClass

definition parse_device_class :: "string \<Rightarrow> DeviceClass option" where
  "parse_device_class s =
     (if s = ''usb'' then Some Usb
      else if s = ''removable'' then Some Removable
      else if s = ''bluetooth'' then Some Bluetooth
      else if s = ''mtp'' then Some Mtp
      else if s = ''wpd'' then Some Wpd
      else if s = ''audio'' then Some Audio
      else if s = ''network-tether'' then Some NetworkTether
      else None)"

primrec device_class_str :: "DeviceClass \<Rightarrow> string" where
  "device_class_str Usb = ''usb''"
| "device_class_str Removable = ''removable''"
| "device_class_str Bluetooth = ''bluetooth''"
| "device_class_str Mtp = ''mtp''"
| "device_class_str Wpd = ''wpd''"
| "device_class_str Audio = ''audio''"
| "device_class_str NetworkTether = ''network-tether''"
| "device_class_str OtherClass = ''other''"

record DeviceCandidate =
  device_class :: DeviceClass
  vendor_id :: "string option"
  product_id :: "string option"
  serial :: "string option"
  bus_path :: "string option"

datatype Action = Block | Allow | Audit

record PolicyMatch =
  vendor_id :: "string option"
  product_id :: "string option"
  serial :: "string option"
  bus :: "string option"

record DevicePolicy =
  row_id :: string
  tenant_id :: string
  name :: string
  enabled :: bool
  device_class :: DeviceClass
  match_block :: PolicyMatch
  action :: Action
  priority :: int
  severity :: nat

text \<open>A wanted attribute must be present and pass the comparison; an absent one always passes.\<close>

definition attr_matches :: "(string \<Rightarrow> string \<Rightarrow> bool) \<Rightarrow> string option \<Rightarrow> string option \<Rightarrow> bool" where
  "attr_matches ok want got =
     (case want of None \<Rightarrow> True
      | Some w \<Rightarrow> (case got of Some g \<Rightarrow> ok g w | None \<Rightarrow> False))"

definition matches :: "DevicePolicy \<Rightarrow> DeviceCandidate \<Rightarrow> bool" where
  "matches p c =
     (if \<not> enabled p then False
      else if DevicePolicy.device_class p \<noteq> DeviceCandidate.device_class c then False
      else let m = match_block p in
        if \<not> attr_matches eq_ignore_ascii_case (PolicyMatch.vendor_id m) (DeviceCandidate.vendor_id c) then False
        else if \<not> attr_matches eq_ignore_ascii_case (PolicyMatch.product_id m) (DeviceCandidate.product_id c) then False
        else if \<not> attr_matches (=) (PolicyMatch.serial m) (DeviceCandidate.serial c) then False
        else if \<not> attr_matches str_contains (bus m) (bus_path c) then False
        else True)"

section \<open>Policy sets\<close>

record DevicePolicySet =
  sorted_rows :: "DevicePolicy list"
  set_enabled :: bool

definition empty_disabled :: DevicePolicySet where
  "empty_disabled = \<lparr>sorted_rows = [], set_enabled = False\<rparr>"

definition rank :: "DevicePolicy \<Rightarrow> int \<times> string" where
  "rank p = (priority p, row_id p)"

definition from_rows :: "DevicePolicy list \<Rightarrow> DevicePolicySet" where
  "from_rows rows = \<lparr>sorted_rows = sort_key rank rows, set_enabled = True\<rparr>"

definition set_len :: "DevicePolicySet \<Rightarrow> nat" where
  "set_len s = length (sorted_rows s)"

definition set_is_empty :: "DevicePolicySet \<Rightarrow> bool" where
  "set_is_empty s \<longleftrightarrow> sorted_rows s = []"

text \<open>\<open>Value::get\<close> followed by \<open>as_str\<close>.\<close>

definition get_str :: "json \<Rightarrow> string \<Rightarrow> string option" where
  "get_str v k = (case v of
     JObject m \<Rightarrow> (case map_of m k of Some (JString s) \<Rightarrow> Some s | _ \<Rightarrow> None)
   | _ \<Rightarrow> None)"

text \<open>The decoders of \<open>serde_json\<close> with their error texts: an array of values, and one row.\<close>

record policy_serde =
  from_slice_rows :: "bytes \<Rightarrow> (json list, string) result"
  from_value_policy :: "json \<Rightarrow> (DevicePolicy, string) result"

definition row_error :: "json \<Rightarrow> string \<Rightarrow> PolicySetError" where
  "row_error v err =
     (case get_str v ''id'' of
        None \<Rightarrow> Json err
      | Some i \<Rightarrow>
          (case get_str v ''action'' of
             Some a \<Rightarrow>
               if a \<notin> {''block'', ''allow'', ''audit''} then UnknownAction i a
               else (case get_str v ''device_class'' of
                  Some c \<Rightarrow> if parse_device_class c = None then UnknownDeviceClass i c else Json err
                | None \<Rightarrow> Json err)
           | None \<Rightarrow>
               (case get_str v ''device_class'' of
                  Some c \<Rightarrow> if parse_device_class c = None then UnknownDeviceClass i c else Json err
                | None \<Rightarrow> Json err)))"

fun parse_rows :: "policy_serde \<Rightarrow> json list \<Rightarrow> (DevicePolicy list, PolicySetError) result" where
  "parse_rows sd [] = Ok []"
| "parse_rows sd (v # vs) =
     bind_result (map_err (row_error v) (from_value_policy sd v)) (\<lambda>row.
     bind_result (parse_rows sd vs) (\<lambda>rows. Ok (row # rows)))"

definition parse_slice :: "policy_serde \<Rightarrow> bytes \<Rightarrow> (DevicePolicySet, PolicySetError) result" where
  "parse_slice sd b =
     (if length b > POLICY_SLICE_MAX_BYTES then Err (SliceTooLarge (length b) POLICY_SLICE_MAX_BYTES)
      else bind_result (map_err Json (from_slice_rows sd b)) (\<lambda>rows.
           map_ok from_rows (parse_rows sd rows)))"

section \<open>Decisions\<close>

record Decision =
  action :: Action
  matched_policy_id :: "string option"
  matched_policy_name :: "string option"
  severity :: nat

definition decision_of :: "DevicePolicy \<Rightarrow> Decision" where
  "decision_of p = \<lparr>Decision.action = DevicePolicy.action p, matched_policy_id = Some (row_id p),
     matched_policy_name = Some (name p), severity = DevicePolicy.severity p\<rparr>"

fun evaluate_rows :: "DevicePolicy list \<Rightarrow> DeviceCandidate \<Rightarrow> Action \<Rightarrow> Decision" where
  "evaluate_rows [] c d = \<lparr>Decision.action = d, matched_policy_id = None,
     matched_policy_name = None, severity = 5\<rparr>"
| "evaluate_rows (p # ps) c d = (if matches p c then decision_of p else evaluate_rows ps c d)"

definition evaluate :: "DevicePolicySet \<Rightarrow> DeviceCandidate \<Rightarrow> Action \<Rightarrow> Decision" where
  "evaluate s c d = evaluate_rows (sorted_rows s) c d"

definition candidate_to_value :: "DeviceCandidate \<Rightarrow> json" where
  "candidate_to_value c = JObject
     ([(''device_class'', JString (device_class_str (DeviceCandidate.device_class c)))] @
      opt_field ''vendor_id'' (map_option JString (DeviceCandidate.vendor_id c)) @
      opt_field ''product_id'' (map_option JString (DeviceCandidate.product_id c)) @
      opt_field ''serial'' (map_option JString (DeviceCandidate.serial c)) @
      opt_field ''bus_path'' (map_option JString (bus_path c)))"

primrec action_str :: "Action \<Rightarrow> string" where
  "action_str Block = ''block''"
| "action_str Allow = ''allow''"
| "action_str Audit = ''audit''"

definition event_payload_value :: "Decision \<Rightarrow> string \<Rightarrow> DeviceCandidate \<Rightarrow> json" where
  "event_payload_value d tenant c = JObject
     [(''connector_type'', JString ''device-control''),
      (''tenant_id'', JString tenant),
      (''decision'', JString (action_str (Decision.action d))),
      (''device'', candidate_to_value c),
      (''matched_policy'',
        (case (matched_policy_id d, matched_policy_name d) of
           (Some i, Some n) \<Rightarrow> JObject [(''id'', JString i), (''name'', JString n),
             (''severity'', nat_value (Decision.severity d))]
         | _ \<Rightarrow> JNull)),
      (''default_action_used'', JBool (matched_policy_id d = None))]"

text \<open>The \<open>expect\<close> on \<open>String::from_utf8\<close> is a panic.\<close>

definition to_event_payload ::
  "Decision \<Rightarrow> string \<Rightarrow> DeviceCandidate \<Rightarrow> (string, canonicalize_error) result run" where
  "to_event_payload d tenant c =
     (case canonicalize (event_payload_value d tenant c) of
        Err e \<Rightarrow> Ret (Err e)
      | Ok b \<Rightarrow> (case from_utf8 b of Some s \<Rightarrow> Ret (Ok s) | None \<Rightarrow> Panic))"

section \<open>The store\<close>

record DevicePolicyStore =
  inner :: DevicePolicySet
  default_action :: Action
  fallback_action :: Action

definition store_new :: "Action \<Rightarrow> Action \<Rightarrow> DevicePolicyStore" where
  "store_new d f = \<lparr>inner = empty_disabled, default_action = d, fallback_action = f\<rparr>"

definition store_apply :: "DevicePolicyStore \<Rightarrow> DevicePolicySet \<Rightarrow> DevicePolicyStore \<times> DevicePolicySet" where
  "store_apply st new_set = (st\<lparr>inner := new_set\<rparr>, inner st)"

definition store_current :: "DevicePolicyStore \<Rightarrow> DevicePolicySet" where
  "store_current st = inner st"

definition store_evaluate :: "DevicePolicyStore \<Rightarrow> DeviceCandidate \<Rightarrow> Decision" where
  "store_evaluate st c =
     (let set = store_current st;
          default = if set_enabled set then default_action st else fallback_action st
      in evaluate set c default)"

section \<open>Evaluation\<close>

lemma evaluate_rows_no_match:
  "(\<And>p. p \<in> set ps \<Longrightarrow> \<not> matches p c) \<Longrightarrow>
   evaluate_rows ps c d = \<lparr>Decision.action = d, matched_policy_id = None, matched_policy_name = None, severity = 5\<rparr>"
  by (induction ps) auto

lemma evaluate_rows_first:
  assumes "sorted (map rank ps)" "\<exists>p \<in> set ps. matches p c"
  shows "\<exists>p \<in> set ps. matches p c \<and> (\<forall>q \<in> set ps. matches q c \<longrightarrow> rank p \<le> rank q) \<and>
     evaluate_rows ps c d = decision_of p"
  using assms
proof (induction ps)
  case (Cons p ps)
  show ?case
  proof (cases "matches p c")
    case True
    then show ?thesis using Cons.prems(1) by auto
  next
    case False
    then show ?thesis using Cons by auto
  qed
qed simp

lemma rank_inj: "distinct (map rank rows) \<Longrightarrow> inj_on rank (set rows)"
  by (simp add: distinct_map)

lemma from_rows_perm:
  assumes "mset rows = mset rows'" "distinct (map rank rows)"
  shows "from_rows rows = from_rows rows'"
proof -
  have "sort_key rank rows = sort_key rank rows'"
    using assms rank_inj by (intro sort_key_inj_key_eq) auto
  then show ?thesis by (simp add: from_rows_def)
qed

section \<open>Audit envelopes\<close>

definition opt_valid :: "string option \<Rightarrow> bool" where
  "opt_valid s = (case s of None \<Rightarrow> True | Some x \<Rightarrow> utf8_valid x)"

text \<open>What the Rust types guarantee of a candidate and of a decision.\<close>

definition candidate_wf :: "DeviceCandidate \<Rightarrow> bool" where
  "candidate_wf c \<longleftrightarrow> opt_valid (DeviceCandidate.vendor_id c) \<and> opt_valid (DeviceCandidate.product_id c) \<and>
     opt_valid (DeviceCandidate.serial c) \<and> opt_valid (bus_path c)"

definition decision_wf :: "Decision \<Rightarrow> bool" where
  "decision_wf d \<longleftrightarrow> opt_valid (matched_policy_id d) \<and> opt_valid (matched_policy_name d) \<and> Decision.severity d < 256"

lemma device_class_str_valid: "utf8_valid (device_class_str k)"
  by (cases k) (simp_all add: utf8_valid_ascii)

lemma candidate_value_ok:
  assumes "candidate_wf c"
  shows "json_wf (candidate_to_value c) \<and> \<not> has_float (candidate_to_value c)"
  using assms device_class_str_valid
  by (cases "DeviceCandidate.vendor_id c"; cases "DeviceCandidate.product_id c";
      cases "DeviceCandidate.serial c"; cases "bus_path c")
    (simp_all add: candidate_to_value_def opt_field_def candidate_wf_def opt_valid_def utf8_valid_ascii)

lemma event_payload_ok:
  assumes "decision_wf d" "candidate_wf c" "utf8_valid tenant"
  shows "json_wf (event_payload_value d tenant c) \<and> \<not> has_float (event_payload_value d tenant c)"
proof -
  have "utf8_valid (action_str a)" for a by (cases a) (simp_all add: utf8_valid_ascii)
  moreover have "Decision.severity d < 2 ^ 64"
    using assms(1) by (auto simp: decision_wf_def intro: less_trans)
  ultimately show ?thesis
    using assms candidate_value_ok [OF assms(2)]
    by (cases "matched_policy_id d"; cases "matched_policy_name d")
      (simp_all add: event_payload_value_def decision_wf_def opt_valid_def utf8_valid_ascii nat_value_def number_wf_def)
qed

section \<open>Swapping sets\<close>

text \<open>What readers rely on: they see the value swapped in last.\<close>

locale swap_store =
  fixes current :: "'s \<Rightarrow> 'v" and swap :: "'s \<Rightarrow> 'v \<Rightarrow> 's"
  assumes current_swap: "current (swap s v) = v"
    and swap_swap: "swap (swap s v) u = swap s u"
begin

lemma current_swaps: "current (foldl swap s vs) = (if vs = [] then current s else last vs)"
  by (induction vs rule: rev_induct) (simp_all add: current_swap)

lemma swaps_last: "vs \<noteq> [] \<Longrightarrow> foldl swap s vs = swap s (last vs)"
proof (induction vs rule: rev_induct)
  case (snoc v vs)
  then show ?case by (cases "vs = []") (simp_all add: swap_swap)
qed simp

end

interpretation policies: swap_store store_current "\<lambda>st new_set. fst (store_apply st new_set)"
  by unfold_locales (simp_all add: store_current_def store_apply_def)

section \<open>Properties\<close>

text \<open>
  C32: the highest-ranked matching policy decides. Evaluating a set built from any rows gives the
  default decision when no row matches, and otherwise the decision of a matching row whose
  priority and id are the least among all matching rows.
\<close>

theorem evaluate_highest_rank:
  "(if \<exists>p \<in> set rows. matches p c
    then \<exists>p. p \<in> set rows \<and> matches p c \<and> (\<forall>q. q \<in> set rows \<and> matches q c \<longrightarrow> rank p \<le> rank q) \<and>
      evaluate (from_rows rows) c d = decision_of p
    else evaluate (from_rows rows) c d =
      \<lparr>Decision.action = d, matched_policy_id = None, matched_policy_name = None, severity = 5\<rparr>)"
proof (cases "\<exists>p \<in> set rows. matches p c")
  case True
  then have "\<exists>p \<in> set (sort_key rank rows). matches p c" by simp
  from evaluate_rows_first [OF sorted_sort_key this, of d] True show ?thesis
    by (auto simp: evaluate_def from_rows_def)
next
  case False
  then have "evaluate_rows (sort_key rank rows) c d =
      \<lparr>Decision.action = d, matched_policy_id = None, matched_policy_name = None, severity = 5\<rparr>"
    by (intro evaluate_rows_no_match) auto
  then show ?thesis using False by (simp add: evaluate_def from_rows_def)
qed

definition sample_policy_row :: "string \<Rightarrow> int \<Rightarrow> Action \<Rightarrow> DevicePolicy" where
  "sample_policy_row i pr a = \<lparr>row_id = i, tenant_id = ''t'', name = ''n'', enabled = True,
     device_class = Usb, match_block = \<lparr>PolicyMatch.vendor_id = Some ''05AC'', product_id = None,
     serial = None, bus = None\<rparr>, action = a, priority = pr, severity = 7\<rparr>"

definition sample_candidate :: DeviceCandidate where
  "sample_candidate = \<lparr>DeviceCandidate.device_class = Usb, vendor_id = Some ''05ac'',
     product_id = None, serial = None, bus_path = None\<rparr>"

theorem evaluate_highest_rank_witness:
  "\<exists>p. evaluate (from_rows [sample_policy_row ''b'' 10 Allow, sample_policy_row ''a'' 10 Block])
     sample_candidate Audit = decision_of p \<and> rank p \<le> (10, ''a'')"
proof -
  let ?rows = "[sample_policy_row ''b'' 10 Allow, sample_policy_row ''a'' 10 Block]"
  have m: "\<exists>p \<in> set ?rows. matches p sample_candidate" by code_simp
  have a: "sample_policy_row ''a'' 10 Block \<in> set ?rows" "matches (sample_policy_row ''a'' 10 Block) sample_candidate"
    "rank (sample_policy_row ''a'' 10 Block) = (10, ''a'')" by code_simp+
  show ?thesis using evaluate_highest_rank [of ?rows sample_candidate Audit] m a by metis
qed

text \<open>
  Every agent of a fleet decides alike. When no two rows share priority and id, the order of
  the rows in the slice does not matter: permuted rows give the same policy set, hence the same
  decisions.
\<close>

theorem policy_order_irrelevant:
  assumes "mset rows = mset rows'" and "distinct (map rank rows)"
  shows "from_rows rows = from_rows rows' \<and>
     (\<forall>c d. evaluate (from_rows rows) c d = evaluate (from_rows rows') c d)"
  using from_rows_perm [OF assms] by simp

theorem policy_order_irrelevant_witness:
  "from_rows [sample_policy_row ''b'' 10 Allow, sample_policy_row ''a'' 5 Block]
   = from_rows [sample_policy_row ''a'' 5 Block, sample_policy_row ''b'' 10 Allow]"
  using policy_order_irrelevant [of "[sample_policy_row ''b'' 10 Allow, sample_policy_row ''a'' 5 Block]"
    "[sample_policy_row ''a'' 5 Block, sample_policy_row ''b'' 10 Allow]"]
  by (simp add: rank_def sample_policy_row_def)

text \<open>
  An audit envelope always exists. For well-formed inputs \<open>to_event_payload\<close> neither fails
  nor panics, and returns the canonical JSON of the decision.
\<close>

theorem event_payload_total:
  assumes "decision_wf d" and "candidate_wf c" and "utf8_valid tenant"
  shows "\<exists>s. to_event_payload d tenant c = Ret (Ok s) \<and> canonicalize (event_payload_value d tenant c) = Ok s"
proof -
  have ok: "json_wf (event_payload_value d tenant c)" "\<not> has_float (event_payload_value d tenant c)"
    using event_payload_ok [OF assms] by auto
  then obtain b where b: "canonicalize (event_payload_value d tenant c) = Ok b"
    using write_value_is_ok by (auto simp: canonicalize_def is_ok_iff)
  then show ?thesis using canonicalize_utf8 [OF ok(1) b] by (simp add: to_event_payload_def)
qed

theorem event_payload_total_witness:
  "\<exists>s. to_event_payload (decision_of (sample_policy_row ''a'' 5 Block)) ''t'' sample_candidate = Ret (Ok s)"
proof -
  have "decision_wf (decision_of (sample_policy_row ''a'' 5 Block))" "candidate_wf sample_candidate" "utf8_valid ''t''"
    by code_simp+
  from event_payload_total [OF this] show ?thesis by blast
qed

end
