(* ===== verification/UsbSupervisor.thy ===== *)
theory UsbSupervisor
  imports UsbPolicy "HOL-Library.Word"
begin

text \<open>
  \<open>crates/sda-device-control/src/usb_supervisor.rs\<close> and \<open>usb_ipc.rs\<close>: the supervisor that owns
  the policy store and the decision counters, and the line protocol of the per-OS helpers. The
  counters are 64-bit atomics: \<open>fetch_add\<close> wraps. The lemmas show that the supervisor always
  enforces the last slice that parsed, whatever failed since, and that the counters count.
\<close>

section \<open>The supervisor\<close>

record UsbPolicySupervisorConfig =
  tenant_id :: string
  default_action :: Action
  fallback_action :: Action

definition default_config :: UsbPolicySupervisorConfig where
  "default_config = \<lparr>UsbPolicySupervisorConfig.tenant_id = [], default_action = Audit, fallback_action = Audit\<rparr>"

datatype UsbPolicyApplyError = BundleUnverified string | PolicyParse PolicySetError

record UsbPolicyApplyOutcome =
  previous_len :: nat
  new_len :: nat
  previous_was_disabled_sentinel :: bool

record DecisionCounters =
  block :: "64 word"
  allow :: "64 word"
  audit :: "64 word"
  apply_ok :: "64 word"
  apply_unverified :: "64 word"
  apply_malformed :: "64 word"

record UsbPolicySupervisor =
  store :: DevicePolicyStore
  supervisor_tenant :: string
  counters :: DecisionCounters

definition zero_counters :: DecisionCounters where
  "zero_counters = \<lparr>block = 0, allow = 0, audit = 0, apply_ok = 0, apply_unverified = 0, apply_malformed = 0\<rparr>"

definition supervisor_new :: "UsbPolicySupervisorConfig \<Rightarrow> UsbPolicySupervisor" where
  "supervisor_new cfg = \<lparr>
     store = store_new (UsbPolicySupervisorConfig.default_action cfg) (UsbPolicySupervisorConfig.fallback_action cfg),
     supervisor_tenant = UsbPolicySupervisorConfig.tenant_id cfg, counters = zero_counters\<rparr>"

definition set_tenant_id :: "string \<Rightarrow> UsbPolicySupervisor \<Rightarrow> UsbPolicySupervisor" where
  "set_tenant_id t s = s\<lparr>supervisor_tenant := t\<rparr>"

definition bump :: "((64 word \<Rightarrow> 64 word) \<Rightarrow> DecisionCounters \<Rightarrow> DecisionCounters) \<Rightarrow>
    UsbPolicySupervisor \<Rightarrow> UsbPolicySupervisor" where
  "bump field s = s\<lparr>counters := field (\<lambda>n. n + 1) (counters s)\<rparr>"

definition apply_bundle_slice ::
  "policy_serde \<Rightarrow> bytes \<Rightarrow> UsbPolicySupervisor \<Rightarrow>
   (UsbPolicyApplyOutcome, UsbPolicyApplyError) result \<times> UsbPolicySupervisor" where
  "apply_bundle_slice sd sl s =
     (case parse_slice sd sl of
        Err e \<Rightarrow> (Err (PolicyParse e), bump apply_malformed_update s)
      | Ok new_set \<Rightarrow>
          let (st, prev) = store_apply (store s) new_set;
              s' = bump apply_ok_update (s\<lparr>store := st\<rparr>)
          in (Ok \<lparr>previous_len = set_len prev, new_len = set_len (store_current (store s')),
                 previous_was_disabled_sentinel = (\<not> set_enabled prev)\<rparr>, s'))"

definition record_bundle_unverified ::
  "string \<Rightarrow> UsbPolicySupervisor \<Rightarrow> UsbPolicyApplyError \<times> UsbPolicySupervisor" where
  "record_bundle_unverified why s = (BundleUnverified why, bump apply_unverified_update s)"

definition supervisor_evaluate :: "DeviceCandidate \<Rightarrow> UsbPolicySupervisor \<Rightarrow> Decision \<times> UsbPolicySupervisor" where
  "supervisor_evaluate c s =
     (let d = store_evaluate (store s) c in
      (d, case Decision.action d of
            Block \<Rightarrow> bump block_update s
          | Allow \<Rightarrow> bump allow_update s
          | Audit \<Rightarrow> bump audit_update s))"

definition evaluate_with_payload ::
  "DeviceCandidate \<Rightarrow> UsbPolicySupervisor \<Rightarrow>
   ((Decision \<times> string), canonicalize_error) result run \<times> UsbPolicySupervisor" where
  "evaluate_with_payload c s =
     (let (d, s') = supervisor_evaluate c s in
      (bind_run (to_event_payload d (supervisor_tenant s') c) (\<lambda>r. Ret (map_ok (\<lambda>p. (d, p)) r)), s'))"

definition has_verified_set :: "UsbPolicySupervisor \<Rightarrow> bool" where
  "has_verified_set s = set_enabled (store_current (store s))"

section \<open>The helper protocol\<close>

definition USB_IPC_FRAME_MAX_BYTES :: nat where "USB_IPC_FRAME_MAX_BYTES = 64 * 1024"
definition USB_IPC_PROTOCOL_VERSION :: nat where "USB_IPC_PROTOCOL_VERSION = 1"

datatype UsbIpcError = FrameTooLarge nat nat | IpcJson string | UnsupportedVersion nat nat

record UsbIpcQueryRequest =
  v :: nat
  transaction_id :: string
  candidate :: DeviceCandidate

record UsbIpcQueryResponse =
  v :: nat
  transaction_id :: string
  decision :: Decision
  default_action_used :: bool

definition is_block :: "UsbIpcQueryResponse \<Rightarrow> bool" where
  "is_block r \<longleftrightarrow> Decision.action (decision r) = Block"

definition strip_trailing_newline :: "bytes \<Rightarrow> bytes" where
  "strip_trailing_newline b = (if b \<noteq> [] \<and> last b = CHR 0x0A then butlast b else b)"

text \<open>\<open>serde_json\<close> on the two messages: an encoder, and a decoder with its error text.\<close>

record 'm message_serde =
  msg_to_vec :: "'m \<Rightarrow> bytes"
  msg_from_slice :: "bytes \<Rightarrow> ('m, string) result"

definition encode_query_request ::
  "UsbIpcQueryRequest message_serde \<Rightarrow> UsbIpcQueryRequest \<Rightarrow> (bytes, UsbIpcError) result" where
  "encode_query_request sd req =
     (let buf = msg_to_vec sd req in
      if length buf + 1 > USB_IPC_FRAME_MAX_BYTES then Err (FrameTooLarge (length buf + 1) USB_IPC_FRAME_MAX_BYTES)
      else Ok (buf @ [CHR 0x0A]))"

definition decode_query_request ::
  "UsbIpcQueryRequest message_serde \<Rightarrow> bytes \<Rightarrow> (UsbIpcQueryRequest, UsbIpcError) result" where
  "decode_query_request sd b =
     (if length b > USB_IPC_FRAME_MAX_BYTES then Err (FrameTooLarge (length b) USB_IPC_FRAME_MAX_BYTES)
      else bind_result (map_err IpcJson (msg_from_slice sd (strip_trailing_newline b))) (\<lambda>req.
        if UsbIpcQueryRequest.v req \<noteq> USB_IPC_PROTOCOL_VERSION
        then Err (UnsupportedVersion (UsbIpcQueryRequest.v req) USB_IPC_PROTOCOL_VERSION)
        else Ok req))"

definition encode_query_response ::
  "UsbIpcQueryResponse message_serde \<Rightarrow> UsbIpcQueryResponse \<Rightarrow> (bytes, UsbIpcError) result" where
  "encode_query_response sd resp =
     (let buf = msg_to_vec sd resp in
      if length buf + 1 > USB_IPC_FRAME_MAX_BYTES then Err (FrameTooLarge (length buf + 1) USB_IPC_FRAME_MAX_BYTES)
      else Ok (buf @ [CHR 0x0A]))"

definition decode_query_response ::
  "UsbIpcQueryResponse message_serde \<Rightarrow> bytes \<Rightarrow> (UsbIpcQueryResponse, UsbIpcError) result" where
  "decode_query_response sd b =
     (if length b > USB_IPC_FRAME_MAX_BYTES then Err (FrameTooLarge (length b) USB_IPC_FRAME_MAX_BYTES)
      else bind_result (map_err IpcJson (msg_from_slice sd (strip_trailing_newline b))) (\<lambda>resp.
        if UsbIpcQueryResponse.v resp \<noteq> USB_IPC_PROTOCOL_VERSION
        then Err (UnsupportedVersion (UsbIpcQueryResponse.v resp) USB_IPC_PROTOCOL_VERSION)
        else Ok resp))"

section \<open>Sequences of operations\<close>

datatype usb_op = ApplySlice bytes | Unverified string | Query DeviceCandidate | SetTenant string

primrec usb_step :: "policy_serde \<Rightarrow> UsbPolicySupervisor \<Rightarrow> usb_op \<Rightarrow> UsbPolicySupervisor" where
  "usb_step sd s (ApplySlice b) = snd (apply_bundle_slice sd b s)"
| "usb_step sd s (Unverified why) = snd (record_bundle_unverified why s)"
| "usb_step sd s (Query c) = snd (supervisor_evaluate c s)"
| "usb_step sd s (SetTenant t) = set_tenant_id t s"

definition usb_run :: "policy_serde \<Rightarrow> UsbPolicySupervisorConfig \<Rightarrow> usb_op list \<Rightarrow> UsbPolicySupervisor" where
  "usb_run sd cfg ops = foldl (usb_step sd) (supervisor_new cfg) ops"

text \<open>The abstract view: the slices that parsed, in order.\<close>

fun good_sets :: "policy_serde \<Rightarrow> usb_op list \<Rightarrow> DevicePolicySet list" where
  "good_sets sd [] = []"
| "good_sets sd (ApplySlice b # ops) =
     (case parse_slice sd b of Ok ps \<Rightarrow> ps # good_sets sd ops | Err _ \<Rightarrow> good_sets sd ops)"
| "good_sets sd (op # ops) = good_sets sd ops"

definition is_query :: "usb_op \<Rightarrow> bool" where
  "is_query op = (case op of Query c \<Rightarrow> True | _ \<Rightarrow> False)"

lemma bump_store [simp]: "store (bump f s) = store s"
  by (simp add: bump_def)

lemma usb_step_store:
  "store (usb_step sd s op) =
     foldl (\<lambda>st ps. fst (store_apply st ps)) (store s) (good_sets sd [op])"
  by (cases op)
    (simp_all add: apply_bundle_slice_def record_bundle_unverified_def supervisor_evaluate_def
      set_tenant_id_def Let_def store_apply_def split: result.splits Action.splits)

lemma good_sets_append: "good_sets sd (xs @ ys) = good_sets sd xs @ good_sets sd ys"
  by (induction sd xs rule: good_sets.induct) (simp_all split: result.splits)

lemma usb_run_store:
  "store (foldl (usb_step sd) s ops) = foldl (\<lambda>st ps. fst (store_apply st ps)) (store s) (good_sets sd ops)"
proof (induction ops rule: rev_induct)
  case (snoc op ops)
  then show ?case by (simp add: usb_step_store good_sets_append)
qed simp

lemma parse_slice_enabled: "parse_slice sd b = Ok ps \<Longrightarrow> set_enabled ps"
  by (auto simp: parse_slice_def result_simps from_rows_def split: if_splits)

lemma good_sets_enabled: "ps \<in> set (good_sets sd ops) \<Longrightarrow> set_enabled ps"
  by (induction sd ops rule: good_sets.induct) (auto dest: parse_slice_enabled split: result.splits)

lemma query_counters:
  "(let k = counters (usb_step sd s op) in block k + allow k + audit k) =
   (let k = counters s in block k + allow k + audit k) + (if is_query op then 1 else 0)"
  by (cases op)
    (simp_all add: apply_bundle_slice_def record_bundle_unverified_def supervisor_evaluate_def
      set_tenant_id_def is_query_def bump_def Let_def store_apply_def split: result.splits Action.splits)

lemma apply_counter:
  "apply_ok (counters (usb_step sd s op)) = apply_ok (counters s) + of_nat (length (good_sets sd [op]))"
  by (cases op)
    (simp_all add: apply_bundle_slice_def record_bundle_unverified_def supervisor_evaluate_def
      set_tenant_id_def bump_def Let_def store_apply_def split: result.splits Action.splits)

section \<open>Properties\<close>

text \<open>
  C25: last-known-good. After any sequence of slice applications, verification failures, tenant
  changes and queries, the supervisor enforces exactly the last slice that parsed; before the
  first one it holds the empty, disabled boot sentinel, and it reports a verified set if and only
  if some slice parsed.
\<close>

theorem supervisor_last_known_good:
  "store_current (store (usb_run sd cfg ops)) =
     (if good_sets sd ops = [] then empty_disabled else last (good_sets sd ops)) \<and>
   (has_verified_set (usb_run sd cfg ops) \<longleftrightarrow> good_sets sd ops \<noteq> [])"
proof -
  have *: "store_current (store (usb_run sd cfg ops)) =
     (if good_sets sd ops = [] then empty_disabled else last (good_sets sd ops))"
    unfolding usb_run_def usb_run_store policies.current_swaps
    by (simp add: supervisor_new_def store_new_def store_current_def)
  moreover have "good_sets sd ops \<noteq> [] \<Longrightarrow> set_enabled (last (good_sets sd ops))"
    using good_sets_enabled last_in_set by blast
  ultimately show ?thesis by (auto simp: has_verified_set_def empty_disabled_def)
qed

text \<open>
  The counters count. Whatever the interleaving of operations, the block, allow and audit
  counters add up to the number of queries, and the apply counter to the number of slices that
  parsed, modulo the width of the 64-bit atomics.
\<close>

theorem supervisor_counters:
  "block (counters (usb_run sd cfg ops)) + allow (counters (usb_run sd cfg ops)) + audit (counters (usb_run sd cfg ops))
     = of_nat (length (filter is_query ops)) \<and>
   apply_ok (counters (usb_run sd cfg ops)) = of_nat (length (good_sets sd ops))"
proof (induction ops rule: rev_induct)
  case Nil
  then show ?case by (simp add: usb_run_def supervisor_new_def zero_counters_def)
next
  case (snoc op ops)
  then show ?case
    using query_counters [of sd "usb_run sd cfg ops" op] apply_counter [of sd "usb_run sd cfg ops" op]
    by (simp add: usb_run_def good_sets_append Let_def)
qed

text \<open>
  The helper protocol round-trips. Given a JSON codec that decodes what it encodes and never
  ends an encoding in a newline, a version-1 request that fits a frame is decoded from its frame
  unchanged, and a request that does not fit is refused by the encoder.
\<close>

theorem query_request_roundtrip:
  assumes "msg_from_slice sd (msg_to_vec sd req) = Ok req"
    and "last (msg_to_vec sd req) \<noteq> CHR 0x0A"
    and "UsbIpcQueryRequest.v req = 1"
  shows "if length (msg_to_vec sd req) < 65536
     then \<exists>b. encode_query_request sd req = Ok b \<and> decode_query_request sd b = Ok req
     else encode_query_request sd req = Err (FrameTooLarge (length (msg_to_vec sd req) + 1) 65536)"
  using assms
  by (auto simp: encode_query_request_def decode_query_request_def Let_def USB_IPC_FRAME_MAX_BYTES_def
      USB_IPC_PROTOCOL_VERSION_def strip_trailing_newline_def bind_result_def map_err_def)

definition sample_request :: UsbIpcQueryRequest where
  "sample_request = \<lparr>UsbIpcQueryRequest.v = 1, transaction_id = ''x'', candidate = sample_candidate\<rparr>"

definition sample_msg_serde :: "UsbIpcQueryRequest message_serde" where
  "sample_msg_serde = \<lparr>msg_to_vec = (\<lambda>r. ''{'' @ UsbIpcQueryRequest.transaction_id r @ ''}''),
     msg_from_slice = (\<lambda>b. if b = ''{x}'' then Ok sample_request else Err ''syntax'')\<rparr>"

theorem query_request_roundtrip_witness:
  "\<exists>b. encode_query_request sample_msg_serde sample_request = Ok b \<and>
     decode_query_request sample_msg_serde b = Ok sample_request"
  using query_request_roundtrip [of sample_msg_serde sample_request]
  by (simp add: sample_msg_serde_def sample_request_def)

end
