(* ===== verification/JitGrant.thy ===== *)
theory JitGrant
  imports Json
begin

text \<open>
  Just-in-time admin grants: \<open>crates/sda-jit-admin/src/grant.rs\<close>, \<open>state_machine.rs\<close> and the
  policy half of \<open>watchdog.rs\<close>, with the account types of \<open>crates/sda-pal/src/admin_manager.rs\<close>.
  The lemmas give the transition matrix exactly, show terminal states absorbing and life cycles
  short, tie the OS handle to the state, bound the stored reason, and characterise the watchdog's
  revocation lists.
\<close>

section \<open>Records\<close>

record AdminAccount =
  username :: string
  source :: string
  since :: "datetime option"
  group :: "string option"

record UserRef =
  username :: string
  domain :: "string option"

record GrantHandle =
  handle_id :: string
  user :: UserRef
  until :: datetime

datatype GrantState = Requested | Approved | Granted | Denied | Revoked | Expired | DriftDetected

definition is_terminal :: "GrantState \<Rightarrow> bool" where
  "is_terminal s \<longleftrightarrow> s \<in> {Denied, Revoked, Expired, DriftDetected}"

definition is_active :: "GrantState \<Rightarrow> bool" where
  "is_active s \<longleftrightarrow> s = Granted"

primrec grant_state_str :: "GrantState \<Rightarrow> string" where
  "grant_state_str Requested = ''requested''"
| "grant_state_str Approved = ''approved''"
| "grant_state_str Granted = ''granted''"
| "grant_state_str Denied = ''denied''"
| "grant_state_str Revoked = ''revoked''"
| "grant_state_str Expired = ''expired''"
| "grant_state_str DriftDetected = ''drift_detected''"

record GrantRecord =
  grant_id :: string
  requested_by :: string
  user :: UserRef
  until :: datetime
  state :: GrantState
  requested_at :: datetime
  last_transition_at :: datetime
  handle :: "GrantHandle option"
  last_reason :: "string option"
  evidence_ids :: "string list"

definition new_requested :: "string \<Rightarrow> string \<Rightarrow> UserRef \<Rightarrow> datetime \<Rightarrow> datetime \<Rightarrow> GrantRecord" where
  "new_requested i by_whom u til now = \<lparr>grant_id = i, requested_by = by_whom, user = u, until = til,
     state = Requested, requested_at = now, last_transition_at = now, handle = None,
     last_reason = Some ''requested'', evidence_ids = []\<rparr>"

definition is_overdue :: "GrantRecord \<Rightarrow> datetime \<Rightarrow> bool" where
  "is_overdue r now \<longleftrightarrow> is_active (state r) \<and> now \<ge> GrantRecord.until r"

section \<open>Revocation reasons\<close>

datatype RevocationReason =
  Timer | Operator | HeartbeatLoss | PowerSuspend | PowerSaver | Logout | BootSweep | Drift

primrec revocation_reason_str :: "RevocationReason \<Rightarrow> string" where
  "revocation_reason_str Timer = ''timer''"
| "revocation_reason_str Operator = ''operator''"
| "revocation_reason_str HeartbeatLoss = ''heartbeat_loss''"
| "revocation_reason_str PowerSuspend = ''power_suspend''"
| "revocation_reason_str PowerSaver = ''power_saver''"
| "revocation_reason_str Logout = ''logout''"
| "revocation_reason_str BootSweep = ''boot_sweep''"
| "revocation_reason_str Drift = ''drift''"

section \<open>The state machine\<close>

datatype StateTransition =
    Approve "string option"
  | Deny "string option"
  | Grant GrantHandle "string option"
  | Revoke RevocationReason
  | Expire
  | DetectDrift "string option"

primrec transition_tag :: "StateTransition \<Rightarrow> string" where
  "transition_tag (Approve _) = ''approve''"
| "transition_tag (Deny _) = ''deny''"
| "transition_tag (Grant _ _) = ''grant''"
| "transition_tag (Revoke _) = ''revoke''"
| "transition_tag Expire = ''expire''"
| "transition_tag (DetectDrift _) = ''drift_detected''"

datatype TransitionError = Invalid GrantState GrantState | Terminal GrantState

primrec target_for :: "StateTransition \<Rightarrow> GrantState" where
  "target_for (Approve _) = Approved"
| "target_for (Deny _) = Denied"
| "target_for (Grant _ _) = Granted"
| "target_for (Revoke _) = Revoked"
| "target_for Expire = Expired"
| "target_for (DetectDrift _) = DriftDetected"

definition MAX_REASON_CHARS :: nat where "MAX_REASON_CHARS = 256"

text \<open>Truncation by characters; the ellipsis is one character of three bytes.\<close>

definition cap_reason :: "string \<Rightarrow> string" where
  "cap_reason s =
     (if length (utf8_chars s) > MAX_REASON_CHARS
      then concat (take MAX_REASON_CHARS (utf8_chars s)) @ [CHR 0xE2, CHR 0x80, CHR 0xA6]
      else s)"

definition transition_reason :: "StateTransition \<Rightarrow> string option" where
  "transition_reason t = map_option cap_reason
     (case t of
        Approve r \<Rightarrow> r
      | Deny r \<Rightarrow> r
      | Grant _ r \<Rightarrow> r
      | Revoke r \<Rightarrow> Some (revocation_reason_str r)
      | Expire \<Rightarrow> Some ''expire''
      | DetectDrift d \<Rightarrow> Some (case d of Some s \<Rightarrow> s | None \<Rightarrow> ''drift_detected''))"

fun target_state :: "GrantState \<Rightarrow> StateTransition \<Rightarrow> GrantState option" where
  "target_state Requested (Approve _) = Some Approved"
| "target_state Requested (Deny _) = Some Denied"
| "target_state Approved (Grant _ _) = Some Granted"
| "target_state Granted (Revoke _) = Some Revoked"
| "target_state Granted Expire = Some Expired"
| "target_state Granted (DetectDrift _) = Some DriftDetected"
| "target_state Approved (DetectDrift _) = Some DriftDetected"
| "target_state Requested Expire = Some Expired"
| "target_state Approved Expire = Some Expired"
| "target_state _ _ = None"

definition apply_transition ::
  "GrantRecord \<Rightarrow> StateTransition \<Rightarrow> datetime \<Rightarrow> (GrantRecord, TransitionError) result" where
  "apply_transition r t now =
     (if is_terminal (state r) then Err (Terminal (state r))
      else case target_state (state r) t of
        None \<Rightarrow> Err (Invalid (state r) (target_for t))
      | Some target \<Rightarrow>
          let next = r\<lparr>state := target, last_transition_at := now, last_reason := transition_reason t\<rparr>
          in Ok (case t of Grant h _ \<Rightarrow> next\<lparr>handle := Some h\<rparr> | _ \<Rightarrow> next))"

section \<open>The watchdog's policy\<close>

record WatchdogConfig =
  heartbeat_loss_secs :: nat
  heartbeat_poll_secs :: nat

definition from_secs :: "nat \<Rightarrow> WatchdogConfig" where
  "from_secs n = (let bounded = max n 1; poll = max (bounded div 4) 1
     in \<lparr>heartbeat_loss_secs = bounded, heartbeat_poll_secs = poll\<rparr>)"

record RevocationRequest =
  request_id :: string
  why :: RevocationReason

definition timer_revocations :: "GrantRecord list \<Rightarrow> datetime \<Rightarrow> RevocationRequest list" where
  "timer_revocations rs now =
     map (\<lambda>r. \<lparr>request_id = grant_id r, why = Timer\<rparr>) (filter (\<lambda>r. is_overdue r now) rs)"

text \<open>
  \<open>Duration::num_seconds\<close> truncates towards zero; the \<open>as i64\<close> cast of the configured \<open>u64\<close>
  wraps above \<open>2^63\<close>.
\<close>

definition num_seconds :: "int \<Rightarrow> int" where
  "num_seconds d = (if d \<ge> 0 then d div 1000000000 else - ((- d) div 1000000000))"

definition as_i64_cast :: "nat \<Rightarrow> int" where
  "as_i64_cast n = (if n < 2 ^ 63 then int n else int n - 2 ^ 64)"

definition heartbeat_revocations ::
  "GrantRecord list \<Rightarrow> datetime option \<Rightarrow> datetime \<Rightarrow> WatchdogConfig \<Rightarrow> RevocationRequest list" where
  "heartbeat_revocations rs last_heartbeat now cfg =
     (case last_heartbeat of
        None \<Rightarrow> []
      | Some t \<Rightarrow>
          if num_seconds (now - t) < as_i64_cast (heartbeat_loss_secs cfg) then []
          else map (\<lambda>r. \<lparr>request_id = grant_id r, why = HeartbeatLoss\<rparr>)
                 (filter (\<lambda>r. is_active (state r)) rs))"

definition power_revocations :: "GrantRecord list \<Rightarrow> RevocationReason \<Rightarrow> RevocationRequest list" where
  "power_revocations rs reason =
     map (\<lambda>r. \<lparr>request_id = grant_id r, why = reason\<rparr>) (filter (\<lambda>r. is_active (state r)) rs)"

definition boot_sweep_requests :: "GrantRecord list \<Rightarrow> datetime \<Rightarrow> RevocationRequest list" where
  "boot_sweep_requests rs now =
     map (\<lambda>r. \<lparr>request_id = grant_id r, why = BootSweep\<rparr>)
       (filter (\<lambda>r. \<not> is_terminal (state r) \<and> now \<ge> GrantRecord.until r) rs)"

section \<open>Life cycles\<close>

lemma target_state_target: "target_state s t = Some s' \<Longrightarrow> s' = target_for t"
  by (induction s t rule: target_state.induct) simp_all

lemma target_state_terminal: "is_terminal s \<Longrightarrow> target_state s t = None"
  by (cases s; cases t) (simp_all add: is_terminal_def)

text \<open>How far along a state is; every transition moves strictly forward.\<close>

primrec stage :: "GrantState \<Rightarrow> nat" where
  "stage Requested = 0"
| "stage Approved = 1"
| "stage Granted = 2"
| "stage Denied = 3"
| "stage Revoked = 3"
| "stage Expired = 3"
| "stage DriftDetected = 3"

lemma target_state_stage: "target_state s t = Some s' \<Longrightarrow> stage s < stage s'"
  by (induction s t rule: target_state.induct) auto

lemma apply_transition_Ok_iff:
  "apply_transition r t now = Ok r' \<longleftrightarrow>
     target_state (state r) t = Some (state r') \<and>
     r' = r\<lparr>state := state r', last_transition_at := now, last_reason := transition_reason t,
       handle := (case t of Grant h _ \<Rightarrow> Some h | _ \<Rightarrow> handle r)\<rparr>"
  using target_state_terminal [of "state r" t]
  by (cases t; cases r) (auto simp: apply_transition_def split: option.splits)

lemma apply_transition_Err_iff:
  "apply_transition r t now = Err e \<longleftrightarrow> target_state (state r) t = None \<and>
     e = (if is_terminal (state r) then Terminal (state r) else Invalid (state r) (target_for t))"
  using target_state_terminal [of "state r" t]
  by (auto simp: apply_transition_def Let_def split: option.splits)

text \<open>The records a life cycle passes through, one applied transition at a time.\<close>

inductive lifecycle :: "GrantRecord \<Rightarrow> nat \<Rightarrow> GrantRecord \<Rightarrow> bool" for r where
  lifecycle_start: "lifecycle r 0 r"
| lifecycle_move: "lifecycle r n r1 \<Longrightarrow> apply_transition r1 t now = Ok r2 \<Longrightarrow> lifecycle r (Suc n) r2"

inductive_cases lifecycle_SucE: "lifecycle r (Suc n) r'"

text \<open>The handle is there exactly while, or after, the privilege was granted.\<close>

definition handle_inv :: "GrantRecord \<Rightarrow> bool" where
  "handle_inv r \<longleftrightarrow> (state r \<in> {Requested, Approved, Denied} \<longrightarrow> handle r = None) \<and>
     (state r \<in> {Granted, Revoked} \<longrightarrow> handle r \<noteq> None)"

lemma handle_inv_new: "handle_inv (new_requested i b u til now)"
  by (simp add: handle_inv_def new_requested_def)

lemma handle_inv_apply:
  assumes "handle_inv r" "apply_transition r t now = Ok r'"
  shows "handle_inv r'"
proof -
  have t: "target_state (state r) t = Some (state r')"
    and h: "handle r' = (case t of Grant h _ \<Rightarrow> Some h | _ \<Rightarrow> handle r)"
    using assms(2)
    by (auto simp: apply_transition_def Let_def split: if_splits option.splits StateTransition.splits)
  show ?thesis
    using t h assms(1) by (cases "state r"; cases t) (auto simp: handle_inv_def)
qed

lemma apply_transition_frame:
  assumes "apply_transition r t now = Ok r'"
  shows "grant_id r' = grant_id r \<and> requested_by r' = requested_by r \<and>
     GrantRecord.user r' = GrantRecord.user r \<and> GrantRecord.until r' = GrantRecord.until r \<and>
     requested_at r' = requested_at r \<and> evidence_ids r' = evidence_ids r"
  using assms by (auto simp: apply_transition_def Let_def split: if_splits option.splits StateTransition.splits)

lemma lifecycle_bound: "lifecycle r n r' \<Longrightarrow> stage (state r) + n \<le> stage (state r')"
proof (induction rule: lifecycle.induct)
  case (lifecycle_move n r1 t now r2)
  then show ?case using target_state_stage by (fastforce simp: apply_transition_Ok_iff)
qed simp

lemma stage_le_3: "stage s \<le> 3"
  by (cases s) simp_all

lemma lifecycle_inv: "lifecycle r n r' \<Longrightarrow> handle_inv r \<Longrightarrow> handle_inv r'"
  by (induction rule: lifecycle.induct) (auto intro: handle_inv_apply)

lemma lifecycle_frame:
  "lifecycle r n r' \<Longrightarrow> grant_id r' = grant_id r \<and> GrantRecord.user r' = GrantRecord.user r \<and>
     GrantRecord.until r' = GrantRecord.until r"
  by (induction rule: lifecycle.induct) (auto dest: apply_transition_frame)

section \<open>Reasons\<close>

lemma utf8_chars_groups:
  assumes "list_all group_shape gs" "list_all utf8_seq_ok gs"
  shows "utf8_chars (concat gs) = gs"
  using assms
proof (induction gs)
  case (Cons g gs)
  have "concat gs = [] \<or> \<not> is_cont (hd (concat gs))"
  proof (cases gs)
    case (Cons h hs)
    then have "\<not> is_cont (hd h)" "h \<noteq> []" using Cons.prems Cons seq_ok_hd by auto
    then show ?thesis using Cons by simp
  qed simp
  then have "utf8_chars (g @ concat gs) = utf8_chars g @ utf8_chars (concat gs)"
    by (rule utf8_chars_append)
  then show ?case using Cons by (simp add: utf8_chars_group)
qed simp

lemma cap_reason_chars:
  assumes "utf8_valid s"
  shows "utf8_valid (cap_reason s) \<and> length (utf8_chars (cap_reason s)) \<le> 257"
proof (cases "length (utf8_chars s) > 256")
  case True
  let ?e = "[CHR 0xE2, CHR 0x80, CHR 0xA6]"
  let ?gs = "take 256 (utf8_chars s) @ [?e]"
  have gs: "list_all group_shape ?gs" "list_all utf8_seq_ok ?gs"
    using assms utf8_chars_shapes [of s]
    by (auto simp: utf8_valid_def list_all_iff is_cont_def dest: in_set_takeD)
  have "cap_reason s = concat ?gs" using True by (simp add: cap_reason_def MAX_REASON_CHARS_def)
  then have "utf8_chars (cap_reason s) = ?gs" using utf8_chars_groups [OF gs] by simp
  then show ?thesis using gs by (simp add: utf8_valid_def)
next
  case False
  then show ?thesis using assms by (simp add: cap_reason_def MAX_REASON_CHARS_def)
qed

section \<open>Properties\<close>

text \<open>
  C35: a grant's life cycle. Whatever transitions are applied to a fresh request, at most three
  succeed, so every life cycle ends; the record's id, user and expiry never change; the OS handle
  is absent before the grant and after a denial, and present while granted and after a revocation;
  and once the state is terminal every further transition is refused as terminal.
\<close>

theorem lifecycle_sound:
  assumes "lifecycle (new_requested i b u til now) n r"
  shows "n \<le> 3 \<and> handle_inv r \<and> grant_id r = i \<and> GrantRecord.user r = u \<and> GrantRecord.until r = til \<and>
     (is_terminal (state r) \<longrightarrow> (\<forall>t m. apply_transition r t m = Err (Terminal (state r))))"
proof -
  have "n \<le> 3"
    using lifecycle_bound [OF assms] stage_le_3 [of "state r"] by (simp add: new_requested_def)
  moreover have "handle_inv r" using lifecycle_inv [OF assms handle_inv_new] .
  ultimately show ?thesis using lifecycle_frame [OF assms]
    by (simp add: new_requested_def apply_transition_def)
qed

definition sample_user :: UserRef where
  "sample_user = \<lparr>UserRef.username = ''ada'', domain = None\<rparr>"

definition sample_handle :: GrantHandle where
  "sample_handle = \<lparr>handle_id = ''h1'', user = sample_user, until = 100\<rparr>"

theorem lifecycle_sound_witness:
  "\<exists>r. lifecycle (new_requested ''g1'' ''op'' sample_user 100 1) 3 r \<and> state r = Revoked \<and> handle_inv r"
proof -
  let ?r0 = "new_requested ''g1'' ''op'' sample_user 100 1"
  obtain r1 where r1: "apply_transition ?r0 (Approve None) 2 = Ok r1" "state r1 = Approved"
    by (auto simp: apply_transition_def new_requested_def is_terminal_def)
  obtain r2 where r2: "apply_transition r1 (Grant sample_handle None) 3 = Ok r2" "state r2 = Granted"
    using r1(2) by (auto simp: apply_transition_def is_terminal_def)
  obtain r3 where r3: "apply_transition r2 (Revoke Timer) 101 = Ok r3" "state r3 = Revoked"
    using r2(2) by (auto simp: apply_transition_def is_terminal_def)
  have "lifecycle ?r0 (Suc (Suc (Suc 0))) r3"
    using lifecycle_start r1(1) r2(1) r3(1) by (blast intro: lifecycle_move)
  then have "lifecycle ?r0 3 r3" by (simp add: numeral_3_eq_3)
  with lifecycle_sound [OF this] r3(2) show ?thesis by blast
qed

text \<open>
  A stored reason is bounded. Whatever text the control plane sends, what the record keeps is
  valid UTF-8 of at most 257 characters: 256 and an ellipsis.
\<close>

theorem transition_reason_bounded:
  assumes "transition_reason t = Some s"
    and "\<forall>x. t \<in> {Approve (Some x), Deny (Some x), DetectDrift (Some x)} \<or> (\<exists>h. t = Grant h (Some x)) \<longrightarrow> utf8_valid x"
  shows "utf8_valid s \<and> length (utf8_chars s) \<le> 257"
proof -
  have "utf8_valid (revocation_reason_str r)" for r by (cases r) (simp_all add: utf8_valid_ascii)
  then obtain x where "s = cap_reason x" "utf8_valid x"
    using assms by (cases t) (auto simp: transition_reason_def utf8_valid_ascii split: option.splits)
  then show ?thesis using cap_reason_chars by simp
qed

theorem transition_reason_bounded_witness:
  "\<exists>s. transition_reason (Deny (Some (replicate 1000 CHR ''x''))) = Some s \<and> length (utf8_chars s) \<le> 257"
proof -
  obtain s where s: "transition_reason (Deny (Some (replicate 1000 CHR ''x''))) = Some s"
    by (simp add: transition_reason_def)
  have "utf8_valid (replicate 1000 CHR ''x'')" by (rule utf8_valid_ascii) (simp add: list_all_iff)
  then show ?thesis using s transition_reason_bounded [OF s] by auto
qed

end
