(* ===== verification/JitStore.thy ===== *)
theory JitStore
  imports JitGrant
begin

text \<open>
  The grant ledger of \<open>crates/sda-jit-admin/src/store.rs\<close>: the records in memory and the JSON file
  they are written through to. The file system is a map from paths to contents; what a call of the
  operating system does on this occasion (the error it reports, if any) is an argument. The
  serialiser is a parameter. A write goes to a temporary file that is renamed into place, so a
  failed write leaves the old contents. Memory is changed before the write is attempted.
\<close>

section \<open>The store\<close>

definition SCHEMA_VERSION :: nat where "SCHEMA_VERSION = 1"

datatype StoreError = StoreIo string | StoreSerde string | SchemaTooNew nat nat

primrec store_error_str :: "StoreError \<Rightarrow> string" where
  "store_error_str (StoreIo e) = ''io error: '' @ e"
| "store_error_str (StoreSerde e) = ''serde error: '' @ e"
| "store_error_str (SchemaTooNew f e) =
     ''ledger schema '' @ nat_str f @ '' is newer than supported '' @ nat_str e"

record OnDisk =
  schema_version :: nat
  records :: "GrantRecord list"

record GrantStore =
  path :: string
  records :: "GrantRecord list"

type_synonym disk = "string \<rightharpoonup> bytes"

text \<open>\<open>serde_json\<close> on the ledger, with its errors as text.\<close>

record store_serde =
  to_vec_pretty :: "OnDisk \<Rightarrow> (bytes, string) result"
  from_slice :: "bytes \<Rightarrow> (OnDisk, string) result"

text \<open>
  The errors the file system reports during \<open>open\<close>: from creating the parent directory, and from
  reading the file.
\<close>

record open_faults =
  create_dir_fault :: "string option"
  read_fault :: "string option"

definition open_store ::
  "store_serde \<Rightarrow> open_faults \<Rightarrow> string \<Rightarrow> disk \<Rightarrow> (GrantStore, StoreError) result" where
  "open_store sd f p d =
     (case create_dir_fault f of Some e \<Rightarrow> Err (StoreIo e)
      | None \<Rightarrow>
        (case d p of
           None \<Rightarrow> Ok \<lparr>path = p, records = []\<rparr>
         | Some bytes \<Rightarrow>
             (case read_fault f of Some e \<Rightarrow> Err (StoreIo e)
              | None \<Rightarrow>
                  if bytes = [] then Ok \<lparr>path = p, records = []\<rparr>
                  else
                    (case from_slice sd bytes of
                       Err e \<Rightarrow> Err (StoreSerde e)
                     | Ok od \<Rightarrow>
                         if schema_version od > SCHEMA_VERSION
                         then Err (SchemaTooNew (schema_version od) SCHEMA_VERSION)
                         else Ok \<lparr>path = p, records = OnDisk.records od\<rparr>))))"

definition get_record :: "GrantStore \<Rightarrow> string \<Rightarrow> GrantRecord option" where
  "get_record s i = find (\<lambda>r. grant_id r = i) (GrantStore.records s)"

text \<open>
  \<open>flush\<close>: serialise, write a temporary file beside the ledger, rename it into place. The argument
  \<open>f\<close> is the error of creating, writing or renaming the temporary file, if there is one.
\<close>

definition store_flush ::
  "store_serde \<Rightarrow> string option \<Rightarrow> GrantStore \<Rightarrow> disk \<Rightarrow> (unit, StoreError) result \<times> disk" where
  "store_flush sd f s d =
     (case to_vec_pretty sd \<lparr>schema_version = SCHEMA_VERSION, records = GrantStore.records s\<rparr> of
        Err e \<Rightarrow> (Err (StoreSerde e), d)
      | Ok bytes \<Rightarrow>
          (case f of Some e \<Rightarrow> (Err (StoreIo e), d)
           | None \<Rightarrow> (Ok (), d(path s \<mapsto> bytes))))"

definition insert_record ::
  "store_serde \<Rightarrow> string option \<Rightarrow> GrantRecord \<Rightarrow> GrantStore \<Rightarrow> disk \<Rightarrow> (unit, StoreError) result \<times> GrantStore \<times> disk" where
  "insert_record sd f r s d =
     (let s' = s\<lparr>GrantStore.records := GrantStore.records s @ [r]\<rparr>; (res, d') = store_flush sd f s' d
      in (res, s', d'))"

text \<open>The in-memory half of \<open>upsert\<close>: replace at the first position with that id, or push.\<close>

fun put_list :: "GrantRecord \<Rightarrow> GrantRecord list \<Rightarrow> GrantRecord list" where
  "put_list r [] = [r]"
| "put_list r (x # xs) = (if grant_id x = grant_id r then r # xs else x # put_list r xs)"

definition put_record :: "GrantRecord \<Rightarrow> GrantStore \<Rightarrow> GrantStore" where
  "put_record r s = s\<lparr>GrantStore.records := put_list r (GrantStore.records s)\<rparr>"

definition upsert ::
  "store_serde \<Rightarrow> string option \<Rightarrow> GrantRecord \<Rightarrow> GrantStore \<Rightarrow> disk \<Rightarrow> (unit, StoreError) result \<times> GrantStore \<times> disk" where
  "upsert sd f r s d =
     (let s' = put_record r s; (res, d') = store_flush sd f s' d in (res, s', d'))"

definition remove_record ::
  "store_serde \<Rightarrow> string option \<Rightarrow> string \<Rightarrow> GrantStore \<Rightarrow> disk \<Rightarrow> (bool, StoreError) result \<times> GrantStore \<times> disk" where
  "remove_record sd f i s d =
     (let s' = s\<lparr>GrantStore.records := filter (\<lambda>r. grant_id r \<noteq> i) (GrantStore.records s)\<rparr>
      in if length (GrantStore.records s') \<noteq> length (GrantStore.records s)
         then (case store_flush sd f s' d of (Err e, d') \<Rightarrow> (Err e, s', d') | (Ok _, d') \<Rightarrow> (Ok True, s', d'))
         else (Ok False, s', d))"

section \<open>The ledger interface\<close>

text \<open>
  What a client of the ledger relies on: a lookup returns what was last put under that key, and a
  put leaves the other keys alone. From the two laws: of a sequence of puts the last one of a key
  wins, and puts of different keys commute as far as lookups can tell.
\<close>

locale ledger =
  fixes key :: "'v \<Rightarrow> 'k" and look :: "'s \<Rightarrow> 'k \<Rightarrow> 'v option" and put :: "'v \<Rightarrow> 's \<Rightarrow> 's"
  assumes look_put_same: "look (put v s) (key v) = Some v"
    and look_put_other: "k \<noteq> key v \<Longrightarrow> look (put v s) k = look s k"
begin

lemma look_put: "look (put v s) k = (if k = key v then Some v else look s k)"
  using look_put_same look_put_other by simp

lemma look_puts: "look (fold put vs s) k =
    (case find (\<lambda>v. key v = k) (rev vs) of Some v \<Rightarrow> Some v | None \<Rightarrow> look s k)"
proof (induction vs rule: rev_induct)
  case (snoc v vs)
  then show ?case by (simp add: look_put)
qed simp

lemma look_put_commute: "key v \<noteq> key w \<Longrightarrow> look (put v (put w s)) k = look (put w (put v s)) k"
  by (simp add: look_put)

end

lemma find_put_list_same: "find (\<lambda>x. grant_id x = grant_id r) (put_list r xs) = Some r"
  by (induction xs) simp_all

lemma find_put_list_other: "i \<noteq> grant_id r \<Longrightarrow>
    find (\<lambda>x. grant_id x = i) (put_list r xs) = find (\<lambda>x. grant_id x = i) xs"
  by (induction xs) auto

interpretation grants: ledger grant_id get_record put_record
  by unfold_locales (simp_all add: get_record_def put_record_def find_put_list_same find_put_list_other)

lemma path_put_record [simp]: "path (put_record r s) = path s"
  by (simp add: put_record_def)

section \<open>Ids stay unique\<close>

definition ids :: "GrantStore \<Rightarrow> string list" where
  "ids s = map grant_id (GrantStore.records s)"

lemma set_put_list: "distinct (map grant_id xs) \<Longrightarrow>
    set (put_list r xs) = insert r {x \<in> set xs. grant_id x \<noteq> grant_id r}"
proof (induction xs)
  case (Cons a xs)
  then have "grant_id a = grant_id r \<Longrightarrow> {x \<in> set xs. grant_id x \<noteq> grant_id r} = set xs"
    by (auto simp: rev_image_eqI)
  then show ?case using Cons by auto
qed simp

lemma ids_put_list: "map grant_id (put_list r xs) =
    (if grant_id r \<in> grant_id ` set xs then map grant_id xs else map grant_id xs @ [grant_id r])"
  by (induction xs) auto

lemma distinct_put_record: "distinct (ids s) \<Longrightarrow> distinct (ids (put_record r s))"
  by (auto simp: ids_def put_record_def ids_put_list)

lemma records_put_record: "distinct (ids s) \<Longrightarrow>
    set (GrantStore.records (put_record r s)) = insert r {x \<in> set (GrantStore.records s). grant_id x \<noteq> grant_id r}"
  by (simp add: ids_def put_record_def set_put_list)

lemma get_record_Some: "get_record s i = Some r \<Longrightarrow> r \<in> set (GrantStore.records s) \<and> grant_id r = i"
  by (auto simp: get_record_def find_Some_iff)

lemma find_member: "distinct (map grant_id xs) \<Longrightarrow> r \<in> set xs \<Longrightarrow> find (\<lambda>x. grant_id x = grant_id r) xs = Some r"
  by (induction xs) (auto simp: rev_image_eqI)

lemma get_record_member:
  "distinct (ids s) \<Longrightarrow> r \<in> set (GrantStore.records s) \<Longrightarrow> get_record s (grant_id r) = Some r"
  by (simp add: get_record_def ids_def find_member)

section \<open>What a restart reads back\<close>

datatype store_op = OpInsert GrantRecord | OpUpsert GrantRecord | OpRemove string

text \<open>One operation, with the error its write meets: did it write, and what it leaves.\<close>

primrec store_step :: "store_serde \<Rightarrow> string option \<Rightarrow> store_op \<Rightarrow> GrantStore \<Rightarrow> disk \<Rightarrow> bool \<times> GrantStore \<times> disk" where
  "store_step sd f (OpInsert r) s d = (case insert_record sd f r s d of (res, s', d') \<Rightarrow> (is_ok res, s', d'))"
| "store_step sd f (OpUpsert r) s d = (case upsert sd f r s d of (res, s', d') \<Rightarrow> (is_ok res, s', d'))"
| "store_step sd f (OpRemove i) s d = (case remove_record sd f i s d of (res, s', d') \<Rightarrow> (res = Ok True, s', d'))"

fun store_run :: "store_serde \<Rightarrow> (string option \<times> store_op) list \<Rightarrow> GrantStore \<Rightarrow> disk \<Rightarrow> GrantStore \<times> disk" where
  "store_run sd [] s d = (s, d)"
| "store_run sd ((f, x) # xs) s d = (case store_step sd f x s d of (_, s', d') \<Rightarrow> store_run sd xs s' d')"

text \<open>The records in memory at the last operation that wrote.\<close>

fun last_saved :: "store_serde \<Rightarrow> (string option \<times> store_op) list \<Rightarrow> GrantStore \<Rightarrow> disk \<Rightarrow> GrantRecord list \<Rightarrow> GrantRecord list" where
  "last_saved sd [] s d rs = rs"
| "last_saved sd ((f, x) # xs) s d rs =
     (case store_step sd f x s d of (w, s', d') \<Rightarrow>
        last_saved sd xs s' d' (if w then GrantStore.records s' else rs))"

text \<open>
  The serialiser reads back what it wrote, at least one byte, for ledgers whose records are
  representable (their times are in the range of \<open>DateTime<Utc>\<close>).
\<close>

definition serde_roundtrip :: "(GrantRecord \<Rightarrow> bool) \<Rightarrow> store_serde \<Rightarrow> bool" where
  "serde_roundtrip ok sd \<longleftrightarrow>
     (\<forall>rs. list_all ok rs \<longrightarrow>
        (\<exists>b. to_vec_pretty sd \<lparr>schema_version = SCHEMA_VERSION, records = rs\<rparr> = Ok b \<and> b \<noteq> [] \<and>
             from_slice sd b = Ok \<lparr>schema_version = SCHEMA_VERSION, records = rs\<rparr>))"

primrec op_records :: "store_op \<Rightarrow> GrantRecord list" where
  "op_records (OpInsert r) = [r]"
| "op_records (OpUpsert r) = [r]"
| "op_records (OpRemove i) = []"

definition no_open_faults :: open_faults where
  "no_open_faults = \<lparr>create_dir_fault = None, read_fault = None\<rparr>"

lemma open_after_flush:
  assumes "serde_roundtrip ok sd" "list_all ok (GrantStore.records s)" "store_flush sd f s d = (res, d')"
  shows "if is_ok res then open_store sd no_open_faults (path s) d' = Ok s else d' = d"
proof -
  obtain b where "to_vec_pretty sd \<lparr>schema_version = SCHEMA_VERSION, records = GrantStore.records s\<rparr> = Ok b"
    "b \<noteq> []" "from_slice sd b = Ok \<lparr>schema_version = SCHEMA_VERSION, records = GrantStore.records s\<rparr>"
    using assms(1,2) unfolding serde_roundtrip_def by blast
  then show ?thesis using assms(3)
    by (cases s) (auto simp: store_flush_def open_store_def no_open_faults_def split: option.splits)
qed

lemma list_all_put_list: "ok r \<Longrightarrow> list_all ok xs \<Longrightarrow> list_all ok (put_list r xs)"
  by (induction xs) auto

lemma list_all_filterI: "list_all ok xs \<Longrightarrow> list_all ok (filter p xs)"
  by (simp add: list_all_iff)

lemma store_step_records:
  assumes "list_all ok (op_records x)" "list_all ok (GrantStore.records s)" "store_step sd f x s d = (w, s', d')"
  shows "path s' = path s \<and> list_all ok (GrantStore.records s') \<and>
    (\<exists>res. store_flush sd f s' d = (res, d') \<and> w = is_ok res \<or> \<not> w \<and> d' = d)"
  using assms
  by (cases x) (auto simp: insert_record_def upsert_def remove_record_def put_record_def list_all_put_list
      list_all_filterI Let_def split: prod.splits if_splits result.splits)

lemma store_step_open:
  assumes "serde_roundtrip ok sd" "list_all ok (op_records x)" "list_all ok (GrantStore.records s)"
    and "store_step sd f x s d = (w, s', d')"
  shows "if w then open_store sd no_open_faults (path s) d' = Ok s' else d' = d"
  using store_step_records [OF assms(2-4)] open_after_flush [OF assms(1), of s' f d _ d'] by auto

lemma store_run_open:
  assumes "serde_roundtrip ok sd"
  shows "list_all (\<lambda>y. list_all ok (op_records (snd y))) xs \<Longrightarrow> list_all ok (GrantStore.records s) \<Longrightarrow>
     open_store sd no_open_faults (path s) d = Ok \<lparr>path = path s, records = rs\<rparr> \<Longrightarrow>
     open_store sd no_open_faults (path s) (snd (store_run sd xs s d)) =
       Ok \<lparr>path = path s, records = last_saved sd xs s d rs\<rparr>"
proof (induction xs arbitrary: s d rs)
  case (Cons y ys)
  obtain f x where y: "y = (f, x)" by fastforce
  obtain w s' d' where st: "store_step sd f x s d = (w, s', d')" by (cases "store_step sd f x s d") auto
  have x: "list_all ok (op_records x)" using Cons.prems(1) y by simp
  note out = store_step_open [OF assms x Cons.prems(2) st] store_step_records [OF x Cons.prems(2) st]
  have "open_store sd no_open_faults (path s') d' =
      Ok \<lparr>path = path s', records = (if w then GrantStore.records s' else rs)\<rparr>"
    using out Cons.prems(3) by (cases s') auto
  moreover have "list_all (\<lambda>y. list_all ok (op_records (snd y))) ys" using Cons.prems(1) by simp
  ultimately show ?case using Cons.IH [of s' d'] y st out by simp
qed simp

section \<open>Properties\<close>

text \<open>
  C34: the ledger is crash consistent. Run any operations on a freshly opened store, each meeting a
  write error or none; stop anywhere. Opening the file again yields exactly the records that were
  in memory at the last operation that wrote, in the same order: never a torn or mixed ledger.
\<close>

theorem store_crash_consistent:
  assumes "serde_roundtrip ok sd" and "open_store sd no_open_faults p d = Ok s"
    and "list_all ok (GrantStore.records s)" and "list_all (\<lambda>y. list_all ok (op_records (snd y))) xs"
    and "store_run sd xs s d = (s', d')"
  shows "open_store sd no_open_faults p d' =
    Ok \<lparr>path = p, records = last_saved sd xs s d (GrantStore.records s)\<rparr>"
proof -
  have "path s = p" using assms(2)
    by (auto simp: open_store_def no_open_faults_def split: option.splits result.splits if_splits)
  with store_run_open [OF assms(1,4,3), of d "GrantStore.records s"] assms(2,5)
  show ?thesis by (cases s) simp
qed

definition sample_grant :: GrantRecord where
  "sample_grant = new_requested ''g1'' ''op'' sample_user 100 1"

text \<open>A serialiser for ledgers of copies of one record: the length in unary.\<close>

definition sample_serde :: store_serde where
  "sample_serde = \<lparr>to_vec_pretty = (\<lambda>od. Ok (CHR ''['' # replicate (length (OnDisk.records od)) CHR ''g'')),
     from_slice = (\<lambda>b. Ok \<lparr>schema_version = SCHEMA_VERSION, records = replicate (length b - 1) sample_grant\<rparr>)\<rparr>"

lemma sample_serde_roundtrip: "serde_roundtrip (\<lambda>r. r = sample_grant) sample_serde"
proof -
  have "list_all (\<lambda>r. r = sample_grant) rs \<Longrightarrow> replicate (length rs) sample_grant = rs" for rs
    by (induction rs) simp_all
  then show ?thesis by (simp add: serde_roundtrip_def sample_serde_def)
qed

theorem store_crash_consistent_witness:
  "\<exists>s' d'. store_run sample_serde [(None, OpInsert sample_grant), (Some ''disk full'', OpInsert sample_grant)]
      \<lparr>path = ''l'', records = []\<rparr> Map.empty = (s', d') \<and> length (GrantStore.records s') = 2 \<and>
    open_store sample_serde no_open_faults ''l'' d' = Ok \<lparr>path = ''l'', records = [sample_grant]\<rparr>"
proof -
  let ?xs = "[(None, OpInsert sample_grant), (Some ''disk full'', OpInsert sample_grant)]"
  let ?s = "\<lparr>path = ''l'', records = []\<rparr>"
  obtain s' d' where run: "store_run sample_serde ?xs ?s Map.empty = (s', d')" by fastforce
  have "length (GrantStore.records s') = 2"
    using run by (auto simp: insert_record_def store_flush_def sample_serde_def)
  moreover have "last_saved sample_serde ?xs ?s Map.empty [] = [sample_grant]"
    by (simp add: insert_record_def store_flush_def sample_serde_def)
  moreover have "open_store sample_serde no_open_faults ''l'' Map.empty = Ok ?s"
    by (simp add: open_store_def no_open_faults_def)
  ultimately show ?thesis
    using store_crash_consistent [OF sample_serde_roundtrip, of "''l''" Map.empty ?s ?xs s' d'] run by simp
qed

end
