(* ===== verification/AdminManager.thy ===== *)
theory AdminManager
  imports JitGrant
begin

text \<open>
  Administrator rights on Linux: \<open>crates/sda-pal/src/admin_manager.rs\<close>, its shared part and the
  module \<open>linux_impl\<close>. The operating system is the sudoers drop-in directory (file name to
  contents) and the grant ledger file; every call that can fail takes its outcome on this occasion
  from a record of faults. The interface \<open>AdminManager\<close> is the locale \<open>admin_manager\<close>, interpreted
  on the Linux functions: a failed grant elevates nobody, a revocation never elevates anybody and,
  when it succeeds, its user is no longer elevated.
\<close>

section \<open>Errors and commands\<close>

datatype AdminError =
  CommandErr string | IoErr string | NotImplemented | InvalidInput string | StateCorrupt string

primrec admin_error_str :: "AdminError \<Rightarrow> string" where
  "admin_error_str (CommandErr e) = ''admin manager OS command failed: '' @ e"
| "admin_error_str (IoErr e) = ''admin manager IO error: '' @ e"
| "admin_error_str NotImplemented = ''not implemented on this platform''"
| "admin_error_str (InvalidInput e) = ''admin manager input invalid: '' @ e"
| "admin_error_str (StateCorrupt e) = ''admin manager grant state corrupt: '' @ e"

record CommandOutput =
  status :: int
  stdout :: bytes
  stderr :: bytes

definition is_success :: "CommandOutput \<Rightarrow> bool" where
  "is_success c \<longleftrightarrow> status c = 0"

text \<open>
  Text functions of the standard library that rest on the Unicode tables, and the formatting of
  times: \<open>to_lowercase\<close>, \<open>from_utf8_lossy\<close>, the \<open>Debug\<close> form of a character and of a path,
  \<open>to_rfc3339\<close>.
\<close>

record std_text =
  lower :: "string \<Rightarrow> string"
  lossy :: "bytes \<Rightarrow> string"
  debug_char :: "string \<Rightarrow> string"
  debug_path :: "string \<Rightarrow> string"
  rfc3339 :: "datetime \<Rightarrow> string"

section \<open>The ledger file\<close>

record LedgerState =
  ledger_version :: nat
  grants :: "GrantHandle list"

record ledger_serde =
  ledger_to_vec :: "LedgerState \<Rightarrow> (bytes, string) result"
  ledger_from_slice :: "bytes \<Rightarrow> (LedgerState, string) result"

definition read_grants ::
  "std_text \<Rightarrow> ledger_serde \<Rightarrow> string \<Rightarrow> string option \<Rightarrow> bytes option \<Rightarrow> (GrantHandle list, AdminError) result" where
  "read_grants T sd state_path f file =
     (case file of
        None \<Rightarrow> Ok []
      | Some bytes \<Rightarrow>
          (case f of Some e \<Rightarrow> Err (IoErr e)
           | None \<Rightarrow>
               if bytes = [] then Ok []
               else case ledger_from_slice sd bytes of
                 Err e \<Rightarrow> Err (StateCorrupt (debug_path T state_path @ '': '' @ e))
               | Ok st \<Rightarrow> Ok (grants st)))"

text \<open>
  \<open>write_grants\<close>: the directory, then a temporary file renamed into place. \<open>df\<close> is the error of
  creating the directory, \<open>f\<close> that of the temporary file or the rename.
\<close>

definition write_grants ::
  "ledger_serde \<Rightarrow> string option \<Rightarrow> string option \<Rightarrow> GrantHandle list \<Rightarrow> bytes option \<Rightarrow>
     (unit, AdminError) result \<times> bytes option" where
  "write_grants sd df f gs file =
     (case df of Some e \<Rightarrow> (Err (IoErr e), file)
      | None \<Rightarrow>
          (case ledger_to_vec sd \<lparr>ledger_version = 1, grants = gs\<rparr> of
             Err e \<Rightarrow> (Err (StateCorrupt (''serialize: '' @ e)), file)
           | Ok bytes \<Rightarrow>
               (case f of Some e \<Rightarrow> (Err (IoErr e), file) | None \<Rightarrow> (Ok (), Some bytes))))"

section \<open>User names\<close>

definition is_ascii_alphanumeric :: "char \<Rightarrow> bool" where
  "is_ascii_alphanumeric c \<longleftrightarrow> (48 \<le> byte_of c \<and> byte_of c \<le> 57) \<or>
     (65 \<le> byte_of c \<and> byte_of c \<le> 90) \<or> (97 \<le> byte_of c \<and> byte_of c \<le> 122)"

fun username_loop :: "std_text \<Rightarrow> string \<Rightarrow> nat \<Rightarrow> string list \<Rightarrow> (unit, AdminError) result" where
  "username_loop T name backslashes [] = Ok ()"
| "username_loop T name backslashes (g # gs) =
     (if (case g of [c] \<Rightarrow> is_ascii_alphanumeric c \<or> c \<in> set ''_.-'' | _ \<Rightarrow> False)
      then username_loop T name backslashes gs
      else if g = [CHR 0x5C] then
        (if backslashes + 1 > 1
         then Err (InvalidInput (''username has multiple backslashes: '' @ name))
         else username_loop T name (backslashes + 1) gs)
      else Err (InvalidInput (''username has disallowed character '' @ debug_char T g @ '': '' @ name)))"

definition validate_username :: "std_text \<Rightarrow> string \<Rightarrow> (unit, AdminError) result" where
  "validate_username T name =
     (if name = [] then Err (InvalidInput ''empty username'')
      else if length name > 256 then Err (InvalidInput ''username too long'')
      else if hd name = CHR ''-'' then
        Err (InvalidInput (''username may not start with '' @ [CHR 0x27, CHR ''-'', CHR 0x27] @ '': '' @ name))
      else username_loop T name 0 (utf8_chars name))"

section \<open>The Linux manager\<close>

definition render_sudoers :: "std_text \<Rightarrow> string \<Rightarrow> string \<Rightarrow> datetime \<Rightarrow> string" where
  "render_sudoers T name gid til =
     ''# sn360 JIT admin grant'' @ [CHR 0x0A] @
     ''# grant_id: '' @ gid @ [CHR 0x0A] @
     ''# until:    '' @ rfc3339 T til @ [CHR 0x0A] @
     name @ '' ALL=(ALL) NOPASSWD:ALL'' @ [CHR 0x0A]"

text \<open>File names inside the sudoers directory.\<close>

definition drop_in_path :: "string \<Rightarrow> string" where
  "drop_in_path name = ''sda-jit-'' @ name"

definition tmp_path :: "string \<Rightarrow> string" where
  "tmp_path name = ''sda-jit-'' @ name @ ''.tmp''"

record linux_os =
  sudoers :: "string \<rightharpoonup> string"
  state_file :: "bytes option"

text \<open>The manager's components: the paths and the command runner.\<close>

record LinuxAdminManager =
  sudoers_dir :: string
  state_path :: string
  text_fns :: std_text
  ledger_fns :: ledger_serde

text \<open>
  What the operating system does during one call. A failed \<open>fs::write\<close> may leave anything in the
  temporary file, so its fault has the contents left behind. \<open>visudo\<close> is the command runner's
  answer to \<open>visudo -c -f\<close> on the candidate file.
\<close>

record linux_faults =
  lock_fault :: "string option"
  fresh_grant_id :: string
  sudoers_dir_fault :: "string option"
  tmp_write_fault :: "(string \<times> string option) option"
  tmp_mode_fault :: "string option"
  visudo :: "string list \<Rightarrow> string \<Rightarrow> (CommandOutput, AdminError) result"
  tmp_unlink_fails :: bool
  rename_fault :: "string option"
  ledger_read_fault :: "string option"
  ledger_dir_fault :: "string option"
  ledger_write_fault :: "string option"
  rollback_fails :: bool
  unlink_fault :: "string option"

definition discard_tmp :: "linux_faults \<Rightarrow> string \<Rightarrow> linux_os \<Rightarrow> linux_os" where
  "discard_tmp f name os =
     (if tmp_unlink_fails f then os else os\<lparr>sudoers := (sudoers os)(tmp_path name := None)\<rparr>)"

text \<open>Create, protect and validate the candidate file; on success it is in the directory.\<close>

definition stage_candidate ::
  "LinuxAdminManager \<Rightarrow> linux_faults \<Rightarrow> string \<Rightarrow> string \<Rightarrow> linux_os \<Rightarrow> (unit, AdminError) result \<times> linux_os" where
  "stage_candidate m f name body os =
     (case sudoers_dir_fault f of Some e \<Rightarrow> (Err (IoErr e), os)
      | None \<Rightarrow>
      (case tmp_write_fault f of
         Some (e, left) \<Rightarrow> (Err (IoErr e), os\<lparr>sudoers := (sudoers os)(tmp_path name := left)\<rparr>)
       | None \<Rightarrow>
         (let os1 = os\<lparr>sudoers := (sudoers os)(tmp_path name \<mapsto> body)\<rparr>
          in case tmp_mode_fault f of Some e \<Rightarrow> (Err (IoErr e), os1)
          | None \<Rightarrow>
            (case visudo f [''-c'', ''-f'', sudoers_dir m @ ''/'' @ tmp_path name] body of
               Err e \<Rightarrow> (Err e, discard_tmp f name os1)
             | Ok out \<Rightarrow>
                 if is_success out then (Ok (), os1)
                 else (Err (CommandErr (''visudo rejected drop-in for '' @ name @ '': '' @
                        trim_str (lossy (text_fns m) (stderr out)))), discard_tmp f name os1)))))"

text \<open>The ledger update after the drop-in is live.\<close>

definition record_grant ::
  "LinuxAdminManager \<Rightarrow> linux_faults \<Rightarrow> GrantHandle \<Rightarrow> bytes option \<Rightarrow> (unit, AdminError) result \<times> bytes option" where
  "record_grant m f h file =
     (case read_grants (text_fns m) (ledger_fns m) (state_path m) (ledger_read_fault f) file of
        Err e \<Rightarrow> (Err e, file)
      | Ok gs \<Rightarrow>
          write_grants (ledger_fns m) (ledger_dir_fault f) (ledger_write_fault f)
            (filter (\<lambda>g. UserRef.username (GrantHandle.user g) \<noteq> UserRef.username (GrantHandle.user h)) gs @ [h]) file)"

definition grant_admin ::
  "LinuxAdminManager \<Rightarrow> linux_faults \<Rightarrow> UserRef \<Rightarrow> datetime \<Rightarrow> linux_os \<Rightarrow>
     (GrantHandle, AdminError) result \<times> linux_os" where
  "grant_admin m f u til os =
     (case validate_username (text_fns m) (UserRef.username u) of Err e \<Rightarrow> (Err e, os)
      | Ok _ \<Rightarrow>
      (case lock_fault f of Some e \<Rightarrow> (Err (CommandErr (''ledger lock poisoned: '' @ e)), os)
       | None \<Rightarrow>
         (let name = UserRef.username u;
              body = render_sudoers (text_fns m) name (fresh_grant_id f) til
          in case stage_candidate m f name body os of
            (Err e, os1) \<Rightarrow> (Err e, os1)
          | (Ok _, os1) \<Rightarrow>
            (case rename_fault f of Some e \<Rightarrow> (Err (IoErr e), os1)
             | None \<Rightarrow>
               (let os2 = os1\<lparr>sudoers := (sudoers os1)(tmp_path name := None, drop_in_path name := sudoers os1 (tmp_path name))\<rparr>;
                    h = \<lparr>handle_id = fresh_grant_id f, user = u, until = til\<rparr>
                in case record_grant m f h (state_file os2) of
                  (Ok _, file) \<Rightarrow> (Ok h, os2\<lparr>state_file := file\<rparr>)
                | (Err e, file) \<Rightarrow>
                    (Err e, if rollback_fails f then os2\<lparr>state_file := file\<rparr>
                            else os2\<lparr>sudoers := (sudoers os2)(drop_in_path name := None), state_file := file\<rparr>))))))"

definition revoke_admin ::
  "LinuxAdminManager \<Rightarrow> linux_faults \<Rightarrow> GrantHandle \<Rightarrow> linux_os \<Rightarrow> (unit, AdminError) result \<times> linux_os" where
  "revoke_admin m f h os =
     (case lock_fault f of Some e \<Rightarrow> (Err (CommandErr (''ledger lock poisoned: '' @ e)), os)
      | None \<Rightarrow>
      (let name = drop_in_path (UserRef.username (GrantHandle.user h));
           unlinked = (if sudoers os name = None then Ok os
             else case unlink_fault f of Some e \<Rightarrow> Err (IoErr e)
               | None \<Rightarrow> Ok (os\<lparr>sudoers := (sudoers os)(name := None)\<rparr>))
       in case unlinked of Err e \<Rightarrow> (Err e, os)
       | Ok os1 \<Rightarrow>
         (case read_grants (text_fns m) (ledger_fns m) (state_path m) (ledger_read_fault f) (state_file os1) of
            Err e \<Rightarrow> (Err e, os1)
          | Ok gs \<Rightarrow>
              (case write_grants (ledger_fns m) (ledger_dir_fault f) (ledger_write_fault f)
                      (filter (\<lambda>g. handle_id g \<noteq> handle_id h) gs) (state_file os1) of
                 (res, file) \<Rightarrow> (res, os1\<lparr>state_file := file\<rparr>)))))"

definition observed_grants ::
  "LinuxAdminManager \<Rightarrow> linux_faults \<Rightarrow> linux_os \<Rightarrow> (GrantHandle list, AdminError) result" where
  "observed_grants m f os =
     read_grants (text_fns m) (ledger_fns m) (state_path m) (ledger_read_fault f) (state_file os)"

section \<open>Listing administrators\<close>

definition group_line :: "string list \<Rightarrow> string \<Rightarrow> (string \<times> string) list" where
  "group_line names line =
     (if line = [] \<or> hd line = CHR ''#'' then []
      else let parts = split_char CHR '':'' line; g = hd parts
        in if g \<notin> set names then []
           else let members = (if length parts > 3 then parts ! 3 else [])
             in map (\<lambda>u. (u, g)) (filter (\<lambda>u. u \<noteq> []) (map trim_str (split_char CHR '','' members))))"

definition parse_group_members :: "string \<Rightarrow> string list \<Rightarrow> (string \<times> string) list" where
  "parse_group_members etc_group names = concat (map (group_line names) (str_lines etc_group))"

definition passwd_line :: "string \<Rightarrow> string list" where
  "passwd_line line =
     (if line = [] \<or> hd line = CHR ''#'' then []
      else let parts = split_char CHR '':'' line; uid = (if length parts > 2 then parts ! 2 else [])
        in if uid = ''0'' \<and> hd parts \<noteq> ''root'' then [hd parts] else [])"

definition parse_uid_zero_aliases :: "string \<Rightarrow> string list" where
  "parse_uid_zero_aliases etc_passwd = concat (map passwd_line (str_lines etc_passwd))"

definition local_admin :: "string \<Rightarrow> string \<Rightarrow> AdminAccount" where
  "local_admin name g = \<lparr>AdminAccount.username = name, source = ''local'', since = None, group = Some g\<rparr>"

definition add_admin :: "string \<times> string \<Rightarrow> AdminAccount list \<Rightarrow> AdminAccount list" where
  "add_admin ug admins =
     (case ug of (u, g) \<Rightarrow>
        if \<exists>a \<in> set admins. AdminAccount.username a = u then admins else admins @ [local_admin u g])"

text \<open>The two files are read first; either read may fail.\<close>

definition list_admins ::
  "(string, string) result \<Rightarrow> (string, string) result \<Rightarrow> (AdminAccount list, AdminError) result" where
  "list_admins group_file passwd_file =
     (case group_file of Err e \<Rightarrow> Err (IoErr e)
      | Ok etc_group \<Rightarrow>
      (case passwd_file of Err e \<Rightarrow> Err (IoErr e)
       | Ok etc_passwd \<Rightarrow>
           Ok (fold add_admin (map (\<lambda>u. (u, ''uid0'')) (parse_uid_zero_aliases etc_passwd))
             (fold add_admin (parse_group_members etc_group [''wheel'', ''sudo'', ''admin''])
               [local_admin ''root'' ''root'']))))"

section \<open>The interface\<close>

text \<open>
  \<open>is_already_revoked\<close> of \<open>crates/sda-jit-admin/src/module.rs\<close>: the errors of a revocation its
  caller takes for success.
\<close>

definition is_already_revoked :: "std_text \<Rightarrow> AdminError \<Rightarrow> bool" where
  "is_already_revoked T e =
     (let msg = lower T (admin_error_str e)
      in str_contains msg ''not a member'' \<or> str_contains msg ''not found'')"

text \<open>
  What the supervisor relies on. \<open>elevated\<close> says who holds the privilege; \<open>gone\<close> picks the errors
  read as "already revoked"; \<open>tame\<close> says the faults of a call are ones the laws cover: an error so
  read is truthful, and the rollback of a half-made grant works. From the laws, by induction: no
  sequence of revocations elevates anybody.
\<close>

locale admin_manager =
  fixes give :: "'f \<Rightarrow> UserRef \<Rightarrow> datetime \<Rightarrow> 'o \<Rightarrow> (GrantHandle, AdminError) result \<times> 'o"
    and take_back :: "'f \<Rightarrow> GrantHandle \<Rightarrow> 'o \<Rightarrow> (unit, AdminError) result \<times> 'o"
    and elevated :: "'o \<Rightarrow> string \<Rightarrow> bool"
    and gone :: "AdminError \<Rightarrow> bool"
    and tame :: "'f \<Rightarrow> bool"
  assumes give_handle: "give f u til s = (Ok h, s') \<Longrightarrow> GrantHandle.user h = u \<and> GrantHandle.until h = til"
    and give_others: "give f u til s = (res, s') \<Longrightarrow> w \<noteq> UserRef.username u \<Longrightarrow> elevated s' w = elevated s w"
    and give_Err: "give f u til s = (Err e, s') \<Longrightarrow> tame f \<Longrightarrow> elevated s' w \<Longrightarrow> elevated s w"
    and take_back_mono: "take_back f h s = (ans, s') \<Longrightarrow> elevated s' w \<Longrightarrow> elevated s w"
    and take_back_others: "take_back f h s = (ans, s') \<Longrightarrow> w \<noteq> UserRef.username (GrantHandle.user h) \<Longrightarrow>
      elevated s' w = elevated s w"
    and take_back_Ok: "take_back f h s = (Ok (), s') \<Longrightarrow> \<not> elevated s' (UserRef.username (GrantHandle.user h))"
    and take_back_gone: "take_back f h s = (Err e, s') \<Longrightarrow> tame f \<Longrightarrow> gone e \<Longrightarrow>
      \<not> elevated s' (UserRef.username (GrantHandle.user h))"
begin

lemma take_back_all_mono: "elevated (fold (\<lambda>(f, h). snd \<circ> take_back f h) calls s) w \<Longrightarrow> elevated s w"
proof (induction calls arbitrary: s)
  case (Cons c cs)
  obtain f h where "c = (f, h)" by fastforce
  moreover obtain ans s' where "take_back f h s = (ans, s')" by fastforce
  ultimately show ?case using Cons take_back_mono [of f h s ans s' w] by auto
qed simp

end

text \<open>With faults under which the privilege is really dropped, whatever else goes wrong.\<close>

locale reliable_admin_manager = admin_manager give take_back elevated gone tame
  for give :: "'f \<Rightarrow> UserRef \<Rightarrow> datetime \<Rightarrow> 'o \<Rightarrow> (GrantHandle, AdminError) result \<times> 'o"
    and take_back elevated gone tame +
  fixes drops :: "'f \<Rightarrow> bool"
  assumes take_back_drops: "take_back f h s = (ans, s') \<Longrightarrow> drops f \<Longrightarrow>
      \<not> elevated s' (UserRef.username (GrantHandle.user h))"

section \<open>Linux provides it\<close>

text \<open>
  Who is elevated: \<open>sudo\<close> reads every file of the directory whose name has no dot (a documented
  rule of \<open>includedir\<close>, which also keeps the candidate files inert).
\<close>

definition sudo_elevated :: "linux_os \<Rightarrow> string \<Rightarrow> bool" where
  "sudo_elevated os name \<longleftrightarrow> CHR ''.'' \<notin> set (drop_in_path name) \<and> sudoers os (drop_in_path name) \<noteq> None"

definition linux_tame :: "std_text \<Rightarrow> linux_faults \<Rightarrow> bool" where
  "linux_tame T f \<longleftrightarrow> \<not> rollback_fails f \<and>
     (case lock_fault f of None \<Rightarrow> True
      | Some e \<Rightarrow> \<not> is_already_revoked T (CommandErr (''ledger lock poisoned: '' @ e))) \<and>
     (case unlink_fault f of None \<Rightarrow> True | Some e \<Rightarrow> \<not> is_already_revoked T (IoErr e))"

definition linux_drops :: "linux_faults \<Rightarrow> bool" where
  "linux_drops f \<longleftrightarrow> lock_fault f = None \<and> unlink_fault f = None"

lemma drop_in_path_inject [simp]: "drop_in_path a = drop_in_path b \<longleftrightarrow> a = b"
  by (simp add: drop_in_path_def)

lemma tmp_not_drop_in: "CHR ''.'' \<notin> set (drop_in_path w) \<Longrightarrow> drop_in_path w \<noteq> tmp_path u"
  by (auto simp: drop_in_path_def tmp_path_def)

lemma stage_candidate_elevated:
  assumes "stage_candidate m f u body os = (res, os')"
  shows "sudo_elevated os' w = sudo_elevated os w"
  using assms tmp_not_drop_in [of w u]
  by (auto simp: stage_candidate_def sudo_elevated_def discard_tmp_def Let_def
      split: option.splits result.splits if_splits)

lemma grant_admin_spec:
  assumes "grant_admin m f u til os = (res, os')"
  shows "w \<noteq> UserRef.username u \<Longrightarrow> sudo_elevated os' w = sudo_elevated os w"
    and "res = Ok h \<Longrightarrow> GrantHandle.user h = u \<and> GrantHandle.until h = til"
    and "res = Err e \<Longrightarrow> \<not> rollback_fails f \<Longrightarrow> sudo_elevated os' w \<Longrightarrow> sudo_elevated os w"
proof -
  let ?u = "UserRef.username u"
  let ?body = "render_sudoers (text_fns m) ?u (fresh_grant_id f) til"
  obtain r1 os1 where st: "stage_candidate m f ?u ?body os = (r1, os1)" by fastforce
  note same = stage_candidate_elevated [OF st]
  note defs = grant_admin_def sudo_elevated_def st Let_def
  show "w \<noteq> ?u \<Longrightarrow> sudo_elevated os' w = sudo_elevated os w"
    using assms same [of w] tmp_not_drop_in [of w ?u]
    by (auto simp: defs split: result.splits option.splits prod.splits if_splits)
  show "res = Ok h \<Longrightarrow> GrantHandle.user h = u \<and> GrantHandle.until h = til"
    using assms by (auto simp: defs split: result.splits option.splits prod.splits if_splits)
  show "res = Err e \<Longrightarrow> \<not> rollback_fails f \<Longrightarrow> sudo_elevated os' w \<Longrightarrow> sudo_elevated os w"
    using assms same [of w] tmp_not_drop_in [of w ?u]
    by (auto simp: defs split: result.splits option.splits prod.splits if_splits)
qed

lemma revoke_admin_spec:
  assumes "revoke_admin m f h os = (res, os')"
  shows "sudo_elevated os' w \<Longrightarrow> sudo_elevated os w"
    and "w \<noteq> UserRef.username (GrantHandle.user h) \<Longrightarrow> sudo_elevated os' w = sudo_elevated os w"
    and "sudo_elevated os' (UserRef.username (GrantHandle.user h)) \<Longrightarrow>
      (\<exists>e. lock_fault f = Some e \<and> res = Err (CommandErr (''ledger lock poisoned: '' @ e))) \<or>
      (\<exists>e. unlink_fault f = Some e \<and> res = Err (IoErr e))"
  using assms
  by (auto simp: revoke_admin_def sudo_elevated_def Let_def
      split: result.splits option.splits prod.splits if_splits)

interpretation linux: admin_manager "grant_admin m" "revoke_admin m" sudo_elevated
  "is_already_revoked (text_fns m)" "linux_tame (text_fns m)" for m
proof unfold_locales
  fix f u til s h s' e res w
  show "grant_admin m f u til s = (Ok h, s') \<Longrightarrow> GrantHandle.user h = u \<and> GrantHandle.until h = til"
    using grant_admin_spec(2) by blast
  show "grant_admin m f u til s = (res, s') \<Longrightarrow> w \<noteq> UserRef.username u \<Longrightarrow> sudo_elevated s' w = sudo_elevated s w"
    using grant_admin_spec(1) by blast
  show "grant_admin m f u til s = (Err e, s') \<Longrightarrow> linux_tame (text_fns m) f \<Longrightarrow> sudo_elevated s' w \<Longrightarrow> sudo_elevated s w"
    using grant_admin_spec(3) by (auto simp: linux_tame_def)
next
  fix f h s res s' w e
  show "revoke_admin m f h s = (res, s') \<Longrightarrow> sudo_elevated s' w \<Longrightarrow> sudo_elevated s w"
    using revoke_admin_spec(1) by blast
  show "revoke_admin m f h s = (res, s') \<Longrightarrow> w \<noteq> UserRef.username (GrantHandle.user h) \<Longrightarrow>
      sudo_elevated s' w = sudo_elevated s w"
    using revoke_admin_spec(2) by blast
  show "revoke_admin m f h s = (Ok (), s') \<Longrightarrow> \<not> sudo_elevated s' (UserRef.username (GrantHandle.user h))"
    using revoke_admin_spec(3) by blast
  show "revoke_admin m f h s = (Err e, s') \<Longrightarrow> linux_tame (text_fns m) f \<Longrightarrow> is_already_revoked (text_fns m) e \<Longrightarrow>
      \<not> sudo_elevated s' (UserRef.username (GrantHandle.user h))"
    using revoke_admin_spec(3) [of m f h s "Err e" s'] by (auto simp: linux_tame_def)
qed

interpretation linux_reliable: reliable_admin_manager "grant_admin m" "revoke_admin m" sudo_elevated
  "is_already_revoked (text_fns m)" "linux_tame (text_fns m)" linux_drops for m
proof unfold_locales
  fix f h s res s'
  show "revoke_admin m f h s = (res, s') \<Longrightarrow> linux_drops f \<Longrightarrow> \<not> sudo_elevated s' (UserRef.username (GrantHandle.user h))"
    using revoke_admin_spec(3) by (fastforce simp: linux_drops_def)
qed

section \<open>User names and listings\<close>

definition name_byte :: "char \<Rightarrow> bool" where
  "name_byte c \<longleftrightarrow> is_ascii_alphanumeric c \<or> c \<in> set ''_.-''"

lemma name_byte_ascii: "name_byte c \<Longrightarrow> byte_of c < 128 \<and> c \<noteq> CHR 0x5C"
  by (auto simp: name_byte_def is_ascii_alphanumeric_def)

lemma username_loop_Ok_iff:
  "username_loop T name n gs = Ok () \<longleftrightarrow>
     list_all (\<lambda>g. \<exists>c. g = [c] \<and> (name_byte c \<or> c = CHR 0x5C)) gs \<and> n + count_list gs [CHR 0x5C] \<le> max n 1"
proof (induction T name n gs rule: username_loop.induct)
  case (2 T name n g gs)
  consider (plain) c where "g = [c]" "name_byte c" | (slash) "g = [CHR 0x5C]"
    | (bad) "\<not> (\<exists>c. g = [c] \<and> (name_byte c \<or> c = CHR 0x5C))" by blast
  then show ?case
  proof cases
    case plain
    then show ?thesis using 2(1) name_byte_ascii [of c] by (simp add: name_byte_def)
  next
    case slash
    have "\<not> name_byte CHR 0x5C" using name_byte_ascii by blast
    then show ?thesis using 2(2) slash by (auto simp: name_byte_def)
  next
    case bad
    then have "\<not> (case g of [c] \<Rightarrow> is_ascii_alphanumeric c \<or> c \<in> set ''_.-'' | _ \<Rightarrow> False)" "g \<noteq> [CHR 0x5C]"
      by (auto simp: name_byte_def split: list.splits)
    then show ?thesis using bad by simp
  qed
qed simp

lemma utf8_chars_ascii: "list_all (\<lambda>c. byte_of c < 128) s \<Longrightarrow> utf8_chars s = map (\<lambda>c. [c]) s"
  by (induction s) (auto simp: is_cont_def takeWhile_eq_Nil_iff list_all_iff)

lemma singletons_concat: "list_all (\<lambda>g. \<exists>c. g = [c] \<and> P c) gs \<Longrightarrow>
    gs = map (\<lambda>c. [c]) (concat gs) \<and> list_all P (concat gs)"
  by (induction gs) auto

lemma count_list_singletons [simp]: "count_list (map (\<lambda>c. [c]) s) [x] = count_list s x"
  by (induction s) auto

lemma username_loop_chars:
  "username_loop T name 0 (utf8_chars s) = Ok () \<longleftrightarrow>
     list_all (\<lambda>c. name_byte c \<or> c = CHR 0x5C) s \<and> count_list s CHR 0x5C \<le> 1" (is "?l \<longleftrightarrow> ?r")
proof
  assume ?l
  then have gs: "list_all (\<lambda>g. \<exists>c. g = [c] \<and> (name_byte c \<or> c = CHR 0x5C)) (utf8_chars s)"
    and n: "count_list (utf8_chars s) [CHR 0x5C] \<le> 1" by (simp_all add: username_loop_Ok_iff)
  from singletons_concat [OF gs] have "utf8_chars s = map (\<lambda>c. [c]) s" "list_all (\<lambda>c. name_byte c \<or> c = CHR 0x5C) s"
    by simp_all
  with n show ?r by simp
next
  assume r: ?r
  have "name_byte c \<or> c = CHR 0x5C \<Longrightarrow> byte_of c < 128" for c
    using name_byte_ascii [of c] by auto
  then have "list_all (\<lambda>c. byte_of c < 128) s"
    using r list.pred_mono_strong [of "\<lambda>c. name_byte c \<or> c = CHR 0x5C" s "\<lambda>c. byte_of c < 128"] by blast
  then have "utf8_chars s = map (\<lambda>c. [c]) s" by (rule utf8_chars_ascii)
  with r show ?l by (simp add: username_loop_Ok_iff list.pred_map comp_def)
qed

section \<open>Properties\<close>

text \<open>
  The user-name filter in front of the sudoers file. A name passes exactly when it has 1 to 256
  bytes, all of them ASCII letters, digits, underscore, dot, hyphen or backslash, does not start
  with a hyphen and has at most one backslash; so no slash, blank, newline or sudoers metacharacter
  reaches the file name or the rule.
\<close>

theorem validate_username_iff:
  "validate_username T name = Ok () \<longleftrightarrow>
     name \<noteq> [] \<and> length name \<le> 256 \<and> hd name \<noteq> CHR ''-'' \<and>
     set name \<subseteq> {c. is_ascii_alphanumeric c \<or> c \<in> set ''_.-''} \<union> {CHR 0x5C} \<and> count_list name CHR 0x5C \<le> 1"
  using username_loop_chars [of T name name]
  by (auto simp: validate_username_def list_all_iff name_byte_def)

lemma add_admin_one:
  "AdminAccount.username ` set (add_admin ug as) = insert (fst ug) (AdminAccount.username ` set as) \<and>
   (distinct (map AdminAccount.username as) \<longrightarrow> distinct (map AdminAccount.username (add_admin ug as)))"
  by (cases ug) (auto simp: add_admin_def local_admin_def)

lemma add_admin_names: "AdminAccount.username ` set (fold add_admin ugs as) =
    AdminAccount.username ` set as \<union> fst ` set ugs"
  by (induction ugs arbitrary: as) (simp_all add: add_admin_one)

lemma add_admin_distinct: "distinct (map AdminAccount.username as) \<Longrightarrow>
    distinct (map AdminAccount.username (fold add_admin ugs as))"
  by (induction ugs arbitrary: as) (simp_all add: add_admin_one)

lemma add_admin_prefix: "\<exists>bs. fold add_admin ugs as = as @ bs"
proof (induction ugs arbitrary: as)
  case (Cons ug ugs)
  have "\<exists>cs. add_admin ug as = as @ cs" by (cases ug) (simp add: add_admin_def)
  with Cons show ?case by (metis append.assoc fold_simps(2))
qed simp

lemma list_admins_fold:
  assumes "list_admins (Ok etc_group) (Ok etc_passwd) = Ok admins"
  shows "admins = fold add_admin (parse_group_members etc_group [''wheel'', ''sudo'', ''admin''] @
      map (\<lambda>u. (u, ''uid0'')) (parse_uid_zero_aliases etc_passwd)) [local_admin ''root'' ''root'']"
  using assms by (simp add: list_admins_def)

lemma list_admins_names:
  assumes "list_admins (Ok etc_group) (Ok etc_passwd) = Ok admins"
  shows "AdminAccount.username ` set admins =
      insert ''root'' (fst ` set (parse_group_members etc_group [''wheel'', ''sudo'', ''admin'']) \<union>
        set (parse_uid_zero_aliases etc_passwd))"
  unfolding list_admins_fold [OF assms] add_admin_names by (auto simp: local_admin_def image_image image_Un)

text \<open>
  The administrator listing. When both files can be read, the listing starts with \<open>root\<close>, names
  each account once, and names exactly \<open>root\<close>, the members of the groups wheel, sudo and admin,
  and the accounts of uid 0.
\<close>

theorem list_admins_spec:
  assumes "list_admins (Ok etc_group) (Ok etc_passwd) = Ok admins"
  shows "distinct (map AdminAccount.username admins) \<and> AdminAccount.username (hd admins) = ''root'' \<and>
    set (map AdminAccount.username admins) =
      insert ''root'' (fst ` set (parse_group_members etc_group [''wheel'', ''sudo'', ''admin'']) \<union>
        set (parse_uid_zero_aliases etc_passwd))"
proof -
  note admins = list_admins_fold [OF assms]
  obtain bs where "admins = local_admin ''root'' ''root'' # bs"
    using admins add_admin_prefix [of _ "[local_admin ''root'' ''root'']"] by (metis append_Cons append_Nil)
  moreover have "distinct (map AdminAccount.username admins)"
    unfolding admins by (rule add_admin_distinct) simp
  ultimately show ?thesis using list_admins_names [OF assms] by (simp add: local_admin_def)
qed

definition sample_group_file :: string where
  "sample_group_file = ''sudo:x:27:ada, bob'' @ [CHR 0x0A] @ ''users:x:100:eve'' @ [CHR 0x0A]"

theorem list_admins_spec_witness:
  "\<exists>admins. list_admins (Ok sample_group_file) (Ok ''toor:x:0:0::/:'') = Ok admins \<and>
     set (map AdminAccount.username admins) = {''root'', ''ada'', ''bob'', ''toor''}"
proof -
  obtain admins where a: "list_admins (Ok sample_group_file) (Ok ''toor:x:0:0::/:'') = Ok admins"
    by (simp add: list_admins_def)
  have "parse_group_members sample_group_file [''wheel'', ''sudo'', ''admin''] = [(''ada'', ''sudo''), (''bob'', ''sudo'')]"
    "parse_uid_zero_aliases ''toor:x:0:0::/:'' = [''toor'']" by code_simp+
  with list_admins_spec [OF a] a show ?thesis by auto
qed

text \<open>The ledger's serialiser, and a call in which nothing fails.\<close>

definition ledger_roundtrip :: "(GrantHandle \<Rightarrow> bool) \<Rightarrow> ledger_serde \<Rightarrow> bool" where
  "ledger_roundtrip ok sd \<longleftrightarrow>
     (\<forall>gs. list_all ok gs \<longrightarrow>
        (\<exists>b. ledger_to_vec sd \<lparr>ledger_version = 1, grants = gs\<rparr> = Ok b \<and> b \<noteq> [] \<and>
             ledger_from_slice sd b = Ok \<lparr>ledger_version = 1, grants = gs\<rparr>))"

definition fault_free :: "linux_faults \<Rightarrow> bool" where
  "fault_free f \<longleftrightarrow> lock_fault f = None \<and> sudoers_dir_fault f = None \<and> tmp_write_fault f = None \<and>
     tmp_mode_fault f = None \<and> rename_fault f = None \<and> ledger_read_fault f = None \<and>
     ledger_dir_fault f = None \<and> ledger_write_fault f = None \<and> unlink_fault f = None"

lemma write_then_read:
  assumes "ledger_roundtrip ok sd" "list_all ok gs" "write_grants sd None None gs file = (res, file')"
  shows "res = Ok () \<and> read_grants T sd p None file' = Ok gs"
proof -
  obtain b where "ledger_to_vec sd \<lparr>ledger_version = 1, grants = gs\<rparr> = Ok b" "b \<noteq> []"
    "ledger_from_slice sd b = Ok \<lparr>ledger_version = 1, grants = gs\<rparr>"
    using assms(1,2) unfolding ledger_roundtrip_def by blast
  then show ?thesis using assms(3) by (auto simp: write_grants_def read_grants_def)
qed

lemma grant_admin_clean:
  assumes f: "fault_free f" and u: "validate_username (text_fns m) (UserRef.username u) = Ok ()"
    and v: "\<forall>args body. \<exists>out. visudo f args body = Ok out \<and> is_success out"
    and sd: "ledger_roundtrip ok (ledger_fns m)"
    and h: "h = \<lparr>handle_id = fresh_grant_id f, user = u, until = til\<rparr>"
    and gs: "observed_grants m f os = Ok gs" "list_all ok (h # gs)"
      "\<forall>g \<in> set gs. UserRef.username (GrantHandle.user g) \<noteq> UserRef.username u"
  shows "\<exists>os1. grant_admin m f u til os = (Ok h, os1) \<and> observed_grants m f os1 = Ok (gs @ [h]) \<and>
    sudoers os1 = (sudoers os)(tmp_path (UserRef.username u) := None,
      drop_in_path (UserRef.username u) \<mapsto> render_sudoers (text_fns m) (UserRef.username u) (handle_id h) til)"
proof -
  let ?u = "UserRef.username u"
  let ?b = "render_sudoers (text_fns m) ?u (fresh_grant_id f) til"
  have st: "stage_candidate m f ?u ?b os = (Ok (), os\<lparr>sudoers := (sudoers os)(tmp_path ?u \<mapsto> ?b)\<rparr>)"
  proof -
    obtain out where "visudo f [''-c'', ''-f'', sudoers_dir m @ ''/'' @ tmp_path ?u] ?b = Ok out" "is_success out"
      using v by blast
    then show ?thesis using f by (simp add: stage_candidate_def fault_free_def)
  qed
  have kept: "filter (\<lambda>g. UserRef.username (GrantHandle.user g) \<noteq> UserRef.username u) gs = gs"
    using gs(3) by simp
  obtain res fl where w: "write_grants (ledger_fns m) None None (gs @ [h]) (state_file os) = (res, fl)"
    by fastforce
  have "list_all ok (gs @ [h])" using gs(2) by simp
  from write_then_read [OF sd this w, of "text_fns m" "state_path m"] w f kept gs(1)
  have rec: "record_grant m f h (state_file os) = (Ok (), fl)"
    and rd: "read_grants (text_fns m) (ledger_fns m) (state_path m) None fl = Ok (gs @ [h])"
    by (simp_all add: record_grant_def observed_grants_def fault_free_def h)
  show ?thesis using f u st rec rd by (simp add: grant_admin_def observed_grants_def fault_free_def Let_def h)
qed

text \<open>
  Grant and revoke are inverse. With no fault, for an acceptable user without a drop-in or a
  ledger entry, granting installs exactly the rendered rule under the user's file name and adds
  the handle to the ledger; revoking that handle restores the sudoers directory and the ledger.
\<close>

theorem linux_grant_revoke:
  assumes "fault_free f" "validate_username (text_fns m) (UserRef.username u) = Ok ()"
    and "\<forall>args body. \<exists>out. visudo f args body = Ok out \<and> is_success out"
    and sd: "ledger_roundtrip ok (ledger_fns m)"
    and h: "h = \<lparr>handle_id = fresh_grant_id f, user = u, until = til\<rparr>"
    and "observed_grants m f os = Ok gs" and gs: "list_all ok (h # gs)"
    and "\<forall>g \<in> set gs. UserRef.username (GrantHandle.user g) \<noteq> UserRef.username u"
    and fresh: "\<forall>g \<in> set gs. handle_id g \<noteq> fresh_grant_id f"
    and clear: "sudoers os (drop_in_path (UserRef.username u)) = None" "sudoers os (tmp_path (UserRef.username u)) = None"
  shows "\<exists>os1 os2. grant_admin m f u til os = (Ok h, os1) \<and>
    sudoers os1 = (sudoers os)(drop_in_path (UserRef.username u) \<mapsto>
      render_sudoers (text_fns m) (UserRef.username u) (fresh_grant_id f) til) \<and>
    observed_grants m f os1 = Ok (gs @ [h]) \<and>
    revoke_admin m f h os1 = (Ok (), os2) \<and> sudoers os2 = sudoers os \<and> observed_grants m f os2 = Ok gs"
proof -
  obtain os1 where g: "grant_admin m f u til os = (Ok h, os1)" "observed_grants m f os1 = Ok (gs @ [h])"
    and s: "sudoers os1 = (sudoers os)(drop_in_path (UserRef.username u) \<mapsto>
      render_sudoers (text_fns m) (UserRef.username u) (fresh_grant_id f) til)"
    using grant_admin_clean [OF assms(1-8)] clear(2) h
    by (metis (no_types, lifting) GrantHandle.select_convs(1) fun_upd_triv)
  have kept: "filter (\<lambda>g. handle_id g \<noteq> handle_id h) (gs @ [h]) = gs" using fresh h by simp
  obtain res fl where w: "write_grants (ledger_fns m) None None gs (state_file os1) = (res, fl)" by fastforce
  have "list_all ok gs" using gs by simp
  from write_then_read [OF sd this w, of "text_fns m" "state_path m"]
  have w': "write_grants (ledger_fns m) None None gs (state_file os1) = (Ok (), fl)"
    and rd: "read_grants (text_fns m) (ledger_fns m) (state_path m) None fl = Ok gs" using w by simp_all
  define os2 where "os2 = os1\<lparr>sudoers := sudoers os, state_file := fl\<rparr>"
  have user: "GrantHandle.user h = u" using h by simp
  have "(sudoers os1)(drop_in_path (UserRef.username u) := None) = sudoers os" using s clear(1) by auto
  then have "revoke_admin m f h os1 = (Ok (), os2)"
    using g(2) assms(1) s kept w' user by (simp add: revoke_admin_def observed_grants_def fault_free_def Let_def os2_def)
  moreover have "sudoers os2 = sudoers os" "observed_grants m f os2 = Ok gs"
    using rd assms(1) by (simp_all add: os2_def observed_grants_def fault_free_def)
  ultimately show ?thesis using g s by blast
qed

definition sample_text :: std_text where
  "sample_text = \<lparr>lower = to_ascii_lowercase, lossy = (\<lambda>b. b), debug_char = (\<lambda>c. c), debug_path = (\<lambda>p. p), rfc3339 = int_str\<rparr>"

definition sample_manager :: LinuxAdminManager where
  "sample_manager = \<lparr>sudoers_dir = ''/etc/sudoers.d'', state_path = ''/var/lib/sn360/jit-admin-grants.json'',
     text_fns = sample_text,
     ledger_fns = \<lparr>ledger_to_vec = (\<lambda>l. Ok (CHR ''['' # replicate (length (grants l)) CHR ''g'')),
       ledger_from_slice = (\<lambda>b. Ok \<lparr>ledger_version = 1, grants = replicate (length b - 1) sample_handle\<rparr>)\<rparr>\<rparr>"

definition sample_faults :: linux_faults where
  "sample_faults = \<lparr>lock_fault = None, fresh_grant_id = ''h1'', sudoers_dir_fault = None, tmp_write_fault = None,
     tmp_mode_fault = None, visudo = (\<lambda>_ _. Ok \<lparr>status = 0, stdout = [], stderr = []\<rparr>), tmp_unlink_fails = False,
     rename_fault = None, ledger_read_fault = None, ledger_dir_fault = None, ledger_write_fault = None,
     rollback_fails = False, unlink_fault = None\<rparr>"

lemma sample_ledger_roundtrip: "ledger_roundtrip (\<lambda>g. g = sample_handle) (ledger_fns sample_manager)"
proof -
  have "list_all (\<lambda>g. g = sample_handle) gs \<Longrightarrow> replicate (length gs) sample_handle = gs" for gs
    by (induction gs) simp_all
  then show ?thesis by (simp add: ledger_roundtrip_def sample_manager_def)
qed

lemma sample_faults_clean: "fault_free sample_faults"
  "\<forall>args body. \<exists>out. visudo sample_faults args body = Ok out \<and> is_success out"
  by (simp_all add: fault_free_def sample_faults_def is_success_def)

lemma sample_user_valid: "validate_username (text_fns sample_manager) (UserRef.username sample_user) = Ok ()"
  by code_simp

theorem linux_grant_revoke_witness:
  "\<exists>os1 os2. grant_admin sample_manager sample_faults sample_user 100 \<lparr>sudoers = Map.empty, state_file = None\<rparr> = (Ok sample_handle, os1) \<and>
     sudoers os1 ''sda-jit-ada'' \<noteq> None \<and>
     revoke_admin sample_manager sample_faults sample_handle os1 = (Ok (), os2) \<and> sudoers os2 = Map.empty"
proof -
  have h: "sample_handle = \<lparr>handle_id = fresh_grant_id sample_faults, user = sample_user, until = 100\<rparr>"
    by (simp add: sample_handle_def sample_faults_def)
  have o: "observed_grants sample_manager sample_faults \<lparr>sudoers = Map.empty, state_file = None\<rparr> = Ok []"
    by (simp add: observed_grants_def read_grants_def)
  have n: "drop_in_path (UserRef.username sample_user) = ''sda-jit-ada''"
    by (simp add: drop_in_path_def sample_user_def)
  show ?thesis
    using linux_grant_revoke [OF sample_faults_clean(1) sample_user_valid sample_faults_clean(2)
        sample_ledger_roundtrip h o] n by fastforce
qed

end
