(* ===== verification/JitDrift.thy ===== *)
theory JitDrift
  imports AdminManager
begin

text \<open>
  Drift detection, \<open>crates/sda-jit-admin/src/drift.rs\<close>: the accounts the operating system reports
  as administrators against the granted records of the ledger. \<open>str::to_lowercase\<close> (Unicode
  tables) is the argument \<open>lc\<close>. The lemmas show the detector reports exactly the discrepancies,
  and what it makes of a live just-in-time grant on Linux.
\<close>

section \<open>The detector\<close>

datatype DriftKind = UntrackedAdmin | MissingPrivilege

primrec drift_kind_str :: "DriftKind \<Rightarrow> string" where
  "drift_kind_str UntrackedAdmin = ''untracked_admin''"
| "drift_kind_str MissingPrivilege = ''missing_privilege''"

record Drift =
  drift_kind :: DriftKind
  drift_user :: string
  drift_group :: "string option"
  drift_source :: "string option"
  drift_grant_id :: "string option"

text \<open>The allow list, lc-cased.\<close>

record DriftDetector =
  allow :: "string set"

definition detector_new :: DriftDetector where
  "detector_new = \<lparr>allow = {''root'', ''administrator'', ''localsystem''}\<rparr>"

definition allow_user :: "(string \<Rightarrow> string) \<Rightarrow> string \<Rightarrow> DriftDetector \<Rightarrow> DriftDetector" where
  "allow_user lc u dd = dd\<lparr>allow := insert (lc u) (allow dd)\<rparr>"

definition is_allowed :: "(string \<Rightarrow> string) \<Rightarrow> DriftDetector \<Rightarrow> string \<Rightarrow> bool" where
  "is_allowed lc dd u \<longleftrightarrow> lc u \<in> allow dd"

definition untracked_drift :: "AdminAccount \<Rightarrow> Drift" where
  "untracked_drift a = \<lparr>drift_kind = UntrackedAdmin, drift_user = AdminAccount.username a,
     drift_group = AdminAccount.group a, drift_source = Some (AdminAccount.source a), drift_grant_id = None\<rparr>"

definition missing_drift :: "GrantRecord \<Rightarrow> Drift" where
  "missing_drift r = \<lparr>drift_kind = MissingPrivilege, drift_user = UserRef.username (GrantRecord.user r),
     drift_group = None, drift_source = None, drift_grant_id = Some (grant_id r)\<rparr>"

definition compare_admins ::
  "(string \<Rightarrow> string) \<Rightarrow> DriftDetector \<Rightarrow> AdminAccount list \<Rightarrow> GrantRecord list \<Rightarrow> Drift list" where
  "compare_admins lc dd admins ledger =
     (let admin_set = (\<lambda>a. lc (AdminAccount.username a)) ` set admins;
          granted = filter (\<lambda>r. state r = Granted) ledger;
          tracked = (\<lambda>r. lc (UserRef.username (GrantRecord.user r))) ` set granted
      in map untracked_drift
           (filter (\<lambda>a. let l = lc (AdminAccount.username a)
              in \<not> is_allowed lc dd l \<and> l \<notin> tracked) admins)
         @ map missing_drift
             (filter (\<lambda>r. lc (UserRef.username (GrantRecord.user r)) \<notin> admin_set) granted))"

definition scan ::
  "(string \<Rightarrow> string) \<Rightarrow> DriftDetector \<Rightarrow> (AdminAccount list, AdminError) result \<Rightarrow> GrantRecord list \<Rightarrow>
     (Drift list, AdminError) result" where
  "scan lc dd list_admins_result ledger =
     map_ok (\<lambda>admins. compare_admins lc dd admins ledger) list_admins_result"

section \<open>Properties\<close>

lemma compare_admins_set:
  "set (compare_admins lc dd admins ledger) =
     untracked_drift ` {a \<in> set admins. \<not> is_allowed lc dd (lc (AdminAccount.username a)) \<and>
       (\<forall>r \<in> set ledger. state r = Granted \<longrightarrow>
          lc (UserRef.username (GrantRecord.user r)) \<noteq> lc (AdminAccount.username a))} \<union>
     missing_drift ` {r \<in> set ledger. state r = Granted \<and>
       (\<forall>a \<in> set admins. lc (AdminAccount.username a) \<noteq> lc (UserRef.username (GrantRecord.user r)))}"
  by (auto simp: compare_admins_def Let_def image_iff) metis+

text \<open>
  A silent detector means the ledger and the machine agree. The comparison reports nothing
  exactly when every administrator is on the allow list or has a granted record, and every granted
  record's user is an administrator, names compared after lower-casing.
\<close>

theorem drift_free_iff:
  "compare_admins lc dd admins ledger = [] \<longleftrightarrow>
     (\<forall>a \<in> set admins. is_allowed lc dd (lc (AdminAccount.username a)) \<or>
        (\<exists>r \<in> set ledger. state r = Granted \<and>
           lc (UserRef.username (GrantRecord.user r)) = lc (AdminAccount.username a))) \<and>
     (\<forall>r \<in> set ledger. state r = Granted \<longrightarrow>
        (\<exists>a \<in> set admins. lc (AdminAccount.username a) = lc (UserRef.username (GrantRecord.user r))))"
  unfolding set_empty [symmetric] compare_admins_set by blast

definition sample_granted :: GrantRecord where
  "sample_granted = (new_requested ''g1'' ''op'' sample_user 100 1)\<lparr>state := Granted, handle := Some sample_handle\<rparr>"

theorem drift_free_iff_witness:
  "compare_admins to_ascii_lowercase detector_new [local_admin ''root'' ''root'', local_admin ''Ada'' ''sudo''] [sample_granted] = []"
proof -
  have "to_ascii_lowercase ''Ada'' = ''ada''" "to_ascii_lowercase ''ada'' = ''ada''"
    "to_ascii_lowercase ''root'' = ''root''" by code_simp+
  then show ?thesis
    unfolding drift_free_iff
    by (simp add: local_admin_def is_allowed_def detector_new_def sample_granted_def new_requested_def sample_user_def)
qed

text \<open>
  On Linux a live grant is reported as missing. A grant is a sudoers drop-in, but the listing
  reads only the group and password files; so right after a successful grant to a user who is in
  none of the administrator groups, every scan reports the granted record as a missing privilege.
\<close>

theorem live_grant_reported_missing:
  assumes "grant_admin m f u til os = (Ok h, os1)"
    and r: "r \<in> set ledger" "state r = Granted" "GrantRecord.user r = u" "handle r = Some h"
    and l: "list_admins (Ok etc_group) (Ok etc_passwd) = Ok admins"
    and n: "lc (UserRef.username u) \<notin> lc ` insert ''root''
      (fst ` set (parse_group_members etc_group [''wheel'', ''sudo'', ''admin'']) \<union> set (parse_uid_zero_aliases etc_passwd))"
  shows "\<exists>ds. scan lc dd (list_admins (Ok etc_group) (Ok etc_passwd)) ledger = Ok ds \<and> missing_drift r \<in> set ds"
proof -
  have "AdminAccount.username ` set admins = insert ''root''
      (fst ` set (parse_group_members etc_group [''wheel'', ''sudo'', ''admin'']) \<union> set (parse_uid_zero_aliases etc_passwd))"
    using list_admins_names [OF l] .
  then have "lc (AdminAccount.username a) \<noteq> lc (UserRef.username u)" if "a \<in> set admins" for a
    using n that by (metis image_eqI)
  then show ?thesis using r l by (auto simp: scan_def compare_admins_set)
qed

theorem live_grant_reported_missing_witness:
  "\<exists>os1 ds. grant_admin sample_manager sample_faults sample_user 100 \<lparr>sudoers = Map.empty, state_file = None\<rparr> = (Ok sample_handle, os1) \<and>
     scan to_ascii_lowercase detector_new (list_admins (Ok []) (Ok [])) [sample_granted] = Ok ds \<and>
     missing_drift sample_granted \<in> set ds"
proof -
  have h: "sample_handle = \<lparr>handle_id = fresh_grant_id sample_faults, user = sample_user, until = 100\<rparr>"
    by (simp add: sample_handle_def sample_faults_def)
  have o: "observed_grants sample_manager sample_faults \<lparr>sudoers = Map.empty, state_file = None\<rparr> = Ok []"
    by (simp add: observed_grants_def read_grants_def)
  obtain os1 where g: "grant_admin sample_manager sample_faults sample_user 100 \<lparr>sudoers = Map.empty, state_file = None\<rparr> = (Ok sample_handle, os1)"
    using grant_admin_clean [OF sample_faults_clean(1) sample_user_valid sample_faults_clean(2)
        sample_ledger_roundtrip h o] by auto
  obtain admins where l: "list_admins (Ok []) (Ok []) = Ok admins" by (simp add: list_admins_def)
  have "parse_group_members [] [''wheel'', ''sudo'', ''admin''] = []" "parse_uid_zero_aliases [] = []"
    "to_ascii_lowercase ''root'' = ''root''" "to_ascii_lowercase ''ada'' = ''ada''" by code_simp+
  then show ?thesis
    using live_grant_reported_missing [OF g, of sample_granted "[sample_granted]" "[]" "[]" admins to_ascii_lowercase detector_new] g l
    by (simp add: sample_granted_def new_requested_def sample_user_def)
qed

end
