(* ===== verification/JitSupervisor.thy ===== *)
theory JitSupervisor
  imports JitStore JitDrift
begin

text \<open>
  The just-in-time admin supervisor, \<open>crates/sda-jit-admin/src/module.rs\<close>: the task that owns the
  ledger, drives the state machine, calls the operating system and publishes events. One task
  handles one request or tick at a time, so a run is a sequence of inputs. What the outside world
  answers during the \<open>n\<close>-th handler call (clock readings, fresh ids, the faults of disk and operating
  system) is \<open>env n\<close>; the calls are counted in the state. The operations of the \<open>AdminManager\<close>
  trait are arguments. The lemmas show that nobody holds the privilege without a granted record,
  that the watchdog enforces the time limit, and that failed revocations stay retryable.
\<close>

section \<open>Requests and evidence\<close>

datatype JitAdminRequest =
    NewRequest string string UserRef datetime
  | ApproveRequest string "string option"
  | DenyRequest string "string option"
  | RevokeRequest string "RevocationReason option"
  | HeartbeatObserved datetime
  | PowerTransition RevocationReason

record AdminEvidence =
  evidence_id :: string
  evidence_schema :: nat
  evidence_grant :: string
  evidence_user :: UserRef
  evidence_handle :: "string option"
  evidence_state :: GrantState
  operation :: string
  success :: bool
  evidence_reason :: "string option"
  evidence_error :: "string option"
  evidence_drift :: "string option"
  occurred_at :: datetime

text \<open>The events on the bus, with the record their JSON payload serialises.\<close>

datatype jit_event =
    JitAdminRequested GrantRecord
  | JitAdminGranted GrantRecord
  | JitAdminRevoked GrantRecord
  | EvidenceEvent AdminEvidence
  | DeviceControlFinding json

text \<open>Fresh identifier and clock reading of one evidence record.\<close>

type_synonym stamp = "string \<times> datetime"

definition evidence_transition :: "stamp \<Rightarrow> GrantRecord \<Rightarrow> string \<Rightarrow> string option \<Rightarrow> AdminEvidence" where
  "evidence_transition z r op reason = \<lparr>evidence_id = fst z, evidence_schema = 1, evidence_grant = grant_id r,
     evidence_user = GrantRecord.user r, evidence_handle = map_option handle_id (handle r),
     evidence_state = state r, operation = op, success = True, evidence_reason = reason,
     evidence_error = None, evidence_drift = None, occurred_at = snd z\<rparr>"

definition evidence_failure :: "stamp \<Rightarrow> GrantRecord \<Rightarrow> string \<Rightarrow> AdminError \<Rightarrow> AdminEvidence" where
  "evidence_failure z r op e = \<lparr>evidence_id = fst z, evidence_schema = 1, evidence_grant = grant_id r,
     evidence_user = GrantRecord.user r, evidence_handle = map_option handle_id (handle r),
     evidence_state = state r, operation = op, success = False, evidence_reason = None,
     evidence_error = Some (admin_error_str e), evidence_drift = None, occurred_at = snd z\<rparr>"

definition evidence_of_drift :: "string \<Rightarrow> Drift \<Rightarrow> datetime \<Rightarrow> AdminEvidence" where
  "evidence_of_drift i d now = \<lparr>evidence_id = i, evidence_schema = 1,
     evidence_grant = (case drift_grant_id d of Some g \<Rightarrow> g | None \<Rightarrow> []),
     evidence_user = \<lparr>UserRef.username = drift_user d, domain = None\<rparr>, evidence_handle = None,
     evidence_state = DriftDetected, operation = ''drift_detected'', success = False,
     evidence_reason = drift_source d, evidence_error = None,
     evidence_drift = Some (drift_kind_str (drift_kind d)), occurred_at = now\<rparr>"

definition append_transition_evidence ::
  "stamp \<Rightarrow> GrantRecord \<Rightarrow> string \<Rightarrow> string option \<Rightarrow> GrantRecord \<times> AdminEvidence" where
  "append_transition_evidence z r op reason =
     (let ev = evidence_transition z r op reason
      in (r\<lparr>evidence_ids := evidence_ids r @ [evidence_id ev]\<rparr>, ev))"

text \<open>The \<open>Debug\<close> form of a reason: the variant's name.\<close>

primrec revocation_reason_debug :: "RevocationReason \<Rightarrow> string" where
  "revocation_reason_debug Timer = ''Timer''"
| "revocation_reason_debug Operator = ''Operator''"
| "revocation_reason_debug HeartbeatLoss = ''HeartbeatLoss''"
| "revocation_reason_debug PowerSuspend = ''PowerSuspend''"
| "revocation_reason_debug PowerSaver = ''PowerSaver''"
| "revocation_reason_debug Logout = ''Logout''"
| "revocation_reason_debug BootSweep = ''BootSweep''"
| "revocation_reason_debug Drift = ''Drift''"

text \<open>The em dash of the two messages is U+2014, three bytes.\<close>

definition drift_text :: "Drift \<Rightarrow> string" where
  "drift_text d = drift_user d @ (case drift_kind d of
       UntrackedAdmin \<Rightarrow> '' has admin rights but no tracked JIT grant '' @ [CHR 0xE2, CHR 0x80, CHR 0x94] @ '' possible drift.''
     | MissingPrivilege \<Rightarrow> '' has a tracked grant but admin rights were externally removed.'')"

definition opt_string :: "string option \<Rightarrow> json" where
  "opt_string v = (case v of None \<Rightarrow> JNull | Some s \<Rightarrow> JString s)"

text \<open>The finding of one observation; identities are filled in later, so they are the nil UUID here.\<close>

definition nil_uuid :: string where
  "nil_uuid = ''00000000-0000-0000-0000-000000000000''"

definition build_drift_finding_payload :: "(datetime \<Rightarrow> string) \<Rightarrow> string \<Rightarrow> Drift \<Rightarrow> datetime \<Rightarrow> json" where
  "build_drift_finding_payload fmt i d now = JObject
     [(''finding_id'', JString i), (''device_id'', JString nil_uuid), (''tenant_id'', JString nil_uuid),
      (''schema_version'', JNumber (PosInt 1)), (''kind'', JString ''admin_drift''),
      (''severity'', JString ''high''), (''plain_english'', JString (drift_text d)),
      (''evidence'', JObject
        [(''drift_kind'', JString (drift_kind_str (drift_kind d))), (''user'', JString (drift_user d)),
         (''group'', opt_string (drift_group d)), (''source'', opt_string (drift_source d)),
         (''grant_id'', opt_string (drift_grant_id d))]),
      (''observed_at'', JString (fmt now))]"

section \<open>The supervisor\<close>

text \<open>What the world answers during one handler call.\<close>

record 'f jit_call =
  grant_clock :: datetime
  first_stamp :: stamp
  second_stamp :: stamp
  third_stamp :: stamp
  first_flush :: "string option"
  second_flush :: "string option"
  grant_faults :: 'f
  revoke_faults :: 'f
  drift_ids :: "nat \<Rightarrow> string \<times> string"
  admin_list :: "(AdminAccount list, AdminError) result"

record ('f, 'o) jit_ctx =
  grant_op :: "'f \<Rightarrow> UserRef \<Rightarrow> datetime \<Rightarrow> 'o \<Rightarrow> (GrantHandle, AdminError) result \<times> 'o"
  revoke_op :: "'f \<Rightarrow> GrantHandle \<Rightarrow> 'o \<Rightarrow> (unit, AdminError) result \<times> 'o"
  std_fns :: std_text
  time_fmt :: "datetime \<Rightarrow> string"
  store_fns :: store_serde
  wd_cfg :: WatchdogConfig
  drift_detector :: DriftDetector
  env :: "nat \<Rightarrow> 'f jit_call"

record 'o supervisor =
  grant_store :: GrantStore
  ledger_disk :: disk
  last_heartbeat :: "datetime option"
  admin_os :: 'o
  sent :: "jit_event list"
  calls :: nat

definition emit_event :: "jit_event \<Rightarrow> 'o supervisor \<Rightarrow> 'o supervisor" where
  "emit_event k st = st\<lparr>sent := sent st @ [k]\<rparr>"

definition begin_call :: "'o supervisor \<Rightarrow> 'o supervisor" where
  "begin_call st = st\<lparr>calls := Suc (calls st)\<rparr>"

definition persist ::
  "('f, 'o) jit_ctx \<Rightarrow> string option \<Rightarrow> GrantRecord \<Rightarrow> 'o supervisor \<Rightarrow> (unit, StoreError) result \<times> 'o supervisor" where
  "persist c fault r st =
     (case upsert (store_fns c) fault r (grant_store st) (ledger_disk st) of
        (res, s', d') \<Rightarrow> (res, st\<lparr>grant_store := s', ledger_disk := d'\<rparr>))"

text \<open>
  The tail every finished transition shares: record the evidence id, persist, and only then
  announce the record and its evidence.
\<close>

definition persist_and_announce ::
  "('f, 'o) jit_ctx \<Rightarrow> string option \<Rightarrow> stamp \<Rightarrow> (GrantRecord \<Rightarrow> jit_event) \<Rightarrow> GrantRecord \<Rightarrow> string \<Rightarrow>
     string option \<Rightarrow> 'o supervisor \<Rightarrow> 'o supervisor" where
  "persist_and_announce c fault z announce r op reason st =
     (case append_transition_evidence z r op reason of (r', ev) \<Rightarrow>
        (case persist c fault r' st of
           (Err _, st') \<Rightarrow> st'
         | (Ok _, st') \<Rightarrow> emit_event (EvidenceEvent ev) (emit_event (announce r') st')))"

definition do_new_request ::
  "('f, 'o) jit_ctx \<Rightarrow> string \<Rightarrow> string \<Rightarrow> UserRef \<Rightarrow> datetime \<Rightarrow> datetime \<Rightarrow> 'o supervisor \<Rightarrow> 'o supervisor" where
  "do_new_request c i by_whom u til now st =
     (let e = env c (calls st)
      in persist_and_announce c (first_flush e) (first_stamp e) JitAdminRequested
           (new_requested i by_whom u til now) ''request_received'' None (begin_call st))"

text \<open>\<open>do_approve\<close> after the operating system granted the privilege.\<close>

definition finish_grant ::
  "('f, 'o) jit_ctx \<Rightarrow> 'f jit_call \<Rightarrow> GrantRecord \<Rightarrow> GrantHandle \<Rightarrow> string option \<Rightarrow> 'o supervisor \<Rightarrow> 'o supervisor" where
  "finish_grant c e approved h reason st =
     (case apply_transition approved (Grant h reason) (grant_clock e) of
        Err _ \<Rightarrow> st\<lparr>admin_os := snd (revoke_op c (revoke_faults e) h (admin_os st))\<rparr>
      | Ok granted \<Rightarrow>
          (case append_transition_evidence (first_stamp e) granted ''granted'' (last_reason granted) of (granted', ev) \<Rightarrow>
            (case persist c (second_flush e) granted' st of
               (Ok _, st1) \<Rightarrow> emit_event (EvidenceEvent ev) (emit_event (JitAdminGranted granted') st1)
             | (Err err, st1) \<Rightarrow>
                 (case revoke_op c (revoke_faults e) h (admin_os st1) of (res, o') \<Rightarrow>
                    (let st2 = emit_event (EvidenceEvent (evidence_failure (second_stamp e) granted' ''persist_grant''
                           (CommandErr (store_error_str err)))) (st1\<lparr>admin_os := o'\<rparr>)
                     in case res of
                       Ok _ \<Rightarrow> st2
                     | Err rerr \<Rightarrow>
                         if is_already_revoked (std_fns c) rerr then st2
                         else emit_event (EvidenceEvent (evidence_failure (third_stamp e) granted' ''revoke_orphan'' rerr)) st2)))))"

definition do_approve ::
  "('f, 'o) jit_ctx \<Rightarrow> string \<Rightarrow> string option \<Rightarrow> datetime \<Rightarrow> 'o supervisor \<Rightarrow> 'o supervisor" where
  "do_approve c i reason now st =
     (let e = env c (calls st); st0 = begin_call st
      in case get_record (grant_store st0) i of
        None \<Rightarrow> st0
      | Some r \<Rightarrow>
          (case apply_transition r (Approve reason) now of
             Err _ \<Rightarrow> st0
           | Ok approved \<Rightarrow>
               (case persist c (first_flush e) approved st0 of
                  (Err _, st1) \<Rightarrow> st1
                | (Ok _, st1) \<Rightarrow>
                    (case grant_op c (grant_faults e) (GrantRecord.user approved) (GrantRecord.until approved) (admin_os st1) of
                       (Ok h, o') \<Rightarrow> finish_grant c e approved h reason (st1\<lparr>admin_os := o'\<rparr>)
                     | (Err err, o') \<Rightarrow>
                         emit_event (EvidenceEvent (evidence_failure (first_stamp e) approved ''grant_admin'' err))
                           (st1\<lparr>admin_os := o'\<rparr>)))))"

definition do_deny ::
  "('f, 'o) jit_ctx \<Rightarrow> string \<Rightarrow> string option \<Rightarrow> datetime \<Rightarrow> 'o supervisor \<Rightarrow> 'o supervisor" where
  "do_deny c i reason now st =
     (let e = env c (calls st); st0 = begin_call st
      in case get_record (grant_store st0) i of
        None \<Rightarrow> st0
      | Some r \<Rightarrow>
          (case apply_transition r (Deny reason) now of
             Err _ \<Rightarrow> st0
           | Ok denied \<Rightarrow>
               persist_and_announce c (first_flush e) (first_stamp e) JitAdminRevoked denied ''denied''
                 (last_reason denied) st0))"

text \<open>
  The privilege is dropped first. Only an error that is not read as "already gone" stops here, with
  the record left as it was.
\<close>

definition drop_privilege ::
  "('f, 'o) jit_ctx \<Rightarrow> 'f \<Rightarrow> GrantRecord \<Rightarrow> 'o supervisor \<Rightarrow> AdminError option \<times> 'o supervisor" where
  "drop_privilege c f r st =
     (case handle r of
        None \<Rightarrow> (None, st)
      | Some h \<Rightarrow>
          (case revoke_op c f h (admin_os st) of
             (Ok _, o') \<Rightarrow> (None, st\<lparr>admin_os := o'\<rparr>)
           | (Err err, o') \<Rightarrow>
               (if is_already_revoked (std_fns c) err then None else Some err, st\<lparr>admin_os := o'\<rparr>)))"

definition do_revoke ::
  "('f, 'o) jit_ctx \<Rightarrow> string \<Rightarrow> RevocationReason \<Rightarrow> datetime \<Rightarrow> 'o supervisor \<Rightarrow> 'o supervisor" where
  "do_revoke c i cause now st =
     (let e = env c (calls st); st0 = begin_call st
      in case get_record (grant_store st0) i of
        None \<Rightarrow> st0
      | Some r \<Rightarrow>
          if is_terminal (state r) then st0
          else (case drop_privilege c (revoke_faults e) r st0 of
              (Some err, st1) \<Rightarrow> emit_event (EvidenceEvent (evidence_failure (first_stamp e) r ''revoke_admin'' err)) st1
            | (None, st1) \<Rightarrow>
                (case apply_transition r (Revoke cause) now of
                   Err _ \<Rightarrow> st1
                 | Ok revoked \<Rightarrow>
                     persist_and_announce c (first_flush e) (first_stamp e) JitAdminRevoked revoked ''revoked''
                       (Some (revocation_reason_debug cause)) st1)))"

definition do_expire :: "('f, 'o) jit_ctx \<Rightarrow> string \<Rightarrow> datetime \<Rightarrow> 'o supervisor \<Rightarrow> 'o supervisor" where
  "do_expire c i now st =
     (let e = env c (calls st); st0 = begin_call st
      in case get_record (grant_store st0) i of
        None \<Rightarrow> st0
      | Some r \<Rightarrow>
          if is_terminal (state r) then st0
          else (case apply_transition r Expire now of
              Err _ \<Rightarrow> st0
            | Ok expired \<Rightarrow>
                persist_and_announce c (first_flush e) (first_stamp e) JitAdminRevoked expired ''expired'' None st0))"

definition revoke_all ::
  "('f, 'o) jit_ctx \<Rightarrow> RevocationRequest list \<Rightarrow> datetime \<Rightarrow> 'o supervisor \<Rightarrow> 'o supervisor" where
  "revoke_all c reqs now st = fold (\<lambda>q. do_revoke c (request_id q) (RevocationRequest.why q) now) reqs st"

definition boot_sweep :: "('f, 'o) jit_ctx \<Rightarrow> datetime \<Rightarrow> 'o supervisor \<Rightarrow> 'o supervisor" where
  "boot_sweep c now st =
     (let snapshots = List.map_filter
            (\<lambda>q. map_option (\<lambda>r. (request_id q, state r)) (get_record (grant_store st) (request_id q)))
            (boot_sweep_requests (GrantStore.records (grant_store st)) now)
      in fold (\<lambda>(i, s) st'.
           case s of
             Granted \<Rightarrow> do_revoke c i BootSweep now st'
           | Requested \<Rightarrow> do_expire c i now st'
           | Approved \<Rightarrow> do_expire c i now st'
           | _ \<Rightarrow> st') snapshots st)"

definition watchdog_tick :: "('f, 'o) jit_ctx \<Rightarrow> datetime \<Rightarrow> 'o supervisor \<Rightarrow> 'o supervisor" where
  "watchdog_tick c now st =
     (let rs = GrantStore.records (grant_store st);
          timer_reqs = timer_revocations rs now;
          hb_reqs = heartbeat_revocations rs (last_heartbeat st) now (wd_cfg c)
      in revoke_all c (timer_reqs @ hb_reqs) now st)"

primrec handle_request :: "('f, 'o) jit_ctx \<Rightarrow> datetime \<Rightarrow> JitAdminRequest \<Rightarrow> 'o supervisor \<Rightarrow> 'o supervisor" where
  "handle_request c now (NewRequest i by_whom u til) st = do_new_request c i by_whom u til now st"
| "handle_request c now (ApproveRequest i reason) st = do_approve c i reason now st"
| "handle_request c now (DenyRequest i reason) st = do_deny c i reason now st"
| "handle_request c now (RevokeRequest i reason) st =
     do_revoke c i (case reason of Some r \<Rightarrow> r | None \<Rightarrow> Operator) now st"
| "handle_request c now (HeartbeatObserved at) st = st\<lparr>last_heartbeat := Some at\<rparr>"
| "handle_request c now (PowerTransition reason) st =
     revoke_all c (power_revocations (GrantStore.records (grant_store st)) reason) now st"

fun emit_drifts :: "('f, 'o) jit_ctx \<Rightarrow> 'f jit_call \<Rightarrow> nat \<Rightarrow> datetime \<Rightarrow> Drift list \<Rightarrow> 'o supervisor \<Rightarrow> 'o supervisor" where
  "emit_drifts c e n now [] st = st"
| "emit_drifts c e n now (d # ds) st =
     emit_drifts c e (Suc n) now ds
       (emit_event (EvidenceEvent (evidence_of_drift (snd (drift_ids e n)) d now))
         (emit_event (DeviceControlFinding (build_drift_finding_payload (time_fmt c) (fst (drift_ids e n)) d now)) st))"

definition do_drift_scan :: "('f, 'o) jit_ctx \<Rightarrow> datetime \<Rightarrow> 'o supervisor \<Rightarrow> 'o supervisor" where
  "do_drift_scan c now st =
     (let e = env c (calls st); st0 = begin_call st
      in case scan (lower (std_fns c)) (drift_detector c) (admin_list e) (GrantStore.records (grant_store st0)) of
        Err _ \<Rightarrow> st0
      | Ok ds \<Rightarrow> emit_drifts c e 0 now ds st0)"

section \<open>The task\<close>

record JitAdminConfig =
  enabled :: bool
  cfg_state_path :: "string option"
  cfg_heartbeat_loss_secs :: nat
  cfg_drift_check_interval_secs :: nat

text \<open>
  \<open>start\<close>: \<open>None\<close> is a task parked until shutdown. Otherwise the ledger is opened and the boot sweep
  runs before the first request. The default path is the parameter \<open>fallback\<close>.
\<close>

definition initial :: "GrantStore \<Rightarrow> disk \<Rightarrow> 'o \<Rightarrow> 'o supervisor" where
  "initial s d os = \<lparr>grant_store = s, ledger_disk = d, last_heartbeat = None, admin_os = os, sent = [], calls = 0\<rparr>"

definition state_path_of :: "JitAdminConfig \<Rightarrow> string \<Rightarrow> string" where
  "state_path_of cfg fallback = (case cfg_state_path cfg of Some p \<Rightarrow> p | None \<Rightarrow> fallback)"

definition configured :: "('f, 'o) jit_ctx \<Rightarrow> JitAdminConfig \<Rightarrow> ('f, 'o) jit_ctx" where
  "configured c cfg = c\<lparr>wd_cfg := from_secs (cfg_heartbeat_loss_secs cfg), drift_detector := detector_new\<rparr>"

definition jit_start ::
  "('f, 'o) jit_ctx \<Rightarrow> JitAdminConfig \<Rightarrow> string \<Rightarrow> open_faults \<Rightarrow> disk \<Rightarrow> 'o \<Rightarrow> datetime \<Rightarrow> 'o supervisor option" where
  "jit_start c cfg fallback f d os now =
     (if \<not> enabled cfg then None
      else case open_store (store_fns c) f (state_path_of cfg fallback) d of
        Err _ \<Rightarrow> None
      | Ok s \<Rightarrow> Some (boot_sweep (configured c cfg) now (initial s d os)))"

text \<open>The arms of the task's \<open>select!\<close>, each with the clock reading it takes.\<close>

datatype jit_input = Request datetime JitAdminRequest | Tick datetime | DriftTick datetime

primrec jit_step :: "('f, 'o) jit_ctx \<Rightarrow> jit_input \<Rightarrow> 'o supervisor \<Rightarrow> 'o supervisor" where
  "jit_step c (Request now q) st = handle_request c now q st"
| "jit_step c (Tick now) st = watchdog_tick c now st"
| "jit_step c (DriftTick now) st = do_drift_scan c now st"

section \<open>Nobody is elevated without a granted record\<close>

definition rec_ok :: "GrantRecord \<Rightarrow> bool" where
  "rec_ok r \<longleftrightarrow> handle_inv r \<and> (\<forall>h. handle r = Some h \<longrightarrow> GrantHandle.user h = GrantRecord.user r)"

definition tracked :: "'o supervisor \<Rightarrow> string \<Rightarrow> bool" where
  "tracked st w \<longleftrightarrow> (\<exists>r \<in> set (GrantStore.records (grant_store st)).
     state r = Granted \<and> UserRef.username (GrantRecord.user r) = w)"

text \<open>
  The invariant, for a given notion of who is elevated: ids are unique, every record is well
  formed, and every elevated user is tracked by a granted record.
\<close>

definition sup_inv :: "('o \<Rightarrow> string \<Rightarrow> bool) \<Rightarrow> 'o supervisor \<Rightarrow> bool" where
  "sup_inv elevated st \<longleftrightarrow> distinct (ids (grant_store st)) \<and>
     (\<forall>r \<in> set (GrantStore.records (grant_store st)). rec_ok r) \<and>
     (\<forall>w. elevated (admin_os st) w \<longrightarrow> tracked st w)"

lemma supervisor_frame [simp]:
  "grant_store (emit_event k st) = grant_store st" "admin_os (emit_event k st) = admin_os st"
  "calls (emit_event k st) = calls st" "grant_store (begin_call st) = grant_store st"
  "admin_os (begin_call st) = admin_os st" "last_heartbeat (begin_call st) = last_heartbeat st"
  "last_heartbeat (emit_event k st) = last_heartbeat st"
  by (simp_all add: emit_event_def begin_call_def)

lemma sup_inv_emit [simp]: "sup_inv elevated (emit_event k st) = sup_inv elevated st"
  "sup_inv elevated (begin_call st) = sup_inv elevated st"
  by (simp_all add: sup_inv_def tracked_def)

lemma persist_store: "persist c f r st = (res, st') \<Longrightarrow>
    grant_store st' = put_record r (grant_store st) \<and> admin_os st' = admin_os st"
  by (auto simp: persist_def upsert_def Let_def split: prod.splits)

lemma rec_ok_apply:
  assumes "rec_ok r" "apply_transition r t now = Ok r'"
    and "\<And>h txt0. t = Grant h txt0 \<Longrightarrow> GrantHandle.user h = GrantRecord.user r"
  shows "rec_ok r'"
proof -
  have "handle r' = (case t of Grant h _ \<Rightarrow> Some h | _ \<Rightarrow> handle r)"
    using assms(2)
    by (auto simp: apply_transition_def Let_def split: if_splits option.splits StateTransition.splits)
  then show ?thesis
    using assms(1,3) handle_inv_apply [OF _ assms(2)] apply_transition_frame [OF assms(2)]
    by (auto simp: rec_ok_def split: StateTransition.splits)
qed

lemma rec_ok_evidence: "append_transition_evidence z r op reason = (r', ev) \<Longrightarrow>
    rec_ok r' = rec_ok r \<and> grant_id r' = grant_id r \<and> state r' = state r \<and> GrantRecord.user r' = GrantRecord.user r
    \<and> GrantRecord.until r' = GrantRecord.until r"
  by (auto simp: append_transition_evidence_def rec_ok_def handle_inv_def Let_def)

text \<open>Replacing a record keeps the invariant when no elevated user loses their granted record.\<close>

lemma sup_inv_put:
  assumes inv: "sup_inv elevated st" and ok: "rec_ok r'"
    and st': "grant_store st' = put_record r' (grant_store st)" "admin_os st' = admin_os st"
    and keep: "\<And>r. get_record (grant_store st) (grant_id r') = Some r \<Longrightarrow> state r = Granted \<Longrightarrow>
      elevated (admin_os st) (UserRef.username (GrantRecord.user r)) \<Longrightarrow>
      state r' = Granted \<and> GrantRecord.user r' = GrantRecord.user r"
  shows "sup_inv elevated st'"
proof -
  have d: "distinct (ids (grant_store st))" using inv by (simp add: sup_inv_def)
  have recs: "set (GrantStore.records (grant_store st')) =
      insert r' {x \<in> set (GrantStore.records (grant_store st)). grant_id x \<noteq> grant_id r'}"
    using records_put_record [OF d] st'(1) by simp
  have "tracked st' w" if e: "elevated (admin_os st') w" for w
  proof -
    obtain r where r: "r \<in> set (GrantStore.records (grant_store st))" "state r = Granted"
      "UserRef.username (GrantRecord.user r) = w"
      using inv e st'(2) by (auto simp: sup_inv_def tracked_def)
    show ?thesis
    proof (cases "grant_id r = grant_id r'")
      case True
      then have "get_record (grant_store st) (grant_id r') = Some r"
        using get_record_member [OF d r(1)] by simp
      then have "state r' = Granted \<and> GrantRecord.user r' = GrantRecord.user r"
        using keep r e st'(2) by simp
      then show ?thesis using recs r(3) by (auto simp: tracked_def)
    next
      case False
      then show ?thesis using recs r by (auto simp: tracked_def)
    qed
  qed
  moreover have "distinct (ids (grant_store st'))" using distinct_put_record [OF d] st'(1) by simp
  moreover have "\<forall>r \<in> set (GrantStore.records (grant_store st')). rec_ok r"
    using inv ok recs by (auto simp: sup_inv_def)
  ultimately show ?thesis by (simp add: sup_inv_def)
qed

lemma sup_inv_os:
  assumes "sup_inv elevated st" "\<And>w. elevated o' w \<Longrightarrow> elevated (admin_os st) w"
  shows "sup_inv elevated (st\<lparr>admin_os := o'\<rparr>)"
  using assms by (auto simp: sup_inv_def tracked_def)

lemma persist_and_announce_store:
  "\<exists>r'. grant_store (persist_and_announce c f z k r op txt0 st) = put_record r' (grant_store st) \<and>
     admin_os (persist_and_announce c f z k r op txt0 st) = admin_os st \<and>
     rec_ok r' = rec_ok r \<and> grant_id r' = grant_id r \<and> state r' = state r \<and>
     GrantRecord.user r' = GrantRecord.user r \<and> GrantRecord.until r' = GrantRecord.until r"
proof -
  obtain r' ev where e: "append_transition_evidence z r op txt0 = (r', ev)" by fastforce
  obtain res st1 where p: "persist c f r' st = (res, st1)" by fastforce
  show ?thesis
    using persist_store [OF p] rec_ok_evidence [OF e] e p
    by (cases res) (auto simp: persist_and_announce_def)
qed

lemma sup_inv_announce:
  assumes "sup_inv elevated st" "rec_ok r"
    and "\<And>r0. get_record (grant_store st) (grant_id r) = Some r0 \<Longrightarrow> state r0 = Granted \<Longrightarrow>
      elevated (admin_os st) (UserRef.username (GrantRecord.user r0)) \<Longrightarrow>
      state r = Granted \<and> GrantRecord.user r = GrantRecord.user r0"
  shows "sup_inv elevated (persist_and_announce c f z k r op txt0 st)"
proof -
  obtain r' where p: "grant_store (persist_and_announce c f z k r op txt0 st) = put_record r' (grant_store st)"
    "admin_os (persist_and_announce c f z k r op txt0 st) = admin_os st"
    "rec_ok r' = rec_ok r" "grant_id r' = grant_id r" "state r' = state r" "GrantRecord.user r' = GrantRecord.user r"
    using persist_and_announce_store [of c f z k r op txt0 st] by blast
  show ?thesis
  proof (rule sup_inv_put [OF assms(1) _ p(1,2)])
    show "rec_ok r'" using assms(2) p(3) by simp
    show "state r' = Granted \<and> GrantRecord.user r' = GrantRecord.user r0"
      if "get_record (grant_store st) (grant_id r') = Some r0" "state r0 = Granted"
        "elevated (admin_os st) (UserRef.username (GrantRecord.user r0))" for r0
      using assms(3) [of r0] that p by simp
  qed
qed

text \<open>\<open>calm\<close>: the faults of every call are ones the interface's laws cover.\<close>

definition calm :: "('f \<Rightarrow> bool) \<Rightarrow> ('f, 'o) jit_ctx \<Rightarrow> bool" where
  "calm tame c \<longleftrightarrow> (\<forall>n. tame (grant_faults (env c n)) \<and> tame (revoke_faults (env c n)))"

text \<open>The supervisor over any provider of the \<open>AdminManager\<close> interface.\<close>

locale jit_admin = admin_manager "grant_op c" "revoke_op c" elevated "is_already_revoked (std_fns c)" tame
  for c :: "('f, 'o) jit_ctx" and elevated :: "'o \<Rightarrow> string \<Rightarrow> bool" and tame :: "'f \<Rightarrow> bool"
begin

lemma inv_new_request:
  assumes "sup_inv elevated st" "\<forall>r. get_record (grant_store st) i = Some r \<longrightarrow> state r \<noteq> Granted"
  shows "sup_inv elevated (do_new_request c i b u til now st)"
  unfolding do_new_request_def Let_def
  by (rule sup_inv_announce)
    (use assms in \<open>auto simp: rec_ok_def new_requested_def handle_inv_def\<close>)

lemma get_rec_ok: "sup_inv elevated st \<Longrightarrow> get_record (grant_store st) i = Some r \<Longrightarrow> rec_ok r \<and> grant_id r = i"
  using get_record_Some by (auto simp: sup_inv_def)

lemma inv_deny:
  assumes "sup_inv elevated st"
  shows "sup_inv elevated (do_deny c i why0 now st)"
proof (cases "get_record (grant_store st) i")
  case (Some r)
  show ?thesis
  proof (cases "apply_transition r (Deny why0) now")
    case (Ok r1)
    have "rec_ok r1" using rec_ok_apply [OF _ Ok] get_rec_ok [OF assms Some] by simp
    moreover have "grant_id r1 = i" "state r \<noteq> Granted"
      using apply_transition_frame [OF Ok] get_rec_ok [OF assms Some] Ok
      by (auto simp: apply_transition_Ok_iff elim: target_state.elims)
    ultimately show ?thesis
      using Ok Some assms by (auto simp: do_deny_def Let_def intro!: sup_inv_announce)
  qed (use Some assms in \<open>simp add: do_deny_def Let_def\<close>)
qed (use assms in \<open>simp add: do_deny_def Let_def\<close>)

lemma drop_privilege_spec:
  assumes "drop_privilege c f r st = (res, st')" "rec_ok r" "tame f"
  shows "grant_store st' = grant_store st"
    and "elevated (admin_os st') w \<Longrightarrow> elevated (admin_os st) w"
    and "res = None \<Longrightarrow> state r = Granted \<Longrightarrow> \<not> elevated (admin_os st') (UserRef.username (GrantRecord.user r))"
proof -
  show "grant_store st' = grant_store st"
    using assms(1) by (auto simp: drop_privilege_def split: option.splits prod.splits result.splits)
  show "elevated (admin_os st') w \<Longrightarrow> elevated (admin_os st) w"
    using assms(1) take_back_mono
    by (fastforce simp: drop_privilege_def split: option.splits prod.splits result.splits)
  assume n: "res = None" "state r = Granted"
  then obtain h where h: "handle r = Some h" "GrantHandle.user h = GrantRecord.user r"
    using assms(2) by (auto simp: rec_ok_def handle_inv_def)
  obtain ans o' where t: "revoke_op c f h (admin_os st) = (ans, o')" by fastforce
  show "\<not> elevated (admin_os st') (UserRef.username (GrantRecord.user r))"
    using take_back_Ok [of f h "admin_os st" o'] take_back_gone [of f h "admin_os st" _ o'] t assms(1,3) n h
    by (cases ans) (auto simp: drop_privilege_def split: if_splits)
qed

lemma inv_revoke:
  assumes "sup_inv elevated st" "calm tame c"
  shows "sup_inv elevated (do_revoke c i cause now st)"
proof (cases "get_record (grant_store st) i")
  case (Some r)
  have ok: "rec_ok r" "grant_id r = i" using get_rec_ok [OF assms(1) Some] by simp_all
  have tame: "tame (revoke_faults (env c (calls st)))" using assms(2) by (simp add: calm_def)
  obtain res st1 where d: "drop_privilege c (revoke_faults (env c (calls st))) r (begin_call st) = (res, st1)"
    by fastforce
  note spec = drop_privilege_spec [OF d ok(1) tame]
  have st1: "sup_inv elevated st1"
    using assms spec by (auto simp: sup_inv_def tracked_def)
  show ?thesis
  proof (cases "apply_transition r (Revoke cause) now")
    case (Ok r1)
    have "rec_ok r1" using rec_ok_apply [OF ok(1) Ok] by simp
    moreover have "grant_id r1 = i" "state r = Granted"
      using apply_transition_frame [OF Ok] ok(2) Ok by (auto simp: apply_transition_Ok_iff elim: target_state.elims)
    ultimately have "res = None \<Longrightarrow> sup_inv elevated (persist_and_announce c f z k r1 op x st1)" for f z k op x
      using st1 Some spec by (intro sup_inv_announce) auto
    then show ?thesis using Ok Some assms d st1 by (auto simp: do_revoke_def Let_def split: option.splits)
  qed (use Some assms d st1 in \<open>auto simp: do_revoke_def Let_def split: option.splits\<close>)
qed (use assms in \<open>simp add: do_revoke_def Let_def\<close>)


lemma inv_expire:
  assumes "sup_inv elevated st" "\<forall>r. get_record (grant_store st) i = Some r \<longrightarrow> state r \<noteq> Granted"
  shows "sup_inv elevated (do_expire c i now st)"
proof (cases "get_record (grant_store st) i")
  case (Some r)
  show ?thesis
  proof (cases "apply_transition r Expire now")
    case (Ok r1)
    have "rec_ok r1" using rec_ok_apply [OF _ Ok] get_rec_ok [OF assms(1) Some] by simp
    moreover have "grant_id r1 = i" using apply_transition_frame [OF Ok] get_rec_ok [OF assms(1) Some] by simp
    ultimately show ?thesis
      using Ok Some assms by (auto simp: do_expire_def Let_def intro!: sup_inv_announce)
  qed (use Some assms in \<open>simp add: do_expire_def Let_def\<close>)
qed (use assms in \<open>simp add: do_expire_def Let_def\<close>)

text \<open>Between the grant of the operating system and the granted record, one user is untracked.\<close>

lemma inv_finish_grant:
  assumes inv: "sup_inv elevated st" and ok: "rec_ok a" and a: "state a = Approved"
    and h: "GrantHandle.user h = GrantRecord.user a"
    and o': "\<And>w. elevated o' w \<Longrightarrow> elevated (admin_os st) w \<or> w = UserRef.username (GrantRecord.user a)"
    and cur: "get_record (grant_store st) (grant_id a) = Some a"
  shows "sup_inv elevated (finish_grant c (env c n) a h reason (st\<lparr>admin_os := o'\<rparr>))"
proof -
  obtain g where g: "apply_transition a (Grant h reason) (grant_clock (env c n)) = Ok g" "state g = Granted"
    using a by (auto simp: apply_transition_def is_terminal_def)
  obtain g' ev where e: "append_transition_evidence (first_stamp (env c n)) g ''granted'' (last_reason g) = (g', ev)"
    by fastforce
  have g': "rec_ok g'" "state g' = Granted" "grant_id g' = grant_id a" "GrantRecord.user g' = GrantRecord.user a"
    using rec_ok_apply [OF ok g(1)] h g(2) apply_transition_frame [OF g(1)] rec_ok_evidence [OF e] by auto
  obtain res st1 where p: "persist c (second_flush (env c n)) g' (st\<lparr>admin_os := o'\<rparr>) = (res, st1)" by fastforce
  have st1: "grant_store st1 = put_record g' (grant_store st)" "admin_os st1 = o'"
    using persist_store [OF p] by simp_all
  have mid: "sup_inv elevated (st1\<lparr>admin_os := admin_os st\<rparr>)"
    by (rule sup_inv_put [OF inv g'(1)]) (use st1 cur g' a in auto)
  have "UserRef.username (GrantRecord.user a) = w \<Longrightarrow> tracked st1 w" for w
    using records_put_record [of "grant_store st" g'] inv st1(1) g' by (auto simp: tracked_def sup_inv_def)
  then have inv1: "sup_inv elevated st1"
    using mid o' st1(2) by (auto simp: sup_inv_def tracked_def)
  obtain ans o2 where t: "revoke_op c (revoke_faults (env c n)) h (admin_os st1) = (ans, o2)" by fastforce
  have "sup_inv elevated (st1\<lparr>admin_os := o2\<rparr>)"
    by (rule sup_inv_os [OF inv1]) (use take_back_mono [OF t] in blast)
  then show ?thesis using inv1 g e p t by (auto simp: finish_grant_def Let_def split: result.splits)
qed

lemma inv_approve:
  assumes "sup_inv elevated st" "calm tame c"
  shows "sup_inv elevated (do_approve c i reason now st)"
proof (cases "get_record (grant_store st) i")
  case (Some r)
  have ok: "rec_ok r" "grant_id r = i" using get_rec_ok [OF assms(1) Some] by simp_all
  let ?e = "env c (calls st)"
  show ?thesis
  proof (cases "apply_transition r (Approve reason) now")
    case (Ok a)
    have a: "rec_ok a" "grant_id a = i" "state a = Approved" "state r \<noteq> Granted"
      using rec_ok_apply [OF ok(1) Ok] apply_transition_frame [OF Ok] ok(2) Ok
      by (auto simp: apply_transition_Ok_iff elim: target_state.elims)
    obtain res st1 where p: "persist c (first_flush ?e) a (begin_call st) = (res, st1)" by fastforce
    note st1 = persist_store [OF p]
    have inv1: "sup_inv elevated st1"
      by (rule sup_inv_put [OF _ a(1), of elevated "begin_call st"]) (use assms st1 Some a in auto)
    have cur: "get_record (grant_store st1) (grant_id a) = Some a" using st1 by (simp add: grants.look_put)
    obtain ans o' where g: "grant_op c (grant_faults ?e) (GrantRecord.user a) (GrantRecord.until a) (admin_os st1) = (ans, o')"
      by fastforce
    have "sup_inv elevated (st1\<lparr>admin_os := o'\<rparr>)" if "ans = Err err" for err
      by (rule sup_inv_os [OF inv1]) (use give_Err [OF g [unfolded that]] assms(2) in \<open>auto simp: calm_def\<close>)
    moreover have "sup_inv elevated (finish_grant c ?e a h reason (st1\<lparr>admin_os := o'\<rparr>))" if "ans = Ok h" for h
      using give_handle [OF g [unfolded that]] give_others [OF g]
      by (intro inv_finish_grant [OF inv1 a(1,3) _ _ cur]) auto
    ultimately show ?thesis using Some Ok p inv1 g by (auto simp: do_approve_def Let_def split: result.splits)
  qed (use Some assms in \<open>simp add: do_approve_def Let_def\<close>)
qed (use assms in \<open>simp add: do_approve_def Let_def\<close>)

lemma inv_revoke_all: "sup_inv elevated st \<Longrightarrow> calm tame c \<Longrightarrow> sup_inv elevated (revoke_all c reqs now st)"
  unfolding revoke_all_def by (induction reqs arbitrary: st) (simp_all add: inv_revoke)

lemma inv_tick: "sup_inv elevated st \<Longrightarrow> calm tame c \<Longrightarrow> sup_inv elevated (watchdog_tick c now st)"
  by (simp add: watchdog_tick_def Let_def inv_revoke_all)

lemma inv_emit_drifts: "sup_inv elevated st \<Longrightarrow> sup_inv elevated (emit_drifts c e n now ds st)"
  by (induction c e n now ds st rule: emit_drifts.induct) simp_all

lemma inv_drift_scan: "sup_inv elevated st \<Longrightarrow> sup_inv elevated (do_drift_scan c now st)"
  by (simp add: do_drift_scan_def Let_def inv_emit_drifts split: result.splits)

lemma inv_heartbeat: "sup_inv elevated st \<Longrightarrow> sup_inv elevated (st\<lparr>last_heartbeat := t\<rparr>)"
  by (simp add: sup_inv_def tracked_def)

end

text \<open>A request reuses an id when a granted record has it.\<close>

primrec reuses_granted :: "'o supervisor \<Rightarrow> jit_input \<Rightarrow> bool" where
  "reuses_granted st (Request now q) = (case q of
      NewRequest i _ _ _ \<Rightarrow> \<exists>r \<in> set (GrantStore.records (grant_store st)). grant_id r = i \<and> state r = Granted
    | _ \<Rightarrow> False)"
| "reuses_granted st (Tick now) = False"
| "reuses_granted st (DriftTick now) = False"

text \<open>The states a run passes through when no request reuses the id of a granted record.\<close>

inductive jit_reach :: "('f, 'o) jit_ctx \<Rightarrow> 'o supervisor \<Rightarrow> 'o supervisor \<Rightarrow> bool" for c st0 where
  reach_start: "jit_reach c st0 st0"
| reach_step: "jit_reach c st0 st \<Longrightarrow> \<not> reuses_granted st x \<Longrightarrow> jit_reach c st0 (jit_step c x st)"

context jit_admin begin

lemma inv_step:
  assumes "sup_inv elevated st" "calm tame c" "\<not> reuses_granted st x"
  shows "sup_inv elevated (jit_step c x st)"
proof (cases x)
  case (Request now q)
  then show ?thesis
    using assms inv_approve inv_deny inv_revoke inv_revoke_all inv_heartbeat
    by (cases q) (auto intro!: inv_new_request dest: get_record_Some)
qed (use assms inv_tick inv_drift_scan in auto)

lemma inv_reach: "jit_reach c st0 st \<Longrightarrow> sup_inv elevated st0 \<Longrightarrow> calm tame c \<Longrightarrow> sup_inv elevated st"
  by (induction rule: jit_reach.induct) (simp_all add: inv_step)

end

text \<open>A handler only touches the record it was called for.\<close>

lemma announce_put:
  "\<exists>r'. grant_store (persist_and_announce c f z k r op x st) = put_record r' (grant_store st) \<and>
     grant_id r' = grant_id r \<and> state r' = state r"
  using persist_and_announce_store [of c f z k r op x st] by blast

lemma drop_privilege_store: "drop_privilege c f r st = (res, st') \<Longrightarrow> grant_store st' = grant_store st"
  by (auto simp: drop_privilege_def split: option.splits prod.splits result.splits)

lemma do_revoke_store:
  "grant_store (do_revoke c i cause now st) = grant_store st \<or>
   (\<exists>r'. grant_store (do_revoke c i cause now st) = put_record r' (grant_store st) \<and> grant_id r' = i \<and> state r' = Revoked)"
proof (cases "get_record (grant_store st) i")
  case (Some r)
  obtain res st1 where d: "drop_privilege c (revoke_faults (env c (calls st))) r (begin_call st) = (res, st1)"
    by fastforce
  show ?thesis
  proof (cases "apply_transition r (Revoke cause) now")
    case (Ok r1)
    have "grant_id r1 = i \<and> state r1 = Revoked"
      using get_record_Some [OF Some] apply_transition_frame [OF Ok] Ok
      by (auto simp: apply_transition_Ok_iff dest: target_state_target)
    then have "\<exists>r'. grant_store (persist_and_announce c f z k r1 op x st1) = put_record r' (grant_store st) \<and>
        grant_id r' = i \<and> state r' = Revoked" for f z k op x
      using announce_put [of c f z k r1 op x st1] drop_privilege_store [OF d] by simp
    then show ?thesis using Some Ok d drop_privilege_store [OF d]
      by (auto simp: do_revoke_def Let_def split: option.splits)
  qed (use Some d drop_privilege_store [OF d] in \<open>auto simp: do_revoke_def Let_def split: option.splits\<close>)
qed (simp add: do_revoke_def Let_def)

lemma revoke_get_other:
  "j \<noteq> i \<Longrightarrow> get_record (grant_store (do_revoke c i cause now st)) j = get_record (grant_store st) j"
  using do_revoke_store [of c i cause now st] by (auto simp: grants.look_put)

text \<open>A revocation leaves no new granted record.\<close>

lemma revoke_granted_back:
  "get_record (grant_store (do_revoke c i cause now st)) j = Some r \<Longrightarrow> state r = Granted \<Longrightarrow>
     get_record (grant_store st) j = Some r"
  using do_revoke_store [of c i cause now st] by (auto simp: grants.look_put split: if_splits)

lemma expire_get_other:
  assumes "j \<noteq> i"
  shows "get_record (grant_store (do_expire c i now st)) j = get_record (grant_store st) j"
proof (cases "get_record (grant_store st) i")
  case (Some r)
  show ?thesis
  proof (cases "apply_transition r Expire now")
    case (Ok r1)
    have "grant_id r1 = i" using get_record_Some [OF Some] apply_transition_frame [OF Ok] by simp
    then have "get_record (grant_store (persist_and_announce c f z k r1 op x (begin_call st))) j =
        get_record (grant_store st) j" for f z k op x
      using announce_put [of c f z k r1 op x "begin_call st"] assms by (auto simp: grants.look_put)
    then show ?thesis using Some Ok by (simp add: do_expire_def Let_def)
  qed (use Some in \<open>simp add: do_expire_def Let_def\<close>)
qed (simp add: do_expire_def Let_def)

lemma revoke_all_granted_back:
  "get_record (grant_store (revoke_all c reqs now st)) j = Some r \<Longrightarrow> state r = Granted \<Longrightarrow>
     get_record (grant_store st) j = Some r"
  unfolding revoke_all_def by (induction reqs arbitrary: st) (auto dest: revoke_granted_back)

lemma distinct_snapshots:
  "distinct (map request_id qs) \<Longrightarrow>
     distinct (map fst (List.map_filter (\<lambda>q. map_option (\<lambda>r. (request_id q, state r)) (look (request_id q))) qs))"
proof (induction qs)
  case (Cons q qs)
  then show ?case by (cases "look (request_id q)") (auto simp: map_filter_def)
qed (simp add: map_filter_def)

context jit_admin begin

lemma revoke_mono:
  assumes "sup_inv elevated st" "calm tame c" "elevated (admin_os (do_revoke c i cause now st)) w"
  shows "elevated (admin_os st) w"
proof (cases "get_record (grant_store st) i")
  case (Some r)
  have ok: "rec_ok r" using get_rec_ok [OF assms(1) Some] by simp
  obtain res st1 where d: "drop_privilege c (revoke_faults (env c (calls st))) r (begin_call st) = (res, st1)"
    by fastforce
  have "admin_os (persist_and_announce c f z k r1 op x st1) = admin_os st1" for f z k r1 op x
    using persist_and_announce_store by blast
  then have "admin_os (do_revoke c i cause now st) \<in> {admin_os st, admin_os st1}"
    using Some d by (auto simp: do_revoke_def Let_def split: option.splits result.splits)
  then show ?thesis using assms(2,3) drop_privilege_spec(2) [OF d ok, of w] by (auto simp: calm_def)
qed (use assms in \<open>simp add: do_revoke_def Let_def\<close>)

lemma revoke_all_mono:
  "sup_inv elevated st \<Longrightarrow> calm tame c \<Longrightarrow> elevated (admin_os (revoke_all c reqs now st)) w \<Longrightarrow> elevated (admin_os st) w"
  unfolding revoke_all_def
proof (induction reqs arbitrary: st)
  case (Cons q qs)
  let ?st = "do_revoke c (request_id q) (RevocationRequest.why q) now st"
  have "elevated (admin_os ?st) w" using Cons.IH [of ?st] inv_revoke Cons.prems by simp
  then show ?case using revoke_mono Cons.prems by blast
qed simp

lemma inv_sweep:
  assumes "sup_inv elevated st" "calm tame c" "distinct (map fst xs)"
    and "\<And>i s. (i, s) \<in> set xs \<Longrightarrow> \<exists>r. get_record (grant_store st) i = Some r \<and> state r = s"
  shows "sup_inv elevated (fold (\<lambda>(i, s) st'. case s of Granted \<Rightarrow> do_revoke c i BootSweep now st'
     | Requested \<Rightarrow> do_expire c i now st' | Approved \<Rightarrow> do_expire c i now st' | _ \<Rightarrow> st') xs st)"
  using assms
proof (induction xs arbitrary: st)
  case (Cons x xs)
  obtain i s where x: "x = (i, s)" by fastforce
  let ?st = "case s of Granted \<Rightarrow> do_revoke c i BootSweep now st
     | Requested \<Rightarrow> do_expire c i now st | Approved \<Rightarrow> do_expire c i now st | _ \<Rightarrow> st"
  obtain r where r: "get_record (grant_store st) i = Some r" "state r = s" using Cons.prems(4) x by auto
  have "sup_inv elevated ?st"
    using Cons.prems(1,2) inv_revoke inv_expire [OF Cons.prems(1)] r by (cases s) auto
  moreover have "get_record (grant_store ?st) j = get_record (grant_store st) j" if "j \<noteq> i" for j
    using revoke_get_other [OF that] expire_get_other [OF that] by (cases s) auto
  moreover have "j \<noteq> i" if "(j, t) \<in> set xs" for j t using Cons.prems(3) x that by force
  ultimately show ?case using Cons.IH [of ?st] Cons.prems x by simp
qed simp

lemma inv_boot_sweep:
  assumes "sup_inv elevated st" "calm tame c"
  shows "sup_inv elevated (boot_sweep c now st)"
  unfolding boot_sweep_def Let_def
proof (rule inv_sweep [OF assms distinct_snapshots])
  show "distinct (map request_id (boot_sweep_requests (GrantStore.records (grant_store st)) now))"
    using assms by (simp add: sup_inv_def ids_def boot_sweep_requests_def comp_def distinct_map_filter)
qed (auto simp: map_filter_def)

end

definition always_drops :: "('f \<Rightarrow> bool) \<Rightarrow> ('f, 'o) jit_ctx \<Rightarrow> bool" where
  "always_drops drops c \<longleftrightarrow> (\<forall>n. drops (revoke_faults (env c n)))"

text \<open>When the operating system drops the privilege on every call, a revocation round is final.\<close>

locale jit_admin_reliable = jit_admin c elevated tame +
  reliable_admin_manager "grant_op c" "revoke_op c" elevated "is_already_revoked (std_fns c)" tame drops
  for c :: "('f, 'o) jit_ctx" and elevated tame drops
begin

lemma revoke_final:
  assumes "sup_inv elevated st" "get_record (grant_store st) i = Some r" "state r = Granted" "always_drops drops c"
  shows "\<not> elevated (admin_os (do_revoke c i cause now st)) (UserRef.username (GrantRecord.user r))"
proof -
  let ?f = "revoke_faults (env c (calls st))"
  obtain h where h: "handle r = Some h" "GrantHandle.user h = GrantRecord.user r"
    using get_rec_ok [OF assms(1,2)] assms(3) by (auto simp: rec_ok_def handle_inv_def)
  obtain ans o' where t: "revoke_op c ?f h (admin_os st) = (ans, o')" by fastforce
  obtain res st1 where d: "drop_privilege c ?f r (begin_call st) = (res, st1)" by fastforce
  have "admin_os st1 = o'" using d t h by (auto simp: drop_privilege_def split: result.splits)
  moreover have "admin_os (persist_and_announce c f z k r1 op x st1) = admin_os st1" for f z k r1 op x
    using persist_and_announce_store [of c f z k r1 op x st1] by blast
  ultimately have "admin_os (do_revoke c i cause now st) = o'"
    using assms(2,3) d by (auto simp: do_revoke_def Let_def is_terminal_def split: option.splits result.splits)
  then show ?thesis using take_back_drops [OF t] assms(4) h by (simp add: always_drops_def)
qed

lemma revoke_all_final:
  assumes "sup_inv elevated st" "get_record (grant_store st) i = Some r" "state r = Granted" "i \<in> request_id ` set reqs"
    and "calm tame c" "always_drops drops c"
  shows "\<not> elevated (admin_os (revoke_all c reqs now st)) (UserRef.username (GrantRecord.user r))"
  using assms
proof (induction reqs arbitrary: st)
  case (Cons q qs)
  let ?st = "do_revoke c (request_id q) (RevocationRequest.why q) now st"
  have split: "revoke_all c (q # qs) now st = revoke_all c qs now ?st" by (simp add: revoke_all_def)
  have inv: "sup_inv elevated ?st" using Cons.prems(1,5) by (rule inv_revoke)
  show ?case
  proof (cases "request_id q = i")
    case True
    have "\<not> elevated (admin_os ?st) (UserRef.username (GrantRecord.user r))"
      using revoke_final [OF Cons.prems(1-3,6)] True by simp
    then show ?thesis using revoke_all_mono [OF inv Cons.prems(5)] split by auto
  next
    case False
    then have "get_record (grant_store ?st) i = Some r" "i \<in> request_id ` set qs"
      using Cons.prems(2,4) revoke_get_other [of i "request_id q" c "RevocationRequest.why q" now st] by auto
    then show ?thesis using Cons.IH [OF inv _ Cons.prems(3)] Cons.prems(5,6) split by simp
  qed
qed simp

lemma revoke_all_elevated:
  assumes "sup_inv elevated st" "elevated (admin_os (revoke_all c reqs now st)) w"
    and "calm tame c" "always_drops drops c"
  shows "\<exists>r \<in> set (GrantStore.records (grant_store (revoke_all c reqs now st))).
    state r = Granted \<and> UserRef.username (GrantRecord.user r) = w \<and>
    r \<in> set (GrantStore.records (grant_store st)) \<and> grant_id r \<notin> request_id ` set reqs"
proof -
  let ?st = "revoke_all c reqs now st"
  have inv: "sup_inv elevated ?st" using inv_revoke_all [OF assms(1,3)] .
  then obtain r where r: "r \<in> set (GrantStore.records (grant_store ?st))" "state r = Granted"
    "UserRef.username (GrantRecord.user r) = w"
    using assms(2) by (auto simp: sup_inv_def tracked_def)
  have "get_record (grant_store ?st) (grant_id r) = Some r"
    using get_record_member inv r(1) by (simp add: sup_inv_def)
  then have old: "get_record (grant_store st) (grant_id r) = Some r"
    using revoke_all_granted_back r(2) by blast
  then have "grant_id r \<notin> request_id ` set reqs"
    using revoke_all_final [OF assms(1) old r(2) _ assms(3,4)] assms(2) r(3) by auto
  then show ?thesis using r get_record_Some [OF old] by blast
qed

lemma tick_deadline:
  assumes "sup_inv elevated st" "elevated (admin_os (watchdog_tick c now st)) w"
    and "calm tame c" "always_drops drops c"
  shows "\<exists>r \<in> set (GrantStore.records (grant_store (watchdog_tick c now st))).
    state r = Granted \<and> UserRef.username (GrantRecord.user r) = w \<and> now < GrantRecord.until r"
proof -
  let ?rs = "GrantStore.records (grant_store st)"
  let ?qs = "timer_revocations ?rs now @ heartbeat_revocations ?rs (last_heartbeat st) now (wd_cfg c)"
  obtain r where r: "r \<in> set (GrantStore.records (grant_store (watchdog_tick c now st)))" "state r = Granted"
    "UserRef.username (GrantRecord.user r) = w" "r \<in> set ?rs" "grant_id r \<notin> request_id ` set ?qs"
    using revoke_all_elevated [OF assms(1) _ assms(3,4), of ?qs now w] assms(2) unfolding watchdog_tick_def Let_def by blast
  have "now < GrantRecord.until r"
  proof (rule ccontr)
    assume "\<not> now < GrantRecord.until r"
    then have "r \<in> set (filter (\<lambda>r. is_overdue r now) ?rs)"
      using r by (simp add: is_overdue_def is_active_def)
    then show False using r(5) by (force simp: timer_revocations_def)
  qed
  then show ?thesis using r by blast
qed

lemma tick_heartbeat:
  assumes "sup_inv elevated st" "calm tame c" "always_drops drops c" "last_heartbeat st = Some t"
    and "num_seconds (now - t) \<ge> as_i64_cast (heartbeat_loss_secs (wd_cfg c))"
  shows "\<not> elevated (admin_os (watchdog_tick c now st)) w"
proof
  let ?rs = "GrantStore.records (grant_store st)"
  let ?qs = "timer_revocations ?rs now @ heartbeat_revocations ?rs (last_heartbeat st) now (wd_cfg c)"
  assume "elevated (admin_os (watchdog_tick c now st)) w"
  then obtain r where r: "state r = Granted" "r \<in> set ?rs" "grant_id r \<notin> request_id ` set ?qs"
    using revoke_all_elevated [OF assms(1) _ assms(2,3), of ?qs now w] unfolding watchdog_tick_def Let_def by blast
  then show False using assms(4,5) by (force simp: heartbeat_revocations_def is_active_def)
qed

lemma power_revokes_all:
  assumes "sup_inv elevated st" "calm tame c" "always_drops drops c"
  shows "\<not> elevated (admin_os (handle_request c now (PowerTransition reason) st)) w"
proof
  assume "elevated (admin_os (handle_request c now (PowerTransition reason) st)) w"
  then obtain r where r: "state r = Granted" "r \<in> set (GrantStore.records (grant_store st))"
    "grant_id r \<notin> request_id ` set (power_revocations (GrantStore.records (grant_store st)) reason)"
    using revoke_all_elevated [OF assms(1) _ assms(2,3), of "power_revocations (GrantStore.records (grant_store st)) reason" now w] by auto
  then show False by (force simp: power_revocations_def is_active_def)
qed

end

section \<open>On Linux\<close>

definition linux_jit ::
  "LinuxAdminManager \<Rightarrow> (datetime \<Rightarrow> string) \<Rightarrow> store_serde \<Rightarrow> (nat \<Rightarrow> linux_faults jit_call) \<Rightarrow> JitAdminConfig \<Rightarrow>
     (linux_faults, linux_os) jit_ctx" where
  "linux_jit m fmt sd en cfg = configured \<lparr>grant_op = grant_admin m, revoke_op = revoke_admin m, std_fns = text_fns m,
     time_fmt = fmt, store_fns = sd, wd_cfg = from_secs 0, drift_detector = detector_new, env = en\<rparr> cfg"

lemma linux_jit_simps [simp]:
  "grant_op (linux_jit m fmt sd en cfg) = grant_admin m" "revoke_op (linux_jit m fmt sd en cfg) = revoke_admin m"
  "std_fns (linux_jit m fmt sd en cfg) = text_fns m" "env (linux_jit m fmt sd en cfg) = en"
  "store_fns (linux_jit m fmt sd en cfg) = sd" "configured (linux_jit m fmt sd en cfg) cfg = linux_jit m fmt sd en cfg"
  "wd_cfg (linux_jit m fmt sd en cfg) = from_secs (cfg_heartbeat_loss_secs cfg)"
  by (simp_all add: linux_jit_def configured_def)

interpretation jit_linux: jit_admin "linux_jit m fmt sd en cfg" sudo_elevated "linux_tame (text_fns m)"
  for m fmt sd en cfg
  unfolding jit_admin_def by (simp add: linux.admin_manager_axioms)

interpretation jit_linux_reliable: jit_admin_reliable "linux_jit m fmt sd en cfg" sudo_elevated
  "linux_tame (text_fns m)" linux_drops for m fmt sd en cfg
  unfolding jit_admin_reliable_def jit_admin_def
  by (simp add: linux.admin_manager_axioms linux_reliable.reliable_admin_manager_axioms)

section \<open>Properties\<close>


text \<open>
  C9: the time limit is enforced. When the invariant holds and the operating system removes
  drop-ins when asked, then after a watchdog tick at time \<open>now\<close> everybody who still has a drop-in
  has a granted record whose deadline lies after \<open>now\<close>; a failing ledger file does not matter.
\<close>

theorem watchdog_enforces_deadline:
  assumes "sup_inv sudo_elevated st"
    and "calm (linux_tame (text_fns m)) (linux_jit m fmt sd en cfg)"
    and "always_drops linux_drops (linux_jit m fmt sd en cfg)"
    and "sudo_elevated (admin_os (watchdog_tick (linux_jit m fmt sd en cfg) now st)) w"
  shows "\<exists>r \<in> set (GrantStore.records (grant_store (watchdog_tick (linux_jit m fmt sd en cfg) now st))).
    state r = Granted \<and> UserRef.username (GrantRecord.user r) = w \<and> now < GrantRecord.until r"
  using jit_linux_reliable.tick_deadline [OF assms(1,4,2,3)] .


text \<open>A machine on which one user is elevated and tracked.\<close>

definition sample_call :: "linux_faults jit_call" where
  "sample_call = \<lparr>grant_clock = 3, first_stamp = (''e1'', 3), second_stamp = (''e2'', 3), third_stamp = (''e3'', 3),
     first_flush = None, second_flush = None, grant_faults = sample_faults, revoke_faults = sample_faults,
     drift_ids = (\<lambda>n. (''f'', ''e'')), admin_list = Ok []\<rparr>"

definition sample_config :: JitAdminConfig where
  "sample_config = \<lparr>enabled = True, cfg_state_path = None, cfg_heartbeat_loss_secs = 120, cfg_drift_check_interval_secs = 300\<rparr>"

definition sample_jit :: "(linux_faults, linux_os) jit_ctx" where
  "sample_jit = linux_jit sample_manager int_str sample_serde (\<lambda>n. sample_call) sample_config"

definition sample_os :: linux_os where
  "sample_os = \<lparr>sudoers = [''sda-jit-ada'' \<mapsto> ''rule''], state_file = None\<rparr>"

definition sample_supervisor :: "linux_os supervisor" where
  "sample_supervisor = (initial \<lparr>path = ''l'', records = [sample_granted]\<rparr> Map.empty sample_os)\<lparr>last_heartbeat := Some 0\<rparr>"

lemma sample_calm: "calm (linux_tame (text_fns sample_manager)) sample_jit" "always_drops linux_drops sample_jit"
  by (simp_all add: calm_def always_drops_def sample_jit_def linux_tame_def linux_drops_def sample_call_def sample_faults_def)

lemma sample_elevated: "sudo_elevated sample_os w \<longleftrightarrow> w = ''ada''"
  by (auto simp: sudo_elevated_def sample_os_def drop_in_path_def)

lemma sample_inv: "sup_inv sudo_elevated sample_supervisor"
  by (auto simp: sup_inv_def sample_supervisor_def initial_def ids_def rec_ok_def handle_inv_def sample_granted_def
      new_requested_def sample_handle_def sample_elevated tracked_def sample_user_def)


theorem watchdog_enforces_deadline_witness:
  "sudo_elevated (admin_os (watchdog_tick sample_jit 50 sample_supervisor)) ''ada'' \<and>
   (\<exists>r \<in> set (GrantStore.records (grant_store (watchdog_tick sample_jit 50 sample_supervisor))).
      state r = Granted \<and> UserRef.username (GrantRecord.user r) = ''ada'' \<and> 50 < GrantRecord.until r)"
proof -
  have "watchdog_tick sample_jit 50 sample_supervisor = sample_supervisor"
    by (simp add: watchdog_tick_def Let_def revoke_all_def timer_revocations_def heartbeat_revocations_def
        sample_supervisor_def initial_def sample_granted_def new_requested_def is_overdue_def is_active_def
        sample_jit_def sample_config_def from_secs_def num_seconds_def as_i64_cast_def)
  then have e: "sudo_elevated (admin_os (watchdog_tick sample_jit 50 sample_supervisor)) ''ada''"
    by (simp add: sample_supervisor_def initial_def sample_elevated)
  show ?thesis
    using watchdog_enforces_deadline [OF sample_inv sample_calm [unfolded sample_jit_def] e [unfolded sample_jit_def]] e
    unfolding sample_jit_def by blast
qed


text \<open>
  A failed revocation stays retryable. When the operating system reports an error that does not
  mean "already revoked", the ledger in memory and on disk is untouched, the record is still
  granted, so a due record is in the next tick's list again, and one failure record goes out.
\<close>

theorem failed_revoke_retryable:
  assumes "get_record (grant_store st) i = Some r" "state r = Granted" "handle r = Some h"
    and "revoke_op c (revoke_faults (env c (calls st))) h (admin_os st) = (Err e, o')"
    and "\<not> is_already_revoked (std_fns c) e" and "GrantRecord.until r \<le> now'"
  shows "grant_store (do_revoke c i cause now st) = grant_store st \<and>
    ledger_disk (do_revoke c i cause now st) = ledger_disk st \<and>
    \<lparr>request_id = i, why = Timer\<rparr> \<in> set (timer_revocations (GrantStore.records (grant_store (do_revoke c i cause now st))) now') \<and>
    sent (do_revoke c i cause now st) = sent st @
      [EvidenceEvent (evidence_failure (first_stamp (env c (calls st))) r ''revoke_admin'' e)]"
proof -
  have "do_revoke c i cause now st = emit_event
      (EvidenceEvent (evidence_failure (first_stamp (env c (calls st))) r ''revoke_admin'' e)) ((begin_call st)\<lparr>admin_os := o'\<rparr>)"
    using assms(1-5) by (simp add: do_revoke_def drop_privilege_def is_terminal_def Let_def begin_call_def)
  moreover have "r \<in> set (filter (\<lambda>r. is_overdue r now') (GrantStore.records (grant_store st)))" "grant_id r = i"
    using get_record_Some [OF assms(1)] assms(2,6) by (simp_all add: is_overdue_def is_active_def)
  ultimately show ?thesis by (auto simp: emit_event_def begin_call_def timer_revocations_def)
qed

theorem failed_revoke_retryable_witness:
  "\<exists>c :: (nat, nat) jit_ctx. \<exists>st. get_record (grant_store st) ''g1'' = Some sample_granted \<and>
     grant_store (do_revoke c ''g1'' Timer 200 st) = grant_store st \<and>
     \<lparr>request_id = ''g1'', why = Timer\<rparr> \<in>
       set (timer_revocations (GrantStore.records (grant_store (do_revoke c ''g1'' Timer 200 st))) 201)"
proof -
  define c :: "(nat, nat) jit_ctx" where
    "c = \<lparr>grant_op = (\<lambda>_ _ _ n. (Err NotImplemented, n)), revoke_op = (\<lambda>_ _ n. (Err NotImplemented, n)), std_fns = sample_text,
       time_fmt = int_str, store_fns = sample_serde, wd_cfg = from_secs 1, drift_detector = detector_new,
       env = (\<lambda>n. \<lparr>grant_clock = 3, first_stamp = (''e1'', 3), second_stamp = (''e2'', 3), third_stamp = (''e3'', 3),
         first_flush = None, second_flush = None, grant_faults = 0, revoke_faults = 0,
         drift_ids = (\<lambda>n. (''f'', ''e'')), admin_list = Ok []\<rparr>)\<rparr>"
  define st :: "nat supervisor" where "st = initial \<lparr>path = ''l'', records = [sample_granted]\<rparr> Map.empty 0"
  have g: "get_record (grant_store st) ''g1'' = Some sample_granted"
    by (simp add: st_def initial_def get_record_def sample_granted_def new_requested_def)
  have "\<not> is_already_revoked sample_text NotImplemented" by code_simp
  then show ?thesis
    using failed_revoke_retryable [OF g, of sample_handle c NotImplemented "admin_os st" 201 Timer 200] g
    by (auto simp: c_def sample_granted_def new_requested_def)
qed

text \<open>
  A reused id loses track of a privilege. From a state where the invariant holds, one new request
  with the id of a granted record, with nothing failing, overwrites that record: the user keeps the
  drop-in, no granted record remains, and no tick removes it any more.
\<close>

theorem reused_id_orphans_privilege:
  "sup_inv sudo_elevated sample_supervisor \<and>
   (let st = do_new_request sample_jit ''g1'' ''op'' \<lparr>UserRef.username = ''bob'', domain = None\<rparr> 500 60 sample_supervisor
    in sudo_elevated (admin_os st) ''ada'' \<and> \<not> tracked st ''ada'' \<and>
       (\<forall>now. sudo_elevated (admin_os (watchdog_tick sample_jit now st)) ''ada''))"
proof -
  define st where "st = do_new_request sample_jit ''g1'' ''op'' \<lparr>UserRef.username = ''bob'', domain = None\<rparr> 500 60 sample_supervisor"
  obtain r where r: "grant_store st = put_record r (grant_store sample_supervisor)" "admin_os st = sample_os"
    "grant_id r = ''g1''" "state r = Requested"
    using persist_and_announce_store [of sample_jit _ _ JitAdminRequested
        "new_requested ''g1'' ''op'' \<lparr>UserRef.username = ''bob'', domain = None\<rparr> 500 60" "''request_received''" None "begin_call sample_supervisor"]
    by (fastforce simp: st_def do_new_request_def Let_def new_requested_def sample_supervisor_def initial_def)
  have recs: "GrantStore.records (grant_store st) = [r]"
    using r(1,3) by (simp add: put_record_def sample_supervisor_def initial_def sample_granted_def new_requested_def)
  have "watchdog_tick sample_jit now st = st" for now
    using recs r(4) by (simp add: watchdog_tick_def Let_def revoke_all_def timer_revocations_def heartbeat_revocations_def
        is_overdue_def is_active_def split: option.splits)
  then show ?thesis
    using sample_inv recs r(2,4) by (simp add: st_def [symmetric] sample_elevated tracked_def)
qed

end
