(* ===== verification/WordBytes.thy ===== *)
theory WordBytes
  imports Prelude "HOL-Library.Word"
begin

unbundle bit_operations_syntax

text \<open>
  Machine words as bytes, shared by the cipher and the wire formats: the conversions of the
  standard library, and that each undoes the other.
\<close>

type_synonym u8 = "8 word"
type_synonym u16 = "16 word"
type_synonym u32 = "32 word"
type_synonym u64 = "64 word"

section \<open>Words and bytes\<close>

definition byte_word :: "char \<Rightarrow> u32" where
  "byte_word c = of_nat (of_char c)"

text \<open>\<open>u32::from_be_bytes\<close> and \<open>to_be_bytes\<close>.\<close>

fun from_be_bytes :: "bytes \<Rightarrow> u32" where
  "from_be_bytes [a, b, c, d] =
     of_nat (of_char a * 2 ^ 24 + of_char b * 2 ^ 16 + of_char c * 2 ^ 8 + of_char d)"
| "from_be_bytes _ = 0"

definition to_be_bytes :: "u32 \<Rightarrow> bytes" where
  "to_be_bytes w = [char_of (unat w div 2 ^ 24), char_of (unat w div 2 ^ 16), char_of (unat w div 2 ^ 8), char_of (unat w)]"

definition xor_byte :: "char \<Rightarrow> char \<Rightarrow> char" where
  "xor_byte a b = char_of (of_char a XOR of_char b :: nat)"

section \<open>Words and bytes are faithful\<close>

lemma of_char_less [simp]: "(of_char c :: nat) < 256"
  using nat_of_char_less_256 by simp

text \<open>The value of four big-endian digits, in Horner form.\<close>

definition be_value :: "nat \<Rightarrow> nat \<Rightarrow> nat \<Rightarrow> nat \<Rightarrow> nat" where
  "be_value a b c d = ((a * 256 + b) * 256 + c) * 256 + d"

lemma div_digit: "d < 256 \<Longrightarrow> (x * 256 + d) div 256 = (x :: nat)" "d < 256 \<Longrightarrow> (x * 256 + d) mod 256 = (d :: nat)"
  by simp_all

lemma div_bytes: "n div 65536 = n div 256 div (256 :: nat)" "n div 16777216 = n div 256 div 256 div (256 :: nat)"
  by (simp_all add: div_mult2_eq [symmetric])

lemma be_value_digits:
  assumes "a < 256" "b < 256" "c < 256" "d < 256"
  shows "be_value a b c d div 16777216 mod 256 = a" "be_value a b c d div 65536 mod 256 = b"
    "be_value a b c d div 256 mod 256 = c" "be_value a b c d mod 256 = d" "be_value a b c d < 4294967296"
  using assms by (simp_all only: be_value_def div_bytes div_digit) simp_all

lemma be_value_split:
  assumes "n < 4294967296"
  shows "be_value (n div 16777216 mod 256) (n div 65536 mod 256) (n div 256 mod 256) (n mod 256) = n"
proof -
  have "n div 256 div 256 div 256 < 256" using assms by (simp add: div_mult2_eq [symmetric] less_mult_imp_div_less)
  then show ?thesis by (simp only: be_value_def div_bytes mod_less div_mult_mod_eq)
qed

lemma from_be_bytes_value: "from_be_bytes [w, x, y, z] = of_nat (be_value (of_char w) (of_char x) (of_char y) (of_char z))"
  by (simp add: be_value_def algebra_simps)

lemma unat_be_value: "n < 4294967296 \<Longrightarrow> unat (of_nat n :: u32) = n"
  by (simp add: unsigned_of_nat take_bit_nat_eq_self)

lemma char_of_eqI: "n mod 256 = of_char c \<Longrightarrow> char_of (n :: nat) = c"
  by (metis char_of_char char_of_mod_256)

lemma to_from_be_bytes:
  assumes "length b = 4"
  shows "to_be_bytes (from_be_bytes b) = b"
proof -
  obtain w x y z where b: "b = [w, x, y, z]" using assms by (auto simp: length_Suc_conv numeral_eq_Suc)
  let ?v = "be_value (of_char w) (of_char x) (of_char y) (of_char z)"
  note dig = be_value_digits [of "of_char w" "of_char x" "of_char y" "of_char z", OF of_char_less of_char_less of_char_less of_char_less]
  have "unat (from_be_bytes b) = ?v" by (simp only: b from_be_bytes_value unat_be_value [OF dig(5)])
  moreover have "char_of (?v div 16777216) = w" "char_of (?v div 65536) = x" "char_of (?v div 256) = y" "char_of ?v = z"
    using dig by (auto intro!: char_of_eqI)
  ultimately show ?thesis by (simp add: to_be_bytes_def b del: from_be_bytes.simps)
qed

lemma from_to_be_bytes: "from_be_bytes (to_be_bytes w) = w"
proof -
  have "unat w < 4294967296" using unsigned_less [of w] by simp
  from be_value_split [OF this] show ?thesis
    by (simp add: to_be_bytes_def from_be_bytes_value del: from_be_bytes.simps)
qed

lemma length_to_be_bytes [simp]: "length (to_be_bytes w) = 4"
  by (simp add: to_be_bytes_def)

lemma unat_byte_roundtrip: "of_nat (unat (b :: u8) mod 256) = b"
proof -
  have "unat b < 2 ^ LENGTH(8)" by (rule unsigned_less)
  then show ?thesis by simp
qed

lemma xor_bytes_less:
  assumes "a < 256" "b < 256"
  shows "(a XOR b :: nat) < 256"
proof -
  have "take_bit 8 (a XOR b) = a XOR b" using assms by (simp add: take_bit_xor take_bit_nat_eq_self)
  then show ?thesis using take_bit_nat_less_exp [of 8 "a XOR b"] by simp
qed

lemma xor_byte_cancel [simp]: "xor_byte (xor_byte a b) b = a"
  using xor_bytes_less [of "of_char a" "of_char b"] by (simp add: xor_byte_def xor.assoc)

lemma map2_xor_cancel: "length a = length b \<Longrightarrow> map2 xor_byte (map2 xor_byte a b) b = a"
  by (induction a b rule: list_induct2) simp_all

end
