(* ===== verification/Blowfish.thy ===== *)
theory Blowfish
  imports BlowfishTables
begin

unbundle bit_operations_syntax

text \<open>
  The Blowfish cipher of \<open>crates/sda-comms/src/blowfish_wazuh.rs\<close>: key schedule, the 16 Feistel
  rounds, blocks of eight bytes and cipher block chaining with the fixed initial vector. The lemmas
  show that decryption inverts encryption for every cipher state, block by block and chained, and
  that the key schedule keeps the table sizes, so no index is out of range.
\<close>

section \<open>The cipher\<close>

record Blowfish =
  bf_p :: "u32 list"
  bf_s :: "u32 list list"

definition bf_f :: "Blowfish \<Rightarrow> u32 \<Rightarrow> u32" where
  "bf_f bf x =
     (let a = bf_s bf ! 0 ! unat (drop_bit 24 x);
          b = bf_s bf ! 1 ! unat (drop_bit 16 x AND 0xFF);
          c = bf_s bf ! 2 ! unat (drop_bit 8 x AND 0xFF);
          d = bf_s bf ! 3 ! unat (x AND 0xFF)
      in ((a + b) XOR c) + d)"

text \<open>One pass of the loop: mix in a subkey, apply the round function, swap the halves.\<close>

definition bf_round :: "Blowfish \<Rightarrow> nat \<Rightarrow> u32 \<times> u32 \<Rightarrow> u32 \<times> u32" where
  "bf_round bf i = (\<lambda>(xl, xr).
     let xl = xl XOR bf_p bf ! i; xr = xr XOR bf_f bf xl in (xr, xl))"

definition encrypt_pair :: "Blowfish \<Rightarrow> u32 \<times> u32 \<Rightarrow> u32 \<times> u32" where
  "encrypt_pair bf lr =
     (case fold (bf_round bf) [0..<16] lr of (xl, xr) \<Rightarrow>
        let (xl, xr) = (xr, xl) in (xl XOR bf_p bf ! 17, xr XOR bf_p bf ! 16))"

definition decrypt_pair :: "Blowfish \<Rightarrow> u32 \<times> u32 \<Rightarrow> u32 \<times> u32" where
  "decrypt_pair bf lr =
     (case fold (bf_round bf) (rev [2..<18]) lr of (xl, xr) \<Rightarrow>
        let (xl, xr) = (xr, xl) in (xl XOR bf_p bf ! 0, xr XOR bf_p bf ! 1))"

text \<open>\<open>new\<close>: the key bytes are taken cyclically, four per subkey.\<close>

definition key_word :: "bytes \<Rightarrow> nat \<Rightarrow> u32" where
  "key_word key i =
     fold (\<lambda>j w. push_bit 8 w OR byte_word (key ! (j mod length key))) [4 * i..<4 * i + 4] 0"

definition mix_key :: "bytes \<Rightarrow> Blowfish \<Rightarrow> Blowfish" where
  "mix_key key bf = fold (\<lambda>i bf. bf\<lparr>bf_p := (bf_p bf)[i := bf_p bf ! i XOR key_word key i]\<rparr>) [0..<18] bf"

definition expand_p :: "nat \<Rightarrow> Blowfish \<times> u32 \<times> u32 \<Rightarrow> Blowfish \<times> u32 \<times> u32" where
  "expand_p i = (\<lambda>(bf, lr). let (l, r) = encrypt_pair bf lr
     in (bf\<lparr>bf_p := (bf_p bf)[i := l, i + 1 := r]\<rparr>, l, r))"

definition expand_s :: "nat \<times> nat \<Rightarrow> Blowfish \<times> u32 \<times> u32 \<Rightarrow> Blowfish \<times> u32 \<times> u32" where
  "expand_s = (\<lambda>(i, k) (bf, lr). let (l, r) = encrypt_pair bf lr
     in (bf\<lparr>bf_s := (bf_s bf)[i := (bf_s bf ! i)[k := l, k + 1 := r]]\<rparr>, l, r))"

definition blowfish_new :: "bytes \<Rightarrow> Blowfish run" where
  "blowfish_new key =
     (if 4 \<le> length key \<and> length key \<le> 72 then
        (let bf = mix_key key \<lparr>bf_p = INITIAL_P, bf_s = INITIAL_S\<rparr>;
             st = fold expand_p (map ((*) 2) [0..<9]) (bf, 0, 0);
             st = fold expand_s (List.product [0..<4] (map ((*) 2) [0..<128])) st
         in Ret (fst st))
      else Panic)"

definition encrypt_block :: "Blowfish \<Rightarrow> bytes \<Rightarrow> bytes" where
  "encrypt_block bf b =
     (let (l, r) = encrypt_pair bf (from_be_bytes (take 4 b), from_be_bytes (take 4 (drop 4 b)))
      in to_be_bytes l @ to_be_bytes r)"

definition decrypt_block :: "Blowfish \<Rightarrow> bytes \<Rightarrow> bytes" where
  "decrypt_block bf b =
     (let (l, r) = decrypt_pair bf (from_be_bytes (take 4 b), from_be_bytes (take 4 (drop 4 b)))
      in to_be_bytes l @ to_be_bytes r)"

section \<open>Cipher block chaining\<close>

definition WAZUH_BF_IV :: bytes where
  "WAZUH_BF_IV = [CHR 0xFE, CHR 0xDC, CHR 0xBA, CHR 0x98, CHR 0x76, CHR 0x54, CHR 0x32, CHR 0x10]"

text \<open>\<open>chunks_exact(8)\<close>.\<close>

fun chunks8 :: "bytes \<Rightarrow> bytes list" where
  "chunks8 bs = (if length bs < 8 then [] else take 8 bs # chunks8 (drop 8 bs))"

declare chunks8.simps [simp del]

fun cbc_encrypt :: "Blowfish \<Rightarrow> bytes \<Rightarrow> bytes list \<Rightarrow> bytes" where
  "cbc_encrypt bf prev [] = []"
| "cbc_encrypt bf prev (b # bs) = (let c = encrypt_block bf (map2 xor_byte b prev) in c @ cbc_encrypt bf c bs)"

fun cbc_decrypt :: "Blowfish \<Rightarrow> bytes \<Rightarrow> bytes list \<Rightarrow> bytes" where
  "cbc_decrypt bf prev [] = []"
| "cbc_decrypt bf prev (c # cs) = map2 xor_byte (decrypt_block bf c) prev @ cbc_decrypt bf c cs"

definition bf_cbc_encrypt :: "Blowfish \<Rightarrow> bytes \<Rightarrow> bytes" where
  "bf_cbc_encrypt bf plaintext =
     (let padded_len = 8 * ((length plaintext + 7) div 8)
      in cbc_encrypt bf WAZUH_BF_IV (chunks8 (plaintext @ replicate (padded_len - length plaintext) CHR 0x00)))"

definition bf_cbc_decrypt :: "Blowfish \<Rightarrow> bytes \<Rightarrow> bytes" where
  "bf_cbc_decrypt bf ciphertext =
     (if ciphertext = [] \<or> length ciphertext mod 8 \<noteq> 0 then []
      else cbc_decrypt bf WAZUH_BF_IV (chunks8 ciphertext))"

section \<open>Decryption undoes encryption\<close>

text \<open>The Feistel ladder, run backwards: after \<open>k\<close> decryption rounds the state is what the
  encryption had after \<open>16 - k\<close> rounds, with the halves swapped and the next two subkeys mixed in.\<close>

lemma bf_round_back:
  "bf_round bf i (snd (bf_round bf j x) XOR bf_p bf ! i, fst (bf_round bf j x) XOR k)
     = (snd x XOR k, fst x XOR bf_p bf ! j)"
  by (simp add: bf_round_def Let_def split_beta xor.assoc xor.left_commute)

lemma decrypt_ladder:
  assumes "n \<le> 16"
  shows "fold (bf_round bf) (rev [18 - n..<18]) (encrypt_pair bf x) =
     (snd (fold (bf_round bf) [0..<16 - n] x) XOR bf_p bf ! (17 - n),
      fst (fold (bf_round bf) [0..<16 - n] x) XOR bf_p bf ! (16 - n))"
  using assms
proof (induction n)
  case 0
  then show ?case by (simp add: encrypt_pair_def split_beta)
next
  case (Suc n)
  let ?e = "\<lambda>m. fold (bf_round bf) [0..<m] x"
  have up: "rev [18 - Suc n..<18] = rev [18 - n..<18] @ [17 - n]"
    using Suc.prems upt_conv_Cons [of "17 - n" 18] by (simp add: Suc_diff_le [symmetric])
  have e: "?e (16 - n) = bf_round bf (15 - n) (?e (15 - n))"
    using Suc.prems upt_Suc_append [of 0 "15 - n"] by (simp add: Suc_diff_le [symmetric])
  have "fold (bf_round bf) (rev [18 - Suc n..<18]) (encrypt_pair bf x) =
      bf_round bf (17 - n) (snd (?e (16 - n)) XOR bf_p bf ! (17 - n), fst (?e (16 - n)) XOR bf_p bf ! (16 - n))"
    using Suc by (simp only: up fold_append comp_def) simp
  then show ?case by (simp only: e bf_round_back) simp
qed

theorem decrypt_encrypt_pair: "decrypt_pair bf (encrypt_pair bf x) = x"
proof -
  have "fold (bf_round bf) (rev [2..<18]) (encrypt_pair bf x) = (snd x XOR bf_p bf ! 1, fst x XOR bf_p bf ! 0)"
    using decrypt_ladder [of 16 bf x] by (simp del: upt_rec_numeral)
  then show ?thesis by (simp add: decrypt_pair_def xor.assoc del: upt_rec_numeral)
qed

lemma length_encrypt_block [simp]: "length (encrypt_block bf b) = 8"
  by (simp add: encrypt_block_def split_beta)

lemma length_decrypt_block [simp]: "length (decrypt_block bf b) = 8"
  by (simp add: decrypt_block_def split_beta)

lemma decrypt_encrypt_block: "length b = 8 \<Longrightarrow> decrypt_block bf (encrypt_block bf b) = b"
  using to_from_be_bytes [of "take 4 b"] to_from_be_bytes [of "take 4 (drop 4 b)"] append_take_drop_id [of 4 b]
  by (simp add: decrypt_block_def encrypt_block_def split_beta from_to_be_bytes decrypt_encrypt_pair)

section \<open>Chaining\<close>

lemma chunks8_length: "b \<in> set (chunks8 bs) \<Longrightarrow> length b = 8"
proof (induction bs rule: chunks8.induct)
  case (1 bs)
  then show ?case by (subst (asm) (2) chunks8.simps) (auto split: if_splits)
qed

lemma chunks8_append: "length b = 8 \<Longrightarrow> chunks8 (b @ bs) = b # chunks8 bs"
  by (subst chunks8.simps) simp

lemma concat_chunks8: "length bs mod 8 = 0 \<Longrightarrow> concat (chunks8 bs) = bs"
proof (induction bs rule: chunks8.induct)
  case (1 bs)
  show ?case
  proof (cases "length bs < 8")
    case True
    then show ?thesis using 1(2) by (subst chunks8.simps) simp
  next
    case False
    then have "concat (chunks8 (drop 8 bs)) = drop 8 bs" using 1 by (simp add: le_mod_geq)
    then show ?thesis using False by (subst chunks8.simps) simp
  qed
qed

lemma cbc_encrypt_length: "length (cbc_encrypt bf prev bs) = 8 * length bs"
  by (induction bs arbitrary: prev) (simp_all add: Let_def)

lemma length_chunks8: "length (chunks8 bs) = length bs div 8"
  by (induction bs rule: chunks8.induct) (subst chunks8.simps, simp add: le_div_geq)

lemma cbc_roundtrip:
  assumes "\<forall>b\<in>set bs. length b = 8" "length prev = 8"
  shows "cbc_decrypt bf prev (chunks8 (cbc_encrypt bf prev bs)) = concat bs"
  using assms
proof (induction bs arbitrary: prev)
  case Nil
  then show ?case by (simp add: chunks8.simps)
next
  case (Cons b bs)
  then show ?case by (simp add: Let_def chunks8_append decrypt_encrypt_block map2_xor_cancel)
qed

text \<open>\<open>zero_padded\<close> names the buffer \<open>bf_cbc_encrypt\<close> fills: the text, then zeros to the next multiple of eight.\<close>

definition zero_padded :: "bytes \<Rightarrow> bytes" where
  "zero_padded bs = bs @ replicate (8 * ((length bs + 7) div 8) - length bs) CHR 0x00"

lemma length_zero_padded: "length (zero_padded bs) = 8 * ((length bs + 7) div 8)"
  unfolding zero_padded_def by simp

lemma length_bf_cbc_encrypt: "length (bf_cbc_encrypt bf bs) = 8 * ((length bs + 7) div 8)"
  using length_zero_padded [of bs]
  by (simp add: bf_cbc_encrypt_def Let_def cbc_encrypt_length length_chunks8 flip: zero_padded_def)

theorem bf_cbc_roundtrip:
  assumes "bs \<noteq> []"
  shows "bf_cbc_decrypt bf (bf_cbc_encrypt bf bs) = zero_padded bs"
proof -
  have "0 < (length bs + 7) div 8" using assms by (cases bs) (simp_all add: div_greater_zero_iff)
  then have ne: "bf_cbc_encrypt bf bs \<noteq> []" "length (bf_cbc_encrypt bf bs) mod 8 = 0"
    using length_bf_cbc_encrypt [of bf bs] by auto
  have "\<forall>b\<in>set (chunks8 (zero_padded bs)). length b = 8" using chunks8_length by blast
  from cbc_roundtrip [OF this, of WAZUH_BF_IV bf] have "cbc_decrypt bf WAZUH_BF_IV (chunks8 (bf_cbc_encrypt bf bs)) = zero_padded bs"
    using concat_chunks8 [of "zero_padded bs"] length_zero_padded [of bs]
    by (simp add: bf_cbc_encrypt_def Let_def WAZUH_BF_IV_def flip: zero_padded_def)
  then show ?thesis using ne by (simp add: bf_cbc_decrypt_def)
qed

lemma length_cbc_decrypt: "\<forall>b\<in>set cs. length b = 8 \<Longrightarrow> length prev = 8 \<Longrightarrow> length (cbc_decrypt bf prev cs) = 8 * length cs"
  by (induction cs arbitrary: prev) simp_all

lemma bf_cbc_decrypt_empty_iff: "bf_cbc_decrypt bf cs = [] \<longleftrightarrow> cs = [] \<or> length cs mod 8 \<noteq> 0"
proof (cases "cs = [] \<or> length cs mod 8 \<noteq> 0")
  case False
  then have "8 \<le> length cs" by (cases cs; simp) presburger
  then have "0 < length (cbc_decrypt bf WAZUH_BF_IV (chunks8 cs))"
    using length_cbc_decrypt [of "chunks8 cs" WAZUH_BF_IV bf] chunks8_length [of _ cs]
    by (simp add: length_chunks8 WAZUH_BF_IV_def div_greater_zero_iff)
  then show ?thesis using False by (auto simp: bf_cbc_decrypt_def)
qed (auto simp: bf_cbc_decrypt_def)

section \<open>The key schedule\<close>

definition bf_ok :: "Blowfish \<Rightarrow> bool" where
  "bf_ok bf \<longleftrightarrow> length (bf_p bf) = 18 \<and> map length (bf_s bf) = replicate 4 256"

lemma fold_invariant: "(\<And>x s. P s \<Longrightarrow> P (f x s)) \<Longrightarrow> P s \<Longrightarrow> P (fold f xs s)"
  by (induction xs arbitrary: s) simp_all

lemma mix_key_ok: "bf_ok bf \<Longrightarrow> bf_ok (mix_key key bf)"
  unfolding mix_key_def by (rule fold_invariant) (simp_all add: bf_ok_def)

lemma expand_p_ok: "bf_ok (fst st) \<Longrightarrow> bf_ok (fst (expand_p i st))"
  by (simp add: expand_p_def split_beta bf_ok_def)

lemma map_length_update: "map length (xs[i := (xs ! i)[k := x, l := y]]) = map length xs"
  by (cases "i < length xs") (simp_all add: map_update list_update_same_conv list_update_beyond)

lemma expand_s_ok: "bf_ok (fst st) \<Longrightarrow> bf_ok (fst (expand_s ik st))"
  by (simp add: expand_s_def split_beta bf_ok_def map_length_update)

theorem blowfish_new_ok:
  "4 \<le> length key \<Longrightarrow> length key \<le> 72 \<Longrightarrow> \<exists>bf. blowfish_new key = Ret bf \<and> bf_ok bf"
proof -
  assume k: "4 \<le> length key" "length key \<le> 72"
  let ?P = "\<lambda>st. bf_ok (fst st)"
  have "bf_ok \<lparr>bf_p = INITIAL_P, bf_s = INITIAL_S\<rparr>"
    using length_INITIAL_S by (auto simp: bf_ok_def length_INITIAL_P list_eq_iff_nth_eq list_all_length)
  then have "?P (fold expand_s ss (fold expand_p ps (mix_key key \<lparr>bf_p = INITIAL_P, bf_s = INITIAL_S\<rparr>, 0, 0)))" for ss ps
    using mix_key_ok fold_invariant [of ?P expand_p] fold_invariant [of ?P expand_s] expand_p_ok expand_s_ok
    by simp
  then show ?thesis using k unfolding blowfish_new_def Let_def by (auto simp del: upt_rec_numeral)
qed

lemma blowfish_new_panics: "blowfish_new key = Panic \<longleftrightarrow> length key < 4 \<or> 72 < length key"
  by (auto simp: blowfish_new_def Let_def)

end
