(* ===== verification/WazuhCipher.thy ===== *)
theory WazuhCipher
  imports Utf8 Blowfish "HOL-Library.Sublist"
begin

text \<open>
  \<open>sda-comms/src/crypto.rs\<close>: the cipher of the Wazuh secure channel. Key derivation, message
  framing (random prefix, counters, MD5, zlib, padding) and the two block ciphers. MD5, zlib and
  AES-CBC come from other crates and are fields of \<open>cipher_ext\<close>; what is relied on of them is
  stated by \<open>md5_laws\<close>, \<open>zlib_laws\<close> and \<open>aes_laws\<close>. Slices that would panic out of range do so
  in the model. Random values are arguments. The counters are advanced by one message at a time.
\<close>

section \<open>What the crates provide\<close>

datatype zlib_failure = WriteAll string | Finish string

record cipher_ext =
  md5_digest :: "bytes \<Rightarrow> bytes"
  zlib_encode :: "bytes \<Rightarrow> (bytes, zlib_failure) result"
  zlib_decode :: "bytes \<Rightarrow> bytes option"
  aes_cbc_enc :: "bytes \<Rightarrow> bytes \<Rightarrow> bytes \<Rightarrow> bytes option"
  aes_cbc_dec :: "bytes \<Rightarrow> bytes \<Rightarrow> bytes \<Rightarrow> bytes option"

section \<open>Helpers\<close>

datatype CryptoError =
    EncryptionFailed string
  | DecryptionFailed string
  | InvalidKeyLength
  | EmptyPayload

datatype CryptoMethod = MBlowfish | MAes

definition hex_encode :: "bytes \<Rightarrow> string" where
  "hex_encode b = concat (map hex_byte b)"

definition hex_md5 :: "cipher_ext \<Rightarrow> bytes \<Rightarrow> string" where
  "hex_md5 ext bs = hex_encode (md5_digest ext bs)"

text \<open>\<open>format!("{:0w}")\<close> of an unsigned number.\<close>

definition zero_fill :: "nat \<Rightarrow> nat \<Rightarrow> string" where
  "zero_fill w n = replicate (w - length (nat_str n)) (CHR ''0'') @ nat_str n"

definition strip_trailing_nulls :: "bytes \<Rightarrow> bytes" where
  "strip_trailing_nulls bs = rev (dropWhile (\<lambda>b. b = CHR 0x00) (rev bs))"

text \<open>\<open>&data[n..]\<close> and \<open>split_at(n)\<close>.\<close>

definition slice_from :: "nat \<Rightarrow> bytes \<Rightarrow> bytes run" where
  "slice_from n bs = (if n \<le> length bs then Ret (drop n bs) else Panic)"

definition split_at_run :: "nat \<Rightarrow> bytes \<Rightarrow> (bytes \<times> bytes) run" where
  "split_at_run n bs = (if n \<le> length bs then Ret (take n bs, drop n bs) else Panic)"

section \<open>The cipher\<close>

record WazuhCipher =
  wc_method :: CryptoMethod
  encryption_key :: bytes
  aes_key :: bytes
  wc_blowfish :: Blowfish
  global_counter :: u32
  local_counter :: u32

definition derive_key :: "cipher_ext \<Rightarrow> string \<Rightarrow> string \<Rightarrow> string \<Rightarrow> string" where
  "derive_key ext i n k =
     (let filesum1 = hex_md5 ext n;
          filesum2 = hex_md5 ext i;
          combined = filesum1 @ filesum2;
          filesum1 = take 15 (hex_md5 ext combined);
          filesum2 = hex_md5 ext k
      in filesum2 @ filesum1)"

definition cipher_new :: "cipher_ext \<Rightarrow> string \<Rightarrow> string \<Rightarrow> string \<Rightarrow> string \<Rightarrow> CryptoMethod \<Rightarrow> WazuhCipher run" where
  "cipher_new ext i n ip k m =
     (let ek = derive_key ext i n k in
      bind_run (blowfish_new ek) (\<lambda>bf.
      let copy_len = min (length ek) 32 in
      Ret \<lparr>wc_method = m, encryption_key = ek,
           aes_key = take copy_len ek @ replicate (32 - copy_len) (CHR 0x00),
           wc_blowfish = bf, global_counter = 0, local_counter = 0\<rparr>))"

definition crypto_token :: "WazuhCipher \<Rightarrow> string" where
  "crypto_token c = (case wc_method c of MBlowfish \<Rightarrow> '':'' | MAes \<Rightarrow> ''#AES:'')"

text \<open>The counters of the next message. Additions on \<open>u32\<close> wrap.\<close>

definition next_counters :: "WazuhCipher \<Rightarrow> (u32 \<times> u32) \<times> WazuhCipher" where
  "next_counters c =
     (let l = local_counter c + 1;
          c = c\<lparr>local_counter := l\<rparr>;
          g = global_counter c
      in if l \<ge> 9997
         then let g = g + 1 in ((g, 0), c\<lparr>local_counter := 0, global_counter := g\<rparr>)
         else ((g, l), c))"

definition build_inner_frame :: "16 word \<Rightarrow> WazuhCipher \<Rightarrow> bytes \<Rightarrow> bytes \<times> WazuhCipher" where
  "build_inner_frame rnd c m =
     (let ((g, l), c) = next_counters c;
          header = zero_fill 5 (unat rnd) @ zero_fill 10 (unat g) @ '':'' @ zero_fill 4 (unat l) @ '':''
      in (header @ m, c))"

definition aes_encrypt :: "cipher_ext \<Rightarrow> bytes \<Rightarrow> WazuhCipher \<Rightarrow> bytes \<Rightarrow> (bytes, CryptoError) result" where
  "aes_encrypt ext iv c pt =
     bind_result (ok_or (aes_cbc_enc ext (aes_key c) iv pt) (EncryptionFailed ''AES padding error''))
       (\<lambda>ct. Ok (iv @ ct))"

definition aes_decrypt :: "cipher_ext \<Rightarrow> WazuhCipher \<Rightarrow> bytes \<Rightarrow> (bytes, CryptoError) result" where
  "aes_decrypt ext c bs =
     (if length bs < 32 then Err (DecryptionFailed ''data too short (need IV + 1 block)'')
      else let iv = take 16 bs; ct = drop 16 bs
           in ok_or (aes_cbc_dec ext (aes_key c) iv ct) (DecryptionFailed ''AES unpadding error''))"

text \<open>The padding of \<open>CreateSecMSG\<close>: at least one \<open>!\<close>, and a whole number of blocks.\<close>

definition pad_compressed :: "bytes \<Rightarrow> bytes" where
  "pad_compressed z =
     (let cmp_size = length z + 1;
          bfsize = (let r = cmp_size mod 8 in if r = 0 then 0 else 8 - r);
          num_padding = bfsize + 1
      in replicate num_padding (CHR ''!'') @ z)"

definition zlib_error :: "zlib_failure \<Rightarrow> CryptoError" where
  "zlib_error f = EncryptionFailed (case f of WriteAll e \<Rightarrow> ''compression failed: '' @ e | Finish e \<Rightarrow> ''compression finish: '' @ e)"

definition encrypt :: "cipher_ext \<Rightarrow> 16 word \<Rightarrow> bytes \<Rightarrow> WazuhCipher \<Rightarrow> bytes \<Rightarrow> (bytes, CryptoError) result \<times> WazuhCipher" where
  "encrypt ext rnd iv c plaintext =
     (let (inner, c) = build_inner_frame rnd c plaintext;
          checksummed = hex_md5 ext inner @ inner
      in (bind_result (map_err zlib_error (zlib_encode ext checksummed)) (\<lambda>compressed.
            let padded = pad_compressed compressed in
            case wc_method c of
              MBlowfish \<Rightarrow> Ok (bf_cbc_encrypt (wc_blowfish c) padded)
            | MAes \<Rightarrow> aes_encrypt ext iv c padded), c))"

definition checked_md5 :: "cipher_ext \<Rightarrow> string \<Rightarrow> bytes \<Rightarrow> bytes \<Rightarrow> (unit, CryptoError) result" where
  "checked_md5 ext msg cksum rest =
     (case from_utf8 cksum of
        None \<Rightarrow> Err (DecryptionFailed ''invalid checksum encoding'')
      | Some expected \<Rightarrow> if hex_md5 ext rest \<noteq> expected then Err (DecryptionFailed msg) else Ok ())"

text \<open>Skip a counter and the colon after it: \<open>&rest[n..]\<close>, then the test of its first byte.\<close>

definition skip_colon :: "string \<Rightarrow> bytes \<Rightarrow> (bytes, CryptoError) result run" where
  "skip_colon msg rest =
     (if rest = [] \<or> hd rest \<noteq> CHR '':'' then Ret (Err (DecryptionFailed msg))
      else bind_run (slice_from 1 rest) (\<lambda>r. Ret (Ok r)))"

definition decrypt_compressed :: "cipher_ext \<Rightarrow> bytes \<Rightarrow> (bytes, CryptoError) result run" where
  "decrypt_compressed ext bs =
     (case zlib_decode ext (dropWhile (\<lambda>b. b = CHR ''!'') bs) of
        None \<Rightarrow> Ret (Err (DecryptionFailed ''zlib decompression failed''))
      | Some d \<Rightarrow>
          if length d < 53 then Ret (Err (DecryptionFailed ''decompressed data too short''))
          else bind_run (split_at_run 32 d) (\<lambda>(cksum, rest).
            case checked_md5 ext ''MD5 checksum mismatch'' cksum rest of
              Err e \<Rightarrow> Ret (Err e)
            | Ok _ \<Rightarrow>
                bind_run (slice_from 5 rest) (\<lambda>rest.
                bind_run (slice_from 10 rest) (\<lambda>rest.
                bind_run (skip_colon ''missing colon after global counter'' rest) (\<lambda>r.
                case r of Err e \<Rightarrow> Ret (Err e) | Ok rest \<Rightarrow>
                bind_run (slice_from 4 rest) (\<lambda>rest.
                skip_colon ''missing colon after local counter'' rest))))))"

definition decrypt_old_format :: "cipher_ext \<Rightarrow> bytes \<Rightarrow> (bytes, CryptoError) result run" where
  "decrypt_old_format ext bs =
     bind_run (slice_from 1 (strip_trailing_nulls bs)) (\<lambda>rest.
     if length rest < 32 then Ret (Err (DecryptionFailed ''old format data too short for checksum''))
     else bind_run (split_at_run 32 rest) (\<lambda>(cksum, after).
       case checked_md5 ext ''MD5 checksum mismatch (old format)'' cksum after of
         Err e \<Rightarrow> Ret (Err e)
       | Ok _ \<Rightarrow>
           if length after < 16 then Ret (Err (DecryptionFailed ''old format too short for counters''))
           else bind_run (slice_from 16 after) (\<lambda>rest.
             let sep = length (takeWhile (\<lambda>b. b \<noteq> CHR '':'') rest)
             in if sep = length rest then Ret (Err (DecryptionFailed ''no separator in old format''))
                else bind_run (slice_from (sep + 1) rest) (\<lambda>r. Ret (Ok r)))))"

definition block_decrypt :: "cipher_ext \<Rightarrow> WazuhCipher \<Rightarrow> bytes \<Rightarrow> (bytes, CryptoError) result" where
  "block_decrypt ext c bs =
     (case wc_method c of MBlowfish \<Rightarrow> Ok (bf_cbc_decrypt (wc_blowfish c) bs) | MAes \<Rightarrow> aes_decrypt ext c bs)"

definition decrypt :: "cipher_ext \<Rightarrow> WazuhCipher \<Rightarrow> bytes \<Rightarrow> (bytes, CryptoError) result run" where
  "decrypt ext c bs =
     (case block_decrypt ext c bs of
        Err e \<Rightarrow> Ret (Err e)
      | Ok [] \<Rightarrow> Ret (Err EmptyPayload)
      | Ok (b # rest) \<Rightarrow>
          if b = CHR ''!'' then decrypt_compressed ext (b # rest)
          else if b = CHR '':'' then decrypt_old_format ext (b # rest)
          else Ret (Err (DecryptionFailed (''unexpected first byte after decryption: 0x'' @ hex_byte b))))"

section \<open>What is relied on of the crates\<close>

text \<open>MD5 digests have 16 bytes. A zlib stream written by flate2 starts with the byte \<open>0x78\<close>
  (RFC 1950, 32K window) and decodes to what was encoded. AES-256-CBC with PKCS7 always pads,
  so a ciphertext has at least one block, and decrypts under the same key and IV.\<close>

definition md5_laws :: "cipher_ext \<Rightarrow> bool" where
  "md5_laws ext \<longleftrightarrow> (\<forall>bs. length (md5_digest ext bs) = 16)"

definition zlib_laws :: "cipher_ext \<Rightarrow> bool" where
  "zlib_laws ext \<longleftrightarrow> (\<forall>bs. \<exists>z. zlib_encode ext bs = Ok (CHR 0x78 # z) \<and> zlib_decode ext (CHR 0x78 # z) = Some bs)"

definition aes_laws :: "cipher_ext \<Rightarrow> bool" where
  "aes_laws ext \<longleftrightarrow> (\<forall>k iv pt. length k = 32 \<longrightarrow> length iv = 16 \<longrightarrow>
     (\<exists>ct. aes_cbc_enc ext k iv pt = Some ct \<and> 16 \<le> length ct \<and> aes_cbc_dec ext k iv ct = Some pt))"

section \<open>Key derivation\<close>

lemma hex_encode_hex_str: "hex_encode b = hex_str b"
  by (simp add: hex_encode_def hex_str_def)

lemma length_hex_md5: "md5_laws ext \<Longrightarrow> length (hex_md5 ext bs) = 32"
  by (simp add: hex_md5_def hex_encode_hex_str md5_laws_def)

lemma derive_key_length: "md5_laws ext \<Longrightarrow> length (derive_key ext i n k) = 47"
  by (simp add: derive_key_def Let_def length_hex_md5)

theorem cipher_new_ok:
  assumes "md5_laws ext"
  shows "\<exists>bf. cipher_new ext i n ip k m =
     Ret \<lparr>wc_method = m, encryption_key = derive_key ext i n k, aes_key = hex_md5 ext k,
          wc_blowfish = bf, global_counter = 0, local_counter = 0\<rparr> \<and> bf_ok bf"
proof -
  have len: "length (derive_key ext i n k) = 47" using derive_key_length [OF assms] .
  then obtain bf where "blowfish_new (derive_key ext i n k) = Ret bf" "bf_ok bf"
    using blowfish_new_ok [of "derive_key ext i n k"] by auto
  moreover have "take 32 (derive_key ext i n k) = hex_md5 ext k"
    using length_hex_md5 [OF assms, of k] by (simp add: derive_key_def Let_def)
  ultimately show ?thesis using len by (simp add: cipher_new_def Let_def min_def)
qed

section \<open>The header of a frame\<close>

lemma length_nat_str_le: "0 < w \<Longrightarrow> n < 10 ^ w \<Longrightarrow> length (nat_str n) \<le> w"
proof (induction w arbitrary: n)
  case (Suc w)
  show ?case
  proof (cases "n < 10")
    case True
    then show ?thesis by (simp add: nat_str.simps)
  next
    case False
    then have "0 < w" using Suc.prems by (cases w) auto
    moreover have "n div 10 < 10 ^ w" using Suc.prems by (simp add: div_less_iff_less_mult mult.commute)
    ultimately show ?thesis using Suc.IH [of "n div 10"] False by (subst nat_str.simps) simp
  qed
qed simp

lemma length_zero_fill: "0 < w \<Longrightarrow> n < 10 ^ w \<Longrightarrow> length (zero_fill w n) = w"
  using length_nat_str_le [of w n] by (simp add: zero_fill_def)

lemma read_nat_zeros: "read_nat (replicate m (CHR ''0'') @ s) = read_nat s"
  by (induction m) (simp_all add: read_nat_def)

lemma read_zero_fill: "read_nat (zero_fill w n) = n"
  by (simp add: zero_fill_def read_nat_zeros read_nat_str)

text \<open>Five digits hold every \<open>u16\<close> and ten every \<open>u32\<close>; the local counter stays below 9997.\<close>

lemma length_rand [simp]: "length (zero_fill 5 (unat (r :: 16 word))) = 5"
proof -
  have "unat r < 2 ^ LENGTH(16)" by (rule unsigned_less)
  then show ?thesis by (intro length_zero_fill) simp_all
qed

lemma length_global [simp]: "length (zero_fill 10 (unat (g :: u32))) = 10"
proof -
  have "unat g < 2 ^ LENGTH(32)" by (rule unsigned_less)
  then show ?thesis by (intro length_zero_fill) simp_all
qed

definition counters_ok :: "WazuhCipher \<Rightarrow> bool" where
  "counters_ok c \<longleftrightarrow> unat (local_counter c) < 9997"

lemma unat_local_inc: "counters_ok c \<Longrightarrow> unat (local_counter c + 1) = unat (local_counter c) + 1"
  by (simp add: counters_ok_def unat_word_ariths)

lemma next_counters_ok:
  assumes "counters_ok c" "next_counters c = ((g, l), c')"
  shows "counters_ok c' \<and> unat l < 9997 \<and> g = global_counter c' \<and> l = local_counter c'"
  using assms unat_local_inc [OF assms(1)]
  by (auto simp: next_counters_def Let_def counters_ok_def word_le_nat_alt split: if_splits)

lemma build_inner_frame_shape:
  assumes "counters_ok c" "build_inner_frame rnd c m = (frame, c')"
  shows "\<exists>r g l. frame = r @ g @ '':'' @ l @ '':'' @ m \<and> length r = 5 \<and> length g = 10 \<and> length l = 4 \<and>
     read_nat g = unat (global_counter c') \<and> read_nat l = unat (local_counter c') \<and> counters_ok c'"
proof -
  obtain g l where n: "next_counters c = ((g, l), c')" and
    f: "frame = zero_fill 5 (unat rnd) @ zero_fill 10 (unat g) @ '':'' @ zero_fill 4 (unat l) @ '':'' @ m"
    using assms(2) by (auto simp: build_inner_frame_def split: prod.splits)
  have ok: "counters_ok c'" "unat l < 9997" "g = global_counter c'" "l = local_counter c'"
    using next_counters_ok [OF assms(1) n] by blast+
  have "length (zero_fill 4 (unat l)) = 4" using ok(2) by (intro length_zero_fill) simp_all
  then show ?thesis using f ok
    by (intro exI [of _ "zero_fill 5 (unat rnd)"] exI [of _ "zero_fill 10 (unat g)"] exI [of _ "zero_fill 4 (unat l)"])
      (simp add: read_zero_fill)
qed

lemma next_counters_keys:
  "next_counters c = (gl, c') \<Longrightarrow> wc_method c' = wc_method c \<and> aes_key c' = aes_key c \<and> wc_blowfish c' = wc_blowfish c \<and> encryption_key c' = encryption_key c"
  by (auto simp: next_counters_def Let_def split: if_splits)

lemma build_inner_frame_keys:
  "build_inner_frame rnd c m = (f, c') \<Longrightarrow> wc_method c' = wc_method c \<and> aes_key c' = aes_key c \<and> wc_blowfish c' = wc_blowfish c \<and> encryption_key c' = encryption_key c"
  using next_counters_keys [of c] by (auto simp: build_inner_frame_def split: prod.splits)

section \<open>Decryption undoes encryption\<close>

lemma pad_compressed_shape: "\<exists>k. pad_compressed z = replicate (Suc k) (CHR ''!'') @ z \<and> length (pad_compressed z) mod 8 = 0"
proof -
  let ?r = "Suc (length z) mod 8"
  have "(Suc (if ?r = 0 then 0 else 8 - ?r) + length z) mod 8 = 0" by presburger
  then show ?thesis by (simp add: pad_compressed_def Let_def)
qed

lemma zero_padded_id: "length bs mod 8 = 0 \<Longrightarrow> zero_padded bs = bs"
proof -
  assume "length bs mod 8 = 0"
  then have "8 * ((length bs + 7) div 8) = length bs" by presburger
  then show ?thesis by (simp add: zero_padded_def)
qed

lemma dropWhile_bangs: "x \<noteq> CHR ''!'' \<Longrightarrow> dropWhile (\<lambda>b. b = CHR ''!'') (replicate k (CHR ''!'') @ x # z) = x # z"
  by (induction k) simp_all

lemma slice_from_append [simp]: "length a = n \<Longrightarrow> slice_from n (a @ b) = Ret b"
  by (simp add: slice_from_def)

lemma skip_colon_colon [simp]: "skip_colon msg (CHR '':'' # r) = Ret (Ok r)"
  by (simp add: skip_colon_def slice_from_def)

lemma checked_md5_ok: "checked_md5 ext msg (hex_md5 ext rest) rest = Ok ()"
  by (simp add: checked_md5_def hex_md5_def hex_encode_hex_str from_utf8_def)

lemma decrypt_compressed_frame:
  assumes "md5_laws ext" and z: "zlib_decode ext (CHR 0x78 # z) = Some (hex_md5 ext f @ f)"
    and f: "f = r @ g @ '':'' @ l @ '':'' @ m" and len: "length r = 5" "length g = 10" "length l = 4"
  shows "decrypt_compressed ext (replicate k (CHR ''!'') @ CHR 0x78 # z) = Ret (Ok m)"
proof -
  have s: "split_at_run 32 (hex_md5 ext f @ f) = Ret (hex_md5 ext f, f)"
    using length_hex_md5 [OF assms(1), of f] by (simp add: split_at_run_def)
  have "\<not> length (hex_md5 ext f @ f) < 53" using length_hex_md5 [OF assms(1), of f] f len by simp
  moreover have "slice_from 5 f = Ret (g @ '':'' @ l @ '':'' @ m)" using f len by simp
  moreover have "slice_from 10 (g @ '':'' @ l @ '':'' @ m) = Ret ('':'' @ l @ '':'' @ m)" using len by simp
  moreover have "slice_from 4 (l @ '':'' @ m) = Ret ('':'' @ m)" using len by simp
  ultimately show ?thesis
    by (simp add: decrypt_compressed_def dropWhile_bangs z s checked_md5_ok)
qed

definition same_keys :: "WazuhCipher \<Rightarrow> WazuhCipher \<Rightarrow> bool" where
  "same_keys c d \<longleftrightarrow> wc_method c = wc_method d \<and> aes_key c = aes_key d \<and> wc_blowfish c = wc_blowfish d"

text \<open>The peer's cipher holds the same keys; its counters play no part.\<close>

lemma decrypt_plain:
  assumes "case wc_method peer of MBlowfish \<Rightarrow> bf_cbc_decrypt (wc_blowfish peer) ct = pad_compressed z | MAes \<Rightarrow> aes_decrypt ext peer ct = Ok (pad_compressed z)"
  shows "decrypt ext peer ct = decrypt_compressed ext (pad_compressed z)"
proof -
  obtain k where "pad_compressed z = CHR ''!'' # replicate k (CHR ''!'') @ z" using pad_compressed_shape [of z] by auto
  then show ?thesis using assms by (simp add: decrypt_def block_decrypt_def split: CryptoMethod.splits)
qed

lemma bf_cbc_padded: "bf_cbc_decrypt bf (bf_cbc_encrypt bf (pad_compressed z)) = pad_compressed z"
proof -
  have "pad_compressed z \<noteq> []" "length (pad_compressed z) mod 8 = 0" using pad_compressed_shape [of z] by auto
  then show ?thesis using bf_cbc_roundtrip [of "pad_compressed z" bf] zero_padded_id [of "pad_compressed z"] by metis
qed

lemma aes_padded:
  assumes "aes_laws ext" "length (aes_key c) = 32" "length iv = 16" "aes_key c = aes_key peer"
  shows "\<exists>ct. aes_encrypt ext iv c pt = Ok ct \<and> aes_decrypt ext peer ct = Ok pt"
proof -
  obtain ct where "aes_cbc_enc ext (aes_key c) iv pt = Some ct" "16 \<le> length ct" "aes_cbc_dec ext (aes_key c) iv ct = Some pt"
    using assms(1-3) unfolding aes_laws_def by blast
  then show ?thesis using assms(3,4) by (simp add: aes_encrypt_def aes_decrypt_def)
qed

theorem decrypt_encrypt:
  assumes laws: "md5_laws ext" "zlib_laws ext" "aes_laws ext" and ok: "counters_ok c" "length (aes_key c) = 32" "length iv = 16"
    and keys: "same_keys c peer"
  shows "\<exists>ct. fst (encrypt ext rnd iv c m) = Ok ct \<and> decrypt ext peer ct = Ret (Ok m)"
proof -
  obtain f c' where b: "build_inner_frame rnd c m = (f, c')" by fastforce
  obtain r g l where f: "f = r @ g @ '':'' @ l @ '':'' @ m" "length r = 5" "length g = 10" "length l = 4"
    using build_inner_frame_shape [OF ok(1) b] by blast
  obtain z where z: "zlib_encode ext (hex_md5 ext f @ f) = Ok (CHR 0x78 # z)" "zlib_decode ext (CHR 0x78 # z) = Some (hex_md5 ext f @ f)"
    using laws(2) unfolding zlib_laws_def by blast
  define zz where "zz = CHR 0x78 # z"
  obtain k where p: "pad_compressed zz = replicate k (CHR ''!'') @ zz" using pad_compressed_shape [of zz] by blast
  have d: "decrypt_compressed ext (pad_compressed zz) = Ret (Ok m)"
    unfolding p unfolding zz_def by (rule decrypt_compressed_frame [OF laws(1) z(2) f])
  have k: "wc_method c' = wc_method c" "aes_key c' = aes_key c" "wc_blowfish c' = wc_blowfish c"
    using build_inner_frame_keys [OF b] by blast+
  have e: "fst (encrypt ext rnd iv c m) = (case wc_method c of MBlowfish \<Rightarrow> Ok (bf_cbc_encrypt (wc_blowfish c) (pad_compressed zz)) | MAes \<Rightarrow> aes_encrypt ext iv c' (pad_compressed zz))"
    by (simp add: encrypt_def b z(1) k zz_def Let_def split: CryptoMethod.split)
  show ?thesis
  proof (cases "wc_method c")
    case MBlowfish
    then show ?thesis using e d decrypt_plain [of peer "bf_cbc_encrypt (wc_blowfish c) (pad_compressed zz)" zz ext] keys bf_cbc_padded [of "wc_blowfish c" zz]
      by (simp add: same_keys_def)
  next
    case MAes
    obtain ct where "aes_encrypt ext iv c' (pad_compressed zz) = Ok ct" "aes_decrypt ext peer ct = Ok (pad_compressed zz)"
      using aes_padded [OF laws(3), of c' iv peer] ok k(2) keys unfolding same_keys_def by metis
    then show ?thesis using MAes e d decrypt_plain [of peer ct zz ext] keys by (simp add: same_keys_def)
  qed
qed

section \<open>Decryption is total and checks integrity\<close>

lemma strip_trailing_nulls_Cons: "b \<noteq> CHR 0x00 \<Longrightarrow> \<exists>r. strip_trailing_nulls (b # bs) = b # r"
proof (cases "\<exists>x\<in>set (rev bs). x \<noteq> CHR 0x00")
  case True
  then show ?thesis by (auto simp: strip_trailing_nulls_def dropWhile_append intro: exI [of _ "rev xs" for xs])
qed (auto simp: strip_trailing_nulls_def dropWhile_append)

lemma decrypt_compressed_cases:
  "(\<exists>e. decrypt_compressed ext bs = Ret (Err (DecryptionFailed e))) \<or>
   (\<exists>rest m. decrypt_compressed ext bs = Ret (Ok m) \<and> m = drop 21 rest \<and> 21 \<le> length rest \<and>
      zlib_decode ext (dropWhile (\<lambda>b. b = CHR ''!'') bs) = Some (hex_md5 ext rest @ rest))"
proof (cases "zlib_decode ext (dropWhile (\<lambda>b. b = CHR ''!'') bs)")
  case None
  then show ?thesis by (simp add: decrypt_compressed_def)
next
  case (Some d)
  show ?thesis
  proof (cases "length d < 53 \<or> hex_md5 ext (drop 32 d) \<noteq> take 32 d")
    case True
    then show ?thesis
      by (auto simp: Some decrypt_compressed_def split_at_run_def checked_md5_def from_utf8_def split: option.splits)
  next
    case False
    then have d: "hex_md5 ext (drop 32 d) = take 32 d" "53 \<le> length d" by auto
    define rest where "rest = drop 32 d"
    have len: "21 \<le> length rest" using d(2) rest_def by simp
    have dd: "d = hex_md5 ext rest @ rest" using d(1) rest_def by simp
    have sp: "split_at_run 32 d = Ret (hex_md5 ext rest, rest)" using d unfolding rest_def split_at_run_def by simp
    have sl: "slice_from 5 rest = Ret (drop 5 rest)" "slice_from 10 (drop 5 rest) = Ret (drop 15 rest)"
      using len by (simp_all add: slice_from_def)
    have nl: "\<not> length d < 53" using d(2) by simp
    have eq: "decrypt_compressed ext bs =
      bind_run (skip_colon ''missing colon after global counter'' (drop 15 rest)) (\<lambda>r.
        case r of Err e \<Rightarrow> Ret (Err e) | Ok rest \<Rightarrow>
          bind_run (slice_from 4 rest) (skip_colon ''missing colon after local counter''))"
      by (simp add: decrypt_compressed_def Some sp sl checked_md5_ok nl)
    obtain x a where a: "drop 15 rest = x # a" using len by (cases "drop 15 rest") auto
    have "length (x # a) = length rest - 15" unfolding a [symmetric] by simp
    then have la: "5 \<le> length a" using len by simp
    then obtain y b where b: "drop 4 a = y # b" by (cases "drop 4 a") auto
    have "b = drop 1 (drop 4 (drop 1 (drop 15 rest)))" by (simp add: a b)
    then have "b = drop 21 rest" by (simp only: drop_drop) simp
    moreover have "slice_from 1 (x # a) = Ret a" "slice_from 4 a = Ret (y # b)" "slice_from 1 (y # b) = Ret b"
      using la b by (simp_all add: slice_from_def)
    ultimately show ?thesis using len dd Some unfolding eq a by (cases "x = CHR '':''"; cases "y = CHR '':''") (simp_all add: skip_colon_def, blast)
  qed
qed

lemma decrypt_old_format_cases:
  "(\<exists>e. decrypt_old_format ext (CHR '':'' # bs) = Ret (Err (DecryptionFailed e))) \<or>
   (\<exists>rest m. decrypt_old_format ext (CHR '':'' # bs) = Ret (Ok m) \<and> suffix m rest \<and>
      strip_trailing_nulls (CHR '':'' # bs) = CHR '':'' # hex_md5 ext rest @ rest)"
proof -
  obtain r where r: "strip_trailing_nulls (CHR '':'' # bs) = CHR '':'' # r" using strip_trailing_nulls_Cons by blast
  show ?thesis
  proof (cases "length r < 32 \<or> hex_md5 ext (drop 32 r) \<noteq> take 32 r")
    case True
    then show ?thesis
      by (auto simp: r decrypt_old_format_def slice_from_def split_at_run_def checked_md5_def from_utf8_def split: option.splits)
  next
    case False
    define rest where "rest = drop 32 r"
    have sp: "split_at_run 32 r = Ret (hex_md5 ext rest, rest)" using False unfolding rest_def split_at_run_def by simp
    have rr: "r = hex_md5 ext rest @ rest" using False rest_def by simp
    have nl: "\<not> length r < 32" using False by simp
    let ?q = "drop 16 rest"
    let ?sep = "length (takeWhile (\<lambda>b. b \<noteq> CHR '':'') ?q)"
    have sl: "slice_from 1 (CHR '':'' # r) = Ret r" "\<not> length rest < 16 \<Longrightarrow> slice_from 16 rest = Ret ?q"
      by (simp_all add: slice_from_def)
    have sq: "?sep \<noteq> length ?q \<Longrightarrow> slice_from (?sep + 1) ?q = Ret (drop (?sep + 1) ?q)"
      using length_takeWhile_le [of "\<lambda>b. b \<noteq> CHR '':''" ?q] by (simp add: slice_from_def)
    have "decrypt_old_format ext (CHR '':'' # bs) =
       (if length rest < 16 then Ret (Err (DecryptionFailed ''old format too short for counters''))
        else if ?sep = length ?q then Ret (Err (DecryptionFailed ''no separator in old format''))
        else Ret (Ok (drop (?sep + 1) ?q)))"
      unfolding decrypt_old_format_def r sl(1) bind_run.simps if_not_P [OF nl] sp checked_md5_ok prod.case result.case Let_def
      using sl(2) sq by (simp del: drop_drop One_nat_def add_Suc_right)
    moreover have "suffix (drop (?sep + 1) ?q) rest" by (metis suffix_drop drop_drop)
    ultimately show ?thesis using rr r by (simp del: drop_drop) blast
  qed
qed

lemma decrypt_returns: "\<exists>r. decrypt ext c bs = Ret r"
proof (cases "block_decrypt ext c bs")
  case (Ok plain)
  then show ?thesis
    using decrypt_compressed_cases [of ext plain] decrypt_old_format_cases [of ext "tl plain"]
    by (cases plain) (auto simp: decrypt_def)
qed (simp add: decrypt_def)

text \<open>
  C27: \<open>decrypt\<close> never panics, on any input; and when it accepts a frame, the message is the end of a
  text that stood, in the decrypted and decompressed bytes, right after its own MD5 checksum.
\<close>

theorem decrypt_checks_integrity:
  "(\<exists>e. decrypt ext c bs = Ret (Err e)) \<or>
   (\<exists>plain rest m. decrypt ext c bs = Ret (Ok m) \<and> block_decrypt ext c bs = Ok plain \<and> suffix m rest \<and>
      (zlib_decode ext (dropWhile (\<lambda>b. b = CHR ''!'') plain) = Some (hex_md5 ext rest @ rest) \<or>
       strip_trailing_nulls plain = CHR '':'' # hex_md5 ext rest @ rest))"
proof (cases "block_decrypt ext c bs")
  case (Ok plain)
  show ?thesis
  proof (cases plain)
    case Nil
    then show ?thesis using Ok by (simp add: decrypt_def)
  next
    case (Cons b p)
    consider "b = CHR ''!''" | "b = CHR '':''" | "b \<noteq> CHR ''!''" "b \<noteq> CHR '':''" by blast
    then show ?thesis
    proof cases
      case 1
      then have "decrypt ext c bs = decrypt_compressed ext plain" using Ok Cons by (simp add: decrypt_def)
      then show ?thesis using decrypt_compressed_cases [of ext plain] Ok suffix_drop by metis
    next
      case 2
      then have "decrypt ext c bs = decrypt_old_format ext plain" using Ok Cons by (simp add: decrypt_def)
      then show ?thesis using decrypt_old_format_cases [of ext p] 2 Cons Ok by metis
    next
      case 3
      then show ?thesis using Ok Cons by (simp add: decrypt_def)
    qed
  qed
qed (simp add: decrypt_def)

text \<open>
  The cipher reports \<open>EmptyPayload\<close>, which the connection treats as a keep-open frame, for an
  AES frame exactly when its plaintext is empty, but for a Blowfish frame exactly when the
  ciphertext is empty or not a whole number of blocks: a truncated frame counts as keep-open.
\<close>

theorem decrypt_empty_payload:
  "decrypt ext c bs = Ret (Err EmptyPayload) \<longleftrightarrow>
     (case wc_method c of MBlowfish \<Rightarrow> bs = [] \<or> 0 < length bs mod 8 | MAes \<Rightarrow> aes_decrypt ext c bs = Ok [])"
proof -
  have "decrypt ext c bs = Ret (Err EmptyPayload) \<longleftrightarrow> block_decrypt ext c bs = Ok []"
  proof (cases "block_decrypt ext c bs")
    case (Ok plain)
    show ?thesis
    proof (cases plain)
      case (Cons b p)
      then show ?thesis using Ok decrypt_compressed_cases [of ext plain] decrypt_old_format_cases [of ext p]
        by (auto simp: decrypt_def)
    qed (simp add: decrypt_def Ok)
  next
    case (Err e)
    then have "e \<noteq> EmptyPayload"
      by (auto simp: block_decrypt_def aes_decrypt_def Let_def result_simps split: CryptoMethod.splits if_splits)
    then show ?thesis using Err by (simp add: decrypt_def)
  qed
  then show ?thesis by (simp add: block_decrypt_def bf_cbc_decrypt_empty_iff split: CryptoMethod.split)
qed

section \<open>A run of messages\<close>

text \<open>Messages sent one after the other: each comes with its random prefix and, for AES, its IV.\<close>

type_synonym outgoing = "16 word \<times> bytes \<times> bytes"

primrec encrypt_all :: "cipher_ext \<Rightarrow> WazuhCipher \<Rightarrow> outgoing list \<Rightarrow> (bytes, CryptoError) result list \<times> WazuhCipher" where
  "encrypt_all ext c [] = ([], c)"
| "encrypt_all ext c (x # xs) =
     (let (rnd, iv, m) = x; (r, c) = encrypt ext rnd iv c m; (rs, c) = encrypt_all ext c xs in (r # rs, c))"

primrec inner_frames :: "WazuhCipher \<Rightarrow> outgoing list \<Rightarrow> bytes list" where
  "inner_frames c [] = []"
| "inner_frames c (x # xs) = (let (rnd, iv, m) = x; (f, c) = build_inner_frame rnd c m in f # inner_frames c xs)"

text \<open>The number the two counters of a frame form, as the manager's replay check reads them.\<close>

definition frame_number :: "bytes \<Rightarrow> nat" where
  "frame_number f = read_nat (take 10 (drop 5 f)) * 9997 + read_nat (take 4 (drop 16 f))"

definition counter_value :: "WazuhCipher \<Rightarrow> nat" where
  "counter_value c = unat (global_counter c) * 9997 + unat (local_counter c)"

text \<open>Frame numbers repeat after this many messages.\<close>

definition frame_cycle :: nat where
  "frame_cycle = 9997 * 2 ^ 32"

lemma frame_number_shape:
  assumes "counters_ok c" "build_inner_frame rnd c m = (f, c')"
  shows "frame_number f = counter_value c' \<and> counters_ok c'"
  using build_inner_frame_shape [OF assms] by (auto simp: frame_number_def counter_value_def)

lemma next_counter_value:
  assumes "counters_ok c" "next_counters c = (gl, c')"
  shows "counter_value c' = (counter_value c + 1) mod frame_cycle"
proof (cases "unat (local_counter c) + 1 < 9997")
  case True
  have "unat (global_counter c) < 2 ^ LENGTH(32)" by (rule unsigned_less)
  then have "counter_value c + 1 < frame_cycle" using True by (simp add: counter_value_def frame_cycle_def)
  moreover have "counter_value c' = counter_value c + 1"
    using assms True unat_local_inc [OF assms(1)]
    by (auto simp: next_counters_def Let_def counter_value_def word_le_nat_alt split: if_splits)
  ultimately show ?thesis by simp
next
  case False
  then have l: "unat (local_counter c) = 9996" using assms(1) by (simp add: counters_ok_def)
  have "counter_value c' = unat (global_counter c + 1) * 9997"
    using assms False unat_local_inc [OF assms(1)]
    by (auto simp: next_counters_def Let_def counter_value_def word_le_nat_alt split: if_splits)
  also have "\<dots> = ((unat (global_counter c) + 1) mod 2 ^ 32) * 9997"
    by (simp add: unat_word_ariths)
  also have "\<dots> = ((unat (global_counter c) + 1) * 9997) mod (2 ^ 32 * 9997)"
    by (rule mult_mod_left)
  also have "(unat (global_counter c) + 1) * 9997 = counter_value c + 1" using l by (simp add: counter_value_def)
  finally show ?thesis by (simp only: mult.commute frame_cycle_def)
qed

lemma build_counter_value:
  assumes "counters_ok c" "build_inner_frame rnd c m = (f, c')"
  shows "counter_value c' = (counter_value c + 1) mod frame_cycle"
  using next_counter_value [OF assms(1)] assms(2) by (auto simp: build_inner_frame_def split: prod.splits)

lemma mod_shift: "((v + 1) mod M + k + 1) mod M = (v + Suc k + 1) mod (M :: nat)"
proof -
  have "((v + 1) mod M + k + 1) mod M = ((v + 1) mod M + (k + 1)) mod M" by (simp only: add.assoc)
  also have "\<dots> = (v + 1 + (k + 1)) mod M" by (rule mod_add_left_eq)
  finally show ?thesis by simp
qed

lemma inner_frames_numbers:
  "counters_ok c \<Longrightarrow> map frame_number (inner_frames c xs)
     = map (\<lambda>k. (counter_value c + k + 1) mod frame_cycle) [0..<length xs]"
proof (induction xs arbitrary: c)
  case (Cons x xs)
  obtain rnd iv m where x: "x = (rnd, iv, m)" by (cases x) auto
  obtain f c' where b: "build_inner_frame rnd c m = (f, c')" by fastforce
  note n = frame_number_shape [OF Cons.prems b] build_counter_value [OF Cons.prems b]
  have "(counter_value c' + k + 1) mod frame_cycle = (counter_value c + Suc k + 1) mod frame_cycle" for k
    unfolding n(2) by (rule mod_shift)
  then show ?case using Cons.IH [of c'] n
    by (simp add: x b map_upt_Suc del: upt_Suc)
qed simp

text \<open>
  The pair of counters in the frames of one cipher never repeats within the first
  \<open>9997 * 2 ^ 32\<close> messages, the \<open>u32\<close> wrap-around and the reset at 9997 included.
\<close>

theorem frame_numbers_distinct:
  assumes "cipher_new ext i n ip k m = Ret c" "length xs \<le> frame_cycle"
  shows "distinct (map frame_number (inner_frames c xs))"
proof -
  have c: "counters_ok c" "counter_value c = 0"
    using assms(1) by (auto simp: cipher_new_def Let_def result_simps counters_ok_def counter_value_def)
  have "inj_on (\<lambda>k. (k + 1) mod M) {0..<N}" if "N \<le> M" for M N :: nat
  proof (rule inj_onI)
    fix a b assume ab: "a \<in> {0..<N}" "b \<in> {0..<N}" "(a + 1) mod M = (b + 1) mod M"
    then have "a mod M = b mod M" by (simp add: nat_mod_eq_iff) 
    then show "a = b" using ab that by simp
  qed
  from this [OF assms(2)] have "inj_on (\<lambda>k. (k + 1) mod frame_cycle) {0..<length xs}" .
  then show ?thesis unfolding inner_frames_numbers [OF c(1)] c(2) by (simp add: distinct_map)
qed

lemma encrypt_state:
  assumes "encrypt ext rnd iv c m = (r, c')" "counters_ok c"
  shows "counters_ok c' \<and> aes_key c' = aes_key c \<and> (same_keys c peer \<longrightarrow> same_keys c' peer)"
proof -
  obtain f d where b: "build_inner_frame rnd c m = (f, d)" by fastforce
  then have "c' = d" using assms(1) by (simp add: encrypt_def)
  then show ?thesis using frame_number_shape [OF assms(2) b] build_inner_frame_keys [OF b] by (simp add: same_keys_def)
qed

lemma encrypt_all_roundtrip:
  assumes laws: "md5_laws ext" "zlib_laws ext" "aes_laws ext"
  shows "counters_ok c \<Longrightarrow> length (aes_key c) = 32 \<Longrightarrow> same_keys c peer \<Longrightarrow> list_all (\<lambda>(_, iv, _). length iv = 16) xs \<Longrightarrow>
     list_all2 (\<lambda>r (_, _, m). \<exists>ct. r = Ok ct \<and> decrypt ext peer ct = Ret (Ok m)) (fst (encrypt_all ext c xs)) xs"
proof (induction xs arbitrary: c)
  case (Cons x xs)
  obtain rnd iv m where x: "x = (rnd, iv, m)" by (cases x) auto
  obtain r c' where e: "encrypt ext rnd iv c m = (r, c')" by fastforce
  have "counters_ok c'" "length (aes_key c') = 32" "same_keys c' peer"
    using encrypt_state [OF e Cons.prems(1), of peer] Cons.prems(2,3) by simp_all
  from Cons.IH [OF this] show ?case
    using decrypt_encrypt [OF laws Cons.prems(1,2) _ Cons.prems(3), of iv rnd m] Cons.prems(4)
    by (simp add: x e split_beta)
qed simp

lemma cipher_new_good:
  assumes "md5_laws ext" "cipher_new ext i n ip k m = Ret c"
  shows "counters_ok c" "length (aes_key c) = 32" "same_keys c c"
  using cipher_new_ok [OF assms(1), of i n ip k m] assms(2) length_hex_md5 [OF assms(1), of k]
  by (auto simp: counters_ok_def same_keys_def)

text \<open>
  Two ciphers built from the same agent id, name and key exchange any sequence of messages:
  every message encrypts, and the peer's \<open>decrypt\<close> returns exactly the bytes that were sent, for
  Blowfish and for AES, whatever the random prefixes and IVs and however many messages came before.
\<close>

theorem secure_channel_roundtrip:
  assumes laws: "md5_laws ext" "zlib_laws ext" "aes_laws ext"
    and new: "cipher_new ext i n ip k m = Ret c" "cipher_new ext i n ip' k m = Ret peer"
    and ivs: "list_all (\<lambda>(_, iv, _). length iv = 16) xs"
  shows "list_all2 (\<lambda>r (_, _, msg). \<exists>ct. r = Ok ct \<and> decrypt ext peer ct = Ret (Ok msg)) (fst (encrypt_all ext c xs)) xs"
proof -
  have "c = peer" using new by (simp add: cipher_new_def Let_def)
  then show ?thesis using encrypt_all_roundtrip [OF laws cipher_new_good [OF laws(1) new(1)] ivs] by simp
qed

section \<open>Instances\<close>

text \<open>A stand-in for the crates that meets the laws.\<close>

definition plain_ext :: cipher_ext where
  "plain_ext = \<lparr>md5_digest = (\<lambda>_. replicate 16 (CHR 0x5A)),
     zlib_encode = (\<lambda>bs. Ok (CHR 0x78 # bs)), zlib_decode = (\<lambda>z. Some (tl z)),
     aes_cbc_enc = (\<lambda>k iv pt. Some (pt @ iv)), aes_cbc_dec = (\<lambda>k iv ct. Some (take (length ct - 16) ct))\<rparr>"

lemma plain_ext_laws: "md5_laws plain_ext" "zlib_laws plain_ext" "aes_laws plain_ext"
  by (simp_all add: plain_ext_def md5_laws_def zlib_laws_def aes_laws_def)

theorem secure_channel_roundtrip_witness:
  "\<exists>c. cipher_new plain_ext ''001'' ''host'' ''any'' ''k'' MAes = Ret c \<and>
     list_all2 (\<lambda>r (_, _, msg). \<exists>ct. r = Ok ct \<and> decrypt plain_ext c ct = Ret (Ok msg))
       (fst (encrypt_all plain_ext c [(7, replicate 16 (CHR 0x01), ''hello'')])) [(7 :: 16 word, replicate 16 (CHR 0x01), ''hello'')]"
proof -
  obtain c where c: "cipher_new plain_ext ''001'' ''host'' ''any'' ''k'' MAes = Ret c"
    using cipher_new_ok [OF plain_ext_laws(1)] by blast
  from secure_channel_roundtrip [OF plain_ext_laws c c, of "[(7, replicate 16 (CHR 0x01), ''hello'')]"] c
  show ?thesis by (intro exI [of _ c]) simp
qed

theorem frame_numbers_distinct_witness:
  "\<exists>c. cipher_new plain_ext ''001'' ''host'' ''any'' ''k'' MAes = Ret c \<and>
     distinct (map frame_number (inner_frames c [(7, [], ''a''), (7, [], ''a'')]))"
proof -
  obtain c where c: "cipher_new plain_ext ''001'' ''host'' ''any'' ''k'' MAes = Ret c"
    using cipher_new_ok [OF plain_ext_laws(1)] by blast
  have "length [(7 :: 16 word, [], ''a''), (7, [], ''a'')] \<le> frame_cycle" by (simp add: frame_cycle_def)
  from frame_numbers_distinct [OF c this] c show ?thesis by (intro exI [of _ c]) simp
qed

end
