(* ===== verification/WazuhProtocol.thy ===== *)
theory WazuhProtocol
  imports WazuhCipher
begin

text \<open>
  \<open>sda-comms/src/protocol.rs\<close>: the messages of the Wazuh wire protocol, their names and the two
  encodings. \<open>body_prefix\<close> and the name tables list the message types in the order of the source.
  Compression is zlib, a parameter \<open>compress\<close>; the host facts of the keep-alive are arguments.
\<close>

section \<open>Message types\<close>

datatype MessageType =
    MtSyscheck | MtLog | MtRootcheck | MtSca | MtSyscollector | MtKeepalive | MtActiveResponse | MtStartup |
    MtShutdown | MtRequest | MtLocalDetection | MtDeviceControlFinding | MtDeviceControlRecommendation |
    MtDeviceControlJob | MtDeviceControlActionResult | MtDevicePostureState | MtSoftwareInventoryDelta |
    MtSoftwareJobResult | MtJitAdminRequested | MtJitAdminGranted | MtJitAdminRevoked | MtQueryResult |
    MtScriptRunResult | MtRemoteSupportSessionStarted | MtRemoteSupportSessionEnded | MtAgentVitals |
    MtEvidenceRecord | MtUsbDevicePolicyDecision | MtMdmWipeResult | MtMdmLockResult | MtMdmLostModeEntered |
    MtMdmLostModeExited | MtMdmRecoveryKeyEscrowed | MtMdmOsUpdateResult | MtMdmConfigProfileApplied |
    MtMdmAutoRemediationResult | MtProcessCreated | MtProcessTerminated | MtImageLoaded | MtNetworkConnection |
    MtDnsQuery | MtMemoryScanAlert | MtHostIsolationStateChanged | MtIdentityAlert | MtGeneric

primrec as_protocol_str :: "MessageType \<Rightarrow> string" where
  "as_protocol_str MtSyscheck = ''syscheck''"
| "as_protocol_str MtLog = ''log''"
| "as_protocol_str MtRootcheck = ''rootcheck''"
| "as_protocol_str MtSca = ''sca''"
| "as_protocol_str MtSyscollector = ''syscollector''"
| "as_protocol_str MtKeepalive = ''keep_alive''"
| "as_protocol_str MtActiveResponse = ''active-response''"
| "as_protocol_str MtStartup = ''agent_start''"
| "as_protocol_str MtShutdown = ''agent_stop''"
| "as_protocol_str MtRequest = ''request''"
| "as_protocol_str MtLocalDetection = ''local-detection''"
| "as_protocol_str MtDeviceControlFinding = ''device-control-finding''"
| "as_protocol_str MtDeviceControlRecommendation = ''device-control-recommendation''"
| "as_protocol_str MtDeviceControlJob = ''device-control-job''"
| "as_protocol_str MtDeviceControlActionResult = ''device-control-action-result''"
| "as_protocol_str MtDevicePostureState = ''device-posture-state''"
| "as_protocol_str MtSoftwareInventoryDelta = ''software-inventory-delta''"
| "as_protocol_str MtSoftwareJobResult = ''software-job-result''"
| "as_protocol_str MtJitAdminRequested = ''jit-admin-requested''"
| "as_protocol_str MtJitAdminGranted = ''jit-admin-granted''"
| "as_protocol_str MtJitAdminRevoked = ''jit-admin-revoked''"
| "as_protocol_str MtQueryResult = ''query-result''"
| "as_protocol_str MtScriptRunResult = ''script-run-result''"
| "as_protocol_str MtRemoteSupportSessionStarted = ''remote-support-session-started''"
| "as_protocol_str MtRemoteSupportSessionEnded = ''remote-support-session-ended''"
| "as_protocol_str MtAgentVitals = ''agent-vitals''"
| "as_protocol_str MtEvidenceRecord = ''evidence-record''"
| "as_protocol_str MtUsbDevicePolicyDecision = ''usb-device-policy-decision''"
| "as_protocol_str MtMdmWipeResult = ''mdm-wipe-result''"
| "as_protocol_str MtMdmLockResult = ''mdm-lock-result''"
| "as_protocol_str MtMdmLostModeEntered = ''mdm-lost-mode-entered''"
| "as_protocol_str MtMdmLostModeExited = ''mdm-lost-mode-exited''"
| "as_protocol_str MtMdmRecoveryKeyEscrowed = ''mdm-recovery-key-escrowed''"
| "as_protocol_str MtMdmOsUpdateResult = ''mdm-os-update-result''"
| "as_protocol_str MtMdmConfigProfileApplied = ''mdm-config-profile-applied''"
| "as_protocol_str MtMdmAutoRemediationResult = ''mdm-auto-remediation-result''"
| "as_protocol_str MtProcessCreated = ''edr-process-created''"
| "as_protocol_str MtProcessTerminated = ''edr-process-terminated''"
| "as_protocol_str MtImageLoaded = ''edr-image-loaded''"
| "as_protocol_str MtNetworkConnection = ''edr-network-connection''"
| "as_protocol_str MtDnsQuery = ''edr-dns-query''"
| "as_protocol_str MtMemoryScanAlert = ''edr-memory-scan-alert''"
| "as_protocol_str MtHostIsolationStateChanged = ''edr-host-isolation-state-changed''"
| "as_protocol_str MtIdentityAlert = ''edr-identity-alert''"
| "as_protocol_str MtGeneric = ''message''"

definition protocol_strings :: "(string \<times> MessageType) list" where
  "protocol_strings =
    [(''syscheck'', MtSyscheck),
     (''log'', MtLog),
     (''rootcheck'', MtRootcheck),
     (''sca'', MtSca),
     (''syscollector'', MtSyscollector),
     (''keep_alive'', MtKeepalive),
     (''active-response'', MtActiveResponse),
     (''agent_start'', MtStartup),
     (''agent_stop'', MtShutdown),
     (''request'', MtRequest),
     (''local-detection'', MtLocalDetection),
     (''device-control-finding'', MtDeviceControlFinding),
     (''device-control-recommendation'', MtDeviceControlRecommendation),
     (''device-control-job'', MtDeviceControlJob),
     (''device-control-action-result'', MtDeviceControlActionResult),
     (''device-posture-state'', MtDevicePostureState),
     (''software-inventory-delta'', MtSoftwareInventoryDelta),
     (''software-job-result'', MtSoftwareJobResult),
     (''jit-admin-requested'', MtJitAdminRequested),
     (''jit-admin-granted'', MtJitAdminGranted),
     (''jit-admin-revoked'', MtJitAdminRevoked),
     (''query-result'', MtQueryResult),
     (''script-run-result'', MtScriptRunResult),
     (''remote-support-session-started'', MtRemoteSupportSessionStarted),
     (''remote-support-session-ended'', MtRemoteSupportSessionEnded),
     (''agent-vitals'', MtAgentVitals),
     (''evidence-record'', MtEvidenceRecord),
     (''usb-device-policy-decision'', MtUsbDevicePolicyDecision),
     (''mdm-wipe-result'', MtMdmWipeResult),
     (''mdm-lock-result'', MtMdmLockResult),
     (''mdm-lost-mode-entered'', MtMdmLostModeEntered),
     (''mdm-lost-mode-exited'', MtMdmLostModeExited),
     (''mdm-recovery-key-escrowed'', MtMdmRecoveryKeyEscrowed),
     (''mdm-os-update-result'', MtMdmOsUpdateResult),
     (''mdm-config-profile-applied'', MtMdmConfigProfileApplied),
     (''mdm-auto-remediation-result'', MtMdmAutoRemediationResult),
     (''edr-process-created'', MtProcessCreated),
     (''edr-process-terminated'', MtProcessTerminated),
     (''edr-image-loaded'', MtImageLoaded),
     (''edr-network-connection'', MtNetworkConnection),
     (''edr-dns-query'', MtDnsQuery),
     (''edr-memory-scan-alert'', MtMemoryScanAlert),
     (''edr-host-isolation-state-changed'', MtHostIsolationStateChanged),
     (''edr-identity-alert'', MtIdentityAlert)]"

definition from_protocol_str :: "string \<Rightarrow> MessageType" where
  "from_protocol_str s = (case map_of protocol_strings s of Some t \<Rightarrow> t | None \<Rightarrow> MtGeneric)"

text \<open>The queue byte and source tag \<open>encode_body\<close> puts before the payload.\<close>

primrec body_prefix :: "MessageType \<Rightarrow> string" where
  "body_prefix MtSyscheck = ''8:syscheck:''"
| "body_prefix MtLog = ''1:''"
| "body_prefix MtRootcheck = ''9:''"
| "body_prefix MtSca = ''p:''"
| "body_prefix MtSyscollector = ''d:''"
| "body_prefix MtKeepalive = ''''"
| "body_prefix MtActiveResponse = ''1:active-response:''"
| "body_prefix MtStartup = ''''"
| "body_prefix MtShutdown = ''''"
| "body_prefix MtRequest = ''''"
| "body_prefix MtLocalDetection = ''1:local-detection:''"
| "body_prefix MtDeviceControlFinding = ''1:device-control:finding:''"
| "body_prefix MtDeviceControlRecommendation = ''1:device-control:recommendation:''"
| "body_prefix MtDeviceControlJob = ''1:device-control:job:''"
| "body_prefix MtDeviceControlActionResult = ''1:device-control:action-result:''"
| "body_prefix MtDevicePostureState = ''1:device-posture:''"
| "body_prefix MtSoftwareInventoryDelta = ''1:software-inventory:''"
| "body_prefix MtSoftwareJobResult = ''1:software-job:''"
| "body_prefix MtJitAdminRequested = ''1:jit-admin:requested:''"
| "body_prefix MtJitAdminGranted = ''1:jit-admin:granted:''"
| "body_prefix MtJitAdminRevoked = ''1:jit-admin:revoked:''"
| "body_prefix MtQueryResult = ''1:query-result:''"
| "body_prefix MtScriptRunResult = ''1:script-run:''"
| "body_prefix MtRemoteSupportSessionStarted = ''1:remote-support:started:''"
| "body_prefix MtRemoteSupportSessionEnded = ''1:remote-support:ended:''"
| "body_prefix MtAgentVitals = ''1:agent-vitals:''"
| "body_prefix MtEvidenceRecord = ''1:evidence-record:''"
| "body_prefix MtUsbDevicePolicyDecision = ''1:device-control:usb-policy-decision:''"
| "body_prefix MtMdmWipeResult = ''1:mdm:wipe-result:''"
| "body_prefix MtMdmLockResult = ''1:mdm:lock-result:''"
| "body_prefix MtMdmLostModeEntered = ''1:mdm:lost-mode-entered:''"
| "body_prefix MtMdmLostModeExited = ''1:mdm:lost-mode-exited:''"
| "body_prefix MtMdmRecoveryKeyEscrowed = ''1:mdm:recovery-key-escrowed:''"
| "body_prefix MtMdmOsUpdateResult = ''1:mdm:os-update-result:''"
| "body_prefix MtMdmConfigProfileApplied = ''1:mdm:config-profile-applied:''"
| "body_prefix MtMdmAutoRemediationResult = ''1:mdm:auto-remediation-result:''"
| "body_prefix MtProcessCreated = ''1:edr:process-created:''"
| "body_prefix MtProcessTerminated = ''1:edr:process-terminated:''"
| "body_prefix MtImageLoaded = ''1:edr:image-loaded:''"
| "body_prefix MtNetworkConnection = ''1:edr:network-connection:''"
| "body_prefix MtDnsQuery = ''1:edr:dns-query:''"
| "body_prefix MtMemoryScanAlert = ''1:edr:memory-scan-alert:''"
| "body_prefix MtHostIsolationStateChanged = ''1:edr:host-isolation-state-changed:''"
| "body_prefix MtIdentityAlert = ''1:edr:identity-alert:''"
| "body_prefix MtGeneric = ''''"

section \<open>Messages\<close>

record WazuhMessage =
  agent_id :: string
  msg_type :: MessageType
  wm_payload :: string
  wm_compress :: bool

definition message_new :: "string \<Rightarrow> MessageType \<Rightarrow> string \<Rightarrow> WazuhMessage" where
  "message_new i t p = \<lparr>agent_id = i, msg_type = t, wm_payload = p, wm_compress = False\<rparr>"

definition with_compression :: "WazuhMessage \<Rightarrow> WazuhMessage" where
  "with_compression m = m\<lparr>wm_compress := True\<rparr>"

text \<open>\<open>compress_payload\<close> unwraps the encoder's results.\<close>

definition compress_payload :: "(bytes \<Rightarrow> (bytes, 'e) result) \<Rightarrow> bytes \<Rightarrow> bytes run" where
  "compress_payload zlib bs = expect (zlib bs)"

definition message_encode :: "(bytes \<Rightarrow> (bytes, 'e) result) \<Rightarrow> WazuhMessage \<Rightarrow> bytes run" where
  "message_encode zlib m =
     (let wire = agent_id m @ '':'' @ as_protocol_str (msg_type m) @ '':'' @ wm_payload m
      in if wm_compress m then compress_payload zlib wire else Ret wire)"

definition encode_body :: "(bytes \<Rightarrow> (bytes, 'e) result) \<Rightarrow> WazuhMessage \<Rightarrow> bytes run" where
  "encode_body zlib m =
     (let body = body_prefix (msg_type m) @ wm_payload m
      in if wm_compress m then compress_payload zlib body else Ret body)"

definition message_decode :: "bytes \<Rightarrow> WazuhMessage option" where
  "message_decode bs =
     (case from_utf8 bs of None \<Rightarrow> None
      | Some s \<Rightarrow>
        (case splitn 3 (CHR '':'') s of
           i # t # rest \<Rightarrow> Some \<lparr>agent_id = i, msg_type = from_protocol_str t,
             wm_payload = (case rest of [] \<Rightarrow> '''' | p # _ \<Rightarrow> p), wm_compress = False\<rparr>
         | _ \<Rightarrow> None))"

text \<open>\<open>basic_uname\<close> and \<open>basic_distro\<close> on Linux; the two files may be unreadable.\<close>

definition basic_distro :: string where
  "basic_distro = ''Linux|generic''"

definition basic_uname :: "string option \<Rightarrow> string option \<Rightarrow> string \<Rightarrow> string" where
  "basic_uname hostname osrelease machine =
     (let nodename = trim_str (case hostname of Some s \<Rightarrow> s | None \<Rightarrow> ''unknown'');
          release = trim_str (case osrelease of Some s \<Rightarrow> s | None \<Rightarrow> ''unknown'')
      in ''Linux |'' @ nodename @ '' |'' @ release @ '' |#1 SMP '' @ machine @ '' |'' @ machine)"

definition keepalive :: "string \<Rightarrow> string \<Rightarrow> WazuhMessage" where
  "keepalive uname i =
     message_new i MtKeepalive
       (''#!-'' @ uname @ '' ['' @ basic_distro @ ''] - Wazuh v4.13.1 / 11111111111111111111111111111111'' @ [CHR 0x0A] @
        ''22222222222222222222222222222222 merged.mg'' @ [CHR 0x0A])"

definition startup :: "string \<Rightarrow> WazuhMessage" where
  "startup i = message_new i MtStartup ''#!-agent startup {\"version\":\"v4.9.2\"}''"

section \<open>Names\<close>

lemma map_of_as_protocol_str: "map_of protocol_strings (as_protocol_str t) = (if t = MtGeneric then None else Some t)"
  by (induct t; code_simp)

theorem protocol_str_roundtrip: "from_protocol_str (as_protocol_str t) = t"
  by (simp add: from_protocol_str_def map_of_as_protocol_str)

lemma protocol_strings_as: "list_all (\<lambda>(s, t). as_protocol_str t = s) protocol_strings"
  by code_simp

theorem protocol_str_known: "from_protocol_str s \<noteq> MtGeneric \<Longrightarrow> as_protocol_str (from_protocol_str s) = s"
proof -
  assume "from_protocol_str s \<noteq> MtGeneric"
  then obtain t where "map_of protocol_strings s = Some t" "from_protocol_str s = t"
    by (auto simp: from_protocol_str_def split: option.splits)
  then show ?thesis using map_of_SomeD [of protocol_strings s t] protocol_strings_as by (auto simp: list_all_iff)
qed

lemma protocol_str_no_colon: "list_all (\<lambda>c. c \<noteq> CHR '':'') (as_protocol_str t)"
  by (induct t; code_simp)

section \<open>Round trip\<close>

text \<open>A clear message reads back as sent when its agent id has no colon.\<close>

theorem message_roundtrip:
  assumes "utf8_valid (agent_id m @ '':'' @ as_protocol_str (msg_type m) @ '':'' @ wm_payload m)"
    "CHR '':'' \<notin> set (agent_id m)" "\<not> wm_compress m"
  shows "\<exists>wire. message_encode zlib m = Ret wire \<and> message_decode wire = Some m"
proof -
  have "CHR '':'' \<notin> set (as_protocol_str (msg_type m))" using protocol_str_no_colon [of "msg_type m"] by (auto simp: list_all_iff)
  then have "splitn 3 (CHR '':'') (agent_id m @ '':'' @ as_protocol_str (msg_type m) @ '':'' @ wm_payload m)
      = [agent_id m, as_protocol_str (msg_type m), wm_payload m]"
    using assms(2) by (simp add: numeral_3_eq_3 split_once_append)
  then show ?thesis using assms by (simp add: message_encode_def message_decode_def from_utf8_def protocol_str_roundtrip)
qed

text \<open>The manager routes a decrypted body on its prefix. Apart from the plain log queue, whose
  payload is free text, and the control messages, which have none, no prefix starts another: the
  type and the payload of a body are determined.\<close>

definition tagged :: "MessageType \<Rightarrow> bool" where
  "tagged t \<longleftrightarrow> body_prefix t \<noteq> '''' \<and> t \<noteq> MtLog"

definition tagged_types :: "MessageType list" where
  "tagged_types = filter tagged (map snd protocol_strings)"

lemma tagged_types_iff: "tagged t \<longleftrightarrow> t \<in> set tagged_types"
  by (induct t; code_simp)

lemma prefix_free: "list_all (\<lambda>s. list_all (\<lambda>t. prefix (body_prefix s) (body_prefix t) \<longrightarrow> s = t) tagged_types) tagged_types"
  by code_simp

text \<open>
  The queue prefix separates the message types: two uncompressed bodies of tagged types (every
  type but plain log lines and control messages) are equal only for the same type and payload.
\<close>

theorem body_unambiguous:
  assumes "tagged (msg_type m)" "tagged (msg_type m')" "\<not> wm_compress m" "\<not> wm_compress m'"
    "encode_body zlib m = encode_body zlib m'"
  shows "msg_type m = msg_type m' \<and> wm_payload m = wm_payload m'"
proof -
  have eq: "body_prefix (msg_type m) @ wm_payload m = body_prefix (msg_type m') @ wm_payload m'"
    using assms by (simp add: encode_body_def)
  then have "prefix (body_prefix (msg_type m)) (body_prefix (msg_type m')) \<or> prefix (body_prefix (msg_type m')) (body_prefix (msg_type m))"
    by (metis prefixI prefix_same_cases)
  then have "msg_type m = msg_type m'"
    using prefix_free assms(1,2) unfolding tagged_types_iff list_all_iff by metis
  with eq show ?thesis by simp
qed

theorem body_unambiguous_witness:
  "encode_body (Ok :: bytes \<Rightarrow> (bytes, unit) result) (message_new ''001'' MtSca ''x'') = encode_body Ok (message_new ''002'' MtSca ''x'') \<and>
   msg_type (message_new ''001'' MtSca ''x'') = msg_type (message_new ''002'' MtSca ''x'') \<and>
   wm_payload (message_new ''001'' MtSca ''x'') = wm_payload (message_new ''002'' MtSca ''x'')"
  using body_unambiguous [of "message_new ''001'' MtSca ''x''" "message_new ''002'' MtSca ''x''" "Ok :: bytes \<Rightarrow> (bytes, unit) result"]
  by (simp add: message_new_def tagged_def encode_body_def)

end
