(* ===== verification/WazuhConnection.thy ===== *)
theory WazuhConnection
  imports WazuhProtocol
begin

text \<open>
  \<open>sda-comms/src/connection.rs\<close>: the connection to the Wazuh manager. A TCP stream is the bytes
  still to be read and the bytes written so far; a UDP socket is its datagrams. What a call on a
  socket does is an argument: the outcome of each dial, and for each write how many bytes got
  through before it failed. \<open>connect_with_retry\<close> sleeps between attempts; the sleep has no effect
  on the state and is left out.
\<close>

section \<open>Frames\<close>

datatype ConnectionError =
    ConnectFailed string
  | SendFailed string
  | ReceiveFailed string
  | Closed
  | AuthFailed
  | Timeout

primrec crypto_error_str :: "CryptoError \<Rightarrow> string" where
  "crypto_error_str (EncryptionFailed s) = ''encryption failed: '' @ s"
| "crypto_error_str (DecryptionFailed s) = ''decryption failed: '' @ s"
| "crypto_error_str InvalidKeyLength = ''invalid key length''"
| "crypto_error_str EmptyPayload = ''empty decrypted payload''"

definition strip_routing_prefix :: "bytes \<Rightarrow> bytes" where
  "strip_routing_prefix buf =
     (let body =
        (case buf of
           b # rest \<Rightarrow>
             if b = CHR ''!'' then
               (if CHR ''!'' \<in> set rest then drop (length (takeWhile (\<lambda>x. x \<noteq> CHR ''!'') rest) + 2) buf else buf)
             else buf
         | [] \<Rightarrow> buf)
      in if take 5 body = ''#AES:'' then drop 5 body
         else if body \<noteq> [] \<and> hd body = CHR '':'' then drop 1 body
         else body)"

definition decrypt_frame :: "cipher_ext \<Rightarrow> WazuhCipher option \<Rightarrow> bytes \<Rightarrow> (bytes option, ConnectionError) result run" where
  "decrypt_frame ext cipher buf =
     (case cipher of
        Some c \<Rightarrow> bind_run (decrypt ext c (strip_routing_prefix buf)) (\<lambda>r. Ret
          (case r of
             Ok plaintext \<Rightarrow> Ok (Some plaintext)
           | Err EmptyPayload \<Rightarrow> Ok None
           | Err e \<Rightarrow> Err (ReceiveFailed (crypto_error_str e))))
      | None \<Rightarrow> Ret (Ok (if buf = [] then None else Some buf)))"

definition format_socket_addr :: "string \<Rightarrow> 16 word \<Rightarrow> string" where
  "format_socket_addr host port =
     (if CHR '':'' \<in> set host \<and> \<not> (host \<noteq> [] \<and> hd host = CHR ''['')
      then ''['' @ host @ '']:'' @ nat_str (unat port)
      else host @ '':'' @ nat_str (unat port))"

section \<open>The connection manager\<close>

datatype TransportProtocol = Tcp | Udp

record ConnectionConfig =
  server_address :: string
  server_port :: "16 word"
  cc_protocol :: TransportProtocol

record tcp_stream =
  inbound :: bytes
  outbound :: bytes

record udp_socket =
  dgrams_in :: "bytes list"
  dgrams_out :: "bytes list"

record ConnectionManager =
  cm_config :: ConnectionConfig
  cm_cipher :: "WazuhCipher option"
  cm_stream :: "tcp_stream option"
  cm_udp :: "udp_socket option"
  connected :: bool
  consecutive_failures :: u32

text \<open>The zlib level of \<open>compress_payload\<close> differs from the cipher's, so it is its own parameter.\<close>

record net_ext =
  net_cipher :: cipher_ext
  net_zlib :: "bytes \<Rightarrow> (bytes, string) result"

text \<open>One dial: no answer within the time limit, an error, or a stream; for UDP a bind and a connect.\<close>

record dial =
  tcp_dial :: "(tcp_stream, string) result option"
  udp_bind :: "(unit, string) result"
  udp_connect :: "(udp_socket, string) result"

definition conn_new :: "ConnectionConfig \<Rightarrow> ConnectionManager" where
  "conn_new cfg = \<lparr>cm_config = cfg, cm_cipher = None, cm_stream = None, cm_udp = None,
     connected = False, consecutive_failures = 0\<rparr>"

definition set_cipher :: "WazuhCipher \<Rightarrow> ConnectionManager \<Rightarrow> ConnectionManager" where
  "set_cipher c cm = cm\<lparr>cm_cipher := Some c\<rparr>"

definition connect :: "dial \<Rightarrow> ConnectionManager \<Rightarrow> (unit, ConnectionError) result \<times> ConnectionManager" where
  "connect d cm =
     (case cc_protocol (cm_config cm) of
        Tcp \<Rightarrow>
          (case tcp_dial d of
             None \<Rightarrow> (Err Timeout, cm)
           | Some (Err e) \<Rightarrow> (Err (ConnectFailed e), cm)
           | Some (Ok s) \<Rightarrow> (Ok (), cm\<lparr>cm_stream := Some s, connected := True, consecutive_failures := 0\<rparr>))
      | Udp \<Rightarrow>
          (case udp_bind d of
             Err e \<Rightarrow> (Err (ConnectFailed e), cm)
           | Ok _ \<Rightarrow>
             (case udp_connect d of
                Err e \<Rightarrow> (Err (ConnectFailed e), cm)
              | Ok s \<Rightarrow> (Ok (), cm\<lparr>cm_udp := Some s, connected := True, consecutive_failures := 0\<rparr>))))"

text \<open>The loop ends only by connecting. The dials are numbered from \<open>n\<close>; the number of the next
  one is returned.\<close>

partial_function (option) connect_with_retry :: "(nat \<Rightarrow> dial) \<Rightarrow> nat \<Rightarrow> ConnectionManager \<Rightarrow> (nat \<times> ConnectionManager) option" where
  "connect_with_retry dials n cm =
     (case connect (dials n) cm of
        (Ok _, cm') \<Rightarrow> Some (Suc n, cm')
      | (Err _, cm') \<Rightarrow> connect_with_retry dials (Suc n) (cm'\<lparr>consecutive_failures := consecutive_failures cm' + 1\<rparr>))"

definition build_wire_frame :: "net_ext \<Rightarrow> 16 word \<times> bytes \<Rightarrow> WazuhMessage \<Rightarrow> ConnectionManager \<Rightarrow>
    ((bytes, ConnectionError) result \<times> ConnectionManager) run" where
  "build_wire_frame ext = (\<lambda>(rnd, iv) m cm.
     bind_run (encode_body (net_zlib ext) m) (\<lambda>body.
     case cm_cipher cm of
       Some c \<Rightarrow>
         (case encrypt (net_cipher ext) rnd iv c body of
            (r, c') \<Rightarrow>
              Ret (case r of
                     Err e \<Rightarrow> Err (SendFailed (crypto_error_str e))
                   | Ok encrypted \<Rightarrow> Ok (''!'' @ agent_id m @ ''!'' @ crypto_token c @ encrypted),
                   cm\<lparr>cm_cipher := Some c'\<rparr>))
     | None \<Rightarrow> bind_run (message_encode (net_zlib ext) m) (\<lambda>w. Ret (Ok w, cm))))"

text \<open>How a write goes: \<open>None\<close> succeeds; \<open>Some (n, e)\<close> fails with \<open>e\<close> after \<open>n\<close> bytes.\<close>

type_synonym write_fault = "(nat \<times> string) option"

record write_env =
  write_len :: write_fault
  write_data :: write_fault
  write_flush :: "string option"
  udp_send :: "string option"

definition tcp_write :: "write_fault \<Rightarrow> bytes \<Rightarrow> tcp_stream \<Rightarrow> (unit, ConnectionError) result \<times> tcp_stream" where
  "tcp_write fault bs s =
     (case fault of
        None \<Rightarrow> (Ok (), s\<lparr>outbound := outbound s @ bs\<rparr>)
      | Some (n, e) \<Rightarrow> (Err (SendFailed e), s\<lparr>outbound := outbound s @ take n bs\<rparr>))"

definition to_le_bytes :: "u32 \<Rightarrow> bytes" where
  "to_le_bytes w = rev (to_be_bytes w)"

definition from_le_bytes :: "bytes \<Rightarrow> u32" where
  "from_le_bytes bs = from_be_bytes (rev bs)"

definition send_raw :: "write_env \<Rightarrow> bytes \<Rightarrow> ConnectionManager \<Rightarrow> (unit, ConnectionError) result \<times> ConnectionManager" where
  "send_raw we frame cm =
     (case cc_protocol (cm_config cm) of
        Tcp \<Rightarrow>
          (case cm_stream cm of
             None \<Rightarrow> (Err Closed, cm)
           | Some s \<Rightarrow>
             (case tcp_write (write_len we) (to_le_bytes (of_nat (length frame))) s of
                (Err e, s) \<Rightarrow> (Err e, cm\<lparr>cm_stream := Some s\<rparr>)
              | (Ok _, s) \<Rightarrow>
                (case tcp_write (write_data we) frame s of
                   (Err e, s) \<Rightarrow> (Err e, cm\<lparr>cm_stream := Some s\<rparr>)
                 | (Ok _, s) \<Rightarrow>
                   (case write_flush we of
                      Some e \<Rightarrow> (Err (SendFailed e), cm\<lparr>cm_stream := Some s\<rparr>)
                    | None \<Rightarrow> (Ok (), cm\<lparr>cm_stream := Some s\<rparr>)))))
      | Udp \<Rightarrow>
          (case cm_udp cm of
             None \<Rightarrow> (Err Closed, cm)
           | Some s \<Rightarrow>
             (case udp_send we of
                Some e \<Rightarrow> (Err (SendFailed e), cm)
              | None \<Rightarrow> (Ok (), cm\<lparr>cm_udp := Some (s\<lparr>dgrams_out := dgrams_out s @ [frame]\<rparr>)\<rparr>))))"

definition disconnect :: "ConnectionManager \<Rightarrow> ConnectionManager" where
  "disconnect cm = cm\<lparr>cm_stream := None, cm_udp := None, connected := False\<rparr>"

record send_env =
  first_draw :: "16 word \<times> bytes"
  first_write :: write_env
  redials :: "nat \<Rightarrow> dial"
  second_draw :: "16 word \<times> bytes"
  second_write :: write_env

text \<open>\<open>send\<close>: \<open>None\<close> when the reconnection never succeeds.\<close>

definition send :: "net_ext \<Rightarrow> send_env \<Rightarrow> WazuhMessage \<Rightarrow> ConnectionManager \<Rightarrow>
    ((unit, ConnectionError) result \<times> ConnectionManager) run option" where
  "send ext env m cm =
     (case build_wire_frame ext (first_draw env) m cm of
        Panic \<Rightarrow> Some Panic
      | Ret (Err e, cm) \<Rightarrow> Some (Ret (Err e, cm))
      | Ret (Ok frame, cm) \<Rightarrow>
        (case send_raw (first_write env) frame cm of
           (Ok _, cm) \<Rightarrow> Some (Ret (Ok (), cm))
         | (Err _, cm) \<Rightarrow>
           (case connect_with_retry (redials env) 0 (disconnect cm) of
              None \<Rightarrow> None
            | Some (_, cm) \<Rightarrow>
              (case build_wire_frame ext (second_draw env) m cm of
                 Panic \<Rightarrow> Some Panic
               | Ret (Err e, cm) \<Rightarrow> Some (Ret (Err e, cm))
               | Ret (Ok frame2, cm) \<Rightarrow> Some (Ret (send_raw (second_write env) frame2 cm))))))"

text \<open>\<open>read_exact\<close>: too few bytes are consumed and reported with the text \<open>eof\<close>.\<close>

definition read_exact :: "string \<Rightarrow> nat \<Rightarrow> tcp_stream \<Rightarrow> (bytes, ConnectionError) result \<times> tcp_stream" where
  "read_exact eof n s =
     (if length (inbound s) < n then (Err (ReceiveFailed eof), s\<lparr>inbound := []\<rparr>)
      else (Ok (take n (inbound s)), s\<lparr>inbound := drop n (inbound s)\<rparr>))"

definition MAX_FRAME :: nat where
  "MAX_FRAME = 65536"

definition receive :: "net_ext \<Rightarrow> string \<Rightarrow> ConnectionManager \<Rightarrow> ((bytes option, ConnectionError) result \<times> ConnectionManager) run" where
  "receive ext eof cm =
     (case cc_protocol (cm_config cm) of
        Tcp \<Rightarrow>
          (case cm_stream cm of
             None \<Rightarrow> Ret (Err Closed, cm)
           | Some s \<Rightarrow>
             (case read_exact eof 4 s of
                (Err e, s) \<Rightarrow> Ret (Err e, cm\<lparr>cm_stream := Some s\<rparr>)
              | (Ok len_buf, s) \<Rightarrow>
                let len = unat (from_le_bytes len_buf) in
                if len > MAX_FRAME
                then Ret (Err (ReceiveFailed (''message too large: '' @ nat_str len @ '' bytes'')), cm\<lparr>cm_stream := Some s\<rparr>)
                else
                  (case read_exact eof len s of
                     (Err e, s) \<Rightarrow> Ret (Err e, cm\<lparr>cm_stream := Some s\<rparr>)
                   | (Ok buf, s) \<Rightarrow>
                     bind_run (decrypt_frame (net_cipher ext) (cm_cipher cm) buf) (\<lambda>r. Ret (r, cm\<lparr>cm_stream := Some s\<rparr>)))))
      | Udp \<Rightarrow>
          (case cm_udp cm of
             None \<Rightarrow> Ret (Err Closed, cm)
           | Some s \<Rightarrow>
             (case dgrams_in s of
                [] \<Rightarrow> Ret (Err (ReceiveFailed eof), cm)
              | d # ds \<Rightarrow>
                bind_run (decrypt_frame (net_cipher ext) (cm_cipher cm) (take MAX_FRAME d))
                  (\<lambda>r. Ret (r, cm\<lparr>cm_udp := Some (s\<lparr>dgrams_in := ds\<rparr>)\<rparr>)))))"

section \<open>Frames survive the wire\<close>

lemma take5_colon: "take 5 (CHR '':'' # xs) \<noteq> ''#AES:''"
  by (simp add: numeral_eq_Suc)

lemma strip_token: "strip_routing_prefix (crypto_token c @ ct) = ct"
  by (cases "wc_method c") (simp_all add: strip_routing_prefix_def crypto_token_def take5_colon Let_def)

lemma strip_agent_frame:
  assumes "CHR ''!'' \<notin> set i"
  shows "strip_routing_prefix (''!'' @ i @ ''!'' @ crypto_token c @ ct) = ct"
proof -
  have "takeWhile (\<lambda>x. x \<noteq> CHR ''!'') (i @ CHR ''!'' # r) = i" for r
    using assms by (induction i) auto
  then have "strip_routing_prefix (''!'' @ i @ ''!'' @ crypto_token c @ ct) =
     (if take 5 (crypto_token c @ ct) = ''#AES:'' then drop 5 (crypto_token c @ ct)
      else if crypto_token c @ ct \<noteq> [] \<and> hd (crypto_token c @ ct) = CHR '':'' then drop 1 (crypto_token c @ ct)
      else crypto_token c @ ct)"
    by (simp add: strip_routing_prefix_def Let_def)
  then show ?thesis by (cases "wc_method c") (simp_all add: crypto_token_def take5_colon)
qed

text \<open>What a manager needs to send: a cipher in a good state.\<close>

definition sender_ok :: "ConnectionManager \<Rightarrow> WazuhCipher \<Rightarrow> bool" where
  "sender_ok cm peer \<longleftrightarrow>
     (\<exists>c. cm_cipher cm = Some c \<and> counters_ok c \<and> length (aes_key c) = 32 \<and> same_keys c peer)"

definition draw_ok :: "16 word \<times> bytes \<Rightarrow> bool" where
  "draw_ok d \<longleftrightarrow> length (snd d) = 16"

definition ext_laws :: "net_ext \<Rightarrow> bool" where
  "ext_laws ext \<longleftrightarrow> md5_laws (net_cipher ext) \<and> zlib_laws (net_cipher ext) \<and> aes_laws (net_cipher ext)"

lemma build_wire_frame_ok:
  assumes "ext_laws ext" "sender_ok cm peer" "draw_ok d" "CHR ''!'' \<notin> set (agent_id m)" "encode_body (net_zlib ext) m = Ret body"
  shows "\<exists>frame c'. build_wire_frame ext d m cm = Ret (Ok frame, cm\<lparr>cm_cipher := Some c'\<rparr>) \<and>
     sender_ok (cm\<lparr>cm_cipher := Some c'\<rparr>) peer \<and>
     decrypt_frame (net_cipher ext) (Some peer) frame = Ret (Ok (Some body))"
proof -
  obtain c where c: "cm_cipher cm = Some c" "counters_ok c" "length (aes_key c) = 32" "same_keys c peer"
    using assms(2) unfolding sender_ok_def by blast
  obtain rnd iv where d: "d = (rnd, iv)" "length iv = 16" using assms(3) by (cases d) (simp add: draw_ok_def)
  obtain r c' where e: "encrypt (net_cipher ext) rnd iv c body = (r, c')" by fastforce
  obtain ct where ct: "r = Ok ct" "decrypt (net_cipher ext) peer ct = Ret (Ok body)"
    using decrypt_encrypt [of "net_cipher ext" c iv peer rnd body] assms(1) c(2-4) d(2) e unfolding ext_laws_def by auto
  have "sender_ok (cm\<lparr>cm_cipher := Some c'\<rparr>) peer"
    using encrypt_state [OF e c(2), of peer] c by (simp add: sender_ok_def)
  moreover have "decrypt_frame (net_cipher ext) (Some peer) (''!'' @ agent_id m @ ''!'' @ crypto_token c @ ct) = Ret (Ok (Some body))"
    unfolding decrypt_frame_def option.case strip_agent_frame [OF assms(4)] ct(2) by simp
  ultimately show ?thesis using assms(5) c(1) ct(1) by (intro exI [of _ c'] exI) (auto simp: build_wire_frame_def d e)
qed

section \<open>Length prefixes\<close>

definition framed :: "bytes \<Rightarrow> bytes" where
  "framed frame = to_le_bytes (of_nat (length frame)) @ frame"

lemma le_bytes_roundtrip: "from_le_bytes (to_le_bytes w) = w"
  by (simp add: from_le_bytes_def to_le_bytes_def from_to_be_bytes)

lemma length_to_le_bytes [simp]: "length (to_le_bytes w) = 4"
  by (simp add: to_le_bytes_def)

lemma unat_frame_length: "length f \<le> MAX_FRAME \<Longrightarrow> unat (of_nat (length f) :: u32) = length f"
  by (rule unat_be_value) (simp add: MAX_FRAME_def)

lemma receive_framed:
  assumes "cc_protocol (cm_config cm) = Tcp" "cm_stream cm = Some s" "inbound s = framed f @ rest" "length f \<le> MAX_FRAME"
    "decrypt_frame (net_cipher ext) (cm_cipher cm) f = Ret r"
  shows "receive ext eof cm = Ret (r, cm\<lparr>cm_stream := Some (s\<lparr>inbound := rest\<rparr>)\<rparr>)"
proof -
  have "read_exact eof 4 s = (Ok (to_le_bytes (of_nat (length f))), s\<lparr>inbound := f @ rest\<rparr>)"
    using assms(3) by (simp add: read_exact_def framed_def)
  moreover have "read_exact eof (length f) (s\<lparr>inbound := f @ rest\<rparr>) = (Ok f, s\<lparr>inbound := rest\<rparr>)"
    by (simp add: read_exact_def)
  ultimately show ?thesis using assms(1,2,4,5) by (simp add: receive_def le_bytes_roundtrip unat_frame_length Let_def)
qed

section \<open>Sending\<close>

lemma send_raw_Ok:
  assumes "send_raw we frame cm = (Ok (), cm')" "cc_protocol (cm_config cm) = Tcp"
  shows "\<exists>s. cm_stream cm = Some s \<and> cm' = cm\<lparr>cm_stream := Some (s\<lparr>outbound := outbound s @ framed frame\<rparr>)\<rparr>"
  using assms by (auto simp: send_raw_def tcp_write_def framed_def split: option.splits result.splits prod.splits if_splits)

definition calm_write :: "write_env \<Rightarrow> bool" where
  "calm_write we \<longleftrightarrow> write_len we = None \<and> write_data we = None \<and> write_flush we = None"

lemma send_raw_calm:
  assumes "calm_write we" "cc_protocol (cm_config cm) = Tcp" "cm_stream cm = Some s"
  shows "send_raw we frame cm = (Ok (), cm\<lparr>cm_stream := Some (s\<lparr>outbound := outbound s @ framed frame\<rparr>)\<rparr>)"
  using assms by (simp add: send_raw_def tcp_write_def framed_def calm_write_def)

section \<open>Reconnecting\<close>

definition dial_ok :: "TransportProtocol \<Rightarrow> dial \<Rightarrow> bool" where
  "dial_ok t d = (case t of Tcp \<Rightarrow> (\<exists>s. tcp_dial d = Some (Ok s)) | Udp \<Rightarrow> udp_bind d = Ok () \<and> is_ok (udp_connect d))"

lemma connect_keeps:
  assumes "connect d cm = (r, cm')"
  shows "cm_config cm' = cm_config cm \<and> cm_cipher cm' = cm_cipher cm \<and> (is_ok r \<longleftrightarrow> dial_ok (cc_protocol (cm_config cm)) d) \<and>
     (is_ok r \<longrightarrow> connected cm' \<and> consecutive_failures cm' = 0 \<and> (cc_protocol (cm_config cm) = Tcp \<longrightarrow> cm_stream cm' \<noteq> None))"
  using assms by (auto simp: connect_def dial_ok_def split: TransportProtocol.splits option.splits result.splits)

lemma connect_with_retry_step:
  "connect_with_retry dials n cm =
     (case connect (dials n) cm of
        (Ok _, cm') \<Rightarrow> Some (Suc n, cm')
      | (Err _, cm') \<Rightarrow> connect_with_retry dials (Suc n) (cm'\<lparr>consecutive_failures := consecutive_failures cm' + 1\<rparr>))"
  by (rule connect_with_retry.simps)

lemma connect_with_retry_reaches:
  assumes "dial_ok (cc_protocol (cm_config cm)) (dials (n + k))" "\<forall>j<k. \<not> dial_ok (cc_protocol (cm_config cm)) (dials (n + j))"
  shows "\<exists>cm'. connect_with_retry dials n cm = Some (Suc (n + k), cm') \<and> connected cm' \<and> consecutive_failures cm' = 0 \<and>
     cm_config cm' = cm_config cm \<and> cm_cipher cm' = cm_cipher cm \<and> (cc_protocol (cm_config cm) = Tcp \<longrightarrow> cm_stream cm' \<noteq> None)"
  using assms
proof (induction k arbitrary: n cm)
  case 0
  obtain r cm' where c: "connect (dials n) cm = (r, cm')" by fastforce
  then show ?case using connect_keeps [OF c] 0 by (subst connect_with_retry_step) (cases r; simp)
next
  case (Suc k)
  obtain r cm' where c: "connect (dials n) cm = (r, cm')" by fastforce
  have "\<not> dial_ok (cc_protocol (cm_config cm)) (dials n)" using Suc.prems(2) by (metis add.right_neutral zero_less_Suc)
  then obtain e where e: "r = Err e" using connect_keeps [OF c] by (cases r) auto
  let ?cm = "cm'\<lparr>consecutive_failures := consecutive_failures cm' + 1\<rparr>"
  have keep: "cm_config ?cm = cm_config cm" "cm_cipher ?cm = cm_cipher cm" using connect_keeps [OF c] by simp_all
  have "\<forall>j<k. \<not> dial_ok (cc_protocol (cm_config ?cm)) (dials (Suc n + j))"
    using Suc.prems(2) keep by (metis Suc_less_eq add_Suc add_Suc_right)
  moreover have "dial_ok (cc_protocol (cm_config ?cm)) (dials (Suc n + k))" using Suc.prems(1) keep by simp
  ultimately show ?case using Suc.IH [of ?cm "Suc n"] keep c e by (subst connect_with_retry_step) simp
qed

lemma connect_with_retry_result:
  assumes "connect_with_retry dials n cm = Some (k, cm')"
  shows "cm_config cm' = cm_config cm \<and> cm_cipher cm' = cm_cipher cm \<and> (\<exists>j. dial_ok (cc_protocol (cm_config cm)) (dials j))"
proof -
  let ?P = "\<lambda>dials n cm y. cm_config (snd y) = cm_config cm \<and> cm_cipher (snd y) = cm_cipher cm \<and> (\<exists>j. dial_ok (cc_protocol (cm_config cm)) (dials j))"
  have "?P dials n cm (k, cm')"
  proof (rule connect_with_retry.raw_induct [of ?P, OF _ assms])
    fix f :: "(nat \<Rightarrow> dial) \<Rightarrow> nat \<Rightarrow> ConnectionManager \<Rightarrow> (nat \<times> ConnectionManager) option" and dials n cm y
    assume IH: "\<And>dials n cm y. f dials n cm = Some y \<Longrightarrow> ?P dials n cm y"
      and y: "(case connect (dials n) cm of
        (Ok _, cm') \<Rightarrow> Some (Suc n, cm')
      | (Err _, cm') \<Rightarrow> f dials (Suc n) (cm'\<lparr>consecutive_failures := consecutive_failures cm' + 1\<rparr>)) = Some y"
    obtain r c1 where c: "connect (dials n) cm = (r, c1)" by fastforce
    show "?P dials n cm y"
    proof (cases r)
      case (Ok u)
      then show ?thesis using y c connect_keeps [OF c] by auto
    next
      case (Err e)
      then have "f dials (Suc n) (c1\<lparr>consecutive_failures := consecutive_failures c1 + 1\<rparr>) = Some y" using y c by simp
      from IH [OF this] show ?thesis using connect_keeps [OF c] by simp
    qed
  qed
  then show ?thesis by simp
qed

text \<open>
  C28: the retry loop returns exactly when some dial succeeds, at the first one that does; then the
  manager is connected, its failure count is cleared and its cipher and configuration are kept.
\<close>

theorem connect_with_retry_spec:
  "if \<exists>k. dial_ok (cc_protocol (cm_config cm)) (dials k)
   then \<exists>cm'. connect_with_retry dials 0 cm = Some (Suc (LEAST k. dial_ok (cc_protocol (cm_config cm)) (dials k)), cm') \<and>
     connected cm' \<and> consecutive_failures cm' = 0 \<and> cm_config cm' = cm_config cm \<and> cm_cipher cm' = cm_cipher cm
   else connect_with_retry dials 0 cm = None"
proof (cases "\<exists>k. dial_ok (cc_protocol (cm_config cm)) (dials k)")
  case True
  let ?k = "LEAST k. dial_ok (cc_protocol (cm_config cm)) (dials k)"
  have "dial_ok (cc_protocol (cm_config cm)) (dials (0 + ?k))" using LeastI_ex [OF True] by simp
  moreover have "\<forall>j<?k. \<not> dial_ok (cc_protocol (cm_config cm)) (dials (0 + j))" by (auto dest: not_less_Least)
  ultimately show ?thesis
    unfolding if_P [OF True] using connect_with_retry_reaches [of cm dials 0 ?k] unfolding add_0 by blast
next
  case False
  then show ?thesis using connect_with_retry_result [of dials 0 cm] by (cases "connect_with_retry dials 0 cm") auto
qed

section \<open>Delivery\<close>

text \<open>The last thing on the current stream is a whole frame with this body.\<close>

definition delivered :: "net_ext \<Rightarrow> WazuhCipher \<Rightarrow> bytes \<Rightarrow> ConnectionManager \<Rightarrow> bool" where
  "delivered ext peer body cm \<longleftrightarrow>
     (\<exists>s w frame. cm_stream cm = Some s \<and> outbound s = w @ framed frame \<and>
        decrypt_frame (net_cipher ext) (Some peer) frame = Ret (Ok (Some body)))"

lemma send_raw_keeps: "send_raw we f cm = (r, cm') \<Longrightarrow> cm_config cm' = cm_config cm \<and> cm_cipher cm' = cm_cipher cm"
  by (auto simp: send_raw_def split: TransportProtocol.splits option.splits result.splits prod.splits)

lemma send_raw_delivers:
  assumes "send_raw we frame cm = (Ok (), cm')" "cc_protocol (cm_config cm) = Tcp"
    "decrypt_frame (net_cipher ext) (Some peer) frame = Ret (Ok (Some body))"
  shows "delivered ext peer body cm'"
  using send_raw_Ok [OF assms(1,2)] assms(3) unfolding delivered_def by fastforce

text \<open>
  C12: when \<open>send\<close> reports success over TCP, on the first attempt or after a reconnection, a whole frame
  that the peer decrypts to the message body is the last thing written on the current stream.
\<close>

theorem send_delivers:
  assumes laws: "ext_laws ext" "sender_ok cm peer" "draw_ok (first_draw env)" "draw_ok (second_draw env)"
    and m: "CHR ''!'' \<notin> set (agent_id m)" "encode_body (net_zlib ext) m = Ret body"
    and tcp: "cc_protocol (cm_config cm) = Tcp"
    and ok: "send ext env m cm = Some (Ret (Ok (), cm'))"
  shows "delivered ext peer body cm'"
proof -
  obtain f1 c1 where b1: "build_wire_frame ext (first_draw env) m cm = Ret (Ok f1, cm\<lparr>cm_cipher := Some c1\<rparr>)"
      "sender_ok (cm\<lparr>cm_cipher := Some c1\<rparr>) peer" "decrypt_frame (net_cipher ext) (Some peer) f1 = Ret (Ok (Some body))"
    using build_wire_frame_ok [OF laws(1-3) m] by blast
  obtain r cm1 where r: "send_raw (first_write env) f1 (cm\<lparr>cm_cipher := Some c1\<rparr>) = (r, cm1)" by fastforce
  show ?thesis
  proof (cases r)
    case (Ok u)
    then have "cm1 = cm'" using ok b1(1) r by (simp add: send_def)
    then show ?thesis using send_raw_delivers [of "first_write env" f1 _ cm'] r Ok tcp b1(3) by simp
  next
    case (Err e)
    then obtain n cm2 where c: "connect_with_retry (redials env) 0 (disconnect cm1) = Some (n, cm2)"
      using ok b1(1) r by (auto simp: send_def split: option.splits)
    have k: "cm_config cm2 = cm_config cm" "cm_cipher cm2 = Some c1"
      using connect_with_retry_result [OF c] send_raw_keeps [OF r] by (simp_all add: disconnect_def)
    then have "sender_ok cm2 peer" using b1(2) by (simp add: sender_ok_def)
    then obtain f2 c2 where b2: "build_wire_frame ext (second_draw env) m cm2 = Ret (Ok f2, cm2\<lparr>cm_cipher := Some c2\<rparr>)"
        "decrypt_frame (net_cipher ext) (Some peer) f2 = Ret (Ok (Some body))"
      using build_wire_frame_ok [OF laws(1) _ laws(4) m] by blast
    then have "send_raw (second_write env) f2 (cm2\<lparr>cm_cipher := Some c2\<rparr>) = (Ok (), cm')"
      using ok b1(1) r Err c by (simp add: send_def)
    then show ?thesis using send_raw_delivers [of "second_write env" f2 _ cm'] tcp b2(2) k(1) by simp
  qed
qed

section \<open>A run of messages over one stream\<close>

primrec send_all :: "net_ext \<Rightarrow> (send_env \<times> WazuhMessage) list \<Rightarrow> ConnectionManager \<Rightarrow> ConnectionManager run option" where
  "send_all ext [] cm = Some (Ret cm)"
| "send_all ext (x # xs) cm =
     (case send ext (fst x) (snd x) cm of
        Some (Ret (_, cm')) \<Rightarrow> send_all ext xs cm' | Some Panic \<Rightarrow> Some Panic | None \<Rightarrow> None)"

primrec receive_all :: "net_ext \<Rightarrow> string \<Rightarrow> nat \<Rightarrow> ConnectionManager \<Rightarrow> (bytes option, ConnectionError) result list run" where
  "receive_all ext eof 0 cm = Ret []"
| "receive_all ext eof (Suc n) cm =
     bind_run (receive ext eof cm) (\<lambda>(r, cm'). bind_run (receive_all ext eof n cm') (\<lambda>rs. Ret (r # rs)))"

lemma send_calm:
  assumes "ext_laws ext" "sender_ok cm peer" "draw_ok (first_draw env)" "calm_write (first_write env)"
    "CHR ''!'' \<notin> set (agent_id m)" "encode_body (net_zlib ext) m = Ret body"
    "cc_protocol (cm_config cm) = Tcp" "cm_stream cm = Some s"
  shows "\<exists>frame cm'. send ext env m cm = Some (Ret (Ok (), cm')) \<and> sender_ok cm' peer \<and> cm_config cm' = cm_config cm \<and>
     cm_stream cm' = Some (s\<lparr>outbound := outbound s @ framed frame\<rparr>) \<and>
     decrypt_frame (net_cipher ext) (Some peer) frame = Ret (Ok (Some body))"
proof -
  obtain f c where b: "build_wire_frame ext (first_draw env) m cm = Ret (Ok f, cm\<lparr>cm_cipher := Some c\<rparr>)"
      "sender_ok (cm\<lparr>cm_cipher := Some c\<rparr>) peer" "decrypt_frame (net_cipher ext) (Some peer) f = Ret (Ok (Some body))"
    using build_wire_frame_ok [OF assms(1-3,5,6)] by blast
  let ?cm = "cm\<lparr>cm_cipher := Some c\<rparr>" let ?s = "s\<lparr>outbound := outbound s @ framed f\<rparr>"
  have "send_raw (first_write env) f ?cm = (Ok (), ?cm\<lparr>cm_stream := Some ?s\<rparr>)"
    using send_raw_calm [OF assms(4), of ?cm s f] assms(7,8) by simp
  then have "send ext env m cm = Some (Ret (Ok (), ?cm\<lparr>cm_stream := Some ?s\<rparr>))" using b(1) by (simp add: send_def)
  moreover have "sender_ok (?cm\<lparr>cm_stream := Some ?s\<rparr>) peer" using b(2) by (simp add: sender_ok_def)
  ultimately show ?thesis using b(3) by (intro exI [of _ f] exI [of _ "?cm\<lparr>cm_stream := Some ?s\<rparr>"]) simp
qed

lemma receive_frames:
  assumes "cc_protocol (cm_config cm) = Tcp" "cm_cipher cm = Some peer" "cm_stream cm = Some s"
    "inbound s = concat (map framed frames)" "list_all (\<lambda>f. length f \<le> MAX_FRAME) frames"
    "list_all2 (\<lambda>f b. decrypt_frame (net_cipher ext) (Some peer) f = Ret (Ok (Some b))) frames bodies"
  shows "receive_all ext eof (length bodies) cm = Ret (map (\<lambda>b. Ok (Some b)) bodies)"
  using assms(6,1-5)
proof (induction arbitrary: cm s rule: list_all2_induct)
  case (Cons f fs b bs)
  let ?cm = "cm\<lparr>cm_stream := Some (s\<lparr>inbound := concat (map framed fs)\<rparr>)\<rparr>"
  have "receive ext eof cm = Ret (Ok (Some b), ?cm)"
    using receive_framed [of cm s f "concat (map framed fs)" ext] Cons by simp
  moreover have "receive_all ext eof (length bs) ?cm = Ret (map (\<lambda>b. Ok (Some b)) bs)"
    using Cons.IH [of ?cm] Cons.prems by simp
  ultimately show ?case by simp
qed simp

text \<open>The messages sent on one stream without faults.\<close>

definition sendable :: "send_env \<times> WazuhMessage \<Rightarrow> bool" where
  "sendable x \<longleftrightarrow> calm_write (first_write (fst x)) \<and> draw_ok (first_draw (fst x)) \<and>
     CHR ''!'' \<notin> set (agent_id (snd x)) \<and> \<not> wm_compress (snd x)"

definition clear_body :: "WazuhMessage \<Rightarrow> bytes" where
  "clear_body m = body_prefix (msg_type m) @ wm_payload m"

lemma send_all_frames:
  assumes "ext_laws ext"
  shows "sender_ok cm peer \<Longrightarrow> cc_protocol (cm_config cm) = Tcp \<Longrightarrow> cm_stream cm = Some s \<Longrightarrow> list_all sendable xs \<Longrightarrow>
    \<exists>frames cm'. send_all ext xs cm = Some (Ret cm') \<and>
      cm_stream cm' = Some (s\<lparr>outbound := outbound s @ concat (map framed frames)\<rparr>) \<and>
      list_all2 (\<lambda>f b. decrypt_frame (net_cipher ext) (Some peer) f = Ret (Ok (Some b))) frames (map (\<lambda>x. clear_body (snd x)) xs)"
proof (induction xs arbitrary: cm s)
  case Nil
  then show ?case by (intro exI [of _ "[]"]) simp
next
  case (Cons x xs)
  obtain env m where x: "x = (env, m)" by fastforce
  have ok: "calm_write (first_write env)" "draw_ok (first_draw env)" "CHR ''!'' \<notin> set (agent_id m)"
    and body: "encode_body (net_zlib ext) m = Ret (clear_body m)"
    using Cons.prems(4) by (simp_all add: x sendable_def encode_body_def clear_body_def)
  have rest: "list_all sendable xs" using Cons.prems(4) by simp
  obtain f cm1 where f: "send ext env m cm = Some (Ret (Ok (), cm1))" "sender_ok cm1 peer" "cm_config cm1 = cm_config cm"
      "cm_stream cm1 = Some (s\<lparr>outbound := outbound s @ framed f\<rparr>)"
      "decrypt_frame (net_cipher ext) (Some peer) f = Ret (Ok (Some (clear_body m)))"
    using send_calm [OF assms Cons.prems(1) ok(2,1,3) body Cons.prems(2,3)] by blast
  obtain fs cm' where fs: "send_all ext xs cm1 = Some (Ret cm')"
      "cm_stream cm' = Some ((s\<lparr>outbound := outbound s @ framed f\<rparr>)\<lparr>outbound := outbound (s\<lparr>outbound := outbound s @ framed f\<rparr>) @ concat (map framed fs)\<rparr>)"
      "list_all2 (\<lambda>f b. decrypt_frame (net_cipher ext) (Some peer) f = Ret (Ok (Some b))) fs (map (\<lambda>x. clear_body (snd x)) xs)"
    using Cons.IH [OF f(2) _ f(4)] f(3) Cons.prems(2) rest by metis
  show ?case using f(1,5) fs by (intro exI [of _ "f # fs"] exI [of _ cm']) (simp add: x)
qed

text \<open>
  C26: messages sent on one TCP stream without faults arrive: the bytes written are the length-prefixed
  frames in order, and a receiver with the same keys that reads them gets exactly the bodies in
  order, as long as no frame exceeds the receiver's limit of 64 KiB.
\<close>

theorem tcp_channel:
  assumes "ext_laws ext" "sender_ok cm peer" "cc_protocol (cm_config cm) = Tcp" "cm_stream cm = Some s" "list_all sendable xs"
  shows "\<exists>frames cm'. send_all ext xs cm = Some (Ret cm') \<and>
      cm_stream cm' = Some (s\<lparr>outbound := outbound s @ concat (map framed frames)\<rparr>) \<and>
      (\<forall>eof rcv t. list_all (\<lambda>f. length f \<le> MAX_FRAME) frames \<longrightarrow>
         cc_protocol (cm_config rcv) = Tcp \<longrightarrow> cm_cipher rcv = Some peer \<longrightarrow> cm_stream rcv = Some t \<longrightarrow>
         inbound t = concat (map framed frames) \<longrightarrow>
         receive_all ext eof (length xs) rcv = Ret (map (\<lambda>x. Ok (Some (clear_body (snd x)))) xs))"
proof -
  obtain frames cm' where fr: "send_all ext xs cm = Some (Ret cm')"
      "cm_stream cm' = Some (s\<lparr>outbound := outbound s @ concat (map framed frames)\<rparr>)"
      "list_all2 (\<lambda>f b. decrypt_frame (net_cipher ext) (Some peer) f = Ret (Ok (Some b))) frames (map (\<lambda>x. clear_body (snd x)) xs)"
    using send_all_frames [OF assms] by blast
  have "receive_all ext eof (length xs) rcv = Ret (map (\<lambda>x. Ok (Some (clear_body (snd x)))) xs)"
    if "list_all (\<lambda>f. length f \<le> MAX_FRAME) frames" "cc_protocol (cm_config rcv) = Tcp" "cm_cipher rcv = Some peer"
      "cm_stream rcv = Some t" "inbound t = concat (map framed frames)" for eof rcv t
    using receive_frames [OF that(2-5,1) fr(3), of eof] by (simp add: comp_def)
  with fr(1,2) show ?thesis by blast
qed

section \<open>Receiving is total\<close>

lemma decrypt_frame_returns:
  "\<exists>r. decrypt_frame e c b = Ret r \<and> (\<forall>x. r = Ok (Some x) \<longrightarrow> c = None \<longrightarrow> x = b \<and> b \<noteq> [])"
proof (cases c)
  case (Some k)
  then show ?thesis using decrypt_returns [of e k "strip_routing_prefix b"] by (auto simp: decrypt_frame_def)
qed (simp add: decrypt_frame_def)

theorem receive_returns:
  "\<exists>r cm'. receive ext eof cm = Ret (r, cm') \<and> cm_cipher cm' = cm_cipher cm \<and> connected cm' = connected cm \<and>
     (\<forall>b. r = Ok (Some b) \<longrightarrow> cm_cipher cm = None \<longrightarrow> 0 < length b \<and> length b \<le> MAX_FRAME)"
proof (cases "cc_protocol (cm_config cm)")
  case Tcp
  show ?thesis
  proof (cases "cm_stream cm")
    case (Some s)
    obtain r s1 where r1: "read_exact eof 4 s = (r, s1)" by fastforce
    show ?thesis
    proof (cases r)
      case (Ok lb)
      let ?n = "unat (from_le_bytes lb)"
      obtain q s2 where r2: "read_exact eof ?n s1 = (q, s2)" by fastforce
      show ?thesis
      proof (cases q)
        case q: (Ok b)
        then have "length b = ?n" using r2 by (auto simp: read_exact_def split: if_splits)
        moreover obtain x where x: "decrypt_frame (net_cipher ext) (cm_cipher cm) b = Ret x"
            "\<forall>y. x = Ok (Some y) \<longrightarrow> cm_cipher cm = None \<longrightarrow> y = b \<and> b \<noteq> []"
          using decrypt_frame_returns by blast
        moreover have "receive ext eof cm = Ret (x, cm\<lparr>cm_stream := Some s2\<rparr>)" if "\<not> MAX_FRAME < ?n"
          using that by (simp add: receive_def Tcp Some r1 Ok r2 q Let_def x(1))
        ultimately show ?thesis by (cases "MAX_FRAME < ?n") (simp add: receive_def Tcp Some r1 Ok Let_def, force)
      qed (simp add: receive_def Tcp Some r1 Ok r2 Let_def)
    qed (simp add: receive_def Tcp Some r1)
  qed (simp add: receive_def Tcp)
next
  case Udp
  show ?thesis
  proof (cases "cm_udp cm")
    case (Some s)
    show ?thesis
    proof (cases "dgrams_in s")
      case (Cons d ds)
      obtain x where x: "decrypt_frame (net_cipher ext) (cm_cipher cm) (take MAX_FRAME d) = Ret x"
          "\<forall>y. x = Ok (Some y) \<longrightarrow> cm_cipher cm = None \<longrightarrow> y = take MAX_FRAME d \<and> take MAX_FRAME d \<noteq> []"
        using decrypt_frame_returns by blast
      have "receive ext eof cm = Ret (x, cm\<lparr>cm_udp := Some (s\<lparr>dgrams_in := ds\<rparr>)\<rparr>)"
        by (simp add: receive_def Udp Some Cons x(1))
      then show ?thesis using x(2) by fastforce
    qed (simp add: receive_def Udp Some)
  qed (simp add: receive_def Udp)
qed

section \<open>Instances\<close>

definition net0 :: net_ext where
  "net0 = \<lparr>net_cipher = plain_ext, net_zlib = Ok\<rparr>"

definition calm0 :: write_env where
  "calm0 = \<lparr>write_len = None, write_data = None, write_flush = None, udp_send = None\<rparr>"

definition broken0 :: write_env where
  "broken0 = \<lparr>write_len = None, write_data = Some (3, ''broken pipe''), write_flush = None, udp_send = None\<rparr>"

definition stream0 :: tcp_stream where
  "stream0 = \<lparr>inbound = [], outbound = []\<rparr>"

text \<open>The first write breaks in the middle of the frame; the second redial succeeds.\<close>

definition env0 :: "write_env \<Rightarrow> send_env" where
  "env0 w = \<lparr>first_draw = (7, replicate 16 (CHR 0x01)), first_write = w,
     redials = (\<lambda>n. \<lparr>tcp_dial = (if n = 0 then None else Some (Ok stream0)), udp_bind = Ok (), udp_connect = Err ''''\<rparr>),
     second_draw = (8, replicate 16 (CHR 0x02)), second_write = calm0\<rparr>"

definition conn0 :: "WazuhCipher \<Rightarrow> ConnectionManager" where
  "conn0 c = (set_cipher c (conn_new \<lparr>server_address = ''m'', server_port = 1514, cc_protocol = Tcp\<rparr>))\<lparr>cm_stream := Some stream0\<rparr>"

lemma net0_laws: "ext_laws net0"
  using plain_ext_laws by (simp add: ext_laws_def net0_def)

lemma conn0_ok: "\<exists>c. sender_ok (conn0 c) c \<and> wc_method c = MBlowfish"
proof -
  obtain bf where "cipher_new plain_ext ''001'' ''h'' ''any'' ''k'' MBlowfish =
      Ret \<lparr>wc_method = MBlowfish, encryption_key = derive_key plain_ext ''001'' ''h'' ''k'', aes_key = hex_md5 plain_ext ''k'',
           wc_blowfish = bf, global_counter = 0, local_counter = 0\<rparr>"
    using cipher_new_ok [OF plain_ext_laws(1), of "''001''" "''h''" "''any''" "''k''" MBlowfish] by blast
  show ?thesis
    by (rule exI [of _ "\<lparr>wc_method = MBlowfish, encryption_key = derive_key plain_ext ''001'' ''h'' ''k'', aes_key = hex_md5 plain_ext ''k'',
           wc_blowfish = bf, global_counter = 0, local_counter = 0\<rparr>"])
      (simp add: sender_ok_def conn0_def set_cipher_def counters_ok_def same_keys_def length_hex_md5 [OF plain_ext_laws(1)])
qed

definition log0 :: WazuhMessage where
  "log0 = message_new ''001'' MtLog ''line''"

theorem tcp_channel_witness:
  "\<exists>c frames cm'. send_all net0 [(env0 calm0, log0)] (conn0 c) = Some (Ret cm') \<and>
     cm_stream cm' = Some (stream0\<lparr>outbound := concat (map framed frames)\<rparr>)"
proof -
  obtain c where c: "sender_ok (conn0 c) c" using conn0_ok by blast
  have "list_all sendable [(env0 calm0, log0)]"
    by (simp add: sendable_def env0_def calm0_def calm_write_def draw_ok_def log0_def message_new_def)
  moreover have "cc_protocol (cm_config (conn0 c)) = Tcp" "cm_stream (conn0 c) = Some stream0" "outbound stream0 = []"
    by (simp_all add: conn0_def set_cipher_def conn_new_def stream0_def)
  ultimately show ?thesis using tcp_channel [OF net0_laws c, of stream0 "[(env0 calm0, log0)]"] by auto
qed

theorem send_delivers_witness:
  "\<exists>c cm'. send net0 (env0 broken0) log0 (conn0 c) = Some (Ret (Ok (), cm')) \<and> delivered net0 c ''1:line'' cm'"
proof -
  obtain c where c: "sender_ok (conn0 c) c" using conn0_ok by blast
  have d: "draw_ok (first_draw (env0 broken0))" "draw_ok (second_draw (env0 broken0))" by (simp_all add: env0_def draw_ok_def)
  have m: "CHR ''!'' \<notin> set (agent_id log0)" "encode_body (net_zlib net0) log0 = Ret ''1:line''"
    by (simp_all add: log0_def message_new_def encode_body_def)
  have t: "cc_protocol (cm_config (conn0 c)) = Tcp" by (simp add: conn0_def set_cipher_def conn_new_def)
  obtain f1 c1 where b1: "build_wire_frame net0 (first_draw (env0 broken0)) log0 (conn0 c) = Ret (Ok f1, (conn0 c)\<lparr>cm_cipher := Some c1\<rparr>)"
      "sender_ok ((conn0 c)\<lparr>cm_cipher := Some c1\<rparr>) c"
    using build_wire_frame_ok [OF net0_laws c d(1) m] by blast
  let ?cm = "(conn0 c)\<lparr>cm_cipher := Some c1\<rparr>"
  have st0: "cm_stream (conn0 c) = Some stream0" by (simp add: conn0_def)
  have "\<exists>cm1. send_raw broken0 f1 ?cm = (Err (SendFailed ''broken pipe''), cm1)"
    using t st0 by (simp add: send_raw_def tcp_write_def broken0_def)
  then obtain cm1 where r1: "send_raw broken0 f1 ?cm = (Err (SendFailed ''broken pipe''), cm1)" by blast
  have r2: "cm_config cm1 = cm_config (conn0 c)" "cm_cipher cm1 = Some c1" using send_raw_keeps [OF r1] by simp_all
  have dials: "dial_ok Tcp (redials (env0 broken0) (0 + 1))" "\<forall>j<1. \<not> dial_ok Tcp (redials (env0 broken0) (0 + j))"
    by (simp_all add: dial_ok_def env0_def)
  have t1: "cc_protocol (cm_config (disconnect cm1)) = Tcp" using t r2(1) by (simp add: disconnect_def)
  obtain n cm2 st where k: "connect_with_retry (redials (env0 broken0)) 0 (disconnect cm1) = Some (n, cm2)"
      "cm_config cm2 = cm_config (disconnect cm1)" "cm_cipher cm2 = cm_cipher (disconnect cm1)" "cm_stream cm2 = Some st"
    using connect_with_retry_reaches [of "disconnect cm1" "redials (env0 broken0)" 0 1] dials t1 by auto
  have s2: "sender_ok cm2 c" using b1(2) r2(2) k(3) by (simp add: sender_ok_def disconnect_def)
  obtain f2 c2 where b2: "build_wire_frame net0 (second_draw (env0 broken0)) log0 cm2 = Ret (Ok f2, cm2\<lparr>cm_cipher := Some c2\<rparr>)"
    using build_wire_frame_ok [OF net0_laws s2 d(2) m] by blast
  have w: "first_write (env0 broken0) = broken0" "calm_write (second_write (env0 broken0))" by (simp_all add: env0_def calm0_def calm_write_def)
  have "\<exists>cm'. send net0 (env0 broken0) log0 (conn0 c) = Some (Ret (Ok (), cm'))"
    using b1(1) r1 k(1,2,4) b2 send_raw_calm [OF w(2), of "cm2\<lparr>cm_cipher := Some c2\<rparr>" st f2] t1
    by (simp add: send_def w(1))
  then show ?thesis using send_delivers [OF net0_laws c d m t] by blast
qed

end
