(* ===== verification/Enrollment.thy ===== *)
theory Enrollment
  imports WazuhConnection
begin

text \<open>
  \<open>sda-comms/src/enrollment.rs\<close>: the agent key, its line in \<open>client.keys\<close>, and the enrolment
  dialogue with the manager. The TCP and TLS layers are the argument \<open>enroll_env\<close>: the outcome of
  each call in the order the code makes them. The keys file is a map from paths to contents.
\<close>

section \<open>The agent key\<close>

datatype EnrollmentError =
    EnConnectionFailed string
  | Rejected string
  | InvalidResponse string
  | StorageFailed string
  | EnTimeout

record AgentKey =
  ak_id :: string
  ak_name :: string
  ak_ip :: string
  ak_key :: string

definition to_keys_line :: "AgentKey \<Rightarrow> string" where
  "to_keys_line k = ak_id k @ '' '' @ ak_name k @ '' '' @ ak_ip k @ '' '' @ ak_key k"

definition from_keys_line :: "string \<Rightarrow> AgentKey option" where
  "from_keys_line line =
     (case splitn 4 (CHR '' '') line of
        [i, n, ip, k] \<Rightarrow> Some \<lparr>ak_id = i, ak_name = n, ak_ip = ip, ak_key = k\<rparr>
      | _ \<Rightarrow> None)"

section \<open>Enrolment\<close>

record EnrollmentClient =
  en_server :: string
  en_port :: "16 word"
  en_agent_name :: string
  en_password :: "string option"
  en_groups :: "string list option"

definition enrollment_new :: "string \<Rightarrow> 16 word \<Rightarrow> string \<Rightarrow> EnrollmentClient" where
  "enrollment_new server port n = \<lparr>en_server = server, en_port = port, en_agent_name = n, en_password = None, en_groups = None\<rparr>"

definition with_password :: "string \<Rightarrow> EnrollmentClient \<Rightarrow> EnrollmentClient" where
  "with_password p c = c\<lparr>en_password := Some p\<rparr>"

definition with_groups :: "string list \<Rightarrow> EnrollmentClient \<Rightarrow> EnrollmentClient" where
  "with_groups gs c = c\<lparr>en_groups := Some gs\<rparr>"

text \<open>The outcomes: \<open>None\<close> is a timeout. A read that fails may still have left part of a line.\<close>

record enroll_env =
  ee_connect :: "string \<Rightarrow> (unit, string) result option"
  ee_server_name :: "string \<Rightarrow> (unit, string) result"
  ee_handshake :: "(unit, string) result option"
  ee_write :: "bytes \<Rightarrow> (unit, string) result"
  ee_flush :: "(unit, string) result"
  ee_read_line :: "bytes \<Rightarrow> (string \<times> string option) option"

definition enroll_request :: "EnrollmentClient \<Rightarrow> string" where
  "enroll_request c =
     (case en_password c of
        Some p \<Rightarrow> ''OSSEC PASS: '' @ p @ '' OSSEC A:'' @ [CHR 0x27] @ en_agent_name c @ [CHR 0x27, CHR 0x0A]
      | None \<Rightarrow> ''OSSEC A:'' @ [CHR 0x27] @ en_agent_name c @ [CHR 0x27, CHR 0x0A])"

definition trim_end_matches :: "char \<Rightarrow> string \<Rightarrow> string" where
  "trim_end_matches c s = rev (dropWhile (\<lambda>x. x = c) (rev s))"

definition strip_prefix :: "string \<Rightarrow> string \<Rightarrow> string option" where
  "strip_prefix p s = (if take (length p) s = p then Some (drop (length p) s) else None)"

definition parse_response :: "string \<Rightarrow> (AgentKey, EnrollmentError) result" where
  "parse_response line =
     (let response = trim_str line in
      case strip_prefix (''OSSEC K:'' @ [CHR 0x27]) response of
        Some key_data \<Rightarrow>
          ok_or (from_keys_line (trim_end_matches (CHR 0x27) key_data)) (InvalidResponse ''failed to parse agent key'')
      | None \<Rightarrow>
          if strip_prefix ''ERROR'' response \<noteq> None then Err (Rejected response) else Err (InvalidResponse response))"

definition or_timeout :: "(unit, string) result option \<Rightarrow> (string \<Rightarrow> EnrollmentError) \<Rightarrow> (unit, EnrollmentError) result" where
  "or_timeout r f = (case r of None \<Rightarrow> Err EnTimeout | Some r \<Rightarrow> map_err f r)"

definition enroll :: "enroll_env \<Rightarrow> EnrollmentClient \<Rightarrow> (AgentKey, EnrollmentError) result" where
  "enroll env c =
     (let addr = format_socket_addr (en_server c) (en_port c) in
      bind_result (or_timeout (ee_connect env addr) EnConnectionFailed) (\<lambda>_.
      bind_result (map_err (\<lambda>e. EnConnectionFailed (''invalid server name: '' @ e)) (ee_server_name env (en_server c))) (\<lambda>_.
      bind_result (or_timeout (ee_handshake env) (\<lambda>e. EnConnectionFailed (''TLS handshake failed: '' @ e))) (\<lambda>_.
      let request = enroll_request c in
      bind_result (map_err EnConnectionFailed (ee_write env request)) (\<lambda>_.
      bind_result (map_err EnConnectionFailed (ee_flush env)) (\<lambda>_.
      case ee_read_line env request of
        None \<Rightarrow> Err EnTimeout
      | Some (response, None) \<Rightarrow> parse_response response
      | Some (response, Some e) \<Rightarrow> if response = [] then Err (InvalidResponse e) else parse_response response))))))"

section \<open>The keys file\<close>

type_synonym file_system = "string \<Rightarrow> bytes option"

definition keys_file_path :: "string option \<Rightarrow> string" where
  "keys_file_path override = (case override of Some p \<Rightarrow> p | None \<Rightarrow> ''/etc/sn360-desktop-agent/client.keys'')"

definition load_agent_key :: "file_system \<Rightarrow> string option \<Rightarrow> AgentKey option" where
  "load_agent_key fs override =
     (case fs (keys_file_path override) of
        None \<Rightarrow> None
      | Some bs \<Rightarrow>
        (case from_utf8 bs of
           None \<Rightarrow> None
         | Some contents \<Rightarrow>
           (case str_lines contents of [] \<Rightarrow> None | line # _ \<Rightarrow> from_keys_line (trim_str line))))"

record save_faults =
  mkdir_fault :: "string option"
  write_fault :: "string option"
  chmod_fault :: "string option"

text \<open>A failed \<open>fs::write\<close> leaves the file as \<open>partial\<close> says; a failed \<open>set_permissions\<close> leaves it written.\<close>

definition save_agent_key :: "save_faults \<Rightarrow> bytes option \<Rightarrow> AgentKey \<Rightarrow> string option \<Rightarrow> file_system \<Rightarrow>
    (unit, EnrollmentError) result \<times> file_system" where
  "save_agent_key faults partial k override fs =
     (let path = keys_file_path override in
      case mkdir_fault faults of
        Some e \<Rightarrow> (Err (StorageFailed e), fs)
      | None \<Rightarrow>
        (case write_fault faults of
           Some e \<Rightarrow> (Err (StorageFailed e), fs(path := partial))
         | None \<Rightarrow>
           let fs = fs(path \<mapsto> to_keys_line k) in
           (case chmod_fault faults of
              Some e \<Rightarrow> (Err (StorageFailed e), fs)
            | None \<Rightarrow> (Ok (), fs))))"

section \<open>Round trips\<close>

text \<open>A key whose fields can be told apart on its line.\<close>

definition key_line_ok :: "AgentKey \<Rightarrow> bool" where
  "key_line_ok k \<longleftrightarrow> CHR '' '' \<notin> set (ak_id k) \<and> CHR '' '' \<notin> set (ak_name k) \<and> CHR '' '' \<notin> set (ak_ip k)"

lemma keys_line_roundtrip: "key_line_ok k \<Longrightarrow> from_keys_line (to_keys_line k) = Some k"
  by (simp add: key_line_ok_def from_keys_line_def to_keys_line_def numeral_eq_Suc split_once_append)

lemma split_char_absent: "c \<notin> set s \<Longrightarrow> split_char c s = [s]"
  by (induction s) auto

lemma to_keys_line_not_Nil: "to_keys_line k \<noteq> []"
  by (simp add: to_keys_line_def)

theorem save_load_agent_key:
  assumes "key_line_ok k" "utf8_valid (to_keys_line k)" "CHR 0x0A \<notin> set (to_keys_line k)" "trim_str (to_keys_line k) = to_keys_line k"
    and "save_agent_key faults partial k override fs = (Ok (), fs')"
  shows "load_agent_key fs' override = Some k"
proof -
  have "fs' (keys_file_path override) = Some (to_keys_line k)"
    using assms(5) by (auto simp: save_agent_key_def Let_def split: option.splits)
  moreover have "str_lines (to_keys_line k) = [to_keys_line k]"
    using assms(3) to_keys_line_not_Nil by (simp add: str_lines_def split_char_absent Let_def)
  ultimately show ?thesis using assms(2,4) keys_line_roundtrip [OF assms(1)] by (simp add: load_agent_key_def from_utf8_def)
qed

lemma trim_end_quote: "s \<noteq> [] \<Longrightarrow> last s \<noteq> c \<Longrightarrow> trim_end_matches c (s @ [c]) = s"
  by (cases s rule: rev_cases) (simp_all add: trim_end_matches_def)

text \<open>The manager's success line gives back the key it names.\<close>

theorem parse_response_key:
  assumes "key_line_ok k" "ak_key k \<noteq> []" "last (ak_key k) \<noteq> CHR 0x27"
    and "trim_str line = ''OSSEC K:'' @ [CHR 0x27] @ to_keys_line k @ [CHR 0x27]"
  shows "parse_response line = Ok k"
proof -
  have "last (to_keys_line k) \<noteq> CHR 0x27" using assms(2,3) by (simp add: to_keys_line_def)
  then have "trim_end_matches (CHR 0x27) (to_keys_line k @ [CHR 0x27]) = to_keys_line k"
    by (rule trim_end_quote [OF to_keys_line_not_Nil])
  then show ?thesis using assms(4) keys_line_roundtrip [OF assms(1)] by (simp add: parse_response_def strip_prefix_def)
qed

theorem enroll_Ok:
  assumes "enroll env c = Ok k"
  shows "\<exists>response e. ee_write env (enroll_request c) = Ok () \<and> ee_read_line env (enroll_request c) = Some (response, e) \<and>
     (\<exists>key_data. trim_str response = ''OSSEC K:'' @ [CHR 0x27] @ key_data \<and>
        from_keys_line (trim_end_matches (CHR 0x27) key_data) = Some k)"
proof -
  obtain response e where r: "ee_write env (enroll_request c) = Ok ()" "ee_read_line env (enroll_request c) = Some (response, e)"
      "parse_response response = Ok k"
    using assms by (auto simp: enroll_def Let_def result_simps split: option.splits if_splits)
  from r(3) obtain kd where kd: "strip_prefix (''OSSEC K:'' @ [CHR 0x27]) (trim_str response) = Some kd"
      "from_keys_line (trim_end_matches (CHR 0x27) kd) = Some k"
    by (auto simp: parse_response_def Let_def result_simps split: option.splits if_splits)
  then have "trim_str response = ''OSSEC K:'' @ [CHR 0x27] @ kd"
    unfolding strip_prefix_def by (metis append.assoc append_take_drop_id option.distinct(1) option.inject)
  then show ?thesis using r(1,2) kd(2) by blast
qed

end
