(* ===== verification/RemoteSupport.thy ===== *)
theory RemoteSupport
  imports Prelude
begin

text \<open>
  \<open>sda-remote-support\<close>: \<open>session.rs\<close> (the session state machine), \<open>consent.rs\<close> (the consent gate)
  and \<open>module.rs\<close> (the supervisor and its loop). Every call of \<open>Utc::now\<close>, the fresh session id,
  the answer of the consent prompt and the outcome of each call on the capture provider are
  arguments. The field \<open>captures\<close> is the set of capture sessions the provider has running; the code
  has no such field, it is what the properties speak about. Published events are collected in
  \<open>published\<close>.
\<close>

section \<open>Sessions\<close>

datatype SessionState = Pending | ConsentRequested | Active | Ended

datatype EndReason = ConsentDenied | OperatorDisconnect | Timeout | EndError string

record Session =
  session_id :: string
  operator_id :: string
  state :: SessionState
  created_at :: datetime
  started_at :: "datetime option"
  ended_at :: "datetime option"
  max_duration :: int
  end_reason :: "EndReason option"

datatype InvalidTransition = InvalidTransition (from_state: SessionState) (to_state: SessionState)

definition session_new :: "datetime \<Rightarrow> string \<Rightarrow> string \<Rightarrow> int \<Rightarrow> Session" where
  "session_new now i op d =
     \<lparr>session_id = i, operator_id = op, state = Pending, created_at = now, started_at = None,
      ended_at = None, max_duration = d, end_reason = None\<rparr>"

definition request_consent :: "Session \<Rightarrow> (Session, InvalidTransition) result" where
  "request_consent s =
     (if state s \<noteq> Pending then Err (InvalidTransition (state s) ConsentRequested)
      else Ok (s\<lparr>state := ConsentRequested\<rparr>))"

definition activate :: "datetime \<Rightarrow> Session \<Rightarrow> (Session, InvalidTransition) result" where
  "activate now s =
     (if state s \<noteq> ConsentRequested then Err (InvalidTransition (state s) Active)
      else Ok (s\<lparr>state := Active, started_at := Some now\<rparr>))"

definition session_end :: "datetime \<Rightarrow> EndReason \<Rightarrow> Session \<Rightarrow> (Session, InvalidTransition) result" where
  "session_end now r s =
     (if state s = Ended then Err (InvalidTransition (state s) Ended)
      else Ok (s\<lparr>state := Ended, ended_at := Some now, end_reason := Some r\<rparr>))"

definition is_expired :: "datetime \<Rightarrow> Session \<Rightarrow> bool" where
  "is_expired now s = (case started_at s of Some start \<Rightarrow> now - start \<ge> max_duration s | None \<Rightarrow> False)"

definition active_duration :: "datetime \<Rightarrow> Session \<Rightarrow> int option" where
  "active_duration now s =
     (case started_at s of None \<Rightarrow> None
      | Some start \<Rightarrow> Some ((case ended_at s of Some e \<Rightarrow> e | None \<Rightarrow> now) - start))"

section \<open>Consent\<close>

datatype ConsentDecision = Approved | Denied | TimedOut

record ConsentRecord =
  cr_session_id :: string
  cr_operator_id :: string
  cr_decision :: ConsentDecision
  cr_asked_at :: datetime

text \<open>\<open>StubConsentPrompt\<close>.\<close>

definition stub_ask :: "string \<Rightarrow> string \<Rightarrow> ConsentDecision" where
  "stub_ask i op = Denied"

text \<open>The Linux dialog. \<open>zenity\<close>: \<open>None\<close> when it cannot be run, otherwise its exit code (absent after
  a signal). \<open>kdialog\<close>: \<open>None\<close> when it cannot be spawned, otherwise what the \<open>n\<close>-th \<open>try_wait\<close> says,
  with the time read after it.\<close>

datatype poll = Exited bool | Running | PollErr

partial_function (option) kdialog_loop :: "int \<Rightarrow> (nat \<Rightarrow> poll \<times> int) \<Rightarrow> nat \<Rightarrow> bool option option" where
  "kdialog_loop deadline polls n =
     (case fst (polls n) of
        Exited ok \<Rightarrow> Some (Some ok)
      | PollErr \<Rightarrow> Some (Some False)
      | Running \<Rightarrow> if snd (polls n) \<ge> deadline then Some None else kdialog_loop deadline polls (Suc n))"

definition linux_dialog :: "int option option \<Rightarrow> (nat \<Rightarrow> poll \<times> int) option \<Rightarrow> int \<Rightarrow> bool option option" where
  "linux_dialog zenity kdialog deadline =
     (case zenity of
        Some code \<Rightarrow>
          Some (if code = Some 0 then Some True else if code = Some 1 then Some False
                else if code = Some 5 then None else Some False)
      | None \<Rightarrow>
          (case kdialog of Some polls \<Rightarrow> kdialog_loop deadline polls 0 | None \<Rightarrow> Some (Some False)))"

definition native_decision :: "bool option \<Rightarrow> ConsentDecision" where
  "native_decision r = (case r of Some True \<Rightarrow> Approved | Some False \<Rightarrow> Denied | None \<Rightarrow> TimedOut)"

definition native_message :: "string \<Rightarrow> string \<Rightarrow> string" where
  "native_message i op =
     ''A support analyst ('' @ op @ '') is requesting remote access to this device.'' @ [CHR 0x0A, CHR 0x0A] @
     ''Session: '' @ i @ [CHR 0x0A, CHR 0x0A] @ ''Do you want to allow this?''"

text \<open>\<open>ConsentManager::ask\<close>: ask, record, return.\<close>

definition consent_ask :: "datetime \<Rightarrow> ConsentDecision \<Rightarrow> string \<Rightarrow> string \<Rightarrow> ConsentRecord list \<Rightarrow> ConsentDecision \<times> ConsentRecord list" where
  "consent_ask now answer i op history =
     (answer, history @ [\<lparr>cr_session_id = i, cr_operator_id = op, cr_decision = answer, cr_asked_at = now\<rparr>])"

section \<open>The supervisor\<close>

datatype PalError = Backend string | NotSupported | PalConsentDenied | InvalidInput string | Io string

primrec pal_error_str :: "PalError \<Rightarrow> string" where
  "pal_error_str (Backend e) = ''remote-support backend failed: '' @ e"
| "pal_error_str NotSupported = ''remote-support not supported on this platform''"
| "pal_error_str PalConsentDenied = ''remote-support consent denied''"
| "pal_error_str (InvalidInput e) = ''remote-support input invalid: '' @ e"
| "pal_error_str (Io e) = ''remote-support IO error: '' @ e"

record SessionHandle =
  h_session_id :: string
  h_started_at :: datetime

record SessionParams =
  p_operator_id :: string
  p_max_duration :: int
  p_consent_required :: bool

text \<open>The provider of every current platform refuses to start and accepts to end.\<close>

definition stub_start_session :: "SessionParams \<Rightarrow> (SessionHandle, PalError) result" where
  "stub_start_session p = Err NotSupported"

definition stub_end_session :: "SessionHandle \<Rightarrow> (unit, PalError) result" where
  "stub_end_session h = Ok ()"

record RemoteSupportConfig =
  rs_enabled :: bool
  max_session_minutes :: nat
  require_consent :: bool

datatype RemoteSupportError =
    Pal PalError
  | RsConsentDenied
  | UnknownSession string
  | RsInvalidTransition InvalidTransition

record RemoteSupportRequest =
  rq_operator_id :: string
  max_duration_minutes :: "nat option"

datatype RemoteSupportEvent =
    Started string string datetime int
  | EndedEvent string string string int

record Supervisor =
  config :: RemoteSupportConfig
  history :: "ConsentRecord list"
  sessions :: "(Session \<times> SessionHandle option) list"
  captures :: "SessionHandle set"
  published :: "RemoteSupportEvent list"

definition supervisor_new :: "RemoteSupportConfig \<Rightarrow> Supervisor" where
  "supervisor_new cfg = \<lparr>config = cfg, history = [], sessions = [], captures = {}, published = []\<rparr>"

definition resolve_max_duration :: "RemoteSupportConfig \<Rightarrow> RemoteSupportRequest \<Rightarrow> int" where
  "resolve_max_duration cfg rq =
     (let cap_minutes = max (max_session_minutes cfg) 1;
          requested = (case max_duration_minutes rq of Some m \<Rightarrow> min m cap_minutes | None \<Rightarrow> cap_minutes)
      in seconds (60 * int requested))"

text \<open>\<open>chrono::Duration::num_seconds\<close> truncates towards zero.\<close>

definition num_seconds :: "int \<Rightarrow> int" where
  "num_seconds d = (if d \<ge> 0 then d div 1000000000 else - ((- d) div 1000000000))"

definition end_reason_str :: "EndReason option \<Rightarrow> string" where
  "end_reason_str r =
     (case r of
        Some ConsentDenied \<Rightarrow> ''consent_denied''
      | Some OperatorDisconnect \<Rightarrow> ''operator_disconnect''
      | Some Timeout \<Rightarrow> ''timeout''
      | Some (EndError msg) \<Rightarrow> ''error: '' @ msg
      | None \<Rightarrow> ''unknown'')"

definition emit_started :: "datetime \<Rightarrow> Session \<Rightarrow> Supervisor \<Rightarrow> Supervisor" where
  "emit_started now s sv = sv\<lparr>published := published sv @
     [Started (session_id s) (operator_id s) (case started_at s of Some t \<Rightarrow> t | None \<Rightarrow> now) (num_seconds (max_duration s))]\<rparr>"

definition emit_ended :: "datetime \<Rightarrow> Session \<Rightarrow> Supervisor \<Rightarrow> Supervisor" where
  "emit_ended now s sv = sv\<lparr>published := published sv @
     [EndedEvent (session_id s) (operator_id s) (end_reason_str (end_reason s))
        (case active_duration now s of Some d \<Rightarrow> num_seconds d | None \<Rightarrow> 0)]\<rparr>"

definition push_session :: "Session \<Rightarrow> SessionHandle option \<Rightarrow> Supervisor \<Rightarrow> Supervisor" where
  "push_session s h sv = sv\<lparr>sessions := sessions sv @ [(s, h)]\<rparr>"

text \<open>What one request meets: the new id, the clock at each reading, the user's answer and the provider.\<close>

record request_env =
  new_id :: string
  t_created :: datetime
  t_asked :: datetime
  t_active :: datetime
  t_ended :: datetime
  answer :: ConsentDecision
  pal_start :: "SessionParams \<Rightarrow> (SessionHandle, PalError) result"

text \<open>End a session that never became active, publish it, record it and return the error.\<close>

definition fail_session :: "request_env \<Rightarrow> EndReason \<Rightarrow> RemoteSupportError \<Rightarrow> Session \<Rightarrow> Supervisor \<Rightarrow>
    (Session, RemoteSupportError) result \<times> Supervisor" where
  "fail_session env r e s sv =
     (case session_end (t_ended env) r s of
        Err t \<Rightarrow> (Err (RsInvalidTransition t), sv)
      | Ok s \<Rightarrow> (Err e, push_session s None (emit_ended (t_ended env) s sv)))"

definition handle_request :: "request_env \<Rightarrow> RemoteSupportRequest \<Rightarrow> Supervisor \<Rightarrow> (Session, RemoteSupportError) result \<times> Supervisor" where
  "handle_request env rq sv =
     (let i = new_id env;
          d = resolve_max_duration (config sv) rq;
          s = session_new (t_created env) i (rq_operator_id rq) d
      in case request_consent s of
           Err t \<Rightarrow> (Err (RsInvalidTransition t), sv)
         | Ok s \<Rightarrow>
           let (decision, hist) =
                 (if require_consent (config sv)
                  then consent_ask (t_asked env) (answer env) i (rq_operator_id rq) (history sv)
                  else (Approved, history sv));
               sv = sv\<lparr>history := hist\<rparr>
           in if decision \<noteq> Approved then fail_session env ConsentDenied RsConsentDenied s sv
              else
                let params = \<lparr>p_operator_id = rq_operator_id rq, p_max_duration = d, p_consent_required = require_consent (config sv)\<rparr>
                in case pal_start env params of
                     Err NotSupported \<Rightarrow> fail_session env (EndError ''pal not supported'') (Pal NotSupported) s sv
                   | Err e \<Rightarrow> fail_session env (EndError (pal_error_str e)) (Pal e) s sv
                   | Ok h \<Rightarrow>
                     let sv = sv\<lparr>captures := insert h (captures sv)\<rparr>
                     in case activate (t_active env) s of
                          Err t \<Rightarrow> (Err (RsInvalidTransition t), sv)
                        | Ok s \<Rightarrow> (Ok s, push_session s (Some h) (emit_started (t_active env) s sv)))"

text \<open>\<open>iter().position\<close>.\<close>

primrec position :: "('a \<Rightarrow> bool) \<Rightarrow> 'a list \<Rightarrow> nat option" where
  "position P [] = None"
| "position P (x # xs) = (if P x then Some 0 else map_option Suc (position P xs))"

text \<open>A capture ends when the provider reports success.\<close>

definition pal_end_session :: "(SessionHandle \<Rightarrow> (unit, PalError) result) \<Rightarrow> SessionHandle option \<Rightarrow> Supervisor \<Rightarrow> Supervisor" where
  "pal_end_session pal h sv =
     (case h of
        None \<Rightarrow> sv
      | Some h \<Rightarrow> (case pal h of Ok _ \<Rightarrow> sv\<lparr>captures := captures sv - {h}\<rparr> | Err _ \<Rightarrow> sv))"

definition end_session :: "datetime \<Rightarrow> (SessionHandle \<Rightarrow> (unit, PalError) result) \<Rightarrow> string \<Rightarrow> EndReason \<Rightarrow> Supervisor \<Rightarrow>
    (Session, RemoteSupportError) result \<times> Supervisor" where
  "end_session now pal i r sv =
     (case position (\<lambda>x. session_id (fst x) = i) (sessions sv) of
        None \<Rightarrow> (Err (UnknownSession i), sv)
      | Some idx \<Rightarrow>
        let (s, h) = sessions sv ! idx in
        if state s = Ended then (Ok s, sv)
        else
          let sv = pal_end_session pal h sv in
          case session_end now r s of
            Err t \<Rightarrow> (Err (RsInvalidTransition t), sv)
          | Ok s \<Rightarrow> (Ok s, emit_ended now s (sv\<lparr>sessions := (sessions sv)[idx := (s, h)]\<rparr>)))"

primrec sweep_ids :: "datetime \<Rightarrow> (SessionHandle \<Rightarrow> (unit, PalError) result) \<Rightarrow> string list \<Rightarrow> Supervisor \<Rightarrow> Session list \<times> Supervisor" where
  "sweep_ids now pal [] sv = ([], sv)"
| "sweep_ids now pal (i # ids) sv =
     (let (r, sv) = end_session now pal i Timeout sv;
          (ended, sv) = sweep_ids now pal ids sv
      in (case r of Ok s \<Rightarrow> s # ended | Err _ \<Rightarrow> ended, sv))"

definition sweep_expired :: "datetime \<Rightarrow> (SessionHandle \<Rightarrow> (unit, PalError) result) \<Rightarrow> Supervisor \<Rightarrow> Session list \<times> Supervisor" where
  "sweep_expired now pal sv =
     (let to_end = map (session_id \<circ> fst) (filter (\<lambda>(s, _). state s = Active \<and> is_expired now s) (sessions sv))
      in sweep_ids now pal to_end sv)"

section \<open>The dialog fails closed\<close>

lemma kdialog_loop_true: "kdialog_loop d polls n = Some (Some True) \<Longrightarrow> \<exists>m. fst (polls m) = Exited True"
proof -
  assume "kdialog_loop d polls n = Some (Some True)"
  then have "(Some True :: bool option) = Some True \<longrightarrow> (\<exists>m. fst (polls m) = Exited True)"
    by (rule kdialog_loop.raw_induct [of "\<lambda>d polls n r. r = Some True \<longrightarrow> (\<exists>m. fst (polls m) = Exited True)", rotated])
      (auto split: poll.splits if_splits)
  then show ?thesis by simp
qed

lemma kdialog_loop_returns:
  "fst (polls (n + k)) \<noteq> Running \<or> snd (polls (n + k)) \<ge> d \<Longrightarrow> \<exists>r. kdialog_loop d polls n = Some r"
proof (induction k arbitrary: n)
  case 0
  then show ?case by (subst kdialog_loop.simps) (auto split: poll.splits)
next
  case (Suc k)
  then show ?case using Suc.IH [of "Suc n"] by (subst kdialog_loop.simps) (auto split: poll.splits)
qed

text \<open>Consent comes only from the user pressing the approving button; the dialog returns as soon as it
  is closed or its deadline has passed.\<close>

lemma dialog_approves_only_on_yes:
  assumes "linux_dialog z k d = Some r" "native_decision r = Approved"
  shows "z = Some (Some 0) \<or> z = None \<and> (\<exists>polls m. k = Some polls \<and> fst (polls m) = Exited True)"
proof -
  have "r = Some True" using assms(2) by (auto simp: native_decision_def split: option.splits bool.splits)
  then show ?thesis using assms(1) kdialog_loop_true
    by (auto simp: linux_dialog_def split: option.splits if_splits)
qed

section \<open>The loop\<close>

text \<open>One turn of the module's loop handles a request or sweeps; \<open>end_session\<close> is called from outside.
  The loop itself stops when the request channel closes and does nothing more.\<close>

datatype rs_input =
    Request request_env RemoteSupportRequest
  | EndCall datetime "SessionHandle \<Rightarrow> (unit, PalError) result" string EndReason
  | Sweep datetime "SessionHandle \<Rightarrow> (unit, PalError) result"

primrec rs_step :: "rs_input \<Rightarrow> Supervisor \<Rightarrow> Supervisor" where
  "rs_step (Request env rq) sv = snd (handle_request env rq sv)"
| "rs_step (EndCall now pal i r) sv = snd (end_session now pal i r sv)"
| "rs_step (Sweep now pal) sv = snd (sweep_expired now pal sv)"

definition session_ids :: "Supervisor \<Rightarrow> string list" where
  "session_ids sv = map (\<lambda>x. session_id (fst x)) (sessions sv)"

definition handles :: "Supervisor \<Rightarrow> SessionHandle list" where
  "handles sv = List.map_filter snd (sessions sv)"

text \<open>Session ids are fresh random UUIDs, and a provider does not hand out a handle twice.\<close>

primrec fresh :: "rs_input \<Rightarrow> Supervisor \<Rightarrow> bool" where
  "fresh (Request env rq) sv \<longleftrightarrow> new_id env \<notin> set (session_ids sv) \<and> (\<forall>p h. pal_start env p = Ok h \<longrightarrow> h \<notin> set (handles sv))"
| "fresh (EndCall now pal i r) sv \<longleftrightarrow> True"
| "fresh (Sweep now pal) sv \<longleftrightarrow> True"

inductive reachable :: "RemoteSupportConfig \<Rightarrow> Supervisor \<Rightarrow> bool" for cfg where
  start: "reachable cfg (supervisor_new cfg)"
| step: "reachable cfg sv \<Longrightarrow> fresh x sv \<Longrightarrow> reachable cfg (rs_step x sv)"

section \<open>What a step does to the sessions\<close>

definition ended_session :: "datetime \<Rightarrow> EndReason \<Rightarrow> Session \<Rightarrow> Session" where
  "ended_session now r s = s\<lparr>state := Ended, ended_at := Some now, end_reason := Some r\<rparr>"

lemma position_Some: "position P xs = Some i \<Longrightarrow> i < length xs \<and> P (xs ! i)"
  by (induction xs arbitrary: i) (auto split: if_splits)

lemma position_None: "position P xs = None \<longleftrightarrow> (\<forall>x\<in>set xs. \<not> P x)"
  by (induction xs) auto

lemma pal_end_session_fields [simp]:
  "config (pal_end_session pal h sv) = config sv" "history (pal_end_session pal h sv) = history sv"
  "sessions (pal_end_session pal h sv) = sessions sv" "published (pal_end_session pal h sv) = published sv"
  by (auto simp: pal_end_session_def split: option.splits result.splits)

lemma captures_pal_end: "captures (pal_end_session pal h sv) =
    (case h of Some k \<Rightarrow> if is_ok (pal k) then captures sv - {k} else captures sv | None \<Rightarrow> captures sv)"
  by (auto simp: pal_end_session_def split: option.splits result.splits)

lemma emit_fields [simp]:
  "config (emit_ended now s sv) = config sv" "history (emit_ended now s sv) = history sv"
  "sessions (emit_ended now s sv) = sessions sv" "captures (emit_ended now s sv) = captures sv"
  "config (emit_started now s sv) = config sv" "history (emit_started now s sv) = history sv"
  "sessions (emit_started now s sv) = sessions sv" "captures (emit_started now s sv) = captures sv"
  by (simp_all add: emit_ended_def emit_started_def)

text \<open>\<open>end_session\<close> leaves the supervisor alone or ends one tracked session.\<close>

lemma end_session_cases:
  assumes "end_session now pal i r sv = (res, sv')"
  obtains (same) "sv' = sv" "i \<notin> set (session_ids sv) \<or> (\<exists>s h. (s, h) \<in> set (sessions sv) \<and> session_id s = i \<and> state s = Ended)"
  | (ended) idx s h where "idx < length (sessions sv)" "sessions sv ! idx = (s, h)" "session_id s = i" "state s \<noteq> Ended"
      "sessions sv' = (sessions sv)[idx := (ended_session now r s, h)]" "history sv' = history sv" "config sv' = config sv"
      "captures sv' = captures (pal_end_session pal h sv)" "res = Ok (ended_session now r s)"
proof (cases "position (\<lambda>x. session_id (fst x) = i) (sessions sv)")
  case None
  have "sv' = sv" using assms None by (simp add: end_session_def)
  moreover have "i \<notin> set (session_ids sv)" using None unfolding position_None session_ids_def by auto
  ultimately show ?thesis using same by blast
next
  case (Some idx)
  obtain s h where sh: "sessions sv ! idx = (s, h)" by fastforce
  have p: "idx < length (sessions sv)" "session_id s = i" using position_Some [OF Some] sh by auto
  show ?thesis
  proof (cases "state s = Ended")
    case True
    then have "sv' = sv" using assms Some sh by (simp add: end_session_def)
    then show ?thesis using same p sh True by (metis nth_mem)
  next
    case False
    then show ?thesis using ended [OF p(1) sh p(2) False] assms Some sh
      by (auto simp: end_session_def session_end_def ended_session_def)
  qed
qed

lemma fail_session_effect:
  assumes "state s \<noteq> Ended" "fail_session env r e s sv = (res, sv')"
  shows "sessions sv' = sessions sv @ [(ended_session (t_ended env) r s, None)] \<and> history sv' = history sv \<and>
     config sv' = config sv \<and> captures sv' = captures sv"
  using assms by (auto simp: fail_session_def session_end_def ended_session_def push_session_def)

text \<open>\<open>handle_request\<close> tracks one more session: refused, or active with a capture.\<close>

definition asked_session :: "request_env \<Rightarrow> RemoteSupportRequest \<Rightarrow> Supervisor \<Rightarrow> Session" where
  "asked_session env rq sv =
     (session_new (t_created env) (new_id env) (rq_operator_id rq) (resolve_max_duration (config sv) rq))\<lparr>state := ConsentRequested\<rparr>"

definition asked_history :: "request_env \<Rightarrow> RemoteSupportRequest \<Rightarrow> Supervisor \<Rightarrow> ConsentRecord list" where
  "asked_history env rq sv =
     (if require_consent (config sv) then snd (consent_ask (t_asked env) (answer env) (new_id env) (rq_operator_id rq) (history sv))
      else history sv)"

lemma handle_request_cases:
  assumes "handle_request env rq sv = (res, sv')"
  obtains (refused) r where "sessions sv' = sessions sv @ [(ended_session (t_ended env) r (asked_session env rq sv), None)]"
      "history sv' = asked_history env rq sv" "config sv' = config sv" "captures sv' = captures sv"
  | (active) h where "sessions sv' = sessions sv @ [((asked_session env rq sv)\<lparr>state := Active, started_at := Some (t_active env)\<rparr>, Some h)]"
      "history sv' = asked_history env rq sv" "config sv' = config sv" "captures sv' = insert h (captures sv)"
      "require_consent (config sv) \<longrightarrow> answer env = Approved"
      "pal_start env \<lparr>p_operator_id = rq_operator_id rq, p_max_duration = resolve_max_duration (config sv) rq,
         p_consent_required = require_consent (config sv)\<rparr> = Ok h"
proof -
  let ?sv = "sv\<lparr>history := asked_history env rq sv\<rparr>"
  let ?s = "asked_session env rq sv"
  let ?d = "if require_consent (config sv) then answer env else Approved"
  let ?p = "\<lparr>p_operator_id = rq_operator_id rq, p_max_duration = resolve_max_duration (config sv) rq,
         p_consent_required = require_consent (config sv)\<rparr>"
  have s: "state ?s \<noteq> Ended" "state ?s = ConsentRequested" by (simp_all add: asked_session_def)
  have eq: "handle_request env rq sv =
     (if ?d \<noteq> Approved then fail_session env ConsentDenied RsConsentDenied ?s ?sv
      else case pal_start env ?p of
          Err NotSupported \<Rightarrow> fail_session env (EndError ''pal not supported'') (Pal NotSupported) ?s ?sv
        | Err e \<Rightarrow> fail_session env (EndError (pal_error_str e)) (Pal e) ?s ?sv
        | Ok h \<Rightarrow> (Ok (?s\<lparr>state := Active, started_at := Some (t_active env)\<rparr>),
            push_session (?s\<lparr>state := Active, started_at := Some (t_active env)\<rparr>) (Some h)
              (emit_started (t_active env) (?s\<lparr>state := Active, started_at := Some (t_active env)\<rparr>) (?sv\<lparr>captures := insert h (captures sv)\<rparr>))))"
    by (simp add: handle_request_def request_consent_def session_new_def asked_session_def asked_history_def consent_ask_def
        activate_def Let_def split: result.splits PalError.splits)
  have fail: thesis if "fail_session env r e ?s ?sv = (res, sv')" for r e
    using fail_session_effect [OF s(1) that] refused by simp
  show thesis
  proof (cases "?d = Approved")
    case True
    show thesis
    proof (cases "pal_start env ?p")
      case (Ok h)
      then show thesis using active [of h] assms True eq by (auto simp: push_session_def split: if_splits)
    next
      case (Err e)
      then show thesis using fail assms True eq by (cases e) auto
    qed
  next
    case False
    then show thesis using fail assms eq by simp
  qed
qed

section \<open>Invariants\<close>

text \<open>A tracked session is active with its capture handle or ended; one that ever ran had been
  consented to by its own prompt, and its cap is within the configured one.\<close>

definition consented :: "Supervisor \<Rightarrow> Session \<Rightarrow> bool" where
  "consented sv s \<longleftrightarrow> (\<exists>r\<in>set (history sv). cr_session_id r = session_id s \<and> cr_operator_id r = operator_id s \<and> cr_decision r = Approved)"

definition cap :: "RemoteSupportConfig \<Rightarrow> int" where
  "cap cfg = seconds (60 * int (max (max_session_minutes cfg) 1))"

definition tracked_ok :: "Supervisor \<Rightarrow> Session \<times> SessionHandle option \<Rightarrow> bool" where
  "tracked_ok sv x \<longleftrightarrow>
     (state (fst x) = Active \<and> ended_at (fst x) = None \<or> state (fst x) = Ended \<and> ended_at (fst x) \<noteq> None \<and> end_reason (fst x) \<noteq> None) \<and>
     (started_at (fst x) \<noteq> None \<longleftrightarrow> snd x \<noteq> None) \<and>
     (state (fst x) = Active \<longrightarrow> snd x \<noteq> None) \<and>
     (snd x \<noteq> None \<longrightarrow> require_consent (config sv) \<longrightarrow> consented sv (fst x)) \<and>
     0 \<le> max_duration (fst x) \<and> max_duration (fst x) \<le> cap (config sv)"

definition rs_inv :: "Supervisor \<Rightarrow> bool" where
  "rs_inv sv \<longleftrightarrow> distinct (session_ids sv) \<and> distinct (handles sv) \<and> (\<forall>x\<in>set (sessions sv). tracked_ok sv x) \<and>
     captures sv \<subseteq> set (handles sv)"

lemma resolve_max_duration_bounds: "0 \<le> resolve_max_duration cfg rq \<and> resolve_max_duration cfg rq \<le> cap cfg"
  by (auto simp: resolve_max_duration_def cap_def seconds_def Let_def split: option.splits)

lemma map_filter_append: "List.map_filter f (xs @ ys) = List.map_filter f xs @ List.map_filter f ys"
  by (simp add: map_filter_def)

lemma map_filter_update: "idx < length xs \<Longrightarrow> snd (xs ! idx) = h \<Longrightarrow> List.map_filter snd (xs[idx := (s, h)]) = List.map_filter snd xs"
proof (induction xs arbitrary: idx)
  case (Cons x xs)
  then show ?case by (cases idx) (auto simp: map_filter_simps split: option.split)
qed simp

lemma handle_mem: "(s, Some h) \<in> set xs \<Longrightarrow> h \<in> set (List.map_filter snd xs)"
  by (force simp: map_filter_def)

lemma handle_of: "h \<in> set (List.map_filter snd xs) \<Longrightarrow> \<exists>s. (s, Some h) \<in> set xs"
  by (force simp: map_filter_def)

lemma tracked_ok_mono:
  assumes "tracked_ok sv x" "config sv' = config sv" "set (history sv) \<subseteq> set (history sv')"
  shows "tracked_ok sv' x"
  using assms by (auto simp: tracked_ok_def consented_def)

lemma rs_inv_new: "rs_inv (supervisor_new cfg)"
  by (simp add: rs_inv_def supervisor_new_def session_ids_def handles_def map_filter_simps)

lemma rs_inv_request:
  assumes inv: "rs_inv sv" and fresh: "fresh (Request env rq) sv" and h: "handle_request env rq sv = (res, sv')"
  shows "rs_inv sv' \<and> config sv' = config sv"
  using h
proof (cases rule: handle_request_cases)
  case (refused r)
  have hist: "set (history sv) \<subseteq> set (history sv')" using refused(2) by (auto simp: asked_history_def consent_ask_def)
  have "tracked_ok sv' (ended_session (t_ended env) r (asked_session env rq sv), None)"
    using resolve_max_duration_bounds [of "config sv" rq] refused(3) by (simp add: tracked_ok_def ended_session_def asked_session_def session_new_def)
  then show ?thesis using inv fresh refused tracked_ok_mono [OF _ refused(3) hist]
    by (auto simp: rs_inv_def session_ids_def handles_def map_filter_append map_filter_simps ended_session_def asked_session_def session_new_def)
next
  case (active h)
  let ?s = "(asked_session env rq sv)\<lparr>state := Active, started_at := Some (t_active env)\<rparr>"
  have hist: "set (history sv) \<subseteq> set (history sv')" using active(2) by (auto simp: asked_history_def consent_ask_def)
  have "consented sv' ?s" if "require_consent (config sv)"
    using active(2,5) that by (auto simp: consented_def asked_history_def consent_ask_def asked_session_def session_new_def)
  then have "tracked_ok sv' (?s, Some h)"
    using resolve_max_duration_bounds [of "config sv" rq] active(3) by (simp add: tracked_ok_def asked_session_def session_new_def)
  moreover have "h \<notin> set (handles sv)" using fresh active(6) by auto
  ultimately show ?thesis using inv fresh active(1-4) tracked_ok_mono [OF _ active(3) hist]
    by (auto simp: rs_inv_def session_ids_def handles_def map_filter_append map_filter_simps asked_session_def session_new_def)
qed

lemma rs_inv_end:
  assumes inv: "rs_inv sv" and e: "end_session now pal i r sv = (res, sv')"
  shows "rs_inv sv' \<and> config sv' = config sv"
  using e
proof (cases rule: end_session_cases)
  case same
  then show ?thesis using inv by simp
next
  case (ended idx s h)
  have ids: "session_ids sv' = session_ids sv"
    using ended(1,2,5) by (simp add: session_ids_def map_update ended_session_def list_update_same_conv)
  have hs: "handles sv' = handles sv" using ended(1,2,5) map_filter_update [of idx "sessions sv" h] by (simp add: handles_def)
  have "tracked_ok sv (s, h)" using inv ended(1,2) unfolding rs_inv_def by (metis nth_mem)
  then have "tracked_ok sv' (ended_session now r s, h)"
    using ended(4,6,7) by (auto simp: tracked_ok_def ended_session_def consented_def)
  moreover have "\<forall>x\<in>set (sessions sv). tracked_ok sv' x"
    using inv tracked_ok_mono [of sv _ sv'] ended(6,7) by (auto simp: rs_inv_def)
  ultimately have "\<forall>x\<in>set (sessions sv'). tracked_ok sv' x"
    using set_update_subset_insert [of "sessions sv" idx "(ended_session now r s, h)"] unfolding ended(5) by blast
  moreover have "captures sv' \<subseteq> captures sv" using ended(8) by (auto simp: captures_pal_end split: option.splits if_splits)
  ultimately show ?thesis using inv ids hs ended(7) by (auto simp: rs_inv_def)
qed

lemma rs_inv_sweep_ids: "rs_inv sv \<Longrightarrow> rs_inv (snd (sweep_ids now pal is sv)) \<and> config (snd (sweep_ids now pal is sv)) = config sv"
proof (induction "is" arbitrary: sv)
  case (Cons i "is")
  obtain r sv' where e: "end_session now pal i Timeout sv = (r, sv')" by fastforce
  show ?case using Cons.IH [of sv'] rs_inv_end [OF Cons.prems e] by (simp add: e split_beta)
qed simp

lemma reachable_inv: "reachable cfg sv \<Longrightarrow> rs_inv sv \<and> config sv = cfg"
proof (induction rule: reachable.induct)
  case start
  then show ?case by (simp add: rs_inv_new) (simp add: supervisor_new_def)
next
  case (step sv x)
  show ?case
  proof (cases x)
    case (Request env rq)
    then show ?thesis using rs_inv_request [of sv env rq] step by (metis rs_step.simps(1) prod.collapse)
  next
    case (EndCall now pal i r)
    then show ?thesis using rs_inv_end [of sv now pal i r] step by (metis rs_step.simps(2) prod.collapse)
  next
    case (Sweep now pal)
    then show ?thesis using rs_inv_sweep_ids [of sv] step by (simp add: sweep_expired_def)
  qed
qed

section \<open>Consent\<close>

text \<open>
  C22: with consent required, no capture ever runs without it: in every reachable state each running
  capture belongs to a tracked session, and the consent history holds an approval of the prompt
  for that very session and operator.
\<close>

theorem consent_before_capture:
  assumes "reachable cfg sv" "require_consent cfg" "h \<in> captures sv"
  shows "\<exists>s. (s, Some h) \<in> set (sessions sv) \<and> started_at s \<noteq> None \<and> consented sv s"
proof -
  have inv: "rs_inv sv" "config sv = cfg" using reachable_inv [OF assms(1)] by simp_all
  have "h \<in> set (List.map_filter snd (sessions sv))" using inv(1) assms(3) by (auto simp: rs_inv_def handles_def)
  from handle_of [OF this] obtain s where s: "(s, Some h) \<in> set (sessions sv)" by blast
  have "tracked_ok sv (s, Some h)" using inv(1) s by (simp add: rs_inv_def)
  then have "started_at s \<noteq> None \<and> consented sv s" using assms(2) inv(2) by (simp add: tracked_ok_def)
  with s show ?thesis by blast
qed

section \<open>The sweep\<close>

lemma end_session_others:
  assumes "rs_inv sv" "end_session now pal i r sv = (res, sv')" "x \<in> set (sessions sv')"
  shows "x \<in> set (sessions sv) \<and> session_id (fst x) \<noteq> i \<or> state (fst x) = Ended \<and> session_id (fst x) = i"
  using assms(2)
proof (cases rule: end_session_cases)
  case same
  show ?thesis
  proof (cases "session_id (fst x) = i")
    case True
    then obtain s h where s: "(s, h) \<in> set (sessions sv)" "session_id s = i" "state s = Ended"
      using same assms(3) by (force simp: session_ids_def)
    have "inj_on (\<lambda>x. session_id (fst x)) (set (sessions sv))"
      using assms(1) by (simp add: rs_inv_def session_ids_def distinct_map)
    then have "x = (s, h)" using s assms(3) True same(1) unfolding inj_on_def by (metis fst_conv)
    then show ?thesis using s by simp
  qed (use same assms(3) in simp)
next
  case (ended idx s h)
  obtain j where j: "j < length (sessions sv)" "x = (sessions sv)[idx := (ended_session now r s, h)] ! j"
    using assms(3) unfolding ended(5) by (metis in_set_conv_nth length_list_update)
  show ?thesis
  proof (cases "j = idx")
    case True
    then show ?thesis using j ended(1,3) by (simp add: ended_session_def)
  next
    case False
    then have x: "x = sessions sv ! j" using j by simp
    have "session_ids sv ! j \<noteq> session_ids sv ! idx"
      using assms(1) False j(1) ended(1) by (simp add: rs_inv_def nth_eq_iff_index_eq session_ids_def del: nth_map)
    then have "session_id (fst x) \<noteq> i" using x j(1) ended(1,2,3) by (simp add: session_ids_def)
    then show ?thesis using x j(1) by simp
  qed
qed

lemma sweep_ids_spec:
  "rs_inv sv \<Longrightarrow> x \<in> set (sessions (snd (sweep_ids now pal is sv))) \<Longrightarrow>
     x \<in> set (sessions sv) \<and> session_id (fst x) \<notin> set is \<or> state (fst x) = Ended"
proof (induction "is" arbitrary: sv)
  case (Cons i "is")
  obtain r sv' where e: "end_session now pal i Timeout sv = (r, sv')" by fastforce
  have "rs_inv sv'" using rs_inv_end [OF Cons.prems(1) e] by simp
  then have "x \<in> set (sessions sv') \<and> session_id (fst x) \<notin> set is \<or> state (fst x) = Ended"
    using Cons.IH [of sv'] Cons.prems(2) by (simp add: e split_beta)
  then show ?case using end_session_others [OF Cons.prems(1) e, of x] by auto
qed simp

lemma sweep_leaves:
  assumes "rs_inv sv" "x \<in> set (sessions (snd (sweep_expired now pal sv)))" "state (fst x) = Active"
  shows "x \<in> set (sessions sv) \<and> \<not> is_expired now (fst x)"
proof -
  have "x \<in> set (sessions sv) \<and> session_id (fst x) \<notin> set (map (session_id \<circ> fst) (filter (\<lambda>(s, _). state s = Active \<and> is_expired now s) (sessions sv)))"
    using sweep_ids_spec [OF assms(1)] assms(2,3) unfolding sweep_expired_def Let_def by fastforce
  then show ?thesis using assms(3) by (force simp: split_beta)
qed

text \<open>A provider that never fails to end a capture keeps \<open>captures\<close> to the active sessions.\<close>

primrec reliable :: "rs_input \<Rightarrow> bool" where
  "reliable (Request env rq) \<longleftrightarrow> True"
| "reliable (EndCall now pal i r) \<longleftrightarrow> (\<forall>h. is_ok (pal h))"
| "reliable (Sweep now pal) \<longleftrightarrow> (\<forall>h. is_ok (pal h))"

inductive reachable_reliably :: "RemoteSupportConfig \<Rightarrow> Supervisor \<Rightarrow> bool" for cfg where
  start: "reachable_reliably cfg (supervisor_new cfg)"
| step: "reachable_reliably cfg sv \<Longrightarrow> fresh x sv \<Longrightarrow> reliable x \<Longrightarrow> reachable_reliably cfg (rs_step x sv)"

definition captures_active :: "Supervisor \<Rightarrow> bool" where
  "captures_active sv \<longleftrightarrow> (\<forall>h\<in>captures sv. \<exists>s. (s, Some h) \<in> set (sessions sv) \<and> state s = Active)"

lemma captures_active_request:
  assumes "captures_active sv" "handle_request env rq sv = (res, sv')"
  shows "captures_active sv'"
  using assms(2)
proof (cases rule: handle_request_cases)
  case (refused r)
  then show ?thesis using assms(1) by (auto simp: captures_active_def)
next
  case (active h)
  then show ?thesis using assms(1) by (fastforce simp: captures_active_def)
qed

lemma captures_active_end:
  assumes "rs_inv sv" "captures_active sv" "\<forall>h. is_ok (pal h)" "end_session now pal i r sv = (res, sv')"
  shows "captures_active sv'"
  using assms(4)
proof (cases rule: end_session_cases)
  case same
  then show ?thesis using assms(2) by simp
next
  case (ended idx s h)
  show ?thesis unfolding captures_active_def
  proof
    fix k assume k: "k \<in> captures sv'"
    then have k': "k \<in> captures sv" "h \<noteq> Some k"
      using ended(8) assms(3) by (auto simp: captures_pal_end split: option.splits)
    then obtain t where t: "(t, Some k) \<in> set (sessions sv)" "state t = Active" using assms(2) unfolding captures_active_def by blast
    then obtain j where j: "j < length (sessions sv)" "sessions sv ! j = (t, Some k)" by (metis in_set_conv_nth)
    then have "j \<noteq> idx" using ended(2) k'(2) by auto
    then have "sessions sv' ! j = (t, Some k)" "j < length (sessions sv')" using j ended(5) by simp_all
    then show "\<exists>s. (s, Some k) \<in> set (sessions sv') \<and> state s = Active" using t(2) by (metis nth_mem)
  qed
qed

lemma captures_active_sweep_ids:
  "rs_inv sv \<Longrightarrow> captures_active sv \<Longrightarrow> \<forall>h. is_ok (pal h) \<Longrightarrow> captures_active (snd (sweep_ids now pal is sv))"
proof (induction "is" arbitrary: sv)
  case (Cons i "is")
  obtain r sv' where e: "end_session now pal i Timeout sv = (r, sv')" by fastforce
  show ?case using Cons.IH [of sv'] rs_inv_end [OF Cons.prems(1) e] captures_active_end [OF Cons.prems e] Cons.prems(3)
    by (simp add: e split_beta)
qed simp

lemma reachable_reliably_inv: "reachable_reliably cfg sv \<Longrightarrow> reachable cfg sv \<and> captures_active sv"
proof (induction rule: reachable_reliably.induct)
  case start
  then show ?case using reachable.start by (auto simp: captures_active_def supervisor_new_def)
next
  case (step sv x)
  have inv: "rs_inv sv" using reachable_inv step by blast
  have "captures_active (rs_step x sv)"
  proof (cases x)
    case (Request env rq)
    then show ?thesis using captures_active_request [of sv env rq] step by (metis rs_step.simps(1) prod.collapse)
  next
    case (EndCall now pal i r)
    then show ?thesis using captures_active_end [OF inv, of pal now i r] step by (metis rs_step.simps(2) reliable.simps(2) prod.collapse)
  next
    case (Sweep now pal)
    then show ?thesis using captures_active_sweep_ids [OF inv, of pal now] step by (simp add: sweep_expired_def)
  qed
  then show ?case using step reachable.step by blast
qed

text \<open>
  C29: the wall-clock cap holds at every sweep: when the provider ends captures as asked, each
  capture still running after a sweep belongs to an active session that started less than its
  maximal duration ago, and that duration is at most the configured cap.
\<close>

theorem sweep_enforces_cap:
  assumes "reachable_reliably cfg sv" "\<forall>h. is_ok (pal h)" "h \<in> captures (snd (sweep_expired now pal sv))"
  shows "\<exists>s t. (s, Some h) \<in> set (sessions (snd (sweep_expired now pal sv))) \<and> state s = Active \<and>
     started_at s = Some t \<and> now - t < max_duration s \<and> max_duration s \<le> cap cfg"
proof -
  let ?sv = "snd (sweep_expired now pal sv)"
  have r: "reachable cfg sv" "captures_active sv" using reachable_reliably_inv [OF assms(1)] by simp_all
  have inv: "rs_inv sv" "config sv = cfg" using reachable_inv [OF r(1)] by simp_all
  have inv': "rs_inv ?sv" "config ?sv = cfg" using rs_inv_sweep_ids [OF inv(1)] inv(2) by (simp_all add: sweep_expired_def)
  have "captures_active ?sv" using captures_active_sweep_ids [OF inv(1) r(2) assms(2)] by (simp add: sweep_expired_def)
  then obtain s where s: "(s, Some h) \<in> set (sessions ?sv)" "state s = Active" using assms(3) unfolding captures_active_def by blast
  have ne: "\<not> is_expired now s" using sweep_leaves [OF inv(1) s(1)] s(2) by simp
  have "tracked_ok ?sv (s, Some h)" using inv'(1) s(1) by (simp add: rs_inv_def)
  then have "started_at s \<noteq> None" "max_duration s \<le> cap cfg" using inv'(2) by (simp_all add: tracked_ok_def)
  then show ?thesis using s ne by (auto simp: is_expired_def)
qed

section \<open>A provider that fails to end a capture\<close>

inductive later :: "Supervisor \<Rightarrow> Supervisor \<Rightarrow> bool" where
  now: "later sv sv"
| more: "later sv sv' \<Longrightarrow> fresh x sv' \<Longrightarrow> later sv (rs_step x sv')"

definition orphaned :: "SessionHandle \<Rightarrow> Supervisor \<Rightarrow> bool" where
  "orphaned h sv \<longleftrightarrow> rs_inv sv \<and> h \<in> captures sv \<and> (\<forall>s. (s, Some h) \<in> set (sessions sv) \<longrightarrow> state s = Ended)"

lemma orphaned_end:
  assumes "orphaned h sv" "end_session now pal i r sv = (res, sv')"
  shows "orphaned h sv'"
  using assms(2)
proof (cases rule: end_session_cases)
  case same
  then show ?thesis using assms(1) by simp
next
  case (ended idx s k)
  have "k \<noteq> Some h" using assms(1) ended(1,2,4) unfolding orphaned_def by (metis nth_mem)
  then have "h \<in> captures sv'" using assms(1) ended(8) by (auto simp: orphaned_def captures_pal_end split: option.splits)
  moreover have "rs_inv sv'" using rs_inv_end [OF _ assms(2)] assms(1) by (simp add: orphaned_def)
  moreover have "state t = Ended" if "(t, Some h) \<in> set (sessions sv')" for t
    using that assms(1) set_update_subset_insert [of "sessions sv" idx "(ended_session now r s, k)"] \<open>k \<noteq> Some h\<close>
    unfolding ended(5) orphaned_def by blast
  ultimately show ?thesis by (simp add: orphaned_def)
qed

lemma orphaned_step:
  assumes "orphaned h sv" "fresh x sv"
  shows "orphaned h (rs_step x sv)"
proof (cases x)
  case (Request env rq)
  obtain res sv' where e: "handle_request env rq sv = (res, sv')" by fastforce
  have inv: "rs_inv sv'" using rs_inv_request [OF _ _ e] assms Request by (simp add: orphaned_def)
  from e have "orphaned h sv'"
  proof (cases rule: handle_request_cases)
    case (refused r)
    then show ?thesis using assms(1) inv by (auto simp: orphaned_def)
  next
    case (active k)
    have "h \<in> set (handles sv)" using assms(1) by (auto simp: orphaned_def rs_inv_def)
    moreover have "k \<notin> set (handles sv)" using assms(2) Request active(6) by auto
    ultimately have "k \<noteq> h" by blast
    then show ?thesis using assms(1) inv active(1,4) by (auto simp: orphaned_def)
  qed
  then show ?thesis using Request e by simp
next
  case (EndCall now pal i r)
  then show ?thesis using orphaned_end [OF assms(1), of now pal i r] by (metis rs_step.simps(2) prod.collapse)
next
  case (Sweep now pal)
  have "orphaned h (snd (sweep_ids now pal is sv))" if "orphaned h sv" for "is" sv
    using that
  proof (induction "is" arbitrary: sv)
    case (Cons i "is")
    obtain r sv' where e: "end_session now pal i Timeout sv = (r, sv')" by fastforce
    show ?case using Cons.IH [of sv'] orphaned_end [OF Cons.prems e] by (simp add: e split_beta)
  qed simp
  then show ?thesis using Sweep assms(1) by (simp add: sweep_expired_def)
qed

lemma orphaned_later: "later sv sv' \<Longrightarrow> orphaned h sv \<Longrightarrow> orphaned h sv'"
  by (induction rule: later.induct) (auto intro: orphaned_step)

lemma same_handle: "distinct (List.map_filter snd xs) \<Longrightarrow> (s, Some h) \<in> set xs \<Longrightarrow> (t, Some h) \<in> set xs \<Longrightarrow> (s, Some h) = (t, Some h)"
  by (induction xs) (auto simp: map_filter_simps dest: handle_mem split: option.splits)

text \<open>
  C40: one failed call orphans a capture for good: when the provider reports an error for the capture
  of an active session, \<open>end_session\<close> still marks the session ended, and no later request, end call
  or sweep ever asks for that capture to stop again.
\<close>

theorem failed_end_orphans_capture:
  assumes "reachable cfg sv" "(s, Some h) \<in> set (sessions sv)" "h \<in> captures sv" "state s = Active" "pal h = Err e"
    and "later (snd (end_session now pal (session_id s) r sv)) sv'"
  shows "h \<in> captures sv'"
proof -
  have inv: "rs_inv sv" using reachable_inv [OF assms(1)] by simp
  obtain res sv1 where end1: "end_session now pal (session_id s) r sv = (res, sv1)" by fastforce
  have inv1: "rs_inv sv1" using rs_inv_end [OF inv end1] by simp
  have inj: "inj_on (\<lambda>x. session_id (fst x)) (set (sessions sv))" using inv by (simp add: rs_inv_def session_ids_def distinct_map)
  have uniq: "x = (s, Some h)" if "x \<in> set (sessions sv)" "session_id (fst x) = session_id s" for x
    using inj that assms(2) unfolding inj_on_def by (metis fst_conv)
  have "h \<in> captures sv1"
    using end1
  proof (cases rule: end_session_cases)
    case (ended idx t k)
    then have "(t, k) = (s, Some h)" using uniq [of "(t, k)"] by (metis fst_conv nth_mem)
    then show ?thesis using ended(8) assms(3,5) by (simp add: captures_pal_end)
  qed (use assms(3) in simp)
  moreover have "state t = Ended" if t: "(t, Some h) \<in> set (sessions sv1)" for t
  proof (rule ccontr)
    assume "state t \<noteq> Ended"
    then have a: "(t, Some h) \<in> set (sessions sv)" "session_id t \<noteq> session_id s" using end_session_others [OF inv end1 t] by auto
    then have "(t, Some h) = (s, Some h)" using same_handle [OF _ a(1) assms(2)] inv by (simp add: rs_inv_def handles_def)
    then show False using a(2) by simp
  qed
  ultimately have "orphaned h sv1" using inv1 by (simp add: orphaned_def)
  moreover have "later sv1 sv'" using assms(6) end1 by simp
  ultimately have "orphaned h sv'" by (simp add: orphaned_later)
  then show ?thesis by (simp add: orphaned_def)
qed

section \<open>Instances\<close>

definition cfg0 :: RemoteSupportConfig where
  "cfg0 = \<lparr>rs_enabled = True, max_session_minutes = 30, require_consent = True\<rparr>"

definition handle0 :: SessionHandle where
  "handle0 = \<lparr>h_session_id = ''h'', h_started_at = 3\<rparr>"

definition request0 :: rs_input where
  "request0 = Request \<lparr>new_id = ''s1'', t_created = 1, t_asked = 2, t_active = 3, t_ended = 4, answer = Approved, pal_start = (\<lambda>_. Ok handle0)\<rparr>
     \<lparr>rq_operator_id = ''op'', max_duration_minutes = Some 5\<rparr>"

definition sv0 :: Supervisor where
  "sv0 = rs_step request0 (supervisor_new cfg0)"

definition session0 :: Session where
  "session0 = \<lparr>session_id = ''s1'', operator_id = ''op'', state = Active, created_at = 1, started_at = Some 3, ended_at = None,
     max_duration = seconds 300, end_reason = None\<rparr>"

lemma sv0_fields: "captures sv0 = {handle0}" "sessions sv0 = [(session0, Some handle0)]"
  by (simp_all add: sv0_def request0_def session0_def supervisor_new_def cfg0_def handle_request_def session_new_def request_consent_def consent_ask_def
      activate_def push_session_def emit_started_def resolve_max_duration_def Let_def)

lemma sv0_fresh: "fresh request0 (supervisor_new cfg0)"
  by (simp add: request0_def supervisor_new_def session_ids_def handles_def map_filter_simps)

theorem consent_before_capture_witness:
  "\<exists>s. (s, Some handle0) \<in> set (sessions sv0) \<and> started_at s \<noteq> None \<and> consented sv0 s"
proof (rule consent_before_capture)
  show "reachable cfg0 sv0" unfolding sv0_def using sv0_fresh by (intro reachable.intros)
  show "require_consent cfg0" by (simp add: cfg0_def)
  show "handle0 \<in> captures sv0" by (simp add: sv0_fields)
qed

theorem sweep_enforces_cap_witness:
  "handle0 \<in> captures (snd (sweep_expired 5 stub_end_session sv0)) \<and>
   (\<exists>s t. (s, Some handle0) \<in> set (sessions (snd (sweep_expired 5 stub_end_session sv0))) \<and> state s = Active \<and>
     started_at s = Some t \<and> 5 - t < max_duration s \<and> max_duration s \<le> cap cfg0)"
proof -
  have r: "reachable_reliably cfg0 sv0" unfolding sv0_def using sv0_fresh by (intro reachable_reliably.intros) (simp_all add: request0_def)
  have h: "handle0 \<in> captures (snd (sweep_expired 5 stub_end_session sv0))"
    by (simp add: sweep_expired_def sv0_fields session0_def is_expired_def seconds_def)
  have "\<forall>h. is_ok (stub_end_session h)" by (simp add: stub_end_session_def)
  from sweep_enforces_cap [OF r this h] h show ?thesis by blast
qed

theorem failed_end_orphans_capture_witness:
  "handle0 \<in> captures (snd (end_session 5 (\<lambda>_. Err (Io ''lost'')) ''s1'' OperatorDisconnect sv0))"
proof -
  have r: "reachable cfg0 sv0" unfolding sv0_def using sv0_fresh by (intro reachable.intros)
  have m: "(session0, Some handle0) \<in> set (sessions sv0)" "handle0 \<in> captures sv0" "state session0 = Active"
    by (simp_all add: sv0_fields session0_def)
  show ?thesis
    using failed_end_orphans_capture [OF r m, of "\<lambda>_. Err (Io ''lost'')" "Io ''lost''" 5 OperatorDisconnect] later.now
    by (simp add: session0_def)
qed

end
