(* ===== verification/RemoteFrames.thy ===== *)
theory RemoteFrames
  imports Utf8 WordBytes
begin

text \<open>
  \<open>sda-remote-support/src/protocol.rs\<close>: the frames of a remote-support session and the engine that
  numbers outbound frames and checks inbound ones. The MessagePack codec (\<open>rmp_serde\<close>) and SHA-256
  are parameters.
\<close>


section \<open>Frames\<close>

definition MAX_FRAME_SIZE :: nat where
  "MAX_FRAME_SIZE = 64 * 1024"

datatype FrameType = SessionInit | ConsentResponse | FrameData | SessionEnd | Heartbeat

definition from_u8 :: "8 word \<Rightarrow> FrameType option" where
  "from_u8 b =
     (if b = 1 then Some SessionInit else if b = 2 then Some ConsentResponse else if b = 3 then Some FrameData
      else if b = 4 then Some SessionEnd else if b = 5 then Some Heartbeat else None)"

primrec as_u8 :: "FrameType \<Rightarrow> 8 word" where
  "as_u8 SessionInit = 1"
| "as_u8 ConsentResponse = 2"
| "as_u8 FrameData = 3"
| "as_u8 SessionEnd = 4"
| "as_u8 Heartbeat = 5"

datatype FrameError =
    Encode string
  | Decode string
  | SequenceRegression u32 u32
  | TooLarge nat nat

record Frame =
  frame_type :: "8 word"
  sequence :: u32
  frame_length :: u32
  payload :: bytes

definition frame_new :: "FrameType \<Rightarrow> u32 \<Rightarrow> bytes \<Rightarrow> Frame" where
  "frame_new t n p = \<lparr>frame_type = as_u8 t, sequence = n, frame_length = of_nat (length p), payload = p\<rparr>"

record codec =
  to_vec :: "Frame \<Rightarrow> (bytes, string) result"
  from_slice :: "bytes \<Rightarrow> (Frame, string) result"

definition frame_encode :: "codec \<Rightarrow> Frame \<Rightarrow> (bytes, FrameError) result" where
  "frame_encode w f =
     (if length (payload f) > MAX_FRAME_SIZE then Err (TooLarge (length (payload f)) MAX_FRAME_SIZE)
      else map_err Encode (to_vec w f))"

definition unknown_type :: "Frame \<Rightarrow> FrameError" where
  "unknown_type f = Decode (''unknown frame type 0x'' @ hex_byte (char_of (unat (frame_type f))))"

definition frame_decode :: "codec \<Rightarrow> bytes \<Rightarrow> (Frame, FrameError) result" where
  "frame_decode w bs =
     (if length bs > MAX_FRAME_SIZE * 2 then Err (TooLarge (length bs) (MAX_FRAME_SIZE * 2))
      else bind_result (map_err Decode (from_slice w bs)) (\<lambda>f.
        if length (payload f) > MAX_FRAME_SIZE then Err (TooLarge (length (payload f)) MAX_FRAME_SIZE)
        else if from_u8 (frame_type f) = None then Err (unknown_type f)
        else if unat (frame_length f) \<noteq> length (payload f)
        then Err (Decode (''length field '' @ nat_str (unat (frame_length f)) @ '' does not match payload '' @ nat_str (length (payload f))))
        else Ok f))"

definition typed :: "Frame \<Rightarrow> FrameType option" where
  "typed f = from_u8 (frame_type f)"

section \<open>Session keys\<close>

record SessionKeys =
  payload_key :: bytes
  mac_key :: bytes

definition derive_session_keys :: "(bytes \<Rightarrow> bytes) \<Rightarrow> bytes \<Rightarrow> SessionKeys" where
  "derive_session_keys sha256 token =
     (let derive = (\<lambda>label. sha256 (''sda-remote-support/v1'' @ token @ label))
      in \<lparr>payload_key = derive ''sda-remote-support/payload'', mac_key = derive ''sda-remote-support/mac''\<rparr>)"

section \<open>The engine\<close>

record ProtocolEngine =
  next_inbound_sequence :: u32
  next_outbound_sequence :: u32
  initialized :: bool
  ended :: bool

definition engine_new :: ProtocolEngine where
  "engine_new = \<lparr>next_inbound_sequence = 0, next_outbound_sequence = 0, initialized = False, ended = False\<rparr>"

definition checked_inc :: "u32 \<Rightarrow> u32 option" where
  "checked_inc n = (if n = - 1 then None else Some (n + 1))"

definition build_outbound :: "FrameType \<Rightarrow> bytes \<Rightarrow> ProtocolEngine \<Rightarrow> (Frame, FrameError) result \<times> ProtocolEngine" where
  "build_outbound t p e =
     (if length p > MAX_FRAME_SIZE then (Err (TooLarge (length p) MAX_FRAME_SIZE), e)
      else
        let f = frame_new t (next_outbound_sequence e) p in
        case checked_inc (next_outbound_sequence e) of
          None \<Rightarrow> (Err (Encode ''sequence overflow''), e)
        | Some n \<Rightarrow> (Ok f, e\<lparr>next_outbound_sequence := n\<rparr>))"

text \<open>The flags are set before the sequence is advanced, so they stay set when that overflows.\<close>

definition ingest :: "Frame \<Rightarrow> ProtocolEngine \<Rightarrow> (unit, FrameError) result \<times> ProtocolEngine" where
  "ingest f e =
     (let expected = next_inbound_sequence e in
      if sequence f \<noteq> expected then (Err (SequenceRegression expected (sequence f)), e)
      else case typed f of
          None \<Rightarrow> (Err (unknown_type f), e)
        | Some kind \<Rightarrow>
            if (kind = FrameData \<or> kind = ConsentResponse) \<and> \<not> initialized e
            then (Err (Decode ''received data frame before session init''), e)
            else
              let e = (case kind of SessionInit \<Rightarrow> e\<lparr>initialized := True\<rparr> | SessionEnd \<Rightarrow> e\<lparr>ended := True\<rparr> | _ \<Rightarrow> e)
              in case checked_inc expected of
                   None \<Rightarrow> (Err (Decode ''sequence overflow''), e)
                 | Some n \<Rightarrow> (Ok (), e\<lparr>next_inbound_sequence := n\<rparr>))"

section \<open>Frame types and the codec\<close>

lemma from_as_u8: "from_u8 (as_u8 t) = Some t"
  by (cases t) (simp_all add: from_u8_def)

lemma as_from_u8: "from_u8 b = Some t \<Longrightarrow> as_u8 t = b"
  by (auto simp: from_u8_def split: if_splits)

text \<open>The codec reads back what it wrote, and its overhead is less than a payload's cap.\<close>

definition codec_laws :: "codec \<Rightarrow> bool" where
  "codec_laws w \<longleftrightarrow> (\<forall>f. length (payload f) \<le> MAX_FRAME_SIZE \<longrightarrow>
     (\<exists>bs. to_vec w f = Ok bs \<and> length bs \<le> MAX_FRAME_SIZE * 2 \<and> from_slice w bs = Ok f))"

lemma unat_payload_length: "length p \<le> MAX_FRAME_SIZE \<Longrightarrow> unat (of_nat (length p) :: u32) = length p"
  by (simp add: MAX_FRAME_SIZE_def unsigned_of_nat take_bit_nat_eq_self)

lemma frame_roundtrip:
  assumes "codec_laws w" "length p \<le> MAX_FRAME_SIZE"
  shows "\<exists>bs. frame_encode w (frame_new t n p) = Ok bs \<and> frame_decode w bs = Ok (frame_new t n p)"
proof -
  have "length (payload (frame_new t n p)) \<le> MAX_FRAME_SIZE" using assms(2) by (simp add: frame_new_def)
  then obtain bs where "to_vec w (frame_new t n p) = Ok bs" "length bs \<le> MAX_FRAME_SIZE * 2" "from_slice w bs = Ok (frame_new t n p)"
    using assms(1) unfolding codec_laws_def by blast
  then show ?thesis using assms(2) unat_payload_length [of p]
    by (simp add: frame_encode_def frame_decode_def) (simp add: frame_new_def from_as_u8)
qed

section \<open>Replay protection\<close>

text \<open>The frames of a stream that the engine accepts.\<close>

primrec accepted :: "Frame list \<Rightarrow> ProtocolEngine \<Rightarrow> Frame list" where
  "accepted [] e = []"
| "accepted (f # fs) e = (case ingest f e of (r, e') \<Rightarrow> (if is_ok r then f # accepted fs e' else accepted fs e'))"

lemma checked_inc_unat: "checked_inc n = Some m \<Longrightarrow> unat m = unat n + 1"
  using unatSuc [of n] by (auto simp: checked_inc_def add.commute eq_neg_iff_add_eq_0 split: if_splits)

lemma ingest_cases:
  assumes "ingest f e = (r, e')"
  shows "unat (next_inbound_sequence e') = unat (next_inbound_sequence e) + (if is_ok r then 1 else 0) \<and>
     (is_ok r \<longrightarrow> sequence f = next_inbound_sequence e)"
  using assms checked_inc_unat [of "next_inbound_sequence e"]
  by (auto simp: ingest_def Let_def split: if_splits option.splits FrameType.splits)

lemma accepted_sequences:
  "map (\<lambda>f. unat (sequence f)) (accepted fs e)
     = [unat (next_inbound_sequence e)..<unat (next_inbound_sequence e) + length (accepted fs e)]"
proof (induction fs arbitrary: e)
  case (Cons f fs)
  obtain r e' where i: "ingest f e = (r, e')" by fastforce
  then show ?case using Cons.IH [of e'] ingest_cases [OF i] by (cases "is_ok r") (simp_all add: upt_conv_Cons del: upt_Suc)
qed simp

text \<open>
  Replay protection: whatever frames arrive, those the engine accepts carry the sequence numbers
  0, 1, 2 and so on, each exactly once and in order; a frame already accepted is never accepted again.
\<close>

theorem accepted_in_order:
  "map (\<lambda>f. unat (sequence f)) (accepted fs engine_new) = [0..<length (accepted fs engine_new)] \<and> distinct (accepted fs engine_new)"
proof -
  have m: "map (\<lambda>f. unat (sequence f)) (accepted fs engine_new) = [0..<length (accepted fs engine_new)]"
    using accepted_sequences [of fs engine_new] by (simp add: engine_new_def)
  then have "distinct (map (\<lambda>f. unat (sequence f)) (accepted fs engine_new))" by simp
  then show ?thesis using m unfolding distinct_map by blast
qed

section \<open>A session from one engine to the other\<close>

primrec build_all :: "(FrameType \<times> bytes) list \<Rightarrow> ProtocolEngine \<Rightarrow> (Frame, FrameError) result list" where
  "build_all [] e = []"
| "build_all (x # xs) e = (case build_outbound (fst x) (snd x) e of (r, e') \<Rightarrow> r # build_all xs e')"

text \<open>What arrives: each frame encoded, decoded and ingested.\<close>

primrec deliver_all :: "codec \<Rightarrow> (Frame, FrameError) result list \<Rightarrow> ProtocolEngine \<Rightarrow> (Frame, FrameError) result list" where
  "deliver_all w [] e = []"
| "deliver_all w (r # rs) e =
     (case bind_result (bind_result r (frame_encode w)) (frame_decode w) of
        Err x \<Rightarrow> Err x # deliver_all w rs e
      | Ok f \<Rightarrow> (case ingest f e of (q, e') \<Rightarrow> (case q of Ok _ \<Rightarrow> Ok f | Err x \<Rightarrow> Err x) # deliver_all w rs e'))"

lemma build_outbound_ok:
  assumes "length p \<le> MAX_FRAME_SIZE" "unat (next_outbound_sequence e) + 1 < 2 ^ 32"
  shows "\<exists>n. build_outbound t p e = (Ok (frame_new t (next_outbound_sequence e) p), e\<lparr>next_outbound_sequence := n\<rparr>) \<and>
    checked_inc (next_outbound_sequence e) = Some n \<and> unat n = unat (next_outbound_sequence e) + 1"
proof -
  have "next_outbound_sequence e \<noteq> - 1"
  proof
    assume "next_outbound_sequence e = - 1"
    then have "unat (next_outbound_sequence e) = 2 ^ 32 - 1" by (simp add: unsigned_minus_1_eq_mask mask_eq_exp_minus_1)
    then show False using assms(2) by simp
  qed
  then obtain n where n: "checked_inc (next_outbound_sequence e) = Some n" by (simp add: checked_inc_def)
  then show ?thesis using assms(1) checked_inc_unat [OF n] by (simp add: build_outbound_def)
qed

lemma session_delivered_aux:
  assumes "codec_laws w"
  shows "next_outbound_sequence a = next_inbound_sequence b \<Longrightarrow> unat (next_outbound_sequence a) + length xs < 2 ^ 32 \<Longrightarrow>
     list_all (\<lambda>x. length (snd x) \<le> MAX_FRAME_SIZE) xs \<Longrightarrow> initialized b \<Longrightarrow>
     list_all2 (\<lambda>r x. \<exists>n. r = Ok (frame_new (fst x) n (snd x))) (deliver_all w (build_all xs a) b) xs"
proof (induction xs arbitrary: a b)
  case (Cons x xs)
  obtain t p where x: "x = (t, p)" by fastforce
  have len: "length p \<le> MAX_FRAME_SIZE" using Cons.prems(3) x by simp
  obtain n where n: "build_outbound t p a = (Ok (frame_new t (next_outbound_sequence a) p), a\<lparr>next_outbound_sequence := n\<rparr>)"
      "checked_inc (next_outbound_sequence a) = Some n" "unat n = unat (next_outbound_sequence a) + 1"
    using build_outbound_ok [OF len, of a t] Cons.prems(2) by auto
  let ?f = "frame_new t (next_outbound_sequence a) p"
  obtain bs where bs: "frame_encode w ?f = Ok bs" "frame_decode w bs = Ok ?f" using frame_roundtrip [OF assms len] by blast
  let ?b = "(case t of SessionInit \<Rightarrow> b\<lparr>initialized := True\<rparr> | SessionEnd \<Rightarrow> b\<lparr>ended := True\<rparr> | _ \<Rightarrow> b)\<lparr>next_inbound_sequence := n\<rparr>"
  have i: "ingest ?f b = (Ok (), ?b)"
    using Cons.prems(1,4) n(2) by (simp add: ingest_def typed_def frame_new_def from_as_u8)
  have "initialized ?b" using Cons.prems(4) by (cases t) simp_all
  then show ?case using Cons.IH [of "a\<lparr>next_outbound_sequence := n\<rparr>" ?b] Cons.prems n(1,3) bs i
    by (auto simp: x)
qed simp


section \<open>Instances\<close>

definition plain_codec :: codec where
  "plain_codec =
     \<lparr>to_vec = (\<lambda>f. Ok (char_of (unat (frame_type f)) # to_be_bytes (sequence f) @ to_be_bytes (frame_length f) @ payload f)),
      from_slice = (\<lambda>bs. Ok \<lparr>frame_type = of_nat (of_char (hd bs)), sequence = from_be_bytes (take 4 (drop 1 bs)),
        frame_length = from_be_bytes (take 4 (drop 5 bs)), payload = drop 9 bs\<rparr>)\<rparr>"

lemma plain_codec_laws: "codec_laws plain_codec"
proof -
  have "from_slice plain_codec (char_of (unat (frame_type f)) # to_be_bytes (sequence f) @ to_be_bytes (frame_length f) @ payload f) = Ok f" for f :: Frame
    by (simp add: plain_codec_def unat_byte_roundtrip from_to_be_bytes)
  then show ?thesis by (simp add: codec_laws_def MAX_FRAME_SIZE_def) (simp add: plain_codec_def)
qed


end
