(* ===== verification/DlpValidators.thy ===== *)
theory DlpValidators
  imports Utf8
begin

text \<open>
  The check-digit and structure helpers of the DLP patterns (\<open>sda-dlp/src/patterns/validators.rs\<close>):
  the loops of the source as structural recursions over the bytes, and what each of the published
  schemes is meant to give. A locale has the argument every position-wise check-digit scheme shares:
  when each step is injective in the digit and in the running state, two digit strings that differ in
  one position never end in the same state. It is interpreted for Luhn, Verhoeff, EAN-13 and
  ISO 7064 mod 11,10; mod-97 is proved equal to the arithmetic definition of the standard.

  Sums are natural numbers: the source's \<open>u32\<close> accumulators hold a sum of at most 18 per byte of a
  match, so they wrap only beyond 238 million bytes; where the source saturates, the model does.
\<close>

section \<open>Bytes\<close>

definition is_upper :: "char \<Rightarrow> bool" where
  "is_upper c \<longleftrightarrow> 65 \<le> byte_of c \<and> byte_of c \<le> 90"

definition is_lower :: "char \<Rightarrow> bool" where
  "is_lower c \<longleftrightarrow> 97 \<le> byte_of c \<and> byte_of c \<le> 122"

definition is_alphabetic :: "char \<Rightarrow> bool" where
  "is_alphabetic c \<longleftrightarrow> is_upper c \<or> is_lower c"

definition is_alphanumeric :: "char \<Rightarrow> bool" where
  "is_alphanumeric c \<longleftrightarrow> is_digit c \<or> is_alphabetic c"

text \<open>\<open>b - b'0'\<close>, used by the source only behind \<open>is_ascii_digit\<close>.\<close>

definition digit_val :: "char \<Rightarrow> nat" where
  "digit_val c = byte_of c - 48"

text \<open>\<open>b - b'A'\<close>, used only behind \<open>is_ascii_uppercase\<close>.\<close>

definition letter_val :: "char \<Rightarrow> nat" where
  "letter_val c = byte_of c - 65"

section \<open>The validators\<close>

definition u32_max :: nat where
  "u32_max = 4294967295"

fun parse_u32_from :: "nat \<Rightarrow> bytes \<Rightarrow> nat option" where
  "parse_u32_from acc [] = Some acc"
| "parse_u32_from acc (b # bs) =
     (if \<not> is_digit b then None
      else if acc * 10 > u32_max then None
      else if acc * 10 + digit_val b > u32_max then None
      else parse_u32_from (acc * 10 + digit_val b) bs)"

definition parse_ascii_u32 :: "bytes \<Rightarrow> nat option" where
  "parse_ascii_u32 bs = parse_u32_from 0 bs"

fun parse_ascii_digits :: "bytes \<Rightarrow> nat list option" where
  "parse_ascii_digits [] = Some []"
| "parse_ascii_digits (b # bs) =
     (if \<not> is_digit b then None else map_option (\<lambda>ds. digit_val b # ds) (parse_ascii_digits bs))"

text \<open>The loop of \<open>luhn_check\<close> over the reversed digits, with \<open>sum\<close> and \<open>alt\<close>.\<close>

fun luhn_loop :: "bytes \<Rightarrow> nat \<Rightarrow> bool \<Rightarrow> nat option" where
  "luhn_loop [] acc alt = Some acc"
| "luhn_loop (b # bs) acc alt =
     (if \<not> is_digit b then None
      else let d = digit_val b; v = (if alt then d * 2 else d)
           in luhn_loop bs (acc + (if v > 9 then v - 9 else v)) (\<not> alt))"

definition luhn_check :: "bytes \<Rightarrow> bool" where
  "luhn_check digits =
     (if digits = [] then False
      else case luhn_loop (rev digits) 0 False of None \<Rightarrow> False | Some acc \<Rightarrow> acc mod 10 = 0)"

fun mod97_loop :: "bytes \<Rightarrow> nat \<Rightarrow> nat option" where
  "mod97_loop [] remainder = Some remainder"
| "mod97_loop (b # bs) remainder =
     (let v = (if is_digit b then Some (digit_val b) else if is_upper b then Some (letter_val b + 10) else None)
      in case v of None \<Rightarrow> None
         | Some v \<Rightarrow> mod97_loop bs (if v \<ge> 10 then (remainder * 100 + v) mod 97 else (remainder * 10 + v) mod 97))"

definition mod97_check :: "bytes \<Rightarrow> bool" where
  "mod97_check iban =
     (if length iban < 5 \<or> length iban > 34 then False
      else if \<not> list_all is_alphanumeric iban then False
      else case mod97_loop (drop 4 iban @ take 4 iban) 0 of None \<Rightarrow> False | Some r \<Rightarrow> r = 1)"

definition verhoeff_D :: "nat list list" where
  "verhoeff_D =
    [[0, 1, 2, 3, 4, 5, 6, 7, 8, 9],
     [1, 2, 3, 4, 0, 6, 7, 8, 9, 5],
     [2, 3, 4, 0, 1, 7, 8, 9, 5, 6],
     [3, 4, 0, 1, 2, 8, 9, 5, 6, 7],
     [4, 0, 1, 2, 3, 9, 5, 6, 7, 8],
     [5, 9, 8, 7, 6, 0, 4, 3, 2, 1],
     [6, 5, 9, 8, 7, 1, 0, 4, 3, 2],
     [7, 6, 5, 9, 8, 2, 1, 0, 4, 3],
     [8, 7, 6, 5, 9, 3, 2, 1, 0, 4],
     [9, 8, 7, 6, 5, 4, 3, 2, 1, 0]]"

definition verhoeff_P :: "nat list list" where
  "verhoeff_P =
    [[0, 1, 2, 3, 4, 5, 6, 7, 8, 9],
     [1, 5, 7, 6, 2, 8, 3, 0, 9, 4],
     [5, 8, 0, 3, 7, 9, 6, 1, 4, 2],
     [8, 9, 1, 6, 0, 4, 3, 5, 2, 7],
     [9, 4, 5, 3, 1, 2, 6, 8, 7, 0],
     [4, 2, 8, 6, 5, 7, 3, 9, 0, 1],
     [2, 7, 9, 3, 8, 0, 6, 4, 1, 5],
     [7, 0, 4, 6, 9, 1, 3, 2, 5, 8]]"

fun verhoeff_loop :: "nat \<Rightarrow> bytes \<Rightarrow> nat \<Rightarrow> nat option" where
  "verhoeff_loop i [] c = Some c"
| "verhoeff_loop i (b # bs) c =
     (if \<not> is_digit b then None
      else verhoeff_loop (Suc i) bs (verhoeff_D ! c ! (verhoeff_P ! (i mod 8) ! digit_val b)))"

definition verhoeff_check :: "bytes \<Rightarrow> bool" where
  "verhoeff_check digits =
     (if digits = [] then False
      else case verhoeff_loop 0 (rev digits) 0 of None \<Rightarrow> False | Some c \<Rightarrow> c = 0)"

text \<open>\<open>u32::saturating_add\<close>, and the wrapping product \<open>d * weights[i]\<close>.\<close>

definition saturating_add :: "nat \<Rightarrow> nat \<Rightarrow> nat" where
  "saturating_add a b = min (a + b) u32_max"

definition mul_u32 :: "nat \<Rightarrow> nat \<Rightarrow> nat" where
  "mul_u32 a b = a * b mod (u32_max + 1)"

fun weighted_loop :: "bytes \<Rightarrow> nat list \<Rightarrow> nat \<Rightarrow> nat option" where
  "weighted_loop (b # bs) (w # ws) acc =
     (if \<not> is_digit b then None else weighted_loop bs ws (saturating_add acc (mul_u32 (digit_val b) w)))"
| "weighted_loop _ _ acc = Some acc"

definition mod11_check :: "bytes \<Rightarrow> nat list \<Rightarrow> bool" where
  "mod11_check digits weights =
     (if length digits \<noteq> length weights \<or> digits = [] then False
      else case weighted_loop digits weights 0 of None \<Rightarrow> False | Some acc \<Rightarrow> acc mod 11 = 0)"

definition weighted_checksum :: "bytes \<Rightarrow> nat list \<Rightarrow> nat \<Rightarrow> nat option" where
  "weighted_checksum digits weights modulus =
     (if length digits \<noteq> length weights \<or> modulus = 0 then None
      else map_option (\<lambda>acc. acc mod modulus) (weighted_loop digits weights 0))"

fun ean13_loop :: "nat \<Rightarrow> bytes \<Rightarrow> nat \<Rightarrow> nat option" where
  "ean13_loop i [] acc = Some acc"
| "ean13_loop i (b # bs) acc =
     (if \<not> is_digit b then None
      else ean13_loop (Suc i) bs (acc + digit_val b * (if i mod 2 = 0 then 1 else 3)))"

definition ean13_check :: "bytes \<Rightarrow> bool" where
  "ean13_check digits =
     (if length digits \<noteq> 13 then False
      else case ean13_loop 0 digits 0 of None \<Rightarrow> False | Some acc \<Rightarrow> acc mod 10 = 0)"

definition iso7064_step :: "nat \<Rightarrow> nat \<Rightarrow> nat" where
  "iso7064_step d p = (let s = (d + p) mod 10; s = (if s = 0 then 10 else s) in s * 2 mod 11)"

definition iso7064_mod11_10 :: "bytes \<Rightarrow> bool" where
  "iso7064_mod11_10 digits =
     (if length digits \<noteq> 11 \<or> \<not> list_all is_digit digits then False
      else let product = fold (\<lambda>b p. iso7064_step (digit_val b) p) (take 10 digits) 10;
               check = (11 - product) mod 10
           in digit_val (digits ! 10) = check)"

definition is_leap_year :: "nat \<Rightarrow> bool" where
  "is_leap_year year \<longleftrightarrow> (year mod 4 = 0 \<and> year mod 100 \<noteq> 0) \<or> year mod 400 = 0"

definition days_in_month :: "nat \<Rightarrow> nat \<Rightarrow> nat" where
  "days_in_month year month =
     (if month \<in> {1, 3, 5, 7, 8, 10, 12} then 31
      else if month \<in> {4, 6, 9, 11} then 30
      else if month = 2 then (if is_leap_year year then 29 else 28)
      else 0)"

definition valid_dob :: "nat \<Rightarrow> nat \<Rightarrow> nat \<Rightarrow> bool" where
  "valid_dob year month day =
     (if \<not> (1 \<le> month \<and> month \<le> 12) \<or> day = 0 then False else day \<le> days_in_month year month)"

text \<open>The array \<open>counts\<close> of \<open>de_steuer_id_structure\<close>, filled by its loop.\<close>

fun steuer_counts :: "bytes \<Rightarrow> nat list \<Rightarrow> nat list option" where
  "steuer_counts [] counts = Some counts"
| "steuer_counts (b # bs) counts =
     (if \<not> is_digit b then None
      else steuer_counts bs (counts[digit_val b := counts ! digit_val b + 1]))"

definition de_steuer_id_structure :: "bytes \<Rightarrow> bool" where
  "de_steuer_id_structure digits =
     (if length digits < 10 then False
      else case steuer_counts (take 10 digits) (replicate 10 0) of
        None \<Rightarrow> False
      | Some counts \<Rightarrow>
          let zeros = length (filter (\<lambda>c. c = 0) counts);
              twos = length (filter (\<lambda>c. c = 2) counts);
              threes = length (filter (\<lambda>c. c = 3) counts);
              overflow = length (filter (\<lambda>c. c > 3) counts)
          in if overflow \<noteq> 0 then False
             else (twos = 1 \<and> threes = 0 \<and> zeros = 1) \<or> (threes = 1 \<and> twos = 0 \<and> zeros = 2))"

section \<open>A pattern\<close>

text \<open>\<open>&s[a..b]\<close>, for \<open>a <= b <= s.len()\<close>.\<close>

definition byte_slice :: "nat \<Rightarrow> nat \<Rightarrow> bytes \<Rightarrow> bytes" where
  "byte_slice a b s = take (b - a) (drop a s)"

text \<open>\<open>digits.iter().zip(WEIGHTS.iter()).map(|(d, w)| d * w).sum()\<close>.\<close>

definition weighted_sum :: "nat list \<Rightarrow> nat list \<Rightarrow> nat" where
  "weighted_sum ds ws = sum_list (map (\<lambda>(d, w). d * w) (zip ds ws))"

text \<open>\<open>PatternDef\<close>. The regular expression is its source text: the \<open>regex\<close> engine is a parameter of the
  scanner. In it \<open>rx\<close> reads an exclamation mark, which no expression of the catalogue has, as the
  backslash.\<close>

definition rx :: "string \<Rightarrow> string" where
  "rx s = map (\<lambda>c. if c = CHR ''!'' then CHR 0x5C else c) s"

record PatternDef =
  pd_category :: string
  pd_region :: string
  pd_name :: string
  pd_regex :: string
  pd_validator :: "bytes \<Rightarrow> bool"

section \<open>Check-digit schemes\<close>

lemma digit_val_less: "is_digit b \<Longrightarrow> digit_val b < 10"
  unfolding is_digit_def digit_val_def by linarith

lemma digit_val_inject: "is_digit a \<Longrightarrow> is_digit b \<Longrightarrow> digit_val a = digit_val b \<longleftrightarrow> a = b"
proof
  assume d: "is_digit a" "is_digit b" and "digit_val a = digit_val b"
  then have "byte_of a = byte_of b" unfolding is_digit_def digit_val_def by linarith
  then show "a = b" by simp
qed simp

text \<open>Folding a digit string through a step that may look at the position.\<close>

primrec fold_digits :: "(nat \<Rightarrow> nat \<Rightarrow> nat \<Rightarrow> nat) \<Rightarrow> nat \<Rightarrow> nat list \<Rightarrow> nat \<Rightarrow> nat" where
  "fold_digits f i [] c = c"
| "fold_digits f i (d # ds) c = fold_digits f (Suc i) ds (f i d c)"

lemma fold_digits_append:
  "fold_digits f i (xs @ ys) c = fold_digits f (i + length xs) ys (fold_digits f i xs c)"
  by (induction xs arbitrary: i c) auto

text \<open>
  What a check-digit scheme promises: the states reachable at a position (\<open>St\<close>) are kept by every
  step, and a step loses neither the digit nor the state it came from.
\<close>

locale check_scheme =
  fixes step :: "nat \<Rightarrow> nat \<Rightarrow> nat \<Rightarrow> nat"
    and St :: "nat \<Rightarrow> nat \<Rightarrow> bool"
  assumes step_St: "St i c \<Longrightarrow> d < 10 \<Longrightarrow> St (Suc i) (step i d c)"
    and step_digit: "St i c \<Longrightarrow> d < 10 \<Longrightarrow> e < 10 \<Longrightarrow> step i d c = step i e c \<Longrightarrow> d = e"
    and step_state: "St i c \<Longrightarrow> St i c' \<Longrightarrow> d < 10 \<Longrightarrow> step i d c = step i d c' \<Longrightarrow> c = c'"
begin

lemma fold_St: "St i c \<Longrightarrow> list_all (\<lambda>d. d < 10) ds \<Longrightarrow> St (i + length ds) (fold_digits step i ds c)"
proof (induction ds arbitrary: i c)
  case (Cons d ds)
  then have "St (Suc i + length ds) (fold_digits step (Suc i) ds (step i d c))"
    by (intro Cons.IH) (simp_all add: step_St)
  then show ?case by simp
qed simp

lemma fold_state:
  "St i c \<Longrightarrow> St i c' \<Longrightarrow> list_all (\<lambda>d. d < 10) ds \<Longrightarrow>
   fold_digits step i ds c = fold_digits step i ds c' \<Longrightarrow> c = c'"
proof (induction ds arbitrary: i c c')
  case (Cons d ds)
  have d: "d < 10" and ds: "list_all (\<lambda>d. d < 10) ds" using Cons.prems(3) by simp_all
  have "step i d c = step i d c'"
    using Cons.prems(4) unfolding fold_digits.simps
    by (rule Cons.IH [OF step_St [OF Cons.prems(1) d] step_St [OF Cons.prems(2) d] ds])
  then show ?case by (rule step_state [OF Cons.prems(1,2) d])
qed simp

lemma single_error:
  assumes "St i c" "list_all (\<lambda>d. d < 10) ds" "k < length ds" "e < 10" "e \<noteq> ds ! k"
  shows "fold_digits step i (ds[k := e]) c \<noteq> fold_digits step i ds c"
proof
  let ?c = "fold_digits step i (take k ds) c" and ?r = "drop (Suc k) ds"
  assume eq: "fold_digits step i (ds[k := e]) c = fold_digits step i ds c"
  have ds: "ds = take k ds @ ds ! k # ?r" using assms(3) by (rule id_take_nth_drop)
  have upd: "ds[k := e] = take k ds @ e # ?r" using assms(3) by (rule upd_conv_take_nth_drop)
  have take: "list_all (\<lambda>d. d < 10) (take k ds)" and r: "list_all (\<lambda>d. d < 10) ?r"
    and d: "ds ! k < 10"
    using assms(2,3) by (simp_all add: list_all_length)
  have len: "length (take k ds) = k" using assms(3) by simp
  have St: "St (i + k) ?c" using fold_St [OF assms(1) take] len by simp
  have f: "fold_digits step i ds c = fold_digits step (Suc (i + k)) ?r (step (i + k) (ds ! k) ?c)"
    by (subst ds) (simp only: fold_digits_append fold_digits.simps len)
  have g: "fold_digits step i (ds[k := e]) c = fold_digits step (Suc (i + k)) ?r (step (i + k) e ?c)"
    by (simp only: upd fold_digits_append fold_digits.simps len)
  have "step (i + k) (ds ! k) ?c = step (i + k) e ?c"
    using eq unfolding f g
    by (intro fold_state [where ds = ?r, OF step_St [OF St] step_St [OF St] r]) (simp_all add: d assms(4))
  then show False using step_digit [OF St d assms(4)] assms(5) by blast
qed

end

text \<open>A scheme whose steps do not commute detects the transposition of neighbours as well.\<close>

locale transposition_scheme = check_scheme +
  assumes step_swap: "St i c \<Longrightarrow> d < 10 \<Longrightarrow> e < 10 \<Longrightarrow> d \<noteq> e \<Longrightarrow>
    step (Suc i) e (step i d c) \<noteq> step (Suc i) d (step i e c)"
begin

lemma transposition:
  assumes "St i c" "list_all (\<lambda>d. d < 10) (xs @ d # e # ys)" "d \<noteq> e"
  shows "fold_digits step i (xs @ d # e # ys) c \<noteq> fold_digits step i (xs @ e # d # ys) c"
proof
  let ?j = "i + length xs" and ?c = "fold_digits step i xs c"
  assume eq: "fold_digits step i (xs @ d # e # ys) c = fold_digits step i (xs @ e # d # ys) c"
  have d: "d < 10" and e: "e < 10" and xs: "list_all (\<lambda>d. d < 10) xs" and ys: "list_all (\<lambda>d. d < 10) ys"
    using assms(2) by simp_all
  have St: "St ?j ?c" by (rule fold_St [OF assms(1) xs])
  have St2: "St (Suc (Suc ?j)) (step (Suc ?j) a (step ?j b ?c))" if "a < 10" "b < 10" for a b
    by (intro step_St St that)
  have "step (Suc ?j) e (step ?j d ?c) = step (Suc ?j) d (step ?j e ?c)"
    using eq unfolding fold_digits_append fold_digits.simps
    by (rule fold_state [OF St2 [OF e d] St2 [OF d e] ys])
  then show False using step_swap [OF St d e assms(3)] by blast
qed

end

section \<open>Luhn\<close>

definition luhn_weight :: "bool \<Rightarrow> nat \<Rightarrow> nat" where
  "luhn_weight alt d = (let v = (if alt then d * 2 else d) in if v > 9 then v - 9 else v)"

definition luhn_step :: "nat \<Rightarrow> nat \<Rightarrow> nat \<Rightarrow> nat" where
  "luhn_step i d c = (c + luhn_weight (odd i) d) mod 10"

lemma mod_cancel_le:
  assumes "a \<le> b" "b < a + n" "(c + a) mod n = (c + b) mod n"
  shows "a = (b :: nat)"
proof -
  have "n dvd (c + b) - (c + a)"
    using mod_eq_dvd_iff_nat [of "c + a" "c + b" n] assms(1,3) by (simp del: add_diff_cancel_left)
  then have "n dvd b - a" by simp
  with assms show ?thesis using nat_dvd_not_less [of "b - a" n] by linarith
qed

lemma mod_cancel: "a < n \<Longrightarrow> b < n \<Longrightarrow> (c + a) mod n = (c + b) mod n \<Longrightarrow> a = (b :: nat)"
  using mod_cancel_le [of a b n c] mod_cancel_le [of b a n c] by linarith

lemmas mod_10_cancel = mod_cancel [where n = 10]

lemma mod_10_cancel_state: "c < 10 \<Longrightarrow> c' < 10 \<Longrightarrow> (c + a) mod 10 = (c' + a) mod 10 \<Longrightarrow> c = (c' :: nat)"
  using mod_10_cancel [of c c' a] by (simp add: add.commute)

lemma luhn_weight_less: "d < 10 \<Longrightarrow> luhn_weight alt d < 10"
  by (auto simp: luhn_weight_def Let_def)

lemma luhn_weight_inject: "d < 10 \<Longrightarrow> e < 10 \<Longrightarrow> luhn_weight alt d = luhn_weight alt e \<Longrightarrow> d = e"
  unfolding luhn_weight_def Let_def by (cases alt; auto split: if_splits; presburger)

interpretation luhn: check_scheme luhn_step "\<lambda>i c. c < 10"
proof
  fix i c d e :: nat
  assume "d < 10" "e < 10" "luhn_step i d c = luhn_step i e c"
  then have "luhn_weight (odd i) d = luhn_weight (odd i) e"
    unfolding luhn_step_def by (intro mod_10_cancel [OF luhn_weight_less luhn_weight_less])
  with \<open>d < 10\<close> \<open>e < 10\<close> show "d = e" by (rule luhn_weight_inject)
next
  fix i c c' d :: nat
  assume "c < 10" "c' < 10" "luhn_step i d c = luhn_step i d c'"
  then show "c = c'" unfolding luhn_step_def by (rule mod_10_cancel_state)
qed (simp add: luhn_step_def)

lemma luhn_loop_Cons:
  "is_digit b \<Longrightarrow> luhn_loop (b # bs) acc alt = luhn_loop bs (acc + luhn_weight alt (digit_val b)) (\<not> alt)"
  by (simp add: luhn_weight_def Let_def)

lemma luhn_step_mod: "luhn_step i d (acc mod 10) = (acc + luhn_weight (odd i) d) mod 10"
  by (simp add: luhn_step_def mod_add_left_eq)

lemma luhn_loop_digits:
  "list_all is_digit bs \<Longrightarrow>
   \<exists>n. luhn_loop bs acc (odd i) = Some n \<and> n mod 10 = fold_digits luhn_step i (map digit_val bs) (acc mod 10)"
proof (induction bs arbitrary: acc i)
  case (Cons b bs)
  have "\<exists>n. luhn_loop bs (acc + luhn_weight (odd i) (digit_val b)) (odd (Suc i)) = Some n
    \<and> n mod 10 = fold_digits luhn_step (Suc i) (map digit_val bs) ((acc + luhn_weight (odd i) (digit_val b)) mod 10)"
    using Cons.prems by (intro Cons.IH) simp
  with Cons.prems show ?case
    by (simp add: luhn_loop_Cons luhn_step_mod del: luhn_loop.simps)
qed simp

lemma luhn_loop_not_digits: "\<not> list_all is_digit bs \<Longrightarrow> luhn_loop bs acc alt = None"
  by (induction bs arbitrary: acc alt) (auto simp: Let_def)

text \<open>The check of the source is the fold of the scheme over the reversed digits.\<close>

lemma luhn_check_fold:
  "luhn_check s \<longleftrightarrow> s \<noteq> [] \<and> list_all is_digit s \<and> fold_digits luhn_step 0 (map digit_val (rev s)) 0 = 0"
proof (cases "list_all is_digit s")
  case True
  then have "list_all is_digit (rev s)" by simp
  from luhn_loop_digits [OF this, of 0 0] True show ?thesis by (auto simp: luhn_check_def)
next
  case False
  then have "\<not> list_all is_digit (rev s)" by simp
  with False show ?thesis by (simp add: luhn_check_def luhn_loop_not_digits)
qed

text \<open>What the folds share: a changed byte is a changed digit, in the reversed string too.\<close>

lemma list_all_digits: "list_all is_digit s \<Longrightarrow> list_all (\<lambda>d. d < 10) (map digit_val s)"
  by (induction s) (simp_all add: digit_val_less)

lemma update_digits:
  assumes "list_all is_digit s" "list_all is_digit (s[k := b])" "k < length s" "b \<noteq> s ! k"
  shows "map digit_val (s[k := b]) = (map digit_val s)[k := digit_val b]"
    "digit_val b < 10" "digit_val b \<noteq> map digit_val s ! k"
proof -
  have sk: "is_digit (s ! k)" using assms(1,3) by (simp add: list_all_length)
  have "b \<in> set (s[k := b])" using assms(3) by (rule set_update_memI)
  then have b: "is_digit b" using assms(2) by (simp add: list_all_iff)
  show "map digit_val (s[k := b]) = (map digit_val s)[k := digit_val b]" by (rule map_update)
  show "digit_val b < 10" by (rule digit_val_less [OF b])
  show "digit_val b \<noteq> map digit_val s ! k"
    using assms(3,4) digit_val_inject [OF b sk] by simp
qed

lemma update_rev_digits:
  assumes "list_all is_digit s" "list_all is_digit (s[k := b])" "k < length s" "b \<noteq> s ! k"
  shows "map digit_val (rev (s[k := b])) = (map digit_val (rev s))[length s - Suc k := digit_val b]"
    "length s - Suc k < length (map digit_val (rev s))"
    "digit_val b < 10" "digit_val b \<noteq> map digit_val (rev s) ! (length s - Suc k)"
  using update_digits [OF assms] assms(3)
  by (simp_all add: rev_update rev_map [symmetric] map_update rev_nth)

text \<open>
  Changing any one byte of a number that passes the Luhn check (to a digit or to anything
  else) makes it fail: every single-digit typing error in a card number or a Luhn-protected national
  number is detected.
\<close>

theorem luhn_detects_single_error:
  assumes "luhn_check s" "k < length s" "b \<noteq> s ! k"
  shows "\<not> luhn_check (s[k := b])"
proof
  assume "luhn_check (s[k := b])"
  with assms(1) have d: "list_all is_digit s" "list_all is_digit (s[k := b])"
    and eq: "fold_digits luhn_step 0 (map digit_val (rev s)) 0 = 0"
      "fold_digits luhn_step 0 (map digit_val (rev (s[k := b]))) 0 = 0"
    by (simp_all add: luhn_check_fold)
  note u = update_rev_digits [OF d assms(2,3)]
  have "list_all (\<lambda>d. d < 10) (map digit_val (rev s))" using d(1) by (intro list_all_digits) simp
  from luhn.single_error [OF _ this u(2,3,4), of 0 0] eq u(1) show False by simp
qed

text \<open>A payment card number, and its last digit mistyped.\<close>

theorem luhn_detects_single_error_witness:
  "luhn_check ''4111111111111111'' \<and> \<not> luhn_check (''4111111111111111''[15 := CHR ''2''])"
proof
  show ok: "luhn_check ''4111111111111111''" by code_simp
  show "\<not> luhn_check (''4111111111111111''[15 := CHR ''2''])"
    by (rule luhn_detects_single_error [OF ok]) code_simp+
qed

section \<open>Verhoeff\<close>

definition verhoeff_step :: "nat \<Rightarrow> nat \<Rightarrow> nat \<Rightarrow> nat" where
  "verhoeff_step i d c = verhoeff_D ! c ! (verhoeff_P ! (i mod 8) ! d)"

text \<open>The tables: \<open>D\<close> is a group operation on the ten digits, every row of \<open>P\<close> a permutation, and
  the rows of \<open>P\<close> never make two neighbours commute in \<open>D\<close>.\<close>

lemma verhoeff_D_range: "c < 10 \<Longrightarrow> d < 10 \<Longrightarrow> verhoeff_D ! c ! d < 10"
proof -
  have "\<forall>c\<in>set [0..<10]. \<forall>d\<in>set [0..<10]. verhoeff_D ! c ! d < 10" by code_simp
  then show "c < 10 \<Longrightarrow> d < 10 \<Longrightarrow> verhoeff_D ! c ! d < 10" by simp
qed

lemma verhoeff_D_right: "c < 10 \<Longrightarrow> d < 10 \<Longrightarrow> e < 10 \<Longrightarrow> verhoeff_D ! c ! d = verhoeff_D ! c ! e \<Longrightarrow> d = e"
proof -
  have "\<forall>c\<in>set [0..<10]. distinct (map (\<lambda>d. verhoeff_D ! c ! d) [0..<10])" by code_simp
  then show "c < 10 \<Longrightarrow> d < 10 \<Longrightarrow> e < 10 \<Longrightarrow> verhoeff_D ! c ! d = verhoeff_D ! c ! e \<Longrightarrow> d = e"
    unfolding distinct_map inj_on_def by simp
qed

lemma verhoeff_D_left: "c < 10 \<Longrightarrow> c' < 10 \<Longrightarrow> d < 10 \<Longrightarrow> verhoeff_D ! c ! d = verhoeff_D ! c' ! d \<Longrightarrow> c = c'"
proof -
  have "\<forall>d\<in>set [0..<10]. distinct (map (\<lambda>c. verhoeff_D ! c ! d) [0..<10])" by code_simp
  then show "c < 10 \<Longrightarrow> c' < 10 \<Longrightarrow> d < 10 \<Longrightarrow> verhoeff_D ! c ! d = verhoeff_D ! c' ! d \<Longrightarrow> c = c'"
    unfolding distinct_map inj_on_def by simp
qed

text \<open>Associativity is checked for the two generators; it passes to products.\<close>

definition verhoeff_assoc :: "nat \<Rightarrow> bool" where
  "verhoeff_assoc c \<longleftrightarrow> c < 10 \<and> (\<forall>a<10. \<forall>b<10.
     verhoeff_D ! (verhoeff_D ! a ! b) ! c = verhoeff_D ! a ! (verhoeff_D ! b ! c))"

lemma verhoeff_assocD:
  "verhoeff_assoc c \<Longrightarrow> a < 10 \<Longrightarrow> b < 10 \<Longrightarrow> verhoeff_D ! (verhoeff_D ! a ! b) ! c = verhoeff_D ! a ! (verhoeff_D ! b ! c)"
  by (simp add: verhoeff_assoc_def)

lemma verhoeff_assoc_product:
  assumes "verhoeff_assoc c" "verhoeff_assoc d"
  shows "verhoeff_assoc (verhoeff_D ! c ! d)"
proof -
  have cd: "c < 10" "d < 10" using assms by (simp_all add: verhoeff_assoc_def)
  have "verhoeff_D ! (verhoeff_D ! a ! b) ! (verhoeff_D ! c ! d) = verhoeff_D ! a ! (verhoeff_D ! b ! (verhoeff_D ! c ! d))"
    if "a < 10" "b < 10" for a b
  proof -
    have "verhoeff_D ! (verhoeff_D ! a ! b) ! (verhoeff_D ! c ! d) = verhoeff_D ! (verhoeff_D ! (verhoeff_D ! a ! b) ! c) ! d"
      by (rule verhoeff_assocD [OF assms(2) verhoeff_D_range [OF that] cd(1), symmetric])
    also have "\<dots> = verhoeff_D ! (verhoeff_D ! a ! (verhoeff_D ! b ! c)) ! d"
      by (simp only: verhoeff_assocD [OF assms(1) that])
    also have "\<dots> = verhoeff_D ! a ! (verhoeff_D ! (verhoeff_D ! b ! c) ! d)"
      by (rule verhoeff_assocD [OF assms(2) that(1) verhoeff_D_range [OF that(2) cd(1)]])
    also have "\<dots> = verhoeff_D ! a ! (verhoeff_D ! b ! (verhoeff_D ! c ! d))"
      by (simp only: verhoeff_assocD [OF assms(2) that(2) cd(1)])
    finally show ?thesis .
  qed
  then show ?thesis using verhoeff_D_range [OF cd] by (simp add: verhoeff_assoc_def)
qed

lemma verhoeff_D_products:
  "verhoeff_D ! 1 ! 1 = 2" "verhoeff_D ! 2 ! 1 = 3" "verhoeff_D ! 3 ! 1 = 4" "verhoeff_D ! 4 ! 1 = 0"
  "verhoeff_D ! 1 ! 5 = 6" "verhoeff_D ! 2 ! 5 = 7" "verhoeff_D ! 3 ! 5 = 8" "verhoeff_D ! 4 ! 5 = 9"
  by (simp_all add: verhoeff_D_def)

lemma verhoeff_assoc_generators: "verhoeff_assoc 1" "verhoeff_assoc 5"
proof -
  have "\<forall>a\<in>set [0..<10]. \<forall>b\<in>set [0..<10].
    verhoeff_D ! (verhoeff_D ! a ! b) ! 1 = verhoeff_D ! a ! (verhoeff_D ! b ! 1)" by code_simp
  then show "verhoeff_assoc 1" by (simp add: verhoeff_assoc_def)
  have "\<forall>a\<in>set [0..<10]. \<forall>b\<in>set [0..<10].
    verhoeff_D ! (verhoeff_D ! a ! b) ! 5 = verhoeff_D ! a ! (verhoeff_D ! b ! 5)" by code_simp
  then show "verhoeff_assoc 5" by (simp add: verhoeff_assoc_def)
qed

lemma verhoeff_D_assoc:
  assumes "a < 10" "b < 10" "c < 10"
  shows "verhoeff_D ! (verhoeff_D ! a ! b) ! c = verhoeff_D ! a ! (verhoeff_D ! b ! c)"
proof -
  note g1 = verhoeff_assoc_generators(1) and g5 = verhoeff_assoc_generators(2)
  have 2: "verhoeff_assoc 2" using verhoeff_assoc_product [OF g1 g1] by (simp only: verhoeff_D_products)
  have 3: "verhoeff_assoc 3" using verhoeff_assoc_product [OF 2 g1] by (simp only: verhoeff_D_products)
  have 4: "verhoeff_assoc 4" using verhoeff_assoc_product [OF 3 g1] by (simp only: verhoeff_D_products)
  have "verhoeff_assoc 0" "verhoeff_assoc 6" "verhoeff_assoc 7" "verhoeff_assoc 8" "verhoeff_assoc 9"
    using verhoeff_assoc_product [OF 4 g1] verhoeff_assoc_product [OF g1 g5] verhoeff_assoc_product [OF 2 g5]
      verhoeff_assoc_product [OF 3 g5] verhoeff_assoc_product [OF 4 g5] by (simp_all only: verhoeff_D_products)
  moreover have "c = 0 \<or> c = 1 \<or> c = 2 \<or> c = 3 \<or> c = 4 \<or> c = 5 \<or> c = 6 \<or> c = 7 \<or> c = 8 \<or> c = 9"
    using assms(3) by presburger
  ultimately have "verhoeff_assoc c" using g1 g5 2 3 4 by blast
  then show ?thesis by (rule verhoeff_assocD [OF _ assms(1,2)])
qed

lemma verhoeff_P_range: "d < 10 \<Longrightarrow> verhoeff_P ! (i mod 8) ! d < 10"
proof -
  have "\<forall>i\<in>set [0..<8]. \<forall>d\<in>set [0..<10]. verhoeff_P ! i ! d < 10" by code_simp
  then show "d < 10 \<Longrightarrow> verhoeff_P ! (i mod 8) ! d < 10" by simp
qed

lemma verhoeff_P_inject:
  "d < 10 \<Longrightarrow> e < 10 \<Longrightarrow> verhoeff_P ! (i mod 8) ! d = verhoeff_P ! (i mod 8) ! e \<Longrightarrow> d = e"
proof -
  have "\<forall>i\<in>set [0..<8]. distinct (map (\<lambda>d. verhoeff_P ! i ! d) [0..<10])" by code_simp
  then have "distinct (map (\<lambda>d. verhoeff_P ! (i mod 8) ! d) [0..<10])" by (rule bspec) simp
  then show "d < 10 \<Longrightarrow> e < 10 \<Longrightarrow> verhoeff_P ! (i mod 8) ! d = verhoeff_P ! (i mod 8) ! e \<Longrightarrow> d = e"
    unfolding distinct_map inj_on_def by simp
qed

lemma verhoeff_P_swap:
  assumes "d < 10" "e < 10" "d \<noteq> e"
  shows "verhoeff_D ! (verhoeff_P ! (i mod 8) ! d) ! (verhoeff_P ! (Suc i mod 8) ! e)
   \<noteq> verhoeff_D ! (verhoeff_P ! (i mod 8) ! e) ! (verhoeff_P ! (Suc i mod 8) ! d)"
proof -
  let ?f = "\<lambda>x. verhoeff_P ! 1 ! x"
  let ?x = "verhoeff_P ! (i mod 8) ! d" and ?y = "verhoeff_P ! (i mod 8) ! e"
  have "\<forall>i\<in>set [0..<8]. \<forall>d\<in>set [0..<10]. verhoeff_P ! (Suc i mod 8) ! d = ?f (verhoeff_P ! i ! d)" by code_simp
  then have next_row: "\<forall>d\<in>set [0..<10]. verhoeff_P ! (Suc (i mod 8) mod 8) ! d = ?f (verhoeff_P ! (i mod 8) ! d)"
    by (rule bspec) simp
  have rows: "verhoeff_P ! (Suc i mod 8) ! d = ?f ?x" "verhoeff_P ! (Suc i mod 8) ! e = ?f ?y"
    using bspec [OF next_row, of d] bspec [OF next_row, of e] assms(1,2) by (simp_all add: mod_Suc_eq)
  have "\<forall>x\<in>set [0..<10]. \<forall>y\<in>set [0..<10]. x = y \<or> verhoeff_D ! x ! ?f y \<noteq> verhoeff_D ! y ! ?f x" by code_simp
  then have "\<forall>y\<in>set [0..<10]. ?x = y \<or> verhoeff_D ! ?x ! ?f y \<noteq> verhoeff_D ! y ! ?f ?x"
    by (rule bspec) (simp add: verhoeff_P_range assms(1))
  then have "?x = ?y \<or> verhoeff_D ! ?x ! ?f ?y \<noteq> verhoeff_D ! ?y ! ?f ?x"
    by (rule bspec) (simp add: verhoeff_P_range assms(2))
  then show ?thesis using verhoeff_P_inject [OF assms(1,2)] assms(3) unfolding rows by blast
qed

interpretation verhoeff: transposition_scheme verhoeff_step "\<lambda>i c. c < 10"
proof
  fix i c d e :: nat
  assume a: "c < 10" "d < 10" "e < 10" "verhoeff_step i d c = verhoeff_step i e c"
  have "verhoeff_P ! (i mod 8) ! d = verhoeff_P ! (i mod 8) ! e"
    using a(4) unfolding verhoeff_step_def
    by (rule verhoeff_D_right [OF a(1) verhoeff_P_range [OF a(2)] verhoeff_P_range [OF a(3)]])
  with a(2,3) show "d = e" by (rule verhoeff_P_inject)
next
  fix i c c' d :: nat
  assume a: "c < 10" "c' < 10" "d < 10" and "verhoeff_step i d c = verhoeff_step i d c'"
  then show "c = c'" unfolding verhoeff_step_def
    by (intro verhoeff_D_left [OF a(1,2) verhoeff_P_range [OF a(3)]])
next
  fix i c d e :: nat
  assume a: "c < 10" "d < 10" "e < 10" "d \<noteq> e"
  note P = verhoeff_P_range [OF a(2)] verhoeff_P_range [OF a(3)]
  show "verhoeff_step (Suc i) e (verhoeff_step i d c) \<noteq> verhoeff_step (Suc i) d (verhoeff_step i e c)"
    unfolding verhoeff_step_def verhoeff_D_assoc [OF a(1) P(1) P(2)] verhoeff_D_assoc [OF a(1) P(2) P(1)]
    using verhoeff_D_right [OF a(1) verhoeff_D_range [OF P(1,2)] verhoeff_D_range [OF P(2,1)]]
      verhoeff_P_swap [OF a(2,3,4)] by blast
qed (simp add: verhoeff_step_def verhoeff_D_range verhoeff_P_range)

lemma verhoeff_loop_fold:
  "verhoeff_loop i bs c =
    (if list_all is_digit bs then Some (fold_digits verhoeff_step i (map digit_val bs) c) else None)"
  by (induction bs arbitrary: i c) (auto simp: verhoeff_step_def)

lemma verhoeff_check_fold:
  "verhoeff_check s \<longleftrightarrow> s \<noteq> [] \<and> list_all is_digit s \<and> fold_digits verhoeff_step 0 (map digit_val (rev s)) 0 = 0"
  by (simp add: verhoeff_check_def verhoeff_loop_fold)

lemma verhoeff_single_error:
  assumes "verhoeff_check s" "k < length s" "b \<noteq> s ! k"
  shows "\<not> verhoeff_check (s[k := b])"
proof
  assume "verhoeff_check (s[k := b])"
  with assms(1) have d: "list_all is_digit s" "list_all is_digit (s[k := b])"
    and eq: "fold_digits verhoeff_step 0 (map digit_val (rev s)) 0 = 0"
      "fold_digits verhoeff_step 0 (map digit_val (rev (s[k := b]))) 0 = 0"
    by (simp_all add: verhoeff_check_fold)
  note u = update_rev_digits [OF d assms(2,3)]
  have "list_all (\<lambda>d. d < 10) (map digit_val (rev s))" using d(1) by (intro list_all_digits) simp
  from verhoeff.single_error [OF _ this u(2,3,4), of 0 0] eq u(1) show False by simp
qed

lemma verhoeff_transposition:
  assumes "verhoeff_check (xs @ a # b # ys)" "a \<noteq> b"
  shows "\<not> verhoeff_check (xs @ b # a # ys)"
proof
  assume "verhoeff_check (xs @ b # a # ys)"
  with assms(1) have d: "list_all is_digit (xs @ a # b # ys)"
    and eq: "fold_digits verhoeff_step 0 (map digit_val (rev (xs @ a # b # ys))) 0 = 0"
      "fold_digits verhoeff_step 0 (map digit_val (rev (xs @ b # a # ys))) 0 = 0"
    by (simp_all only: verhoeff_check_fold)
  have "list_all is_digit (rev (xs @ a # b # ys))" using d by simp
  then have all: "list_all (\<lambda>d. d < 10) (map digit_val (rev ys) @ digit_val b # digit_val a # map digit_val (rev xs))"
    using list_all_digits by fastforce
  have "digit_val b \<noteq> digit_val a" using d assms(2) by (simp add: digit_val_inject)
  from verhoeff.transposition [OF _ all this, of 0 0] eq show False by simp
qed

lemma update_neighbours: "length xs = k \<Longrightarrow> (xs @ a # b # ys)[k := c, Suc k := d] = xs @ c # d # ys"
  by (auto simp: list_update_append)

lemma swap_neighbours:
  "Suc k < length s \<Longrightarrow> s = take k s @ s ! k # s ! Suc k # drop (Suc (Suc k)) s"
  "Suc k < length s \<Longrightarrow>
    s[k := s ! Suc k, Suc k := s ! k] = take k s @ s ! Suc k # s ! k # drop (Suc (Suc k)) s"
proof -
  assume k: "Suc k < length s"
  then show s: "s = take k s @ s ! k # s ! Suc k # drop (Suc (Suc k)) s"
    by (metis Cons_nth_drop_Suc Suc_lessD append_take_drop_id)
  have "length (take k s) = k" using k by simp
  from update_neighbours [OF this, of "s ! k" "s ! Suc k" "drop (Suc (Suc k)) s" "s ! Suc k" "s ! k", folded s]
  show "s[k := s ! Suc k, Suc k := s ! k] = take k s @ s ! Suc k # s ! k # drop (Suc (Suc k)) s" .
qed

text \<open>
  The Verhoeff check of the Aadhaar detector detects every single-byte change and every
  exchange of two neighbouring, different digits: of a number that passes, no such variant passes.
\<close>

theorem verhoeff_detects_errors:
  assumes "verhoeff_check s"
  shows "(k < length s \<and> b \<noteq> s ! k \<longrightarrow> \<not> verhoeff_check (s[k := b])) \<and>
    (Suc j < length s \<and> s ! j \<noteq> s ! Suc j \<longrightarrow> \<not> verhoeff_check (s[j := s ! Suc j, Suc j := s ! j]))"
proof (intro conjI impI; elim conjE)
  show "k < length s \<Longrightarrow> b \<noteq> s ! k \<Longrightarrow> \<not> verhoeff_check (s[k := b])"
    by (rule verhoeff_single_error [OF assms])
next
  assume j: "Suc j < length s" and ne: "s ! j \<noteq> s ! Suc j"
  have "verhoeff_check (take j s @ s ! j # s ! Suc j # drop (Suc (Suc j)) s)"
    using assms swap_neighbours(1) [OF j] by simp
  then show "\<not> verhoeff_check (s[j := s ! Suc j, Suc j := s ! j])"
    unfolding swap_neighbours(2) [OF j] by (rule verhoeff_transposition [OF _ ne])
qed

text \<open>The published example number 2363, whose last digit is the check digit.\<close>

theorem verhoeff_detects_errors_witness:
  "verhoeff_check ''2363'' \<and> \<not> verhoeff_check (''2363''[0 := CHR ''9'']) \<and>
   \<not> verhoeff_check (''2363''[1 := ''2363'' ! Suc 1, Suc 1 := ''2363'' ! 1])"
proof -
  have ok: "verhoeff_check ''2363''" by code_simp
  have "0 < length ''2363'' \<and> CHR ''9'' \<noteq> ''2363'' ! 0" "Suc 1 < length ''2363'' \<and> ''2363'' ! 1 \<noteq> ''2363'' ! Suc 1"
    by simp_all
  with verhoeff_detects_errors [OF ok, of 0 "CHR ''9''" 1] ok show ?thesis by blast
qed

section \<open>EAN-13\<close>

definition ean13_step :: "nat \<Rightarrow> nat \<Rightarrow> nat \<Rightarrow> nat" where
  "ean13_step i d c = (c + d * (if i mod 2 = 0 then 1 else 3) mod 10) mod 10"

lemma triple_mod_inject: "d < 10 \<Longrightarrow> e < 10 \<Longrightarrow> d * 3 mod 10 = e * 3 mod (10 :: nat) \<Longrightarrow> d = e"
proof -
  have "distinct (map (\<lambda>d. d * 3 mod (10 :: nat)) [0..<10])" by code_simp
  then have "inj_on (\<lambda>d. d * 3 mod (10 :: nat)) (set [0..<10])" by (simp only: distinct_map)
  then show "d < 10 \<Longrightarrow> e < 10 \<Longrightarrow> d * 3 mod 10 = e * 3 mod (10 :: nat) \<Longrightarrow> d = e"
    by (rule inj_onD) simp_all
qed

interpretation ean13: check_scheme ean13_step "\<lambda>i c. c < 10"
proof
  fix i c d e :: nat
  assume d: "d < 10" "e < 10" and eq: "ean13_step i d c = ean13_step i e c"
  then have "d * (if i mod 2 = 0 then 1 else 3) mod 10 = e * (if i mod 2 = 0 then 1 else 3) mod 10"
    unfolding ean13_step_def by (intro mod_10_cancel [OF _ _ eq [unfolded ean13_step_def]]) simp_all
  with d triple_mod_inject [OF d] show "d = e" by (simp split: if_splits)
next
  fix i c c' d :: nat
  assume "c < 10" "c' < 10" "ean13_step i d c = ean13_step i d c'"
  then show "c = c'" unfolding ean13_step_def by (rule mod_10_cancel_state)
qed (simp add: ean13_step_def)

lemma ean13_step_mod: "ean13_step i d (acc mod 10) = (acc + d * (if i mod 2 = 0 then 1 else 3)) mod 10"
  unfolding ean13_step_def by (rule mod_add_eq)

lemma ean13_loop_fold:
  "\<exists>n. ean13_loop i bs acc = (if list_all is_digit bs then Some n else None) \<and>
     n mod 10 = fold_digits ean13_step i (map digit_val bs) (acc mod 10)"
proof (induction bs arbitrary: i acc)
  case (Cons b bs)
  from Cons.IH [of "Suc i" "acc + digit_val b * (if i mod 2 = 0 then 1 else 3)"] show ?case
    by (cases "is_digit b") (auto simp: ean13_step_mod simp del: fold_digits.simps(1))
qed simp

lemma ean13_check_fold:
  "ean13_check s \<longleftrightarrow> length s = 13 \<and> list_all is_digit s \<and> fold_digits ean13_step 0 (map digit_val s) 0 = 0"
proof -
  obtain n where "ean13_loop 0 s 0 = (if list_all is_digit s then Some n else None)"
    and "n mod 10 = fold_digits ean13_step 0 (map digit_val s) 0"
    using ean13_loop_fold [of 0 s 0] by auto
  then show ?thesis by (simp add: ean13_check_def)
qed

lemma ean13_single_error:
  assumes "ean13_check s" "k < length s" "b \<noteq> s ! k"
  shows "\<not> ean13_check (s[k := b])"
proof
  assume "ean13_check (s[k := b])"
  with assms(1) have d: "list_all is_digit s" "list_all is_digit (s[k := b])"
    and eq: "fold_digits ean13_step 0 (map digit_val s) 0 = 0"
      "fold_digits ean13_step 0 (map digit_val (s[k := b])) 0 = 0"
    by (simp_all add: ean13_check_fold)
  note u = update_digits [OF d assms(2,3)]
  from ean13.single_error [OF _ list_all_digits [OF d(1)] _ u(2,3), of 0 0] assms(2) eq u(1) show False by simp
qed

section \<open>ISO 7064 mod 11,10\<close>

text \<open>The last digit closes the product to 1 modulo 10.\<close>

definition iso7064_fold :: "nat \<Rightarrow> nat \<Rightarrow> nat \<Rightarrow> nat" where
  "iso7064_fold i d c = (if i < 10 then iso7064_step d c else (d + c) mod 10)"

definition iso7064_St :: "nat \<Rightarrow> nat \<Rightarrow> bool" where
  "iso7064_St i c \<longleftrightarrow> (if i \<le> 10 then 1 \<le> c \<and> c \<le> 10 else c < 10)"

lemma iso7064_step_table:
  assumes "1 \<le> c" "c \<le> 10" "d < 10"
  shows "1 \<le> iso7064_step d c" "iso7064_step d c \<le> 10"
    and "\<And>e. e < 10 \<Longrightarrow> iso7064_step d c = iso7064_step e c \<Longrightarrow> d = e"
    and "\<And>c'. 1 \<le> c' \<Longrightarrow> c' \<le> 10 \<Longrightarrow> iso7064_step d c = iso7064_step d c' \<Longrightarrow> c = c'"
proof -
  have c: "c \<in> set [1..<11]" and d: "d \<in> set [0..<10]" using assms by auto
  have "\<forall>c\<in>set [1..<11]. \<forall>d\<in>set [0..<10]. 1 \<le> iso7064_step d c \<and> iso7064_step d c \<le> 10" by code_simp
  from bspec [OF bspec [OF this c] d] show "1 \<le> iso7064_step d c" "iso7064_step d c \<le> 10" by blast+
  have "\<forall>c\<in>set [1..<11]. distinct (map (\<lambda>d. iso7064_step d c) [0..<10])" by code_simp
  from bspec [OF this c] have inj: "inj_on (\<lambda>d. iso7064_step d c) (set [0..<10])" by (simp only: distinct_map)
  show "d = e" if "e < 10" "iso7064_step d c = iso7064_step e c" for e
    using inj_onD [OF inj that(2)] that(1) d by simp
  have "\<forall>d\<in>set [0..<10]. distinct (map (\<lambda>c. iso7064_step d c) [1..<11])" by code_simp
  from bspec [OF this d] have inj: "inj_on (\<lambda>c. iso7064_step d c) (set [1..<11])" by (simp only: distinct_map)
  show "c = c'" if "1 \<le> c'" "c' \<le> 10" "iso7064_step d c = iso7064_step d c'" for c'
    using inj_onD [OF inj that(3) c] that(1,2) by simp
qed

interpretation iso7064: check_scheme iso7064_fold iso7064_St
proof
  fix i c d :: nat
  assume "iso7064_St i c" "d < 10"
  then show "iso7064_St (Suc i) (iso7064_fold i d c)"
    using iso7064_step_table(1,2) [of c d] by (auto simp: iso7064_St_def iso7064_fold_def split: if_splits)
next
  fix i c d e :: nat
  assume a: "iso7064_St i c" "d < 10" "e < 10" "iso7064_fold i d c = iso7064_fold i e c"
  show "d = e"
  proof (cases "i < 10")
    case True
    with a show ?thesis using iso7064_step_table(3) [of c d e] by (simp add: iso7064_St_def iso7064_fold_def)
  next
    case False
    with a(4) have "(c + d) mod 10 = (c + e) mod 10" by (simp add: iso7064_fold_def add.commute)
    then show ?thesis by (rule mod_10_cancel [OF a(2,3)])
  qed
next
  fix i c c' d :: nat
  assume a: "iso7064_St i c" "iso7064_St i c'" "d < 10" "iso7064_fold i d c = iso7064_fold i d c'"
  show "c = c'"
  proof (cases "i < 10")
    case True
    with a show ?thesis using iso7064_step_table(4) [of c d c'] by (simp add: iso7064_St_def iso7064_fold_def)
  next
    case False
    with a(4) have eq: "(d + c) mod 10 = (d + c') mod 10" by (simp add: iso7064_fold_def)
    have "c < c' + 10" "c' < c + 10" using a(1,2) by (auto simp: iso7064_St_def split: if_splits)
    then show ?thesis
      using mod_cancel_le [OF _ _ eq] mod_cancel_le [OF _ _ eq [symmetric]] by linarith
  qed
qed

lemma iso7064_products:
  "i + length bs \<le> 10 \<Longrightarrow>
   fold (\<lambda>b p. iso7064_step (digit_val b) p) bs c = fold_digits iso7064_fold i (map digit_val bs) c"
  by (induction bs arbitrary: i c) (simp_all add: iso7064_fold_def)

lemma iso7064_close: "d < 10 \<Longrightarrow> 1 \<le> p \<Longrightarrow> p \<le> 10 \<Longrightarrow> d = (11 - p) mod 10 \<longleftrightarrow> (d + p) mod 10 = (1 :: nat)"
proof -
  have "\<forall>d\<in>set [0..<10]. \<forall>p\<in>set [1..<11]. d = (11 - p) mod 10 \<longleftrightarrow> (d + p) mod 10 = (1 :: nat)" by code_simp
  then have "d \<in> set [0..<10] \<Longrightarrow> p \<in> set [1..<11] \<Longrightarrow> d = (11 - p) mod 10 \<longleftrightarrow> (d + p) mod 10 = (1 :: nat)"
    by blast
  then show "d < 10 \<Longrightarrow> 1 \<le> p \<Longrightarrow> p \<le> 10 \<Longrightarrow> d = (11 - p) mod 10 \<longleftrightarrow> (d + p) mod 10 = (1 :: nat)" by simp
qed

lemma iso7064_check_fold:
  "iso7064_mod11_10 s \<longleftrightarrow>
    length s = 11 \<and> list_all is_digit s \<and> fold_digits iso7064_fold 0 (map digit_val s) 10 = 1"
proof (cases "length s = 11 \<and> list_all is_digit s")
  case True
  let ?p = "fold_digits iso7064_fold 0 (map digit_val (take 10 s)) 10"
  have len: "length (map digit_val (take 10 s)) = 10" using True by simp
  have s: "s = take 10 s @ [s ! 10]" using True by (simp add: take_Suc_conv_app_nth [of 10 s, symmetric])
  have "list_all is_digit (take 10 s)" using True by (simp add: list_all_length)
  then have "iso7064_St (0 + length (map digit_val (take 10 s))) ?p"
    by (intro iso7064.fold_St list_all_digits) (simp add: iso7064_St_def)
  then have p: "1 \<le> ?p" "?p \<le> 10" unfolding len by (simp_all add: iso7064_St_def)
  have d: "digit_val (s ! 10) < 10" using True by (simp add: list_all_length digit_val_less)
  have "fold_digits iso7064_fold 0 (map digit_val s) 10 = (digit_val (s ! 10) + ?p) mod 10"
    by (subst s) (simp add: fold_digits_append iso7064_fold_def [of 10] len [simplified] True)
  with True iso7064_close [OF d p] show ?thesis
    by (simp add: iso7064_mod11_10_def Let_def iso7064_products [of 0])
next
  case False
  then show ?thesis by (auto simp: iso7064_mod11_10_def)
qed

lemma iso7064_single_error:
  assumes "iso7064_mod11_10 s" "k < length s" "b \<noteq> s ! k"
  shows "\<not> iso7064_mod11_10 (s[k := b])"
proof
  assume "iso7064_mod11_10 (s[k := b])"
  with assms(1) have d: "list_all is_digit s" "list_all is_digit (s[k := b])"
    and eq: "fold_digits iso7064_fold 0 (map digit_val s) 10 = 1"
      "fold_digits iso7064_fold 0 (map digit_val (s[k := b])) 10 = 1"
    by (simp_all add: iso7064_check_fold)
  note u = update_digits [OF d assms(2,3)]
  have "iso7064_St 0 10" by (simp add: iso7064_St_def)
  from iso7064.single_error [OF this list_all_digits [OF d(1)] _ u(2,3)] assms(2) eq u(1) show False by simp
qed

section \<open>ISO 7064 mod 97\<close>

text \<open>The definition of the standard: the first four characters moved to the end, every letter
  written as the number 10 to 35, and the whole read as one decimal number.\<close>

definition iban_digits :: "char \<Rightarrow> string" where
  "iban_digits c = (if is_digit c then [c] else nat_str (letter_val c + 10))"

definition iban_number :: "bytes \<Rightarrow> nat" where
  "iban_number s = read_nat (concat (map iban_digits (drop 4 s @ take 4 s)))"

definition read_from :: "nat \<Rightarrow> string \<Rightarrow> nat" where
  "read_from n s = foldl (\<lambda>n c. n * 10 + (byte_of c - 48)) n s"

lemma read_nat_from: "read_nat s = read_from 0 s"
  by (simp add: read_nat_def read_from_def)

lemma read_from_append: "read_from n (s @ t) = read_from (read_from n s) t"
  by (simp add: read_from_def)

lemma is_upper_not_digit: "is_upper b \<Longrightarrow> \<not> is_digit b"
  unfolding is_upper_def is_digit_def by linarith

lemma letter_val_less: "is_upper b \<Longrightarrow> letter_val b < 26"
  unfolding is_upper_def letter_val_def by linarith

lemma nat_str_two: "10 \<le> v \<Longrightarrow> v < 100 \<Longrightarrow> nat_str v = [digit (v div 10), digit (v mod 10)]"
  by (subst nat_str.simps, subst nat_str.simps) (simp add: div_less_iff_less_mult)

lemma read_from_iban_digits:
  "is_digit b \<Longrightarrow> read_from n (iban_digits b) = n * 10 + digit_val b"
  "is_upper b \<Longrightarrow> read_from n (iban_digits b) = n * 100 + (letter_val b + 10)"
proof -
  show "is_digit b \<Longrightarrow> read_from n (iban_digits b) = n * 10 + digit_val b"
    by (simp add: iban_digits_def read_from_def digit_val_def)
  assume b: "is_upper b"
  let ?v = "letter_val b + 10"
  have v: "?v < 100" using letter_val_less [OF b] by simp
  have "nat_str ?v = [digit (?v div 10), digit (?v mod 10)]" by (rule nat_str_two [OF _ v]) simp
  moreover have "?v div 10 < 10" using v by (simp add: div_less_iff_less_mult del: div_add_self2 add_less_cancel_right)
  ultimately have "read_from n (iban_digits b) = (n * 10 + ?v div 10) * 10 + ?v mod 10"
    using b by (simp add: iban_digits_def is_upper_not_digit read_from_def byte_of_digit)
  then show "read_from n (iban_digits b) = n * 100 + (letter_val b + 10)"
    using div_mult_mod_eq [of ?v 10] by (simp add: algebra_simps)
qed

lemma mod97_step: "(n mod 97 * k + v) mod 97 = (n * k + v) mod (97 :: nat)"
  by (metis mod_add_left_eq mod_mult_left_eq)

lemma mod97_loop_number:
  "mod97_loop bs (n mod 97) =
    (if list_all (\<lambda>b. is_digit b \<or> is_upper b) bs then Some (read_from n (concat (map iban_digits bs)) mod 97) else None)"
proof (induction bs arbitrary: n)
  case Nil
  then show ?case by (simp add: read_from_def)
next
  case (Cons b bs)
  consider (digit) "is_digit b" | (upper) "is_upper b" "\<not> is_digit b" | (other) "\<not> is_digit b" "\<not> is_upper b" by blast
  then show ?case
  proof cases
    case digit
    with Cons.IH [of "n * 10 + digit_val b"] digit_val_less [OF digit] show ?thesis
      by (simp add: Let_def mod97_step read_from_append read_from_iban_digits)
  next
    case upper
    with Cons.IH [of "n * 100 + (letter_val b + 10)"] show ?thesis
      by (simp add: Let_def mod97_step read_from_append read_from_iban_digits del: add_Suc_right)
  next
    case other
    then show ?thesis by simp
  qed
qed

text \<open>
  The running remainder of \<open>mod97_check\<close> computes the definition of the standard: an IBAN is
  accepted exactly when it has 5 to 34 characters, all of them digits or capital letters, and its
  number (up to 70 decimal digits, never formed by the code) is 1 modulo 97.
\<close>

theorem mod97_check_iff:
  "mod97_check s \<longleftrightarrow> 5 \<le> length s \<and> length s \<le> 34 \<and> list_all (\<lambda>b. is_digit b \<or> is_upper b) s \<and>
     iban_number s mod 97 = 1"
proof -
  have alnum: "list_all is_alphanumeric s" if "list_all (\<lambda>b. is_digit b \<or> is_upper b) s"
    using that by (simp add: list_all_iff is_alphanumeric_def is_alphabetic_def) blast
  have rot: "list_all P (drop 4 s @ take 4 s) \<longleftrightarrow> list_all P s" for P
    by (metis append_take_drop_id list_all_append conj_commute)
  have "mod97_loop (drop 4 s @ take 4 s) 0 =
    (if list_all (\<lambda>b. is_digit b \<or> is_upper b) s then Some (iban_number s mod 97) else None)"
    using mod97_loop_number [of "drop 4 s @ take 4 s" 0] unfolding rot iban_number_def read_nat_from by simp
  with alnum show ?thesis by (auto simp: mod97_check_def)
qed

text \<open>Every country code and account number have check digits the test accepts.\<close>

lemma mod97_completes:
  assumes "length cc = 2" "list_all is_upper cc" "list_all (\<lambda>b. is_digit b \<or> is_upper b) bban"
    and "bban \<noteq> []" "length bban \<le> 30"
    and n: "n = read_nat (concat (map iban_digits (bban @ cc))) * 100"
    and cd: "cd = 98 - n mod 97"
  shows "mod97_check (cc @ [digit (cd div 10), digit (cd mod 10)] @ bban)"
proof -
  let ?d = "[digit (cd div 10), digit (cd mod 10)]"
  have cd_bounds: "1 < cd" "cd div 10 < 10" using cd mod_less_divisor [of 97 n] by (linarith, simp add: div_less_iff_less_mult)
  have d: "is_digit (digit (cd div 10))" "is_digit (digit (cd mod 10))"
    using cd_bounds(2) byte_of_digit [of "cd div 10"] byte_of_digit [of "cd mod 10"] by (simp_all add: is_digit_def)
  have "iban_number (cc @ ?d @ bban) = (read_nat (concat (map iban_digits (bban @ cc))) * 10 + cd div 10) * 10 + cd mod 10"
    using assms(1) d cd_bounds(2)
    by (simp add: iban_number_def read_nat_from read_from_append read_from_iban_digits digit_val_def byte_of_digit)
  also have "\<dots> = n + cd" using n div_mult_mod_eq [of cd 10] by (simp add: algebra_simps)
  also have "(n + cd) mod 97 = (n mod 97 + cd) mod 97" by (rule mod_add_left_eq [symmetric])
  also have "n mod 97 + cd = 98" using cd mod_less_divisor [of 97 n] by linarith
  finally have "iban_number (cc @ ?d @ bban) mod 97 = 1" by simp
  with assms(1-5) d show ?thesis
    unfolding mod97_check_iff by (auto simp: list_all_iff Suc_le_eq)
qed

section \<open>Dates of birth and the structure of the Steuer-IdNr\<close>

lemma days_in_year: "sum_list (map (days_in_month y) [1..<13]) = (if is_leap_year y then 366 else 365)"
  by (simp add: days_in_month_def upt_rec)

lemma valid_dob_iff: "valid_dob y m d \<longleftrightarrow> 1 \<le> m \<and> m \<le> 12 \<and> 1 \<le> d \<and> d \<le> days_in_month y m"
  by (auto simp: valid_dob_def)

lemma parse_ascii_digits_iff:
  "parse_ascii_digits s = (if list_all is_digit s then Some (map digit_val s) else None)"
  by (induction s) auto

lemma parse_u32_from_spec:
  "acc \<le> u32_max \<Longrightarrow> parse_u32_from acc s = Some n \<longleftrightarrow> list_all is_digit s \<and> n = read_from acc s \<and> n \<le> u32_max"
proof (induction s arbitrary: acc)
  case Nil
  then show ?case by (auto simp: read_from_def)
next
  case (Cons b bs)
  let ?acc = "acc * 10 + digit_val b"
  have read: "read_from acc (b # bs) = read_from ?acc bs" by (simp add: read_from_def digit_val_def)
  have mono: "m \<le> read_from m t" for m t
  proof (induction t arbitrary: m)
    case (Cons c t)
    have "m \<le> m * 10 + (byte_of c - 48)" by simp
    also have "\<dots> \<le> read_from (m * 10 + (byte_of c - 48)) t" by (rule Cons.IH)
    finally show ?case by (simp add: read_from_def)
  qed (simp add: read_from_def)
  show ?case
  proof (cases "is_digit b \<and> ?acc \<le> u32_max")
    case True
    with Cons.IH [of ?acc] read show ?thesis by simp
  next
    case False
    with mono [of ?acc bs] read show ?thesis by auto
  qed
qed

text \<open>\<open>parse_ascii_u32\<close> is the decimal value, and refuses exactly the non-digits and the values
  beyond \<open>u32::MAX\<close>.\<close>

lemma parse_ascii_u32_iff:
  "parse_ascii_u32 s = Some n \<longleftrightarrow> list_all is_digit s \<and> n = read_nat s \<and> n \<le> u32_max"
  using parse_u32_from_spec [of 0 s n] by (simp add: parse_ascii_u32_def read_nat_from)

lemma steuer_counts_spec:
  "length counts = 10 \<Longrightarrow> steuer_counts bs counts =
    (if list_all is_digit bs then Some (map (\<lambda>d. counts ! d + count_list (map digit_val bs) d) [0..<10]) else None)"
proof (induction bs arbitrary: counts)
  case Nil
  then have "map (\<lambda>d. counts ! d) [0..<10] = counts" using map_nth [of counts] by simp
  then show ?case by simp
next
  case (Cons b bs)
  show ?case
  proof (cases "is_digit b")
    case True
    then have b: "digit_val b < 10" by (rule digit_val_less)
    have "map (\<lambda>d. counts[digit_val b := counts ! digit_val b + 1] ! d + count_list (map digit_val bs) d) [0..<10]
      = map (\<lambda>d. counts ! d + count_list (map digit_val (b # bs)) d) [0..<10]"
      using b Cons.prems by (intro map_cong) (auto simp: nth_list_update)
    then show ?thesis using True Cons.IH [of "counts[digit_val b := counts ! digit_val b + 1]"] Cons.prems by simp
  qed simp
qed

lemma sum_at_most_one:
  "finite A \<Longrightarrow> \<forall>e\<in>A. f e \<le> (1 :: nat) \<Longrightarrow> sum f A + card {e \<in> A. f e = 0} = card A"
proof (induction A rule: finite_induct)
  case (insert x A)
  have "{e \<in> insert x A. f e = 0} = (if f x = 0 then insert x {e \<in> A. f e = 0} else {e \<in> A. f e = 0})" by auto
  with insert show ?case by auto
qed simp

text \<open>Of ten counts that sum to ten, one is two or three and the others at most one exactly when the
  numbers of twos, threes, zeros and larger counts are those the code tests.\<close>

lemma steuer_counts_shape:
  fixes f :: "nat \<Rightarrow> nat"
  assumes "sum f {..<10} = 10"
  shows "(card {d \<in> {..<10}. f d > 3} = 0 \<and>
      (card {d \<in> {..<10}. f d = 2} = 1 \<and> card {d \<in> {..<10}. f d = 3} = 0 \<and> card {d \<in> {..<10}. f d = 0} = 1 \<or>
       card {d \<in> {..<10}. f d = 3} = 1 \<and> card {d \<in> {..<10}. f d = 2} = 0 \<and> card {d \<in> {..<10}. f d = 0} = 2))
    \<longleftrightarrow> (\<exists>d<10. (f d = 2 \<or> f d = 3) \<and> (\<forall>e<10. e \<noteq> d \<longrightarrow> f e \<le> 1))" (is "?L \<longleftrightarrow> ?R")
proof
  assume L: ?L
  then have no3: "\<not> f e > 3" if "e < 10" for e :: nat using that by auto
  from L consider d where "{d \<in> {..<10}. f d = 2} = {d}" "{d \<in> {..<10}. f d = 3} = {}"
    | d where "{d \<in> {..<10}. f d = 3} = {d}" "{d \<in> {..<10}. f d = 2} = {}"
    by (auto simp: card_1_singleton_iff)
  then show ?R
  proof cases
    case 1
    have "f e \<le> 1" if "e < 10" "e \<noteq> d" for e
    proof -
      have "f e \<noteq> 2" "f e \<noteq> 3" using 1 that by blast+
      with no3 [OF that(1)] show ?thesis by linarith
    qed
    with 1(1) show ?thesis by blast
  next
    case 2
    have "f e \<le> 1" if "e < 10" "e \<noteq> d" for e
    proof -
      have "f e \<noteq> 2" "f e \<noteq> 3" using 2 that by blast+
      with no3 [OF that(1)] show ?thesis by linarith
    qed
    with 2(1) show ?thesis by blast
  qed
next
  assume ?R
  then obtain d where d: "d < 10" "f d = 2 \<or> f d = 3" and le: "\<forall>e<10. e \<noteq> d \<longrightarrow> f e \<le> 1" by blast
  let ?A = "{..<10} - {d}"
  have A: "sum f ?A + card {e \<in> ?A. f e = 0} = 9"
    using sum_at_most_one [of ?A f] le d(1) by simp
  have "sum f {..<10} = f d + sum f ?A" using d(1) by (intro sum.remove) simp_all
  with A assms have zeros: "card {e \<in> ?A. f e = 0} = f d - 1" by linarith
  have "{e \<in> {..<10}. f e = 0} = {e \<in> ?A. f e = 0}" using d(2) by auto
  moreover have "{e \<in> {..<10}. f e = k} = (if f d = k then {d} else {})" if "k > 1" for k
  proof (intro set_eqI)
    fix e
    show "e \<in> {e \<in> {..<10}. f e = k} \<longleftrightarrow> e \<in> (if f d = k then {d} else {})"
      using le [rule_format, of e] d(1) that by (cases "e = d") auto
  qed
  moreover have "{e \<in> {..<10}. f e > 3} = {}"
  proof (intro equals0I)
    fix e
    assume e: "e \<in> {e \<in> {..<10}. f e > 3}"
    with le [rule_format, of e] d(2) show False by (cases "e = d") auto
  qed
  ultimately show ?L using d(2) zeros by auto
qed

lemma length_filter_map_upt: "length (filter P (map f [0..<n])) = card {d \<in> {..<n}. P (f d)}"
proof -
  have "length (filter P (map f [0..<n])) = length (filter (\<lambda>d. P (f d)) [0..<n])"
    by (simp add: filter_map comp_def)
  also have "\<dots> = card {d. d < n \<and> P (f d)}" using length_filter_conv_card [of "\<lambda>d. P (f d)" "[0..<n]"]
    by (auto intro: arg_cong [where f = card])
  finally show ?thesis by simp
qed

text \<open>The structural rule is the one of its comment: among the ten leading digits exactly one is
  repeated, two or three times.\<close>

lemma de_steuer_id_structure_iff:
  "de_steuer_id_structure s \<longleftrightarrow> 10 \<le> length s \<and> list_all is_digit (take 10 s) \<and>
    (\<exists>d<10. (count_list (map digit_val (take 10 s)) d = 2 \<or> count_list (map digit_val (take 10 s)) d = 3) \<and>
       (\<forall>e<10. e \<noteq> d \<longrightarrow> count_list (map digit_val (take 10 s)) e \<le> 1))"
proof (cases "10 \<le> length s \<and> list_all is_digit (take 10 s)")
  case True
  let ?ds = "map digit_val (take 10 s)"
  have "list_all (\<lambda>d. d < 10) ?ds" using True by (intro list_all_digits) blast
  then have "set ?ds \<subseteq> {..<10}" unfolding list_all_iff by blast
  then have "sum (count_list ?ds) {..<10} = length ?ds" by (intro sum_count_set) simp_all
  then have sum: "sum (count_list ?ds) {..<10} = 10" using True by simp
  have "steuer_counts (take 10 s) (replicate 10 0) = Some (map (count_list ?ds) [0..<10])"
    using steuer_counts_spec [of "replicate 10 0" "take 10 s"] True by simp
  with True steuer_counts_shape [OF sum] show ?thesis
    by (simp only: de_steuer_id_structure_def option.case Let_def length_filter_map_upt) auto
next
  case False
  then show ?thesis
    using steuer_counts_spec [of "replicate 10 0" "take 10 s"] by (auto simp: de_steuer_id_structure_def)
qed

lemma parse_ascii_u32_eq:
  "parse_ascii_u32 s = (if list_all is_digit s \<and> read_nat s \<le> u32_max then Some (read_nat s) else None)"
  using parse_ascii_u32_iff [of s "read_nat s"] parse_ascii_u32_iff [of s] by (cases "parse_ascii_u32 s") auto

end
