(* ===== verification/DlpAsia.thy ===== *)
theory DlpAsia
  imports DlpValidators
begin

text \<open>
  The Asia region of the DLP catalogue (\<open>sda-dlp/src/patterns/asia.rs\<close>): one validator per national
  identifier, over the bytes a pattern matched, and the list of patterns. Every index and byte_slice of the
  source stands behind its length test, so the acc \<^const>\<open>nth\<close>, \<^const>\<open>take\<close> and \<^const>\<open>drop\<close> are
  the source's operations.
\<close>

section \<open>Validators\<close>

definition validate_vn_cccd :: "bytes \<Rightarrow> bool" where
  "validate_vn_cccd s =
     (if length s \<noteq> 12 then False
      else case parse_ascii_u32 (byte_slice 0 3 s) of
        None \<Rightarrow> False
      | Some province \<Rightarrow>
          if \<not> (1 \<le> province \<and> province \<le> 96) then False
          else let century_gender = (byte_of (s ! 3) + 256 - 48) mod 256
               in if century_gender > 5 then False else list_all is_digit (byte_slice 4 6 s))"

definition validate_vn_mst :: "bytes \<Rightarrow> bool" where
  "validate_vn_mst s =
     (case (if length s = 10 then Some s
            else if length s = 14 \<and> s ! 10 = CHR ''-'' then Some (take 10 s)
            else None) of
        None \<Rightarrow> False
      | Some base \<Rightarrow>
          (case parse_ascii_digits base of
             None \<Rightarrow> False
           | Some digits \<Rightarrow>
               let acc = weighted_sum (take 9 digits) [31, 29, 23, 19, 17, 13, 7, 5, 3];
                   modulus = acc mod 11;
                   check = (if modulus = 0 then 0 else (10 - modulus) mod 10)
               in digits ! 9 = check))"

definition vn_bhxh_prefixes :: "string list" where
  "vn_bhxh_prefixes =
    [''HN'', ''HC'', ''HP'', ''DN'', ''BD'', ''CT'', ''DH'', ''DT'', ''HG'', ''NB'', ''NA'', ''PT'',
     ''QN'', ''TB'', ''TH'', ''VP'', ''YB'', ''AG'', ''BG'', ''BK'', ''BL'', ''BN'', ''BP'', ''BR'',
     ''BT'', ''CB'', ''CM'', ''DB'', ''DG'', ''DK'', ''DL'', ''GL'', ''HD'', ''HM'', ''HT'', ''HU'',
     ''HY'', ''KH'', ''KG'', ''KT'', ''LA'', ''LC'', ''LD'', ''LO'', ''LS'', ''ND'', ''NT'', ''PY'',
     ''QB'', ''QG'', ''QT'', ''SL'', ''ST'', ''TG'', ''TQ'', ''TT'', ''TV'', ''TY'', ''VL'', ''YN'']"

definition validate_vn_bhxh :: "bytes \<Rightarrow> bool" where
  "validate_vn_bhxh s =
     (if length s \<noteq> 12 then False
      else take 2 s \<in> set vn_bhxh_prefixes \<and> list_all is_digit (drop 2 s))"

definition th_check_digit :: "nat list \<Rightarrow> nat" where
  "th_check_digit d = (let acc = sum_list (map (\<lambda>i. d ! i * (13 - i)) [0..<12]) in (11 - acc mod 11) mod 10)"

definition validate_th_id :: "bytes \<Rightarrow> bool" where
  "validate_th_id s =
     (if length s \<noteq> 13 then False
      else case parse_ascii_digits s of
        None \<Rightarrow> False
      | Some d \<Rightarrow> if d ! 0 = 0 then False else d ! 12 = th_check_digit d)"

definition validate_th_tax_id :: "bytes \<Rightarrow> bool" where
  "validate_th_tax_id s =
     (if length s \<noteq> 13 then False
      else case parse_ascii_digits s of
        None \<Rightarrow> False
      | Some d \<Rightarrow> if d ! 0 \<noteq> 0 then False else d ! 12 = th_check_digit d)"

definition sg_nric_series :: "char \<Rightarrow> (string \<times> nat) option" where
  "sg_nric_series prefix =
     (if prefix = CHR ''S'' then Some (''JZIHGFEDCBA'', 0)
      else if prefix = CHR ''T'' then Some (''JZIHGFEDCBA'', 4)
      else if prefix = CHR ''F'' then Some (''XWUTRQPNMLK'', 0)
      else if prefix = CHR ''G'' then Some (''XWUTRQPNMLK'', 4)
      else if prefix = CHR ''M'' then Some (''XWUTRQPNJLK'', 3)
      else None)"

definition validate_sg_nric :: "bytes \<Rightarrow> bool" where
  "validate_sg_nric s =
     (if length s \<noteq> 9 then False
      else let prefix = s ! 0; suffix = s ! 8
      in case parse_ascii_digits (byte_slice 1 8 s) of
        None \<Rightarrow> False
      | Some digits \<Rightarrow>
          (case sg_nric_series prefix of
             None \<Rightarrow> False
           | Some (alphabet, offset_post_2000) \<Rightarrow>
               let acc = weighted_sum digits [2, 7, 6, 5, 4, 3, 2] + offset_post_2000;
                   idx = acc mod 11;
                   expected = (if prefix = CHR ''M'' then ''XWUTRQPNJLK'' ! (10 - idx) else alphabet ! idx)
               in suffix = expected))"

definition validate_sg_uen :: "bytes \<Rightarrow> bool" where
  "validate_sg_uen s =
     (if length s = 9 then list_all is_digit (take 8 s) \<and> is_upper (s ! 8)
      else if length s = 10 then
        (if list_all is_digit (take 9 s) \<and> is_upper (s ! 9) then True
         else if s ! 0 \<notin> set ''TSRL'' then False
         else list_all is_digit (byte_slice 1 3 s) \<and> list_all is_upper (byte_slice 3 5 s)
           \<and> list_all is_digit (byte_slice 5 9 s) \<and> is_upper (s ! 9))
      else False)"

definition validate_my_mykad :: "bytes \<Rightarrow> bool" where
  "validate_my_mykad s =
     (if length s \<noteq> 14 \<or> s ! 6 \<noteq> CHR ''-'' \<or> s ! 9 \<noteq> CHR ''-'' then False
      else case parse_ascii_u32 (byte_slice 0 2 s) of None \<Rightarrow> False
      | Some yy \<Rightarrow> (case parse_ascii_u32 (byte_slice 2 4 s) of None \<Rightarrow> False
      | Some mm \<Rightarrow> (case parse_ascii_u32 (byte_slice 4 6 s) of None \<Rightarrow> False
      | Some dd \<Rightarrow>
          let year = (if yy \<le> 29 then 2000 + yy else 1900 + yy)
          in if \<not> valid_dob year mm dd then False
             else case parse_ascii_u32 (byte_slice 7 9 s) of
               None \<Rightarrow> False
             | Some st \<Rightarrow>
                 if \<not> ((1 \<le> st \<and> st \<le> 16) \<or> (21 \<le> st \<and> st \<le> 59) \<or> (71 \<le> st \<and> st \<le> 98)) then False
                 else list_all is_digit (byte_slice 10 14 s))))"

definition validate_cn_resident_id :: "bytes \<Rightarrow> bool" where
  "validate_cn_resident_id s =
     (if length s \<noteq> 18 then False
      else case parse_ascii_digits (take 17 s) of
        None \<Rightarrow> False
      | Some digits \<Rightarrow>
          let province = digits ! 0 * 10 + digits ! 1;
              year = digits ! 6 * 1000 + digits ! 7 * 100 + digits ! 8 * 10 + digits ! 9;
              month = digits ! 10 * 10 + digits ! 11;
              day = digits ! 12 * 10 + digits ! 13
          in if \<not> (11 \<le> province \<and> province \<le> 82) then False
             else if \<not> (1800 \<le> year \<and> year \<le> 2099) then False
             else if \<not> (1 \<le> month \<and> month \<le> 12) \<or> \<not> (1 \<le> day \<and> day \<le> 31) then False
             else let acc = weighted_sum digits [7, 9, 10, 5, 8, 4, 2, 1, 6, 3, 7, 9, 10, 5, 8, 4, 2]
                  in s ! 17 = ''10X98765432'' ! (acc mod 11))"

definition validate_jp_my_number :: "bytes \<Rightarrow> bool" where
  "validate_jp_my_number s =
     (if length s \<noteq> 12 then False
      else case parse_ascii_digits s of
        None \<Rightarrow> False
      | Some digits \<Rightarrow>
          let acc = weighted_sum (take 11 digits) [6, 5, 4, 3, 2, 7, 6, 5, 4, 3, 2];
              r = acc mod 11;
              check = (if r < 2 then 0 else 11 - r)
          in digits ! 11 = check)"

definition validate_kr_rrn :: "bytes \<Rightarrow> bool" where
  "validate_kr_rrn s =
     (if length s \<noteq> 14 \<or> s ! 6 \<noteq> CHR ''-'' then False
      else let compact = take 6 s @ byte_slice 7 14 s
      in case parse_ascii_digits compact of
        None \<Rightarrow> False
      | Some digits \<Rightarrow>
          let month = digits ! 2 * 10 + digits ! 3;
              day = digits ! 4 * 10 + digits ! 5
          in if \<not> (1 \<le> month \<and> month \<le> 12) \<or> \<not> (1 \<le> day \<and> day \<le> 31) then False
             else let acc = weighted_sum (take 12 digits) [2, 3, 4, 5, 6, 7, 8, 9, 2, 3, 4, 5]
                  in digits ! 12 = (11 - acc mod 11) mod 10)"

text \<open>\<open>u8::is_ascii_whitespace\<close>.\<close>

definition is_ascii_whitespace :: "char \<Rightarrow> bool" where
  "is_ascii_whitespace c \<longleftrightarrow> byte_of c \<in> {9, 10, 12, 13, 32}"

definition validate_in_aadhaar :: "bytes \<Rightarrow> bool" where
  "validate_in_aadhaar s =
     (let compact = filter (\<lambda>b. \<not> is_ascii_whitespace b) s
      in if length compact \<noteq> 12 then False
         else if compact ! 0 = CHR ''0'' \<or> compact ! 0 = CHR ''1'' then False
         else if \<not> list_all is_digit compact then False
         else verhoeff_check compact)"

definition validate_in_pan :: "bytes \<Rightarrow> bool" where
  "validate_in_pan s =
     (if length s \<noteq> 10 then False
      else if \<not> list_all is_upper (take 5 s) then False
      else if \<not> list_all is_digit (byte_slice 5 9 s) then False
      else if \<not> is_upper (s ! 9) then False
      else s ! 3 \<in> set ''CPHFATBLJG'')"

definition validate_id_nik :: "bytes \<Rightarrow> bool" where
  "validate_id_nik s =
     (if length s \<noteq> 16 then False
      else case parse_ascii_digits s of
        None \<Rightarrow> False
      | Some d \<Rightarrow>
          let province = d ! 0 * 10 + d ! 1
          in if \<not> (11 \<le> province \<and> province \<le> 94) then False
             else let day = d ! 6 * 10 + d ! 7;
                      day = (if day > 40 then day - 40 else day);
                      month = d ! 8 * 10 + d ! 9
                  in 1 \<le> day \<and> day \<le> 31 \<and> 1 \<le> month \<and> month \<le> 12)"

definition validate_ph_philsys :: "bytes \<Rightarrow> bool" where
  "validate_ph_philsys s =
     (if length s \<noteq> 14 \<or> s ! 4 \<noteq> CHR ''-'' \<or> s ! 9 \<noteq> CHR ''-'' then False
      else let compact = take 4 s @ byte_slice 5 9 s @ byte_slice 10 14 s
           in if \<not> list_all is_digit compact then False else luhn_check compact)"

fun hkid_values :: "bytes \<Rightarrow> nat list option" where
  "hkid_values [] = Some []"
| "hkid_values (b # bs) =
     (case (if is_upper b then Some (letter_val b + 10) else if is_digit b then Some (digit_val b) else None) of
        None \<Rightarrow> None
      | Some v \<Rightarrow> map_option (\<lambda>vs. v # vs) (hkid_values bs))"

definition validate_hk_hkid :: "bytes \<Rightarrow> bool" where
  "validate_hk_hkid s =
     (let compact = filter (\<lambda>b. b \<noteq> CHR ''('' \<and> b \<noteq> CHR '')'') s
      in if length compact \<noteq> 8 \<and> length compact \<noteq> 9 then False
         else case hkid_values (butlast compact) of
           None \<Rightarrow> False
         | Some vs \<Rightarrow>
             let check_char = last compact
             in case (if check_char = CHR ''A'' then Some 10
                      else if is_digit check_char then Some (digit_val check_char)
                      else None) of
                  None \<Rightarrow> False
                | Some check_val \<Rightarrow>
                    let values = (if length compact = 8 then [36] else []) @ vs @ [check_val];
                        acc = weighted_sum values [9, 8, 7, 6, 5, 4, 3, 2, 1]
                    in acc mod 11 = 0)"

section \<open>The catalogue of the region\<close>

definition asia_CATEGORIES :: "string list" where
  "asia_CATEGORIES =
    [''pii.vn_cccd'',
     ''pii.vn_mst'',
     ''pii.vn_bhxh'',
     ''pii.th_national_id'',
     ''pii.th_tax_id'',
     ''pii.sg_nric'',
     ''pii.sg_uen'',
     ''pii.my_mykad'',
     ''pii.cn_resident_id'',
     ''pii.jp_my_number'',
     ''pii.kr_rrn'',
     ''pii.in_aadhaar'',
     ''pii.in_pan'',
     ''pii.id_nik'',
     ''pii.ph_philsys'',
     ''pii.hk_hkid'']"

definition asia_patterns :: "PatternDef list" where
  \<open>asia_patterns =
    [\<lparr>pd_category = ''pii.vn_cccd'', pd_region = ''asia'',
      pd_name = ''Vietnam Citizen ID (CCCD)'',
      pd_regex = rx ''!b!d{12}!b'',
      pd_validator = validate_vn_cccd\<rparr>,
     \<lparr>pd_category = ''pii.vn_mst'', pd_region = ''asia'',
      pd_name = ''Vietnam Tax ID (MST)'',
      pd_regex = rx ''!b!d{10}(?:-!d{3})?!b'',
      pd_validator = validate_vn_mst\<rparr>,
     \<lparr>pd_category = ''pii.vn_bhxh'', pd_region = ''asia'',
      pd_name = ''Vietnam Social Insurance Number'',
      pd_regex = rx ''!b[A-Z]{2}!d{10}!b'',
      pd_validator = validate_vn_bhxh\<rparr>,
     \<lparr>pd_category = ''pii.th_national_id'', pd_region = ''asia'',
      pd_name = ''Thailand National ID'',
      pd_regex = rx ''!b!d{13}!b'',
      pd_validator = validate_th_id\<rparr>,
     \<lparr>pd_category = ''pii.th_tax_id'', pd_region = ''asia'',
      pd_name = ''Thailand Tax Identification Number'',
      pd_regex = rx ''!b!d{13}!b'',
      pd_validator = validate_th_tax_id\<rparr>,
     \<lparr>pd_category = ''pii.sg_nric'', pd_region = ''asia'',
      pd_name = ''Singapore NRIC/FIN'',
      pd_regex = rx ''!b[STFGM]!d{7}[A-Z]!b'',
      pd_validator = validate_sg_nric\<rparr>,
     \<lparr>pd_category = ''pii.sg_uen'', pd_region = ''asia'',
      pd_name = ''Singapore Unique Entity Number (UEN)'',
      pd_regex = rx ''!b(?:!d{8}[A-Z]|!d{9}[A-Z]|[TSRL]!d{2}[A-Z]{2}!d{4}[A-Z])!b'',
      pd_validator = validate_sg_uen\<rparr>,
     \<lparr>pd_category = ''pii.my_mykad'', pd_region = ''asia'',
      pd_name = ''Malaysia MyKad'',
      pd_regex = rx ''!b!d{6}-!d{2}-!d{4}!b'',
      pd_validator = validate_my_mykad\<rparr>,
     \<lparr>pd_category = ''pii.cn_resident_id'', pd_region = ''asia'',
      pd_name = ''China Resident Identity Card'',
      pd_regex = rx ''!b!d{17}[!dX]!b'',
      pd_validator = validate_cn_resident_id\<rparr>,
     \<lparr>pd_category = ''pii.jp_my_number'', pd_region = ''asia'',
      pd_name = ''Japan Individual Number (My Number)'',
      pd_regex = rx ''!b!d{12}!b'',
      pd_validator = validate_jp_my_number\<rparr>,
     \<lparr>pd_category = ''pii.kr_rrn'', pd_region = ''asia'',
      pd_name = ''South Korea Resident Registration Number'',
      pd_regex = rx ''!b!d{6}-[1-4]!d{6}!b'',
      pd_validator = validate_kr_rrn\<rparr>,
     \<lparr>pd_category = ''pii.in_aadhaar'', pd_region = ''asia'',
      pd_name = ''India Aadhaar'',
      pd_regex = rx ''!b!d{4}!s?!d{4}!s?!d{4}!b'',
      pd_validator = validate_in_aadhaar\<rparr>,
     \<lparr>pd_category = ''pii.in_pan'', pd_region = ''asia'',
      pd_name = ''India PAN'',
      pd_regex = rx ''!b[A-Z]{5}!d{4}[A-Z]!b'',
      pd_validator = validate_in_pan\<rparr>,
     \<lparr>pd_category = ''pii.id_nik'', pd_region = ''asia'',
      pd_name = ''Indonesia NIK'',
      pd_regex = rx ''!b!d{16}!b'',
      pd_validator = validate_id_nik\<rparr>,
     \<lparr>pd_category = ''pii.ph_philsys'', pd_region = ''asia'',
      pd_name = ''Philippines PhilSys Number'',
      pd_regex = rx ''!b!d{4}-!d{4}-!d{4}!b'',
      pd_validator = validate_ph_philsys\<rparr>,
     \<lparr>pd_category = ''pii.hk_hkid'', pd_region = ''asia'',
      pd_name = ''Hong Kong HKID'',
      pd_regex = rx ''!b[A-Z]{1,2}!d{6}!([0-9A]!)'',
      pd_validator = validate_hk_hkid\<rparr>]\<close>


end
