(* ===== verification/DlpGcc.thy ===== *)
theory DlpGcc
  imports DlpValidators
begin

text \<open>
  The GCC region of the DLP catalogue (\<open>sda-dlp/src/patterns/gcc.rs\<close>): the validators of the national
  identifiers and of the region's IBANs, and the list of patterns.
\<close>

section \<open>Validators\<close>

definition validate_ae_emirates_id :: "bytes \<Rightarrow> bool" where
  "validate_ae_emirates_id s =
     (let compact = filter (\<lambda>b. b \<noteq> CHR ''-'') s
      in if length compact \<noteq> 15 \<or> \<not> list_all is_digit compact then False
         else if take 3 compact \<noteq> ''784'' then False
         else luhn_check compact)"

definition validate_ae_trn :: "bytes \<Rightarrow> bool" where
  "validate_ae_trn s \<longleftrightarrow>
     length s = 15 \<and> list_all is_digit s \<and> take 3 s = ''100'' \<and> drop 13 s = ''03''"

definition validate_qa_qid :: "bytes \<Rightarrow> bool" where
  "validate_qa_qid s =
     (if length s \<noteq> 11 \<or> \<not> list_all is_digit s then False
      else let nationality = s ! 0
      in if nationality \<noteq> CHR ''2'' \<and> nationality \<noteq> CHR ''3'' then False
         else case parse_ascii_u32 (byte_slice 1 4 s) of
           None \<Rightarrow> False
         | Some year_suffix \<Rightarrow>
             let year = (if nationality = CHR ''2'' then 1000 + year_suffix else 2000 + year_suffix)
             in 1900 \<le> year \<and> year \<le> 2099)"

definition validate_sa_national_id :: "bytes \<Rightarrow> bool" where
  "validate_sa_national_id s =
     (if length s \<noteq> 10 \<or> \<not> list_all is_digit s then False
      else if s ! 0 \<noteq> CHR ''1'' \<and> s ! 0 \<noteq> CHR ''2'' then False
      else luhn_check s)"

definition validate_kw_civil_id :: "bytes \<Rightarrow> bool" where
  "validate_kw_civil_id s =
     (if length s \<noteq> 12 then False
      else case parse_ascii_digits s of
        None \<Rightarrow> False
      | Some d \<Rightarrow>
          if d ! 0 \<noteq> 2 \<and> d ! 0 \<noteq> 3 then False
          else let month = d ! 3 * 10 + d ! 4; day = d ! 5 * 10 + d ! 6
               in 1 \<le> month \<and> month \<le> 12 \<and> 1 \<le> day \<and> day \<le> 31)"

definition validate_bh_cpr :: "bytes \<Rightarrow> bool" where
  "validate_bh_cpr s =
     (if length s \<noteq> 9 then False
      else case parse_ascii_digits s of
        None \<Rightarrow> False
      | Some d \<Rightarrow>
          let acc = weighted_sum (take 8 d) [10, 9, 8, 7, 6, 5, 4, 3];
              modulus = acc mod 11;
              check = (if modulus = 10 then 0 else modulus)
          in d ! 8 = check)"

definition validate_om_civil_id :: "bytes \<Rightarrow> bool" where
  "validate_om_civil_id s =
     (if \<not> (length s = 8 \<or> length s = 9) \<or> \<not> list_all is_digit s then False
      else case parse_ascii_u32 (take 2 s) of
        None \<Rightarrow> False
      | Some governorate \<Rightarrow>
          if \<not> (1 \<le> governorate \<and> governorate \<le> 11) then False
          else list_ex (\<lambda>b. b \<noteq> CHR ''0'') s)"

definition gcc_iban_length :: "string \<Rightarrow> nat option" where
  "gcc_iban_length cc = map_of [(''AE'', 23), (''BH'', 22), (''KW'', 30), (''OM'', 23), (''QA'', 29), (''SA'', 24)] cc"

definition validate_gcc_iban :: "bytes \<Rightarrow> bool" where
  "validate_gcc_iban s =
     (if length s < 22 \<or> length s > 30 then False
      else if \<not> list_all is_alphanumeric s then False
      else case gcc_iban_length (take 2 s) of
        None \<Rightarrow> False
      | Some expected_len \<Rightarrow> if length s \<noteq> expected_len then False else mod97_check s)"

section \<open>The catalogue of the region\<close>

definition gcc_CATEGORIES :: "string list" where
  "gcc_CATEGORIES =
    [''pii.ae_emirates_id'',
     ''pii.ae_trn'',
     ''pii.qa_qid'',
     ''pii.sa_national_id'',
     ''pii.kw_civil_id'',
     ''pii.bh_cpr'',
     ''pii.om_civil_id'',
     ''pci.gcc_iban'']"

definition gcc_patterns :: "PatternDef list" where
  \<open>gcc_patterns =
    [\<lparr>pd_category = ''pii.ae_emirates_id'', pd_region = ''gcc'',
      pd_name = ''UAE Emirates ID'',
      pd_regex = rx ''!b784-?!d{4}-?!d{7}-?!d!b'',
      pd_validator = validate_ae_emirates_id\<rparr>,
     \<lparr>pd_category = ''pii.ae_trn'', pd_region = ''gcc'',
      pd_name = ''UAE Tax Registration Number (TRN)'',
      pd_regex = rx ''!b!d{15}!b'',
      pd_validator = validate_ae_trn\<rparr>,
     \<lparr>pd_category = ''pii.qa_qid'', pd_region = ''gcc'',
      pd_name = ''Qatar Identity Number (QID)'',
      pd_regex = rx ''!b!d{11}!b'',
      pd_validator = validate_qa_qid\<rparr>,
     \<lparr>pd_category = ''pii.sa_national_id'', pd_region = ''gcc'',
      pd_name = ''Saudi National ID / Iqama'',
      pd_regex = rx ''!b[12]!d{9}!b'',
      pd_validator = validate_sa_national_id\<rparr>,
     \<lparr>pd_category = ''pii.kw_civil_id'', pd_region = ''gcc'',
      pd_name = ''Kuwait Civil ID'',
      pd_regex = rx ''!b!d{12}!b'',
      pd_validator = validate_kw_civil_id\<rparr>,
     \<lparr>pd_category = ''pii.bh_cpr'', pd_region = ''gcc'',
      pd_name = ''Bahrain Central Population Register (CPR)'',
      pd_regex = rx ''!b!d{9}!b'',
      pd_validator = validate_bh_cpr\<rparr>,
     \<lparr>pd_category = ''pii.om_civil_id'', pd_region = ''gcc'',
      pd_name = ''Oman Civil ID'',
      pd_regex = rx ''!b!d{8,9}!b'',
      pd_validator = validate_om_civil_id\<rparr>,
     \<lparr>pd_category = ''pci.gcc_iban'', pd_region = ''gcc'',
      pd_name = ''GCC IBAN'',
      pd_regex = rx ''!b(?:AE!d{2}[A-Z0-9]{19}|BH!d{2}[A-Z0-9]{18}|KW!d{2}[A-Z0-9]{26}|OM!d{2}[A-Z0-9]{19}|QA!d{2}[A-Z0-9]{25}|SA!d{2}[A-Z0-9]{20})!b'',
      pd_validator = validate_gcc_iban\<rparr>]\<close>

section \<open>What the validators accept\<close>

text \<open>The last test of \<open>validate_om_civil_id\<close>, meant to refuse an all-zero body, never refuses
  anything: the governorate code before it is not zero.\<close>

lemma om_civil_id_zero_test:
  "validate_om_civil_id s \<longleftrightarrow>
    (length s = 8 \<or> length s = 9) \<and> list_all is_digit s \<and> 1 \<le> read_nat (take 2 s) \<and> read_nat (take 2 s) \<le> 11"
proof -
  have nz: "list_ex (\<lambda>b. b \<noteq> CHR ''0'') s" if "1 \<le> read_nat (take 2 s)"
  proof (rule ccontr)
    assume "\<not> ?thesis"
    then have "\<forall>c \<in> set (take 2 s). c = CHR ''0''" by (auto simp: list_ex_iff dest: in_set_takeD)
    then have "take 2 s = replicate (length (take 2 s)) CHR ''0''" by (intro replicate_length_same [symmetric]) blast
    moreover have "read_nat (replicate n CHR ''0'') = 0" for n by (induction n) (simp_all add: read_nat_def)
    ultimately show False using that by (metis not_one_le_zero)
  qed
  have digits: "list_all is_digit s \<Longrightarrow> list_all is_digit (take 2 s)" by (auto simp: list_all_iff dest: in_set_takeD)
  show ?thesis
    using nz digits unfolding validate_om_civil_id_def parse_ascii_u32_eq
    by (cases "list_all is_digit s") (auto simp: u32_max_def)
qed

end
