(* ===== verification/DlpEurope.thy ===== *)
theory DlpEurope
  imports DlpValidators
begin

text \<open>
  The Europe region of the DLP catalogue (\<open>sda-dlp/src/patterns/europe.rs\<close>): the validators of the
  national identifiers, VAT numbers and IBANs, and the list of patterns.
\<close>

section \<open>Validators\<close>

definition validate_uk_ni :: "bytes \<Rightarrow> bool" where
  "validate_uk_ni s =
     (if length s \<noteq> 9 then False
      else if s ! 0 \<in> set ''DFIQUVO'' then False
      else if s ! 1 \<in> set ''DFIOQUV'' then False
      else if take 2 s \<in> {''BG'', ''GB'', ''KN'', ''NK'', ''NT'', ''TN'', ''ZZ''} then False
      else s ! 8 \<in> set ''ABCD'')"

text \<open>The loop that copies the digits into an array of \<open>cap\<close> bytes and skips the separators.\<close>

fun compact_loop :: "string \<Rightarrow> nat \<Rightarrow> bytes \<Rightarrow> bytes \<Rightarrow> bytes option" where
  "compact_loop seps cap compact [] = Some compact"
| "compact_loop seps cap compact (b # bs) =
     (if b \<in> set seps then compact_loop seps cap compact bs
      else if length compact \<ge> cap \<or> \<not> is_digit b then None
      else compact_loop seps cap (compact @ [b]) bs)"

definition validate_ch_ahv :: "bytes \<Rightarrow> bool" where
  "validate_ch_ahv s =
     (if length s \<noteq> 16 then False
      else case compact_loop ''.'' 13 [] s of
        None \<Rightarrow> False
      | Some compact \<Rightarrow>
          if length compact \<noteq> 13 \<or> take 3 compact \<noteq> ''756'' then False else ean13_check compact)"

definition validate_ch_uid :: "bytes \<Rightarrow> bool" where
  "validate_ch_uid s =
     (case compact_loop ''-.'' 9 [] (drop 3 s) of
        None \<Rightarrow> False
      | Some compact \<Rightarrow>
          if length compact \<noteq> 9 then False
          else case parse_ascii_digits compact of
            None \<Rightarrow> False
          | Some d \<Rightarrow>
              let acc = weighted_sum (take 8 d) [5, 4, 3, 2, 7, 6, 5, 4];
                  r = acc mod 11
              in if r = 0 then d ! 8 = 0
                 else let check = 11 - r in if check = 10 then False else d ! 8 = check)"

definition validate_ch_iban :: "bytes \<Rightarrow> bool" where
  "validate_ch_iban s \<longleftrightarrow> length s = 21 \<and> mod97_check s"

definition validate_de_steuer_id :: "bytes \<Rightarrow> bool" where
  "validate_de_steuer_id s =
     (if length s \<noteq> 11 \<or> \<not> list_all is_digit s then False
      else if s ! 0 = CHR ''0'' then False
      else iso7064_mod11_10 s \<and> de_steuer_id_structure s)"

definition fr_department :: "char \<Rightarrow> char \<Rightarrow> (char \<times> char) option" where
  "fr_department a b =
     (if a = CHR ''2'' \<and> b = CHR ''A'' then Some (CHR ''1'', CHR ''9'')
      else if a = CHR ''2'' \<and> b = CHR ''B'' then Some (CHR ''1'', CHR ''8'')
      else if is_digit a \<and> is_digit b then Some (a, b)
      else None)"

definition validate_fr_nir :: "bytes \<Rightarrow> bool" where
  "validate_fr_nir s =
     (if length s \<noteq> 15 then False
      else if \<not> list_all is_digit (take 5 s) \<or> \<not> list_all is_digit (drop 7 s) then False
      else case fr_department (s ! 5) (s ! 6) of
        None \<Rightarrow> False
      | Some (dept_d5, dept_d6) \<Rightarrow>
          let body = take 5 s @ [dept_d5, dept_d6] @ byte_slice 7 13 s
          in case parse_ascii_digits body of
               None \<Rightarrow> False
             | Some d \<Rightarrow>
                 let month = d ! 3 * 10 + d ! 4
                 in if \<not> (1 \<le> month \<and> month \<le> 12) \<and> \<not> (20 \<le> month \<and> month \<le> 99) then False
                    else let number = foldl (\<lambda>n digit. n * 10 + digit) 0 d;
                             expected = 97 - number mod 97;
                             check = digit_val (s ! 13) * 10 + digit_val (s ! 14)
                         in check = expected)"

definition validate_nl_bsn :: "bytes \<Rightarrow> bool" where
  "validate_nl_bsn s =
     (if length s \<noteq> 9 then False
      else case parse_ascii_digits s of
        None \<Rightarrow> False
      | Some d \<Rightarrow>
          let acc = sum_list (map (\<lambda>(d, w). int d * w) (zip d [9, 8, 7, 6, 5, 4, 3, 2, -1]))
          in acc mod 11 = 0 \<and> acc \<noteq> 0)"

definition es_dni_first :: "char \<Rightarrow> char option" where
  "es_dni_first c =
     (if c = CHR ''X'' then Some CHR ''0''
      else if c = CHR ''Y'' then Some CHR ''1''
      else if c = CHR ''Z'' then Some CHR ''2''
      else if is_digit c then Some c
      else None)"

definition validate_es_dni :: "bytes \<Rightarrow> bool" where
  "validate_es_dni s =
     (if length s = 9 then
        (case es_dni_first (s ! 0) of
           None \<Rightarrow> False
         | Some b0 \<Rightarrow>
             (case parse_ascii_u32 (b0 # byte_slice 1 8 s) of
                None \<Rightarrow> False
              | Some number \<Rightarrow> ''TRWAGMYFPDXBNJZSQVHLCKE'' ! (number mod 23) = s ! 8))
      else False)"

definition odd_value :: "char \<Rightarrow> nat option" where
  "odd_value b = map_of
      [(CHR ''0'', 1), (CHR ''1'', 0), (CHR ''2'', 5), (CHR ''3'', 7), (CHR ''4'', 9), (CHR ''5'', 13), (CHR ''6'', 15), (CHR ''7'', 17), (CHR ''8'', 19),
       (CHR ''9'', 21), (CHR ''A'', 1), (CHR ''B'', 0), (CHR ''C'', 5), (CHR ''D'', 7), (CHR ''E'', 9), (CHR ''F'', 13), (CHR ''G'', 15), (CHR ''H'', 17),
       (CHR ''I'', 19), (CHR ''J'', 21), (CHR ''K'', 2), (CHR ''L'', 4), (CHR ''M'', 18), (CHR ''N'', 20), (CHR ''O'', 11), (CHR ''P'', 3), (CHR ''Q'', 6),
       (CHR ''R'', 8), (CHR ''S'', 12), (CHR ''T'', 14), (CHR ''U'', 16), (CHR ''V'', 10), (CHR ''W'', 22), (CHR ''X'', 25), (CHR ''Y'', 24), (CHR ''Z'', 23)] b"

definition even_value :: "char \<Rightarrow> nat option" where
  "even_value b = (if is_digit b then Some (digit_val b) else if is_upper b then Some (letter_val b) else None)"

fun it_cf_loop :: "nat \<Rightarrow> bytes \<Rightarrow> nat \<Rightarrow> nat option" where
  "it_cf_loop i [] acc = Some acc"
| "it_cf_loop i (b # bs) acc =
     (case (if i mod 2 = 0 then odd_value b else even_value b) of
        None \<Rightarrow> None
      | Some x \<Rightarrow> it_cf_loop (Suc i) bs (acc + x))"

definition validate_it_cf :: "bytes \<Rightarrow> bool" where
  "validate_it_cf s =
     (if length s \<noteq> 16 then False
      else case it_cf_loop 0 (take 15 s) 0 of
        None \<Rightarrow> False
      | Some acc \<Rightarrow> s ! 15 = char_of (65 + acc mod 26))"

definition validate_se_personnummer :: "bytes \<Rightarrow> bool" where
  "validate_se_personnummer s =
     (let compact = filter (\<lambda>b. b \<noteq> CHR ''-'' \<and> b \<noteq> CHR ''+'') s
      in if length compact \<noteq> 10 \<or> \<not> list_all is_digit compact then False
         else let month = digit_val (compact ! 2) * 10 + digit_val (compact ! 3);
                  day = digit_val (compact ! 4) * 10 + digit_val (compact ! 5);
                  day_ok = ((1 \<le> day \<and> day \<le> 31) \<or> (61 \<le> day \<and> day \<le> 91))
              in if \<not> (1 \<le> month \<and> month \<le> 12) \<or> \<not> day_ok then False else luhn_check compact)"

definition validate_pl_pesel :: "bytes \<Rightarrow> bool" where
  "validate_pl_pesel s =
     (if length s \<noteq> 11 \<or> \<not> list_all is_digit s then False
      else case parse_ascii_digits s of
        None \<Rightarrow> False
      | Some d \<Rightarrow>
          let mm_field = d ! 2 * 10 + d ! 3;
              dd = d ! 4 * 10 + d ! 5;
              month = mm_field mod 20
          in if \<not> (1 \<le> month \<and> month \<le> 12) \<or> \<not> (1 \<le> dd \<and> dd \<le> 31) then False
             else let acc = weighted_sum (take 10 d) [1, 3, 7, 9, 1, 3, 7, 9, 1, 3]
                  in d ! 10 = (10 - acc mod 10) mod 10)"

definition validate_eu_vat :: "bytes \<Rightarrow> bool" where
  "validate_eu_vat s =
     (if length s < 4 then False
      else if \<not> is_upper (s ! 0) \<or> \<not> is_upper (s ! 1) then False
      else let prefix = take 2 s; body = drop 2 s; digit_count = length (filter is_digit body)
      in if prefix = ''AT'' then take 1 body = ''U'' \<and> length body = 9 \<and> digit_count = 8
         else if prefix = ''BE'' then length body = 10 \<and> body ! 0 = CHR ''0''
         else if prefix \<in> {''DE'', ''EE'', ''EL'', ''GR'', ''PT''} then length body = 9 \<and> digit_count = 9
         else if prefix \<in> {''DK'', ''FI'', ''HU'', ''LU'', ''MT'', ''SI''} then length body = 8 \<and> digit_count = 8
         else if prefix = ''FR'' then length body = 11 \<and> list_all is_alphanumeric (take 2 body)
         else if prefix = ''NL'' then length body = 12 \<and> body ! 9 = CHR ''B'' \<and> digit_count = 11
         else if prefix = ''SE'' then length body = 12 \<and> digit_count = 12
         else if prefix \<in> {''IT'', ''LT'', ''LV'', ''PL'', ''SK''} then
           (length body = 10 \<or> length body = 11 \<or> length body = 12) \<and> digit_count = length body
         else if prefix \<in> {''CY'', ''CZ'', ''ES'', ''HR''} then
           length body \<ge> 8 \<and> length body \<le> 11 \<and> list_all is_alphanumeric body
         else False)"

definition eu_iban_length :: "string \<Rightarrow> nat option" where
  "eu_iban_length cc = map_of
    [(''AL'', 28), (''AD'', 24), (''AT'', 20), (''BA'', 20), (''BE'', 16), (''BG'', 22), (''CY'', 28), (''CZ'', 24),
     (''DE'', 22), (''DK'', 18), (''EE'', 20), (''ES'', 24), (''FI'', 18), (''FO'', 18), (''FR'', 27), (''GB'', 22),
     (''GI'', 23), (''GL'', 18), (''GR'', 27), (''HR'', 21), (''HU'', 28), (''IE'', 22), (''IS'', 26), (''IT'', 27),
     (''LI'', 21), (''LT'', 20), (''LU'', 20), (''LV'', 21), (''MC'', 27), (''ME'', 22), (''MK'', 19), (''MT'', 31),
     (''NL'', 18), (''NO'', 15), (''PL'', 28), (''PT'', 25), (''RO'', 24), (''RS'', 22), (''SE'', 24), (''SI'', 19),
     (''SK'', 24), (''SM'', 27)] cc"

definition validate_eu_iban :: "bytes \<Rightarrow> bool" where
  "validate_eu_iban s =
     (if length s < 15 \<or> length s > 34 then False
      else case eu_iban_length (take 2 s) of
        None \<Rightarrow> False
      | Some expected \<Rightarrow> if length s \<noteq> expected then False else mod97_check s)"

section \<open>The catalogue of the region\<close>

definition europe_CATEGORIES :: "string list" where
  "europe_CATEGORIES =
    [''pii.uk_ni'',
     ''pii.ch_ahv'',
     ''pii.ch_uid'',
     ''pci.ch_iban'',
     ''pii.de_steuer_id'',
     ''pii.fr_nir'',
     ''pii.nl_bsn'',
     ''pii.es_dni'',
     ''pii.it_cf'',
     ''pii.se_personnummer'',
     ''pii.pl_pesel'',
     ''pii.eu_vat'',
     ''pci.eu_iban'']"

definition europe_patterns :: "PatternDef list" where
  \<open>europe_patterns =
    [\<lparr>pd_category = ''pii.uk_ni'', pd_region = ''europe'',
      pd_name = ''UK National Insurance Number'',
      pd_regex = rx ''!b[A-Z]{2}!d{6}[A-Z]!b'',
      pd_validator = validate_uk_ni\<rparr>,
     \<lparr>pd_category = ''pii.ch_ahv'', pd_region = ''europe'',
      pd_name = ''Switzerland AHV / AVS (new format)'',
      pd_regex = rx ''!b756!.!d{4}!.!d{4}!.!d{2}!b'',
      pd_validator = validate_ch_ahv\<rparr>,
     \<lparr>pd_category = ''pii.ch_uid'', pd_region = ''europe'',
      pd_name = ''Switzerland Enterprise UID'',
      pd_regex = rx ''!bCHE-?!d{3}!.!d{3}!.!d{3}!b'',
      pd_validator = validate_ch_uid\<rparr>,
     \<lparr>pd_category = ''pci.ch_iban'', pd_region = ''europe'',
      pd_name = ''Switzerland IBAN'',
      pd_regex = rx ''!bCH!d{2}[A-Z0-9]{17}!b'',
      pd_validator = validate_ch_iban\<rparr>,
     \<lparr>pd_category = ''pii.de_steuer_id'', pd_region = ''europe'',
      pd_name = ''Germany Steueridentifikationsnummer'',
      pd_regex = rx ''!b!d{11}!b'',
      pd_validator = validate_de_steuer_id\<rparr>,
     \<lparr>pd_category = ''pii.fr_nir'', pd_region = ''europe'',
      pd_name = ''France INSEE / NIR'',
      pd_regex = rx ''!b[12]!d{2}(?:0[1-9]|1[0-2]|[2-9]!d)(?:!d{2}|2[AB])!d{3}!d{3}!d{2}!b'',
      pd_validator = validate_fr_nir\<rparr>,
     \<lparr>pd_category = ''pii.nl_bsn'', pd_region = ''europe'',
      pd_name = ''Netherlands Burgerservicenummer (BSN)'',
      pd_regex = rx ''!b!d{9}!b'',
      pd_validator = validate_nl_bsn\<rparr>,
     \<lparr>pd_category = ''pii.es_dni'', pd_region = ''europe'',
      pd_name = ''Spain DNI / NIE'',
      pd_regex = rx ''!b(?:!d{8}[A-Z]|[XYZ]!d{7}[A-Z])!b'',
      pd_validator = validate_es_dni\<rparr>,
     \<lparr>pd_category = ''pii.it_cf'', pd_region = ''europe'',
      pd_name = ''Italy Codice Fiscale'',
      pd_regex = rx ''!b[A-Z]{6}!d{2}[A-EHLMPRST]!d{2}[A-Z]!d{3}[A-Z]!b'',
      pd_validator = validate_it_cf\<rparr>,
     \<lparr>pd_category = ''pii.se_personnummer'', pd_region = ''europe'',
      pd_name = ''Sweden Personnummer'',
      pd_regex = rx ''!b!d{6}[-+]?!d{4}!b'',
      pd_validator = validate_se_personnummer\<rparr>,
     \<lparr>pd_category = ''pii.pl_pesel'', pd_region = ''europe'',
      pd_name = ''Poland PESEL'',
      pd_regex = rx ''!b!d{11}!b'',
      pd_validator = validate_pl_pesel\<rparr>,
     \<lparr>pd_category = ''pii.eu_vat'', pd_region = ''europe'',
      pd_name = ''EU VAT Number'',
      pd_regex = rx ''!b(?:AT)U!d{8}!b|!b(?:BE)0!d{9}!b|!b(?:DE|EE|EL|GR|PT)!d{9}!b|!b(?:DK|FI|HU|LU|MT|SI)!d{8}!b|!b(?:CY|CZ|ES|HR)[A-Z0-9]{8,11}!b|!b(?:FR)[A-Z0-9]{2}!d{9}!b|!b(?:IT|LT|LV|PL|SK)!d{10,12}!b|!b(?:NL)!d{9}B!d{2}!b|!b(?:SE)!d{12}!b'',
      pd_validator = validate_eu_vat\<rparr>,
     \<lparr>pd_category = ''pci.eu_iban'', pd_region = ''europe'',
      pd_name = ''EU IBAN'',
      pd_regex = rx ''!b[A-Z]{2}!d{2}[A-Z0-9]{11,30}!b'',
      pd_validator = validate_eu_iban\<rparr>]\<close>


end
