(* ===== verification/DlpPatterns.thy ===== *)
theory DlpPatterns
  imports DlpAsia DlpGcc DlpEurope DlpGlobal
begin

text \<open>
  The pattern catalogue and its selection (\<open>sda-dlp/src/patterns/mod.rs\<close>): exact categories, regional
  and category-prefix globs and the wildcard. The lemmas show that the catalogue and the separate
  category lists agree, and that a selector is recognised exactly when it selects something.
\<close>

section \<open>Catalogue and selectors\<close>

definition pattern_validate :: "PatternDef \<Rightarrow> bytes \<Rightarrow> bool" where
  "pattern_validate p bs = pd_validator p bs"

definition baseline_patterns :: "PatternDef list" where
  "baseline_patterns = global_patterns @ asia_patterns @ gcc_patterns @ europe_patterns"

definition known_categories :: "string list" where
  "known_categories = asia_CATEGORIES @ gcc_CATEGORIES @ europe_CATEGORIES @ global_CATEGORIES"

definition known_regions :: "string list" where
  "known_regions = [''asia'', ''gcc'', ''europe'', ''global'']"

definition category_has_prefix :: "string \<Rightarrow> string \<Rightarrow> bool" where
  "category_has_prefix category prefix \<longleftrightarrow>
     length category > length prefix \<and> take (length prefix) category = prefix \<and> category ! length prefix = CHR ''.''"

text \<open>\<open>str::strip_suffix\<close>.\<close>

definition strip_suffix :: "string \<Rightarrow> string \<Rightarrow> string option" where
  "strip_suffix suf s =
     (if length suf \<le> length s \<and> drop (length s - length suf) s = suf
      then Some (take (length s - length suf) s) else None)"

definition is_builtin_category :: "string \<Rightarrow> bool" where
  "is_builtin_category pattern_id =
     (if pattern_id = ''*'' \<or> pattern_id = ''all'' then True
      else case strip_suffix ''.*'' pattern_id of
        Some prefix \<Rightarrow>
          prefix \<in> set known_regions \<or> list_ex (\<lambda>c. category_has_prefix c prefix) known_categories
      | None \<Rightarrow> pattern_id \<in> set known_categories)"

definition matches_selector :: "string \<Rightarrow> PatternDef \<Rightarrow> bool" where
  "matches_selector selector p =
     (if selector = ''*'' \<or> selector = ''all'' then True
      else case strip_suffix ''.*'' selector of
        Some prefix \<Rightarrow> if prefix = pd_region p then True else category_has_prefix (pd_category p) prefix
      | None \<Rightarrow> selector = pd_category p)"

definition select_patterns :: "string list \<Rightarrow> PatternDef list" where
  "select_patterns selected =
     (if selected = [] then baseline_patterns
      else if list_ex (\<lambda>s. s = ''*'' \<or> s = ''all'') selected then baseline_patterns
      else filter (\<lambda>p. list_ex (\<lambda>s. matches_selector s p) selected) baseline_patterns)"

definition expand_region :: "string \<Rightarrow> string list option" where
  "expand_region region =
     (let trimmed = to_ascii_lowercase (trim_str region)
      in if trimmed = [] then None
         else if trimmed = ''all'' \<or> trimmed = ''*'' then Some [''*'']
         else if trimmed \<in> set known_regions then Some [trimmed @ ''.*'']
         else None)"

section \<open>The catalogue is consistent\<close>

lemmas catalogue_defs = baseline_patterns_def global_patterns_def asia_patterns_def gcc_patterns_def europe_patterns_def

lemma catalogue_categories:
  "map pd_category baseline_patterns = global_CATEGORIES @ asia_CATEGORIES @ gcc_CATEGORIES @ europe_CATEGORIES"
  by (simp add: catalogue_defs global_CATEGORIES_def asia_CATEGORIES_def gcc_CATEGORIES_def europe_CATEGORIES_def)

lemma set_catalogue_categories: "set (map pd_category baseline_patterns) = set known_categories"
  unfolding catalogue_categories known_categories_def by auto

lemma set_catalogue_regions: "pd_region ` set baseline_patterns = set known_regions"
  by (simp add: catalogue_defs known_regions_def) auto

lemma baseline_count: "length baseline_patterns = 50"
  by (simp add: catalogue_defs)

lemma baseline_categories_unique: "distinct (map pd_category baseline_patterns)"
  unfolding catalogue_categories by code_simp

lemma select_patterns_subset: "set (select_patterns sel) \<subseteq> set baseline_patterns"
  by (auto simp: select_patterns_def)

lemma matches_selector_iff:
  "(\<exists>p\<in>set baseline_patterns. matches_selector s p) \<longleftrightarrow> is_builtin_category s"
proof -
  have ne: "\<exists>p. p \<in> set baseline_patterns" by (simp add: catalogue_defs) blast
  have cat: "(\<exists>p\<in>set baseline_patterns. Q (pd_category p)) \<longleftrightarrow> (\<exists>c\<in>set known_categories. Q c)" for Q
    using set_catalogue_categories by (metis (no_types, lifting) image_iff list.set_map)
  have reg: "(\<exists>p\<in>set baseline_patterns. r = pd_region p) \<longleftrightarrow> r \<in> set known_regions" for r
    using set_catalogue_regions by (metis (no_types, lifting) image_iff)
  show ?thesis
  proof (cases "s = ''*'' \<or> s = ''all''")
    case True
    with ne show ?thesis by (auto simp: matches_selector_def is_builtin_category_def)
  next
    case False
    then show ?thesis
    proof (cases "strip_suffix ''.*'' s")
      case None
      with False cat [of "\<lambda>c. s = c"] show ?thesis by (simp add: matches_selector_def is_builtin_category_def)
    next
      case (Some prefix)
      have "(\<exists>p\<in>set baseline_patterns. matches_selector s p) \<longleftrightarrow>
        (\<exists>p\<in>set baseline_patterns. prefix = pd_region p) \<or> (\<exists>p\<in>set baseline_patterns. category_has_prefix (pd_category p) prefix)"
        using False Some by (auto simp: matches_selector_def)
      with False Some cat [of "\<lambda>c. category_has_prefix c prefix"] reg [of prefix] show ?thesis
        by (simp add: is_builtin_category_def list_ex_iff)
    qed
  qed
qed

text \<open>
  A selector is one the module recognises (no warning is logged for it) exactly when it selects
  at least one pattern of the catalogue; a selection of several selectors is empty exactly when the
  list is not and none of them is recognised, which leaves the scanner without any pattern.
\<close>

theorem select_patterns_empty_iff:
  "select_patterns sel = [] \<longleftrightarrow> sel \<noteq> [] \<and> \<not> list_ex is_builtin_category sel"
proof -
  have ne: "baseline_patterns \<noteq> []" using baseline_count by force
  have star: "is_builtin_category ''*''" "is_builtin_category ''all''" by (simp_all add: is_builtin_category_def)
  show ?thesis
  proof (cases "list_ex (\<lambda>s. s = ''*'' \<or> s = ''all'') sel")
    case True
    with ne star show ?thesis by (auto simp: select_patterns_def list_ex_iff)
  next
    case False
    have "filter (\<lambda>p. list_ex (\<lambda>s. matches_selector s p) sel) baseline_patterns = [] \<longleftrightarrow>
      (\<forall>s\<in>set sel. \<not> (\<exists>p\<in>set baseline_patterns. matches_selector s p))"
      by (auto simp: filter_empty_conv list_ex_iff)
    with False ne show ?thesis
      unfolding matches_selector_iff by (simp add: select_patterns_def list_ex_iff)
  qed
qed

text \<open>A selector selects each pattern of its region or category prefix, and no other.\<close>

lemma select_region:
  assumes "r \<in> set known_regions"
  shows "select_patterns [r @ ''.*''] = filter (\<lambda>p. pd_region p = r) baseline_patterns"
proof -
  have "\<forall>r\<in>set known_regions. \<forall>c\<in>set known_categories. \<not> category_has_prefix c r" by code_simp
  with assms have no: "\<not> category_has_prefix (pd_category p) r" if "p \<in> set baseline_patterns" for p
    using that set_catalogue_categories by (metis image_eqI list.set_map)
  have "strip_suffix ''.*'' (r @ ''.*'') = Some r" "r @ ''.*'' \<noteq> ''*''" "r @ ''.*'' \<noteq> ''all''"
    using assms by (auto simp: strip_suffix_def known_regions_def)
  with no show ?thesis
    by (auto simp: select_patterns_def matches_selector_def intro!: filter_cong)
qed

end
