(* ===== verification/DlpModule.thy ===== *)
theory DlpModule
  imports DlpPatterns
begin

text \<open>
  The DLP scanner and its module (\<open>sda-dlp/src/scanner.rs\<close>, \<open>sda-dlp/src/lib.rs\<close>): matches of the
  selected patterns become findings without the matched bytes, findings of a written file become
  alerts, and the event loop inspects every file the monitor reports as created or modified.

  Outside the repository, and so parameters: the regular-expression engine (\<open>find_iter\<close>, the spans of
  the successive matches), the hash, and the file system.
\<close>

section \<open>The scanner\<close>

record ScanEnv =
  find_iter :: "string \<Rightarrow> bytes \<Rightarrow> (nat \<times> nat) list"
  blake3_hex :: "bytes \<Rightarrow> string"

text \<open>Documented of \<open>regex::bytes::Regex::find_iter\<close>: a match lies in the haystack.\<close>

definition spans_in_haystack :: "ScanEnv \<Rightarrow> bool" where
  "spans_in_haystack env \<longleftrightarrow>
     (\<forall>re bs. \<forall>(start, stop)\<in>set (find_iter env re bs). start \<le> stop \<and> stop \<le> length bs)"

record DlpFinding =
  fd_category :: string
  fd_pattern_name :: string
  fd_offset :: nat
  fd_length :: nat
  fd_fingerprint :: string

definition FINGERPRINT_WINDOW_HALF :: nat where
  "FINGERPRINT_WINDOW_HALF = 16"

definition window :: "bytes \<Rightarrow> nat \<Rightarrow> nat \<Rightarrow> bytes" where
  "window buf start stop =
     (let lo = start - FINGERPRINT_WINDOW_HALF;
          hi = min (stop + FINGERPRINT_WINDOW_HALF) (length buf)
      in if lo \<le> hi then byte_slice lo hi buf else [])"

definition fingerprint_window :: "ScanEnv \<Rightarrow> bytes \<Rightarrow> nat \<Rightarrow> nat \<Rightarrow> string" where
  "fingerprint_window env buf start stop = blake3_hex env (window buf start stop)"

definition scan_match :: "ScanEnv \<Rightarrow> bytes \<Rightarrow> PatternDef \<Rightarrow> nat \<times> nat \<Rightarrow> DlpFinding list" where
  "scan_match env input p = (\<lambda>(start, stop).
     let candidate = byte_slice start stop input
     in if \<not> pattern_validate p candidate then []
        else [\<lparr>fd_category = pd_category p, fd_pattern_name = pd_name p, fd_offset = start,
               fd_length = stop - start, fd_fingerprint = fingerprint_window env input start stop\<rparr>])"

definition scan_bytes :: "ScanEnv \<Rightarrow> PatternDef list \<Rightarrow> bytes \<Rightarrow> DlpFinding list" where
  "scan_bytes env patterns input =
     concat (map (\<lambda>p. concat (map (scan_match env input p) (find_iter env (pd_regex p) input))) patterns)"

section \<open>The module\<close>

datatype DlpMode = Monitor | Enforce

definition DlpMode_parse :: "string \<Rightarrow> DlpMode" where
  "DlpMode_parse s = (if to_ascii_lowercase s = ''enforce'' then Enforce else Monitor)"

record DlpConfig =
  dlp_enabled :: bool
  dlp_mode :: string
  dlp_patterns :: "string list"
  dlp_region :: "string option"
  inspect_file_writes :: bool
  inspect_clipboard :: bool
  max_bytes_per_file :: nat

definition resolve_selectors :: "DlpConfig \<Rightarrow> string list" where
  "resolve_selectors cfg =
     (if dlp_patterns cfg \<noteq> [] then dlp_patterns cfg
      else case dlp_region cfg of
        Some region \<Rightarrow> (case expand_region region of Some globs \<Rightarrow> globs | None \<Rightarrow> [])
      | None \<Rightarrow> [])"

text \<open>The events of the bus the module reads, and the alert it publishes.\<close>

datatype FimEvent = FileCreated string | FileModified string | FileDeleted string | FileMetadataChanged string | OtherKind

datatype Priority = Normal | High

record LocalDetectionAlert =
  al_priority :: Priority
  al_rule_id :: string
  al_rule_type :: string
  al_severity :: string
  al_description :: string
  al_matched_value :: string

fun file_path_for_event :: "FimEvent \<Rightarrow> string option" where
  "file_path_for_event (FileCreated path) = Some path"
| "file_path_for_event (FileModified path) = Some path"
| "file_path_for_event _ = None"

text \<open>\<open>publish_finding\<close>: the alert of a finding. A failure to queue it is only logged.\<close>

definition finding_alert :: "DlpMode \<Rightarrow> string \<Rightarrow> DlpFinding \<Rightarrow> LocalDetectionAlert" where
  "finding_alert mode path f =
     \<lparr>al_priority = (if mode = Enforce then High else Normal),
      al_rule_id = ''dlp.'' @ fd_category f,
      al_rule_type = ''dlp'',
      al_severity = (case mode of Monitor \<Rightarrow> ''medium'' | Enforce \<Rightarrow> ''high''),
      al_description = ''DLP match category='' @ fd_category f @ '' pattern='' @ fd_pattern_name f @ '' file='' @ path
        @ '' offset='' @ nat_str (fd_offset f) @ '' len='' @ nat_str (fd_length f)
        @ '' fp='' @ take (min 16 (length (fd_fingerprint f))) (fd_fingerprint f) @ [CHR 0xE2, CHR 0x80, CHR 0xA6],
      al_matched_value = path @ ''#'' @ fd_fingerprint f\<rparr>"

text \<open>The file system at one inspection: what \<open>fs::metadata\<close> answers, and what opening and reading
  the file to its end gives.\<close>

record FileView =
  metadata :: "string \<Rightarrow> (bool \<times> nat) option"
  content :: "string \<Rightarrow> (bytes, string) result"

definition read_bounded :: "FileView \<Rightarrow> string \<Rightarrow> nat \<Rightarrow> (bytes, string) result" where
  "read_bounded fs path limit = map_ok (take limit) (content fs path)"

definition inspect_file :: "ScanEnv \<Rightarrow> PatternDef list \<Rightarrow> DlpMode \<Rightarrow> DlpConfig \<Rightarrow> FileView \<Rightarrow> string \<Rightarrow> LocalDetectionAlert list" where
  "inspect_file env patterns mode cfg fs path =
     (case metadata fs path of
        None \<Rightarrow> []
      | Some (is_file, flen) \<Rightarrow>
          if \<not> is_file then []
          else let len = min flen (max_bytes_per_file cfg)
               in if len = 0 then []
                  else case read_bounded fs path len of
                    Err e \<Rightarrow> []
                  | Ok buf \<Rightarrow> map (finding_alert mode path) (scan_bytes env patterns buf))"

text \<open>The loop of \<open>run\<close>: its select is over the shutdown signal and the bus, which may close. An event
  comes with the state of the file system when it is handled.\<close>

datatype DlpInput = Shutdown | BusClosed | BusEvent FimEvent FileView

datatype DlpStatus = StatusInitialized | StatusRunning | StatusStopped

fun dlp_loop :: "ScanEnv \<Rightarrow> PatternDef list \<Rightarrow> DlpMode \<Rightarrow> DlpConfig \<Rightarrow> DlpInput list \<Rightarrow> DlpStatus \<times> LocalDetectionAlert list" where
  "dlp_loop env patterns mode cfg [] = (StatusRunning, [])"
| "dlp_loop env patterns mode cfg (Shutdown # ins) = (StatusStopped, [])"
| "dlp_loop env patterns mode cfg (BusClosed # ins) = (StatusStopped, [])"
| "dlp_loop env patterns mode cfg (BusEvent ev fs # ins) =
     (let alerts = (if \<not> inspect_file_writes cfg then []
                    else case file_path_for_event ev of
                      None \<Rightarrow> []
                    | Some path \<Rightarrow> inspect_file env patterns mode cfg fs path);
          (status, rest) = dlp_loop env patterns mode cfg ins
      in (status, alerts @ rest))"

text \<open>A disabled module waits for the shutdown signal and reads nothing.\<close>

definition dlp_run :: "ScanEnv \<Rightarrow> DlpConfig \<Rightarrow> DlpInput list \<Rightarrow> DlpStatus \<times> LocalDetectionAlert list" where
  "dlp_run env cfg ins =
     (if \<not> dlp_enabled cfg then (if Shutdown \<in> set ins then StatusStopped else StatusRunning, [])
      else let mode = DlpMode_parse (dlp_mode cfg);
               patterns = select_patterns (resolve_selectors cfg)
           in dlp_loop env patterns mode cfg ins)"

section \<open>What the scanner finds\<close>

lemma set_scan_bytes:
  "f \<in> set (scan_bytes env patterns input) \<longleftrightarrow>
    (\<exists>p\<in>set patterns. \<exists>(start, stop)\<in>set (find_iter env (pd_regex p) input).
       pattern_validate p (byte_slice start stop input) \<and>
       f = \<lparr>fd_category = pd_category p, fd_pattern_name = pd_name p, fd_offset = start,
            fd_length = stop - start, fd_fingerprint = fingerprint_window env input start stop\<rparr>)"
  unfolding scan_bytes_def scan_match_def Let_def by (auto split: if_splits)

text \<open>The window lies in the buffer, holds the match, and has at most 32 bytes more than it.\<close>

lemma window_bounds:
  assumes "start \<le> stop" "stop \<le> length buf"
  shows "\<exists>before after. window buf start stop = before @ byte_slice start stop buf @ after \<and>
    length before \<le> 16 \<and> length after \<le> 16"
proof -
  let ?lo = "start - 16" and ?hi = "min (stop + 16) (length buf)"
  have w: "window buf start stop = take (?hi - ?lo) (drop ?lo buf)"
    using assms by (auto simp: window_def Let_def FINGERPRINT_WINDOW_HALF_def byte_slice_def)
  have split: "?hi - ?lo = (start - ?lo) + ((stop - start) + (?hi - stop))" using assms by linarith
  have "window buf start stop = take (start - ?lo) (drop ?lo buf) @ take (stop - start) (drop start buf)
      @ take (?hi - stop) (drop stop buf)"
    unfolding w split take_add drop_drop using assms by (simp add: add.commute)
  then show ?thesis unfolding byte_slice_def by (intro exI conjI) (assumption, auto)
qed

text \<open>Every finding is a validated match inside the buffer.\<close>

lemma scan_bytes_in_bounds:
  assumes "spans_in_haystack env" "f \<in> set (scan_bytes env patterns input)"
  shows "fd_offset f + fd_length f \<le> length input"
    and "\<exists>p\<in>set patterns. fd_category f = pd_category p \<and>
      pattern_validate p (byte_slice (fd_offset f) (fd_offset f + fd_length f) input)"
proof -
  obtain p a b where p: "p \<in> set patterns" "(a, b) \<in> set (find_iter env (pd_regex p) input)"
    "pattern_validate p (byte_slice a b input)"
    and f: "fd_category f = pd_category p" "fd_offset f = a" "fd_length f = b - a"
    using assms(2) unfolding set_scan_bytes by auto
  have ab: "a \<le> b" "b \<le> length input"
    using assms(1) p(2) unfolding spans_in_haystack_def by blast+
  then show "fd_offset f + fd_length f \<le> length input" using f by simp
  have "byte_slice (fd_offset f) (fd_offset f + fd_length f) input = byte_slice a b input" using f ab by simp
  with p f show "\<exists>p\<in>set patterns. fd_category f = pd_category p \<and>
      pattern_validate p (byte_slice (fd_offset f) (fd_offset f + fd_length f) input)" by auto
qed

text \<open>The spans of a pattern whose candidate the validator accepts.\<close>

definition accepted :: "ScanEnv \<Rightarrow> PatternDef \<Rightarrow> bytes \<Rightarrow> (nat \<times> nat) list" where
  "accepted env p input = filter (\<lambda>(a, b). pattern_validate p (byte_slice a b input)) (find_iter env (pd_regex p) input)"

definition finding_of :: "PatternDef \<Rightarrow> (nat \<times> nat \<Rightarrow> string) \<Rightarrow> nat \<times> nat \<Rightarrow> DlpFinding" where
  "finding_of p hash s = \<lparr>fd_category = pd_category p, fd_pattern_name = pd_name p, fd_offset = fst s,
     fd_length = snd s - fst s, fd_fingerprint = hash s\<rparr>"

lemma concat_scan_match:
  "concat (map (scan_match env input p) spans) =
    map (finding_of p (\<lambda>s. fingerprint_window env input (fst s) (snd s)))
      (filter (\<lambda>(a, b). pattern_validate p (byte_slice a b input)) spans)"
  by (induction spans) (auto simp: scan_match_def finding_of_def Let_def)

lemma scan_bytes_accepted:
  "scan_bytes env patterns input =
    concat (map (\<lambda>p. map (finding_of p (\<lambda>s. fingerprint_window env input (fst s) (snd s))) (accepted env p input)) patterns)"
  by (simp add: scan_bytes_def concat_scan_match accepted_def)

lemma scan_bytes_redacted:
  assumes "\<And>p. p \<in> set patterns \<Longrightarrow> accepted env p b1 = accepted env p b2"
    and "\<And>p a b. p \<in> set patterns \<Longrightarrow> (a, b) \<in> set (accepted env p b1) \<Longrightarrow>
      blake3_hex env (window b1 a b) = blake3_hex env (window b2 a b)"
  shows "scan_bytes env patterns b1 = scan_bytes env patterns b2"
proof -
  have "map (finding_of p (\<lambda>s. fingerprint_window env b1 (fst s) (snd s))) (accepted env p b1)
      = map (finding_of p (\<lambda>s. fingerprint_window env b2 (fst s) (snd s))) (accepted env p b2)"
    if "p \<in> set patterns" for p
  proof -
    have "finding_of p (\<lambda>s. fingerprint_window env b1 (fst s) (snd s)) s
      = finding_of p (\<lambda>s. fingerprint_window env b2 (fst s) (snd s)) s" if "s \<in> set (accepted env p b1)" for s
      using assms(2) [OF \<open>p \<in> set patterns\<close>, of "fst s" "snd s"] that by (simp add: finding_of_def fingerprint_window_def)
    then show ?thesis unfolding assms(1) [OF \<open>p \<in> set patterns\<close>, symmetric] by (rule map_cong [OF refl])
  qed
  then show ?thesis unfolding scan_bytes_accepted by (metis (no_types, lifting) map_cong)
qed

text \<open>
  C39: the matched bytes do not leave the module. The alerts of a file depend on its contents only
  through the position of the accepted matches and the hash of the window around each: two contents
  with the same accepted spans and the same window hashes give the same alerts, word for word.
\<close>

theorem alerts_redacted:
  assumes "metadata fs1 path = Some (True, n)" "content fs1 path = Ok c1" "b1 = take (min n (max_bytes_per_file cfg)) c1"
    and "metadata fs2 path = Some (True, n)" "content fs2 path = Ok c2" "b2 = take (min n (max_bytes_per_file cfg)) c2"
    and "\<forall>p\<in>set patterns. accepted env p b1 = accepted env p b2"
    and "\<forall>p\<in>set patterns. \<forall>(a, b)\<in>set (accepted env p b1).
      blake3_hex env (window b1 a b) = blake3_hex env (window b2 a b)"
  shows "inspect_file env patterns mode cfg fs1 path = inspect_file env patterns mode cfg fs2 path"
proof -
  have "scan_bytes env patterns b1 = scan_bytes env patterns b2"
    using assms(7,8) by (intro scan_bytes_redacted) auto
  then show ?thesis
    using assms(1-6) by (simp add: inspect_file_def read_bounded_def Let_def) (auto simp: min_def split: if_splits)
qed

text \<open>Two different social security numbers, under a hash that tells nothing about its input.\<close>

definition sample_env :: ScanEnv where
  "sample_env = \<lparr>find_iter = (\<lambda>re bs. if length bs = 11 then [(0, 11)] else []), blake3_hex = (\<lambda>bs. ''00'')\<rparr>"

definition sample_view :: "bytes \<Rightarrow> FileView" where
  "sample_view bs = \<lparr>metadata = (\<lambda>p. Some (True, 11)), content = (\<lambda>p. Ok bs)\<rparr>"

definition sample_config :: DlpConfig where
  "sample_config = \<lparr>dlp_enabled = True, dlp_mode = ''enforce'', dlp_patterns = [''pii.ssn''], dlp_region = None,
     inspect_file_writes = True, inspect_clipboard = False, max_bytes_per_file = 11\<rparr>"

theorem alerts_redacted_witness:
  "inspect_file sample_env [hd global_patterns] Enforce sample_config (sample_view ''123-45-6789'') ''/a''
     = inspect_file sample_env [hd global_patterns] Enforce sample_config (sample_view ''219-09-9999'') ''/a'' \<and>
   inspect_file sample_env [hd global_patterns] Enforce sample_config (sample_view ''123-45-6789'') ''/a'' \<noteq> []"
proof
  have acc: "accepted sample_env (hd global_patterns) ''123-45-6789'' = [(0, 11)]"
    "accepted sample_env (hd global_patterns) ''219-09-9999'' = [(0, 11)]"
    by (code_simp, code_simp)
  show "inspect_file sample_env [hd global_patterns] Enforce sample_config (sample_view ''123-45-6789'') ''/a''
     = inspect_file sample_env [hd global_patterns] Enforce sample_config (sample_view ''219-09-9999'') ''/a''"
    by (rule alerts_redacted [where ?b1.0 = "''123-45-6789''" and ?b2.0 = "''219-09-9999''" and n = 11])
      (simp_all add: sample_view_def sample_config_def acc, simp_all add: sample_env_def)
  show "inspect_file sample_env [hd global_patterns] Enforce sample_config (sample_view ''123-45-6789'') ''/a'' \<noteq> []"
    by code_simp
qed

section \<open>The module as a whole\<close>

lemma dlp_loop_append:
  "Shutdown \<notin> set pre \<Longrightarrow> BusClosed \<notin> set pre \<Longrightarrow>
   set (snd (dlp_loop env patterns mode cfg ins)) \<subseteq> set (snd (dlp_loop env patterns mode cfg (pre @ ins)))"
proof (induction pre)
  case (Cons i pre)
  then obtain ev fs where i: "i = BusEvent ev fs" by (cases i) auto
  from Cons show ?case unfolding i by (auto simp: Let_def split: prod.splits)
qed simp

lemma dlp_loop_event:
  assumes "inspect_file_writes cfg" "file_path_for_event ev = Some path"
  shows "set (inspect_file env patterns mode cfg fs path) \<subseteq> set (snd (dlp_loop env patterns mode cfg (BusEvent ev fs # ins)))"
  using assms by (auto simp: Let_def split: prod.splits)


lemma sample_selection: "hd global_patterns \<in> set (select_patterns (resolve_selectors sample_config))"
proof -
  have "matches_selector ''pii.ssn'' (hd global_patterns)" by code_simp
  moreover have "hd global_patterns \<in> set baseline_patterns" by (simp add: baseline_patterns_def global_patterns_def)
  ultimately show ?thesis by (simp add: sample_config_def resolve_selectors_def select_patterns_def)
qed


text \<open>A disabled module, and one told not to inspect file writes, publishes nothing; and a deletion
  or a metadata change is never answered by an alert.\<close>

lemma dlp_run_silent:
  assumes "\<not> dlp_enabled cfg \<or> \<not> inspect_file_writes cfg \<or> (\<forall>ev fs. BusEvent ev fs \<in> set ins \<longrightarrow> file_path_for_event ev = None)"
  shows "snd (dlp_run env cfg ins) = []"
proof (cases "dlp_enabled cfg")
  case True
  then have a: "\<not> inspect_file_writes cfg \<or> (\<forall>ev fs. BusEvent ev fs \<in> set ins \<longrightarrow> file_path_for_event ev = None)"
    using assms by blast
  have "snd (dlp_loop env ps mode cfg ins) = []" for ps mode
    using a
  proof (induction ins)
    case (Cons i ins)
    then show ?case by (cases i) (auto simp: Let_def split: prod.splits)
  qed simp
  with True show ?thesis by (simp add: dlp_run_def Let_def)
qed (simp add: dlp_run_def)

end
