(* ===== verification/ArActions.thy ===== *)
theory ArActions
  imports Json
begin

text \<open>
  The response actions of \<open>crates/sda-active-response/src\<close>: the command executor (\<open>executor.rs\<close>), the
  registry (\<open>actions/mod.rs\<close>) and the Linux form of the three actions (\<open>actions/firewall_drop.rs\<close>,
  \<open>kill_process.rs\<close>, \<open>disable_account.rs\<close>).

  Spawning a program is a parameter that maps the state of the host to an outcome and a new state;
  the model also keeps the list of the commands spawned, which the statements are about. The
  address parser of the standard library is written out, because the actions rely on it to keep
  arguments harmless. The lemmas show that only commands of allowed actions are ever spawned, with
  validated arguments.
\<close>

section \<open>Addresses\<close>

text \<open>The parser of \<open>std::net\<close>: every reader consumes a prefix and returns the rest, or fails.\<close>

definition hexval :: "char \<Rightarrow> nat option" where
  "hexval c = (if is_digit c then Some (byte_of c - 48)
     else if 65 \<le> byte_of c \<and> byte_of c \<le> 70 then Some (byte_of c - 55)
     else if 97 \<le> byte_of c \<and> byte_of c \<le> 102 then Some (byte_of c - 87) else None)"

definition digit_of_radix :: "nat \<Rightarrow> char \<Rightarrow> bool" where
  "digit_of_radix radix c \<longleftrightarrow> (case hexval c of Some v \<Rightarrow> v < radix | None \<Rightarrow> False)"

text \<open>\<open>read_number\<close>: all digits in sight, at most \<open>max_digits\<close> of them, the value in range.\<close>

definition read_number :: "nat \<Rightarrow> nat \<Rightarrow> bool \<Rightarrow> nat \<Rightarrow> string \<Rightarrow> string option" where
  "read_number radix max_digits allow_zero_prefix max_value s =
     (let ds = takeWhile (digit_of_radix radix) s
      in if ds = [] \<or> length ds > max_digits then None
         else if \<not> allow_zero_prefix \<and> hd ds = CHR ''0'' \<and> length ds > 1 then None
         else if foldl (\<lambda>n c. n * radix + the (hexval c)) 0 ds > max_value then None
         else Some (dropWhile (digit_of_radix radix) s))"

definition read_given_char :: "char \<Rightarrow> string \<Rightarrow> string option" where
  "read_given_char c s = (case s of x # r \<Rightarrow> if x = c then Some r else None | [] \<Rightarrow> None)"

definition read_separator :: "char \<Rightarrow> nat \<Rightarrow> (string \<Rightarrow> string option) \<Rightarrow> string \<Rightarrow> string option" where
  "read_separator sep index inner s =
     Option.bind (if index > 0 then read_given_char sep s else Some s) inner"

definition read_ipv4_addr :: "string \<Rightarrow> string option" where
  "read_ipv4_addr s =
     (let octet = (\<lambda>i. read_separator CHR ''.'' i (read_number 10 3 False 255))
      in Option.bind (octet 0 s) (\<lambda>r. Option.bind (octet 1 r) (\<lambda>r. Option.bind (octet 2 r) (octet 3))))"

text \<open>\<open>read_groups\<close>: groups read so far, groups left; the result is the count, whether the last two
  came from an embedded IPv4 address, and the rest.\<close>

fun read_groups :: "nat \<Rightarrow> nat \<Rightarrow> string \<Rightarrow> nat \<times> bool \<times> string" where
  "read_groups i 0 s = (i, False, s)"
| "read_groups i (Suc left) s =
     (case (if left > 0 then read_separator CHR '':'' i read_ipv4_addr s else None) of
        Some r \<Rightarrow> (i + 2, True, r)
      | None \<Rightarrow>
          (case read_separator CHR '':'' i (read_number 16 4 True 65535) s of
             Some r \<Rightarrow> read_groups (Suc i) left r
           | None \<Rightarrow> (i, False, s)))"

definition read_ipv6_addr :: "string \<Rightarrow> string option" where
  "read_ipv6_addr s =
     (case read_groups 0 8 s of (head_size, head_ipv4, r) \<Rightarrow>
        if head_size = 8 then Some r
        else if head_ipv4 then None
        else Option.bind (read_given_char CHR '':'' r) (\<lambda>r.
             Option.bind (read_given_char CHR '':'' r) (\<lambda>r.
             Some (snd (snd (read_groups 0 (8 - (head_size + 1)) r))))))"

datatype IpFamily = V4 | V6

text \<open>\<open>str::parse::<IpAddr>\<close>, of which only the family is used.\<close>

definition parse_ip :: "string \<Rightarrow> IpFamily option" where
  "parse_ip s =
     (case read_ipv4_addr s of
        Some r \<Rightarrow> if r = [] then Some V4 else None
      | None \<Rightarrow> (case read_ipv6_addr s of Some r \<Rightarrow> if r = [] then Some V6 else None | None \<Rightarrow> None))"

section \<open>The executor\<close>

record ExecutionResult =
  er_success :: bool
  er_exit_code :: "int option"
  er_stdout :: string
  er_stderr :: string
  er_timed_out :: bool

text \<open>What becomes of a spawned program. Exit code 0 is success.\<close>

datatype CommandOutcome =
    SpawnFailed string
  | Exited "int option" bytes bytes
  | IoError string
  | TimedOut

text \<open>The host: its state, and the commands spawned so far.\<close>

record 'os Host =
  host_os :: 'os
  spawned :: "(string \<times> string list) list"

record 'os ArEnv =
  spawn :: "string \<Rightarrow> string list \<Rightarrow> nat \<Rightarrow> bool \<Rightarrow> 'os \<Rightarrow> CommandOutcome \<times> 'os"
  utf8_lossy :: "bytes \<Rightarrow> string"
  unicode_alphanumeric :: "nat \<Rightarrow> bool"

definition timeout_result :: ExecutionResult where
  "timeout_result = \<lparr>er_success = False, er_exit_code = None, er_stdout = [], er_stderr = ''command timed out'', er_timed_out = True\<rparr>"

definition combined_output :: "ExecutionResult \<Rightarrow> string" where
  "combined_output r =
     er_stdout r @ (if er_stderr r \<noteq> [] then (if er_stdout r \<noteq> [] then [CHR 0x0A] else []) @ er_stderr r else [])"

definition execute_command :: "'os ArEnv \<Rightarrow> string \<Rightarrow> string list \<Rightarrow> nat \<Rightarrow> bool \<Rightarrow> 'os Host \<Rightarrow> ExecutionResult \<times> 'os Host" where
  "execute_command env program args timeout drop_privileges h =
     (case spawn env program args timeout drop_privileges (host_os h) of (oc, os) \<Rightarrow>
        let h = \<lparr>host_os = os, spawned = spawned h @ [(program, args)]\<rparr>;
            failed = (\<lambda>e. \<lparr>er_success = False, er_exit_code = None, er_stdout = [], er_stderr = e, er_timed_out = False\<rparr>)
        in case oc of
             SpawnFailed e \<Rightarrow> (failed (''failed to spawn: '' @ e), h)
           | Exited code out err \<Rightarrow>
               (\<lparr>er_success = (code = Some 0), er_exit_code = code, er_stdout = utf8_lossy env out,
                 er_stderr = utf8_lossy env err, er_timed_out = False\<rparr>, h)
           | IoError e \<Rightarrow> (failed (''I/O error: '' @ e), h)
           | TimedOut \<Rightarrow> (timeout_result, h))"

section \<open>The actions\<close>

record ActionParams =
  ap_ip :: "string option"
  ap_pid :: "nat option"
  ap_user :: "string option"
  ap_timeout :: nat
  ap_extra :: "(string \<times> string) list"

record ActionResult =
  ar_success :: bool
  ar_output :: string

definition ar_ok :: "string \<Rightarrow> ActionResult" where
  "ar_ok out = \<lparr>ar_success = True, ar_output = out\<rparr>"

definition ar_err :: "string \<Rightarrow> ActionResult" where
  "ar_err out = \<lparr>ar_success = False, ar_output = out\<rparr>"

definition strip_zone_id :: "string \<Rightarrow> string" where
  "strip_zone_id ip = takeWhile (\<lambda>c. c \<noteq> CHR ''%'') ip"

definition is_valid_ip :: "string \<Rightarrow> bool" where
  "is_valid_ip ip \<longleftrightarrow> parse_ip (strip_zone_id ip) \<noteq> None"

definition is_ipv6 :: "string \<Rightarrow> bool" where
  "is_ipv6 ip \<longleftrightarrow> parse_ip (strip_zone_id ip) = Some V6"

definition iptables_args :: "string \<Rightarrow> string \<Rightarrow> string list" where
  "iptables_args op addr = [op, ''INPUT'', ''-s'', addr, ''-j'', ''DROP'']"

definition platform_block_ip :: "'os ArEnv \<Rightarrow> string \<Rightarrow> nat \<Rightarrow> 'os Host \<Rightarrow> ActionResult \<times> 'os Host" where
  "platform_block_ip env ip timeout h =
     (let addr = strip_zone_id ip;
          cmd = (if is_ipv6 ip then ''ip6tables'' else ''iptables'');
          (result, h) = execute_command env cmd (iptables_args ''-I'' addr) timeout False h
      in (if er_success result then ar_ok (''blocked IP '' @ ip)
          else ar_err (''failed to block IP '' @ ip @ '': '' @ combined_output result), h))"

definition platform_unblock_ip :: "'os ArEnv \<Rightarrow> string \<Rightarrow> nat \<Rightarrow> 'os Host \<Rightarrow> ActionResult \<times> 'os Host" where
  "platform_unblock_ip env ip timeout h =
     (let addr = strip_zone_id ip;
          cmd = (if is_ipv6 ip then ''ip6tables'' else ''iptables'');
          (result, h) = execute_command env cmd (iptables_args ''-D'' addr) timeout False h
      in (if er_success result then ar_ok (''unblocked IP '' @ ip)
          else ar_err (''failed to unblock IP '' @ ip @ '': '' @ combined_output result), h))"

definition firewall_execute :: "'os ArEnv \<Rightarrow> ActionParams \<Rightarrow> nat \<Rightarrow> 'os Host \<Rightarrow> ActionResult \<times> 'os Host" where
  "firewall_execute env params timeout h =
     (case ap_ip params of
        None \<Rightarrow> (ar_err (''missing '' @ [CHR 0x27] @ ''ip'' @ [CHR 0x27] @ '' parameter for block_ip action''), h)
      | Some ip \<Rightarrow>
          if \<not> is_valid_ip ip then (ar_err (''invalid IP address: '' @ ip), h)
          else platform_block_ip env ip timeout h)"

definition firewall_undo :: "'os ArEnv \<Rightarrow> ActionParams \<Rightarrow> nat \<Rightarrow> 'os Host \<Rightarrow> ActionResult \<times> 'os Host" where
  "firewall_undo env params timeout h =
     (case ap_ip params of
        None \<Rightarrow> (ar_err (''missing '' @ [CHR 0x27] @ ''ip'' @ [CHR 0x27] @ '' parameter for unblock_ip action''), h)
      | Some ip \<Rightarrow>
          if \<not> is_valid_ip ip then (ar_err (''invalid IP address: '' @ ip), h)
          else platform_unblock_ip env ip timeout h)"

definition platform_kill :: "'os ArEnv \<Rightarrow> nat \<Rightarrow> nat \<Rightarrow> 'os Host \<Rightarrow> ActionResult \<times> 'os Host" where
  "platform_kill env pid timeout h =
     (let (result, h) = execute_command env ''kill'' [''-9'', nat_str pid] timeout False h
      in (if er_success result then ar_ok (''killed process '' @ nat_str pid)
          else if str_contains (er_stderr result) ''No such process''
          then ar_ok (''process '' @ nat_str pid @ '' already terminated'')
          else ar_err (''failed to kill process '' @ nat_str pid @ '': '' @ combined_output result), h))"

definition quoted :: "string \<Rightarrow> string" where
  "quoted s = [CHR 0x27] @ s @ [CHR 0x27]"

definition platform_pkill :: "'os ArEnv \<Rightarrow> string \<Rightarrow> nat \<Rightarrow> 'os Host \<Rightarrow> ActionResult \<times> 'os Host" where
  "platform_pkill env pat timeout h =
     (let (result, h) = execute_command env ''pkill'' [''-9'', ''-f'', pat] timeout False h
      in (if er_success result then ar_ok (''killed processes matching '' @ quoted pat)
          else if er_exit_code result = Some 1
          then ar_ok (''no processes matched '' @ quoted pat @ '' (already terminated)'')
          else ar_err (''pkill -f '' @ quoted pat @ '' failed: '' @ combined_output result), h))"

definition kill_execute :: "'os ArEnv \<Rightarrow> ActionParams \<Rightarrow> nat \<Rightarrow> 'os Host \<Rightarrow> ActionResult \<times> 'os Host" where
  "kill_execute env params timeout h =
     (case ap_pid params of
        Some pid \<Rightarrow>
          if pid = 0 \<or> pid = 1 then (ar_err (''refusing to kill PID '' @ nat_str pid), h)
          else platform_kill env pid timeout h
      | None \<Rightarrow>
          (case map_of (ap_extra params) ''process_pattern'' of
             Some pat \<Rightarrow>
               if pat = [] then (ar_err (''empty '' @ quoted ''process_pattern'' @ '' for kill_process action''), h)
               else platform_pkill env pat timeout h
           | None \<Rightarrow> (ar_err (''missing '' @ quoted ''pid'' @ '' or '' @ quoted ''process_pattern'' @ '' for kill_process action''), h)))"

definition kill_undo :: "'os Host \<Rightarrow> ActionResult \<times> 'os Host" where
  "kill_undo h = (ar_err ''cannot undo process termination'', h)"

text \<open>\<open>char::is_alphanumeric\<close>, exact on ASCII.\<close>

definition alphanumeric :: "'os ArEnv \<Rightarrow> nat \<Rightarrow> bool" where
  "alphanumeric env v \<longleftrightarrow>
     (if v < 128 then 48 \<le> v \<and> v \<le> 57 \<or> 65 \<le> v \<and> v \<le> 90 \<or> 97 \<le> v \<and> v \<le> 122 else unicode_alphanumeric env v)"

definition is_valid_username :: "'os ArEnv \<Rightarrow> string \<Rightarrow> bool" where
  "is_valid_username env user \<longleftrightarrow>
     user \<noteq> [] \<and> length user \<le> 32 \<and> user \<noteq> ''.'' \<and> user \<noteq> ''..'' \<and>
     (\<forall>g\<in>set (utf8_chars user). alphanumeric env (scalar g) \<or> g = ''_'' \<or> g = ''-'' \<or> g = ''.'')"

definition platform_disable_account :: "'os ArEnv \<Rightarrow> string \<Rightarrow> nat \<Rightarrow> 'os Host \<Rightarrow> ActionResult \<times> 'os Host" where
  "platform_disable_account env user timeout h =
     (let (result, h) = execute_command env ''passwd'' [''-l'', user] timeout False h
      in (if er_success result then ar_ok (''disabled account '' @ user)
          else ar_err (''failed to disable account '' @ user @ '': '' @ combined_output result), h))"

definition platform_enable_account :: "'os ArEnv \<Rightarrow> string \<Rightarrow> nat \<Rightarrow> 'os Host \<Rightarrow> ActionResult \<times> 'os Host" where
  "platform_enable_account env user timeout h =
     (let (result, h) = execute_command env ''passwd'' [''-u'', user] timeout False h
      in (if er_success result then ar_ok (''re-enabled account '' @ user)
          else ar_err (''failed to re-enable account '' @ user @ '': '' @ combined_output result), h))"

definition protected_account :: "string \<Rightarrow> bool" where
  "protected_account user \<longleftrightarrow> eq_ignore_ascii_case user ''root'' \<or> eq_ignore_ascii_case user ''administrator''"

definition disable_execute :: "'os ArEnv \<Rightarrow> ActionParams \<Rightarrow> nat \<Rightarrow> 'os Host \<Rightarrow> ActionResult \<times> 'os Host" where
  "disable_execute env params timeout h =
     (case ap_user params of
        None \<Rightarrow> (ar_err (''missing '' @ quoted ''user'' @ '' parameter for disable_account action''), h)
      | Some user \<Rightarrow>
          if protected_account user then (ar_err ''refusing to disable root/Administrator account'', h)
          else if \<not> is_valid_username env user then (ar_err (''invalid username: '' @ user), h)
          else platform_disable_account env user timeout h)"

definition disable_undo :: "'os ArEnv \<Rightarrow> ActionParams \<Rightarrow> nat \<Rightarrow> 'os Host \<Rightarrow> ActionResult \<times> 'os Host" where
  "disable_undo env params timeout h =
     (case ap_user params of
        None \<Rightarrow> (ar_err (''missing '' @ quoted ''user'' @ '' parameter for enable_account action''), h)
      | Some user \<Rightarrow>
          if protected_account user then (ar_err ''refusing to re-enable root/Administrator account'', h)
          else if \<not> is_valid_username env user then (ar_err (''invalid username: '' @ user), h)
          else platform_enable_account env user timeout h)"

section \<open>The registry\<close>

datatype ResponseAction = FirewallDrop | KillProcess | DisableAccount

definition action_execute :: "'os ArEnv \<Rightarrow> ResponseAction \<Rightarrow> ActionParams \<Rightarrow> nat \<Rightarrow> 'os Host \<Rightarrow> ActionResult \<times> 'os Host" where
  "action_execute env a params timeout h =
     (case a of FirewallDrop \<Rightarrow> firewall_execute env params timeout h
              | KillProcess \<Rightarrow> kill_execute env params timeout h
              | DisableAccount \<Rightarrow> disable_execute env params timeout h)"

definition action_undo :: "'os ArEnv \<Rightarrow> ResponseAction \<Rightarrow> ActionParams \<Rightarrow> nat \<Rightarrow> 'os Host \<Rightarrow> ActionResult \<times> 'os Host" where
  "action_undo env a params timeout h =
     (case a of FirewallDrop \<Rightarrow> firewall_undo env params timeout h
              | KillProcess \<Rightarrow> kill_undo h
              | DisableAccount \<Rightarrow> disable_undo env params timeout h)"

definition registry_new :: "string list \<Rightarrow> (string \<times> ResponseAction) list" where
  "registry_new allowed =
     (if ''block_ip'' \<in> set allowed \<or> ''firewall-drop'' \<in> set allowed
      then [(''block_ip'', FirewallDrop), (''firewall-drop'', FirewallDrop)] else [])
     @ (if ''kill_process'' \<in> set allowed then [(''kill_process'', KillProcess)] else [])
     @ (if ''disable_account'' \<in> set allowed \<or> ''disable-account'' \<in> set allowed
        then [(''disable_account'', DisableAccount), (''disable-account'', DisableAccount)] else [])"

definition underscored :: "string \<Rightarrow> string" where
  "underscored s = map (\<lambda>c. if c = CHR ''-'' then CHR ''_'' else c) s"

definition find_action :: "(string \<times> ResponseAction) list \<Rightarrow> string \<Rightarrow> ResponseAction option" where
  "find_action reg name =
     (case map_of reg name of Some a \<Rightarrow> Some a | None \<Rightarrow> map_of reg (underscored name))"

definition dispatch :: "'os ArEnv \<Rightarrow> (string \<times> ResponseAction) list \<Rightarrow> string \<Rightarrow> ActionParams \<Rightarrow> nat \<Rightarrow> 'os Host \<Rightarrow> ActionResult \<times> 'os Host" where
  "dispatch env reg name params timeout h =
     (case find_action reg name of
        Some a \<Rightarrow> action_execute env a params timeout h
      | None \<Rightarrow> (ar_err (''unknown action: '' @ name), h))"

definition dispatch_undo :: "'os ArEnv \<Rightarrow> (string \<times> ResponseAction) list \<Rightarrow> string \<Rightarrow> ActionParams \<Rightarrow> nat \<Rightarrow> 'os Host \<Rightarrow> ActionResult \<times> 'os Host" where
  "dispatch_undo env reg name params timeout h =
     (case find_action reg name of
        Some a \<Rightarrow> action_undo env a params timeout h
      | None \<Rightarrow> (ar_err (''unknown action: '' @ name), h))"

section \<open>Commands are guarded\<close>

text \<open>An address starts with a hexadecimal digit or a colon, so it never reads as an option.\<close>

lemma read_number_hd: "read_number radix n z m s \<noteq> None \<Longrightarrow> s \<noteq> [] \<and> hexval (hd s) \<noteq> None"
  by (cases s) (auto simp: read_number_def digit_of_radix_def Let_def split: if_splits option.splits)

lemma read_ipv4_hd: "read_ipv4_addr s \<noteq> None \<Longrightarrow> s \<noteq> [] \<and> hexval (hd s) \<noteq> None"
  using read_number_hd [of 10 3 False 255 s] by (auto simp: read_ipv4_addr_def read_separator_def Let_def bind_eq_Some_conv)

lemma read_ipv6_hd:
  assumes "read_ipv6_addr s \<noteq> None"
  shows "s \<noteq> [] \<and> (hexval (hd s) \<noteq> None \<or> hd s = CHR '':'')"
proof (rule ccontr)
  assume n: "\<not> ?thesis"
  then have "read_ipv4_addr s = None" "read_number 16 4 True 65535 s = None"
    using read_ipv4_hd [of s] read_number_hd [of 16 4 True 65535 s] by blast+
  then have "read_groups 0 (Suc left) s = (0, False, s)" for left by (simp add: read_separator_def)
  from this [of 7] have "read_groups 0 8 s = (0, False, s)" by simp
  then have "read_given_char CHR '':'' s \<noteq> None" using assms by (auto simp: read_ipv6_addr_def bind_eq_Some_conv)
  then show False using n by (auto simp: read_given_char_def split: list.splits if_splits)
qed

lemma parse_ip_hd:
  assumes "parse_ip s \<noteq> None"
  shows "s \<noteq> []" "hd s \<noteq> CHR ''-''"
proof -
  have *: "s \<noteq> [] \<and> (hexval (hd s) \<noteq> None \<or> hd s = CHR '':'')"
    using assms read_ipv4_hd [of s] read_ipv6_hd [of s] by (auto simp: parse_ip_def split: option.splits if_splits)
  moreover have "hexval CHR ''-'' = None" by code_simp
  ultimately show "s \<noteq> []" "hd s \<noteq> CHR ''-''" by auto
qed

text \<open>The commands the module may run: those of an allowed action, with checked arguments.\<close>

definition firewall_allowed :: "string list \<Rightarrow> bool" where
  "firewall_allowed allowed \<longleftrightarrow> ''block_ip'' \<in> set allowed \<or> ''firewall-drop'' \<in> set allowed"

definition accounts_allowed :: "string list \<Rightarrow> bool" where
  "accounts_allowed allowed \<longleftrightarrow> ''disable_account'' \<in> set allowed \<or> ''disable-account'' \<in> set allowed"

definition firewall_command :: "string \<times> string list \<Rightarrow> bool" where
  "firewall_command c \<longleftrightarrow> (\<exists>op addr. c = ((if parse_ip addr = Some V6 then ''ip6tables'' else ''iptables''), iptables_args op addr) \<and>
     op \<in> {''-I'', ''-D''} \<and> parse_ip addr \<noteq> None \<and> hd addr \<noteq> CHR ''-'')"

definition kill_command :: "string \<times> string list \<Rightarrow> bool" where
  "kill_command c \<longleftrightarrow> (\<exists>pid\<ge>2. c = (''kill'', [''-9'', nat_str pid])) \<or> (\<exists>pat. pat \<noteq> [] \<and> c = (''pkill'', [''-9'', ''-f'', pat]))"

definition account_command :: "'os ArEnv \<Rightarrow> string \<times> string list \<Rightarrow> bool" where
  "account_command env c \<longleftrightarrow> (\<exists>op user. c = (''passwd'', [op, user]) \<and> op \<in> {''-l'', ''-u''} \<and>
     is_valid_username env user \<and> \<not> protected_account user)"

definition guarded :: "'os ArEnv \<Rightarrow> string list \<Rightarrow> string \<times> string list \<Rightarrow> bool" where
  "guarded env allowed c \<longleftrightarrow> firewall_allowed allowed \<and> firewall_command c \<or>
     ''kill_process'' \<in> set allowed \<and> kill_command c \<or> accounts_allowed allowed \<and> account_command env c"

lemma execute_command_spawned: "spawned (snd (execute_command env p args t d h)) = spawned h @ [(p, args)]"
  by (simp add: execute_command_def Let_def split: prod.split CommandOutcome.split)

definition runs :: "(string \<times> string list \<Rightarrow> bool) \<Rightarrow> 'os Host \<Rightarrow> 'os Host \<Rightarrow> bool" where
  "runs P h h' \<longleftrightarrow> (\<exists>cs. spawned h' = spawned h @ cs \<and> list_all P cs)"

lemma runs_refl [simp, intro]: "runs P h h"
  by (simp add: runs_def)

lemma runs_trans: "runs P a b \<Longrightarrow> runs P b c \<Longrightarrow> runs P a c"
  by (auto simp: runs_def)

lemma runs_mono: "runs P a b \<Longrightarrow> (\<And>c. P c \<Longrightarrow> Q c) \<Longrightarrow> runs Q a b"
  by (auto simp: runs_def list_all_iff)

lemma runs_one: "P (p, args) \<Longrightarrow> runs P h (snd (execute_command env p args t d h))"
  by (simp add: runs_def execute_command_spawned)

lemma firewall_runs:
  "runs firewall_command h (snd (firewall_execute env params t h))" "runs firewall_command h (snd (firewall_undo env params t h))"
proof -
  have ok: "firewall_command ((if is_ipv6 ip then ''ip6tables'' else ''iptables''), iptables_args op (strip_zone_id ip))"
    if "is_valid_ip ip" "op \<in> {''-I'', ''-D''}" for ip op
    using that parse_ip_hd [of "strip_zone_id ip"] unfolding firewall_command_def is_valid_ip_def is_ipv6_def by blast
  have one: "runs firewall_command h (snd (execute_command env (if is_ipv6 ip then ''ip6tables'' else ''iptables'')
      (iptables_args op (strip_zone_id ip)) t False h))" if "is_valid_ip ip" "op \<in> {''-I'', ''-D''}" for ip op
    by (rule runs_one) (rule ok [OF that])
  show "runs firewall_command h (snd (firewall_execute env params t h))"
    using one [where op = "''-I''"] by (simp add: firewall_execute_def platform_block_ip_def Let_def case_prod_beta split: option.split)
  show "runs firewall_command h (snd (firewall_undo env params t h))"
    using one [where op = "''-D''"] by (simp add: firewall_undo_def platform_unblock_ip_def Let_def case_prod_beta split: option.split)
qed

lemma kill_runs: "runs kill_command h (snd (kill_execute env params t h))"
proof -
  have "kill_command (''kill'', [''-9'', nat_str pid])" if "pid \<noteq> 0" "pid \<noteq> 1" for pid
    unfolding kill_command_def using that by (intro disjI1 exI [of _ pid]) simp
  moreover have "kill_command (''pkill'', [''-9'', ''-f'', pat])" if "pat \<noteq> []" for pat
    unfolding kill_command_def using that by blast
  ultimately show ?thesis
    by (simp add: kill_execute_def platform_kill_def platform_pkill_def Let_def case_prod_beta runs_one split: option.split)
qed

lemma account_runs:
  "runs (account_command env) h (snd (disable_execute env params t h))" "runs (account_command env) h (snd (disable_undo env params t h))"
  by (auto simp: disable_execute_def disable_undo_def platform_disable_account_def platform_enable_account_def Let_def
      case_prod_beta account_command_def split: option.split intro!: runs_one)

lemma find_action_allowed:
  assumes "find_action (registry_new allowed) name = Some a"
  shows "case a of FirewallDrop \<Rightarrow> firewall_allowed allowed | KillProcess \<Rightarrow> ''kill_process'' \<in> set allowed
    | DisableAccount \<Rightarrow> accounts_allowed allowed"
proof -
  have "\<exists>n. (n, a) \<in> set (registry_new allowed)"
    using assms by (auto simp: find_action_def split: option.splits dest: map_of_SomeD)
  then show ?thesis by (auto simp: registry_new_def firewall_allowed_def accounts_allowed_def split: if_splits)
qed

lemma dispatch_runs:
  "runs (guarded env allowed) h (snd (dispatch env (registry_new allowed) name params t h))"
  "runs (guarded env allowed) h (snd (dispatch_undo env (registry_new allowed) name params t h))"
proof -
  have g: "runs (guarded env allowed) h h'" if "find_action (registry_new allowed) name = Some a"
      "runs (case a of FirewallDrop \<Rightarrow> firewall_command | KillProcess \<Rightarrow> kill_command | DisableAccount \<Rightarrow> account_command env) h h'" for a h'
    using find_action_allowed [OF that(1)] that(2) by (auto simp: guarded_def split: ResponseAction.splits elim: runs_mono)
  show "runs (guarded env allowed) h (snd (dispatch env (registry_new allowed) name params t h))"
    by (auto simp: dispatch_def action_execute_def firewall_runs kill_runs account_runs
        split: option.split ResponseAction.split intro: g)
  show "runs (guarded env allowed) h (snd (dispatch_undo env (registry_new allowed) name params t h))"
    by (auto simp: dispatch_undo_def action_undo_def firewall_runs kill_undo_def account_runs
        split: option.split ResponseAction.split intro: g)
qed

end
