(* ===== verification/ActiveResponse.thy ===== *)
theory ActiveResponse
  imports ArActions "HOL-Library.Multiset"
begin

text \<open>
  The active-response module (\<open>crates/sda-active-response/src/lib.rs\<close>): the parser of the manager's
  commands in their JSON and legacy forms, the event loop, the acknowledgements, and the scheduled
  reversal of actions with a time limit.

  A scheduled reversal is a task of its own, so the loop and the pending reversals interleave
  freely: a run is any list of inputs, each an event or the firing of one pending reversal.
  Parsing JSON and decoding a parameter object with serde are parameters.
\<close>

section \<open>Commands of the manager\<close>

text \<open>\<open>str::split_whitespace\<close>, over scalar groups.\<close>

fun whitespace_tokens :: "string list \<Rightarrow> string \<Rightarrow> string list" where
  "whitespace_tokens [] acc = (if acc = [] then [] else [acc])"
| "whitespace_tokens (g # gs) acc =
     (if is_whitespace (scalar g)
      then (if acc = [] then [] else [acc]) @ whitespace_tokens gs []
      else whitespace_tokens gs (acc @ g))"

definition split_whitespace :: "string \<Rightarrow> string list" where
  "split_whitespace s = whitespace_tokens (utf8_chars s) []"

text \<open>\<open>str::trim_start_matches\<close> with a non-empty pattern.\<close>

function strip_prefixes :: "char \<Rightarrow> string \<Rightarrow> string \<Rightarrow> string" where
  "strip_prefixes c p s =
     (if take (Suc (length p)) s = c # p then strip_prefixes c p (drop (Suc (length p)) s) else s)"
  by pat_completeness auto
termination
  by (relation "measure (\<lambda>(c, p, s). length s)") (auto dest: arg_cong [of _ _ length])

declare strip_prefixes.simps [simp del]

text \<open>\<open>str::find\<close> of a pattern, and what follows it.\<close>

fun after_pattern :: "string \<Rightarrow> string \<Rightarrow> string option" where
  "after_pattern p [] = (if p = [] then Some [] else None)"
| "after_pattern p (c # cs) =
     (if take (length p) (c # cs) = p then Some (drop (length p) (c # cs)) else after_pattern p cs)"

text \<open>\<open>str::parse::<u64>\<close>.\<close>

definition parse_u64 :: "string \<Rightarrow> nat option" where
  "parse_u64 s =
     (let ds = (case s of c # r \<Rightarrow> if c = CHR ''+'' then r else s | [] \<Rightarrow> [])
      in if ds \<noteq> [] \<and> list_all is_digit ds \<and> read_nat ds < 2 ^ 64 then Some (read_nat ds) else None)"

definition extract_action_name :: "string \<Rightarrow> string \<times> bool" where
  "extract_action_name raw =
     (let name = trim_str raw;
          base = rev (dropWhile is_digit (rev name));
          suffix = rev (takeWhile is_digit (rev name));
          is_undo = (if suffix = [] then False
                     else if length suffix = 1 then suffix = ''1''
                     else hd suffix = CHR ''1'');
          canonical = (if base = ''firewall-drop'' then ''block_ip''
                       else if base = ''disable-account'' then ''disable_account''
                       else if base = ''host-deny'' then ''block_ip''
                       else underscored base)
      in (canonical, is_undo))"

definition no_params :: ActionParams where
  "no_params = \<lparr>ap_ip = None, ap_pid = None, ap_user = None, ap_timeout = 0, ap_extra = []\<rparr>"

abbreviation get_str :: "string \<Rightarrow> json \<Rightarrow> string option" where
  "get_str k v \<equiv> Option.bind (value_get k v) value_str"

abbreviation get_u64 :: "string \<Rightarrow> json \<Rightarrow> nat option" where
  "get_u64 k v \<equiv> Option.bind (value_get k v) value_u64"

text \<open>\<open>u32::try_from(v).ok()\<close>.\<close>

definition to_u32 :: "nat \<Rightarrow> nat option" where
  "to_u32 v = (if v < 2 ^ 32 then Some v else None)"

definition json_params :: "json \<Rightarrow> ActionParams" where
  "json_params p =
     (let alert_data = Option.bind (value_get ''alert'' p) (value_get ''data'');
          full_log = Option.bind (value_get ''alert'' p) (get_str ''full_log'');
          ip = or_else (Option.bind alert_data (get_str ''srcip'')) (get_str ''ip'' p);
          pid = Option.bind (get_u64 ''pid'' p) to_u32;
          user = or_else (get_str ''user'' p)
                   (Option.bind (Option.bind alert_data (\<lambda>d. or_else (value_get ''dstuser'' d) (value_get ''srcuser'' d))) value_str);
          timeout = (case get_u64 ''timeout'' p of Some t \<Rightarrow> t | None \<Rightarrow> 0);
          pat = (case Option.bind full_log (after_pattern ''kill_process_trigger '') of
                   Some r \<Rightarrow> trim_str r | None \<Rightarrow> [])
      in \<lparr>ap_ip = ip, ap_pid = pid, ap_user = user, ap_timeout = timeout,
          ap_extra = (if pat = [] then [] else [(''process_pattern'', pat)])\<rparr>)"

fun legacy_args :: "string list \<Rightarrow> ActionParams \<Rightarrow> ActionParams" where
  "legacy_args [] p = p"
| "legacy_args (arg # args) p =
     (if parse_ip arg \<noteq> None then legacy_args args (p\<lparr>ap_ip := Some arg\<rparr>)
      else case parse_u64 arg of
             Some t \<Rightarrow> legacy_args args (p\<lparr>ap_timeout := t\<rparr>)
           | None \<Rightarrow> legacy_args args (if ap_user p = None then p\<lparr>ap_user := Some arg\<rparr> else p))"

definition legacy_command :: "string \<Rightarrow> (string \<times> ActionParams \<times> bool) option" where
  "legacy_command s =
     (case split_whitespace s of
        [] \<Rightarrow> None
      | raw_action # rest \<Rightarrow>
          (case extract_action_name raw_action of (action, is_undo) \<Rightarrow>
             Some (action, legacy_args (filter (\<lambda>t. t \<noteq> ''-'') rest) no_params, is_undo)))"

definition parse_ar_command :: "(string \<Rightarrow> json option) \<Rightarrow> string \<Rightarrow> (string \<times> ActionParams \<times> bool) option" where
  "parse_ar_command json_parse payload =
     (let payload = trim_str payload;
          json_str = (if take 8 payload = ''#!-execd'' then trim_str (strip_prefixes CHR ''#'' ''!-execd'' payload) else payload)
      in case Option.bind (json_parse json_str) (\<lambda>v. map_option (\<lambda>c. (v, c)) (get_str ''command'' v)) of
           Some (v, command) \<Rightarrow>
             (case extract_action_name command of (action, is_undo) \<Rightarrow>
                Some (action, (case value_get ''parameters'' v of Some p \<Rightarrow> json_params p | None \<Rightarrow> no_params), is_undo))
         | None \<Rightarrow> legacy_command json_str)"

section \<open>The module\<close>

record ActiveResponseConfig =
  arc_timeout :: nat
  arc_actions :: "string list"

datatype ArEvent =
    ActiveResponseRequest string json
  | ServerCommand string string
  | OtherEvent

record ActiveResponseResult =
  rr_action :: string
  rr_success :: bool
  rr_output :: string

text \<open>A pending reversal: when it is due, and what it reverses.\<close>

record PendingUndo =
  pu_due :: nat
  pu_action :: string
  pu_params :: ActionParams

record 'os ArState =
  ar_host :: "'os Host"
  ar_results :: "ActiveResponseResult list"
  ar_acks :: "string list"
  ar_undos :: "PendingUndo list"

record ArSerde =
  ar_json_parse :: "string \<Rightarrow> json option"
  params_from_value :: "json \<Rightarrow> ActionParams option"

definition exec_timeout :: "ActiveResponseConfig \<Rightarrow> nat" where
  "exec_timeout cfg = (if arc_timeout cfg = 0 then 300 else arc_timeout cfg)"

text \<open>The fallback when the parameters of a request do not decode.\<close>

definition request_params :: "ArSerde \<Rightarrow> json \<Rightarrow> ActionParams" where
  "request_params sd p =
     (case params_from_value sd p of
        Some ps \<Rightarrow> ps
      | None \<Rightarrow> \<lparr>ap_ip = get_str ''ip'' p, ap_pid = Option.bind (get_u64 ''pid'' p) to_u32, ap_user = get_str ''user'' p,
                 ap_timeout = (case get_u64 ''timeout'' p of Some t \<Rightarrow> t | None \<Rightarrow> 0), ap_extra = []\<rparr>)"

definition ack_line :: "string \<Rightarrow> ActionResult \<Rightarrow> string" where
  "ack_line canonical_action result =
     (let stock_name = (if canonical_action = ''block_ip'' then ''firewall-drop''
                        else if canonical_action = ''disable_account'' then ''disable-account''
                        else canonical_action)
      in ''ar='' @ stock_name @ '' killed='' @ (if ar_success result then ''1'' else ''0''))"

definition schedule_undo :: "nat \<Rightarrow> string \<Rightarrow> ActionParams \<Rightarrow> 'os ArState \<Rightarrow> 'os ArState" where
  "schedule_undo now action params st =
     st\<lparr>ar_undos := ar_undos st @ [\<lparr>pu_due = now + ap_timeout params, pu_action = action, pu_params = params\<rparr>]\<rparr>"

definition publish_result :: "string \<Rightarrow> ActionResult \<Rightarrow> 'os ArState \<Rightarrow> 'os ArState" where
  "publish_result action result st =
     st\<lparr>ar_results := ar_results st @ [\<lparr>rr_action = action, rr_success = ar_success result, rr_output = ar_output result\<rparr>]\<rparr>"

text \<open>What an event asks for: the action, its parameters, whether it is a reversal, and whether an
  acknowledgement is due.\<close>

definition event_command :: "ArSerde \<Rightarrow> ArEvent \<Rightarrow> (string \<times> ActionParams \<times> bool \<times> bool) option" where
  "event_command sd ev =
     (case ev of
        ActiveResponseRequest action parameters \<Rightarrow> Some (action, request_params sd parameters, False, False)
      | ServerCommand command payload \<Rightarrow>
          if command = ''execd'' \<or> command = ''active-response'' \<or> str_contains payload ''#!-execd''
          then map_option (\<lambda>(action, params, is_undo). (action, params, is_undo, True)) (parse_ar_command (ar_json_parse sd) payload)
          else None
      | OtherEvent \<Rightarrow> None)"

definition handle_ar_event :: "'os ArEnv \<Rightarrow> ArSerde \<Rightarrow> ActiveResponseConfig \<Rightarrow> nat \<Rightarrow> ArEvent \<Rightarrow> 'os ArState \<Rightarrow> 'os ArState" where
  "handle_ar_event env sd cfg now ev st =
     (case event_command sd ev of
        None \<Rightarrow> st
      | Some (action, params, is_undo, from_server) \<Rightarrow>
          (let registry = registry_new (arc_actions cfg);
               (result, h) = (if is_undo then dispatch_undo env registry action params (exec_timeout cfg) (ar_host st)
                              else dispatch env registry action params (exec_timeout cfg) (ar_host st));
               st = st\<lparr>ar_host := h\<rparr>;
               st = (if from_server then st\<lparr>ar_acks := ar_acks st @ [ack_line action result]\<rparr> else st);
               st = publish_result action result st
           in if \<not> is_undo \<and> ar_success result \<and> ap_timeout params > 0 then schedule_undo now action params st else st))"

text \<open>The task of a scheduled reversal, once its sleep is over.\<close>

definition fire_undo :: "'os ArEnv \<Rightarrow> ActiveResponseConfig \<Rightarrow> PendingUndo \<Rightarrow> 'os ArState \<Rightarrow> 'os ArState" where
  "fire_undo env cfg pu st =
     (case dispatch_undo env (registry_new (arc_actions cfg)) (pu_action pu) (pu_params pu) (exec_timeout cfg) (ar_host st) of
        (result, h) \<Rightarrow> publish_result (''undo_'' @ pu_action pu) result (st\<lparr>ar_host := h\<rparr>))"

datatype ArInput = ArIn nat ArEvent | UndoDue nat nat

text \<open>The firing of a reversal that is not pending or not yet due does not happen.\<close>

fun ar_step :: "'os ArEnv \<Rightarrow> ArSerde \<Rightarrow> ActiveResponseConfig \<Rightarrow> ArInput \<Rightarrow> 'os ArState \<Rightarrow> 'os ArState" where
  "ar_step env sd cfg (ArIn now ev) st = handle_ar_event env sd cfg now ev st"
| "ar_step env sd cfg (UndoDue now i) st =
     (if i < length (ar_undos st) \<and> pu_due (ar_undos st ! i) \<le> now
      then fire_undo env cfg (ar_undos st ! i) (st\<lparr>ar_undos := take i (ar_undos st) @ drop (Suc i) (ar_undos st)\<rparr>)
      else st)"

primrec ar_run :: "'os ArEnv \<Rightarrow> ArSerde \<Rightarrow> ActiveResponseConfig \<Rightarrow> ArInput list \<Rightarrow> 'os ArState \<Rightarrow> 'os ArState" where
  "ar_run env sd cfg [] st = st"
| "ar_run env sd cfg (x # xs) st = ar_run env sd cfg xs (ar_step env sd cfg x st)"

section \<open>Only guarded commands\<close>

lemma handle_ar_event_runs: "runs (guarded env (arc_actions cfg)) (ar_host st) (ar_host (handle_ar_event env sd cfg now ev st))"
  by (auto simp: handle_ar_event_def schedule_undo_def publish_result_def Let_def case_prod_beta dispatch_runs split: option.split)

lemma ar_step_runs: "runs (guarded env (arc_actions cfg)) (ar_host st) (ar_host (ar_step env sd cfg x st))"
proof (cases x)
  case (UndoDue now i)
  then show ?thesis by (simp add: fire_undo_def publish_result_def case_prod_beta dispatch_runs)
qed (simp add: handle_ar_event_runs)


section \<open>Temporary blocks are lifted\<close>

definition succeeded :: "CommandOutcome \<Rightarrow> bool" where
  "succeeded oc \<longleftrightarrow> (case oc of Exited code _ _ \<Rightarrow> code = Some 0 | _ \<Rightarrow> False)"

abbreviation iptables_program :: "string \<Rightarrow> bool" where
  "iptables_program p \<equiv> p = ''iptables'' \<or> p = ''ip6tables''"

text \<open>What the firewall tools do to the rules of the \<open>INPUT\<close> chain, when no command is cut off: an
  insertion adds a rule, a deletion removes one that is there, a command that fails changes
  nothing, and other programs leave the chain alone.\<close>

definition firewall_laws :: "'os ArEnv \<Rightarrow> ('os \<Rightarrow> (string \<times> string) multiset) \<Rightarrow> bool" where
  "firewall_laws env chain \<longleftrightarrow> (\<forall>p args t d os oc os'. spawn env p args t d os = (oc, os') \<longrightarrow>
     (\<not> iptables_program p \<or> \<not> succeeded oc \<longrightarrow> chain os' = chain os) \<and>
     (\<forall>addr. iptables_program p \<and> succeeded oc \<and> args = iptables_args ''-I'' addr \<longrightarrow> chain os' = add_mset (p, addr) (chain os)) \<and>
     (\<forall>addr. iptables_program p \<and> succeeded oc \<and> args = iptables_args ''-D'' addr \<longrightarrow> chain os = add_mset (p, addr) (chain os')))"

abbreviation chain_of :: "('os \<Rightarrow> (string \<times> string) multiset) \<Rightarrow> 'os ArState \<Rightarrow> (string \<times> string) multiset" where
  "chain_of chain st \<equiv> chain (host_os (ar_host st))"

definition rule_key :: "string \<Rightarrow> string \<times> string" where
  "rule_key ip = ((if is_ipv6 ip then ''ip6tables'' else ''iptables''), strip_zone_id ip)"

definition key_of :: "ActionParams \<Rightarrow> (string \<times> string) multiset" where
  "key_of p = (case ap_ip p of Some ip \<Rightarrow> {#rule_key ip#} | None \<Rightarrow> {#})"

lemma execute_outcome:
  "er_success (fst (execute_command env p args t d h)) = succeeded (fst (spawn env p args t d (host_os h)))"
  "host_os (snd (execute_command env p args t d h)) = snd (spawn env p args t d (host_os h))"
  by (simp_all add: execute_command_def Let_def timeout_result_def succeeded_def split: prod.split CommandOutcome.split)

lemma firewall_lawsD:
  assumes "firewall_laws env chain"
  defines "h' \<equiv> \<lambda>p args t d h. snd (execute_command env p args t d h)"
    and "ok \<equiv> \<lambda>p args t d h. er_success (fst (execute_command env p args t d h))"
  shows "\<not> iptables_program p \<or> \<not> ok p args t d h \<Longrightarrow> chain (host_os (h' p args t d h)) = chain (host_os h)"
    "iptables_program p \<Longrightarrow> ok p (iptables_args ''-I'' addr) t d h \<Longrightarrow>
       chain (host_os (h' p (iptables_args ''-I'' addr) t d h)) = add_mset (p, addr) (chain (host_os h))"
    "iptables_program p \<Longrightarrow> ok p (iptables_args ''-D'' addr) t d h \<Longrightarrow>
       chain (host_os h) = add_mset (p, addr) (chain (host_os (h' p (iptables_args ''-D'' addr) t d h)))"
proof -
  have law: "(\<not> iptables_program p \<or> \<not> ok p args t d h \<longrightarrow> chain (host_os (h' p args t d h)) = chain (host_os h)) \<and>
     (\<forall>addr. iptables_program p \<and> ok p args t d h \<and> args = iptables_args ''-I'' addr \<longrightarrow>
        chain (host_os (h' p args t d h)) = add_mset (p, addr) (chain (host_os h))) \<and>
     (\<forall>addr. iptables_program p \<and> ok p args t d h \<and> args = iptables_args ''-D'' addr \<longrightarrow>
        chain (host_os h) = add_mset (p, addr) (chain (host_os (h' p args t d h))))" for args
    using assms(1) [unfolded firewall_laws_def, rule_format, of p args t d "host_os h", OF prod.collapse [symmetric]]
    unfolding h'_def ok_def execute_outcome by blast
  show "\<not> iptables_program p \<or> \<not> ok p args t d h \<Longrightarrow> chain (host_os (h' p args t d h)) = chain (host_os h)"
    using law by blast
  show "iptables_program p \<Longrightarrow> ok p (iptables_args ''-I'' addr) t d h \<Longrightarrow>
       chain (host_os (h' p (iptables_args ''-I'' addr) t d h)) = add_mset (p, addr) (chain (host_os h))" using law by blast
  show "iptables_program p \<Longrightarrow> ok p (iptables_args ''-D'' addr) t d h \<Longrightarrow>
       chain (host_os h) = add_mset (p, addr) (chain (host_os (h' p (iptables_args ''-D'' addr) t d h)))" using law by blast
qed

lemma firewall_execute_chain:
  assumes "firewall_laws env chain"
  shows "chain (host_os (snd (firewall_execute env params t h))) =
    chain (host_os h) + (if ar_success (fst (firewall_execute env params t h)) then key_of params else {#})"
  using firewall_lawsD(1,2) [OF assms]
  by (auto simp: firewall_execute_def platform_block_ip_def Let_def case_prod_beta ar_err_def ar_ok_def key_of_def rule_key_def
      split: option.split)

lemma firewall_undo_chain:
  assumes "firewall_laws env chain"
  shows "chain (host_os h) = chain (host_os (snd (firewall_undo env params t h))) +
    (if ar_success (fst (firewall_undo env params t h)) then key_of params else {#})"
  using firewall_lawsD(1,3) [OF assms]
  by (auto simp: firewall_undo_def platform_unblock_ip_def Let_def case_prod_beta ar_err_def ar_ok_def key_of_def rule_key_def
      split: option.split)

text \<open>Whether an action name reaches the firewall action, and what other actions do to the chain.\<close>

definition blocks :: "ActiveResponseConfig \<Rightarrow> string \<Rightarrow> bool" where
  "blocks cfg action \<longleftrightarrow> find_action (registry_new (arc_actions cfg)) action = Some FirewallDrop"

lemma other_actions_chain:
  assumes "firewall_laws env chain"
  shows "chain (host_os (snd (kill_execute env params t h))) = chain (host_os h)"
    "chain (host_os (snd (disable_execute env params t h))) = chain (host_os h)"
    "chain (host_os (snd (disable_undo env params t h))) = chain (host_os h)"
  using firewall_lawsD(1) [OF assms]
  by (auto simp: kill_execute_def platform_kill_def platform_pkill_def disable_execute_def disable_undo_def
      platform_disable_account_def platform_enable_account_def Let_def case_prod_beta split: option.split)

lemma dispatch_chain:
  assumes "firewall_laws env chain"
  shows "chain (host_os (snd (dispatch env (registry_new (arc_actions cfg)) a params t h))) = chain (host_os h) +
      (if blocks cfg a \<and> ar_success (fst (dispatch env (registry_new (arc_actions cfg)) a params t h)) then key_of params else {#})"
    "chain (host_os h) = chain (host_os (snd (dispatch_undo env (registry_new (arc_actions cfg)) a params t h))) +
      (if blocks cfg a \<and> ar_success (fst (dispatch_undo env (registry_new (arc_actions cfg)) a params t h)) then key_of params else {#})"
  using firewall_execute_chain [OF assms, of params t h] firewall_undo_chain [OF assms, of h params t] other_actions_chain [OF assms, of params t h]
  by (auto simp: dispatch_def dispatch_undo_def action_execute_def action_undo_def kill_undo_def blocks_def
      split: option.split ResponseAction.split)

text \<open>The rules the pending reversals will delete, and the rules an input leaves in place for good: a
  block without a time limit, and a block whose reversal failed.\<close>

definition pending_rules :: "ActiveResponseConfig \<Rightarrow> PendingUndo list \<Rightarrow> (string \<times> string) multiset" where
  "pending_rules cfg us = sum_list (map (\<lambda>u. if blocks cfg (pu_action u) then key_of (pu_params u) else {#}) us)"

fun stays :: "'os ArEnv \<Rightarrow> ArSerde \<Rightarrow> ActiveResponseConfig \<Rightarrow> ArInput \<Rightarrow> 'os ArState \<Rightarrow> (string \<times> string) multiset" where
  "stays env sd cfg (ArIn now ev) st =
     (case event_command sd ev of
        Some (action, params, False, _) \<Rightarrow>
          if blocks cfg action \<and> ap_timeout params = 0 \<and>
             ar_success (fst (dispatch env (registry_new (arc_actions cfg)) action params (exec_timeout cfg) (ar_host st)))
          then key_of params else {#}
      | _ \<Rightarrow> {#})"
| "stays env sd cfg (UndoDue now i) st =
     (if i < length (ar_undos st) \<and> pu_due (ar_undos st ! i) \<le> now \<and> blocks cfg (pu_action (ar_undos st ! i)) \<and>
         \<not> ar_success (fst (dispatch_undo env (registry_new (arc_actions cfg)) (pu_action (ar_undos st ! i))
             (pu_params (ar_undos st ! i)) (exec_timeout cfg) (ar_host st)))
      then key_of (pu_params (ar_undos st ! i)) else {#})"

primrec stays_all :: "'os ArEnv \<Rightarrow> ArSerde \<Rightarrow> ActiveResponseConfig \<Rightarrow> ArInput list \<Rightarrow> 'os ArState \<Rightarrow> (string \<times> string) multiset" where
  "stays_all env sd cfg [] st = {#}"
| "stays_all env sd cfg (x # xs) st = stays env sd cfg x st + stays_all env sd cfg xs (ar_step env sd cfg x st)"

text \<open>Reversals ordered by the manager itself.\<close>

definition rollback :: "ArSerde \<Rightarrow> ArInput \<Rightarrow> bool" where
  "rollback sd x = (case x of ArIn now ev \<Rightarrow> (case event_command sd ev of Some (_, _, is_undo, _) \<Rightarrow> is_undo | None \<Rightarrow> False)
     | UndoDue _ _ \<Rightarrow> False)"

lemma pending_rules_simps [simp]:
  "pending_rules cfg [] = {#}"
  "pending_rules cfg (us @ vs) = pending_rules cfg us + pending_rules cfg vs"
  "pending_rules cfg [u] = (if blocks cfg (pu_action u) then key_of (pu_params u) else {#})"
  by (simp_all add: pending_rules_def)

lemma pending_rules_remove:
  "i < length us \<Longrightarrow> pending_rules cfg us =
     pending_rules cfg (take i us @ drop (Suc i) us) + (if blocks cfg (pu_action (us ! i)) then key_of (pu_params (us ! i)) else {#})"
  using arg_cong [OF id_take_nth_drop [of i us], of "pending_rules cfg"]
  by (simp add: pending_rules_def)

lemma ar_event_chain:
  assumes "firewall_laws env chain" "\<not> rollback sd (ArIn now ev)"
  shows "chain_of chain (ar_step env sd cfg (ArIn now ev) st) + pending_rules cfg (ar_undos st) =
    chain_of chain st + stays env sd cfg (ArIn now ev) st + pending_rules cfg (ar_undos (ar_step env sd cfg (ArIn now ev) st))"
proof (cases "event_command sd ev")
  case (Some c)
  obtain a p u s where c: "c = (a, p, u, s)" by (cases c) auto
  have u: "\<not> u" using assms(2) Some c by (simp add: rollback_def)
  have d: "chain (host_os (snd (dispatch env (registry_new (arc_actions cfg)) a p (exec_timeout cfg) (ar_host st)))) = chain_of chain st +
      (if blocks cfg a \<and> ar_success (fst (dispatch env (registry_new (arc_actions cfg)) a p (exec_timeout cfg) (ar_host st))) then key_of p else {#})"
    by (rule dispatch_chain(1) [OF assms(1)])
  show ?thesis using u by (simp add: handle_ar_event_def Some c Let_def case_prod_beta publish_result_def schedule_undo_def d)
qed (simp add: handle_ar_event_def)

lemma ar_undo_chain:
  assumes "firewall_laws env chain"
  shows "chain_of chain (ar_step env sd cfg (UndoDue now i) st) + pending_rules cfg (ar_undos st) =
    chain_of chain st + stays env sd cfg (UndoDue now i) st + pending_rules cfg (ar_undos (ar_step env sd cfg (UndoDue now i) st))"
proof (cases "i < length (ar_undos st) \<and> pu_due (ar_undos st ! i) \<le> now")
  case True
  let ?u = "ar_undos st ! i"
  note p = pending_rules_remove [of i "ar_undos st" cfg]
  have d: "chain_of chain st = chain (host_os (snd (dispatch_undo env (registry_new (arc_actions cfg)) (pu_action ?u) (pu_params ?u) (exec_timeout cfg) (ar_host st)))) +
      (if blocks cfg (pu_action ?u) \<and> ar_success (fst (dispatch_undo env (registry_new (arc_actions cfg)) (pu_action ?u) (pu_params ?u) (exec_timeout cfg) (ar_host st)))
       then key_of (pu_params ?u) else {#})"
    by (rule dispatch_chain(2) [OF assms])
  show ?thesis using True p by (simp add: fire_undo_def case_prod_beta publish_result_def d ac_simps)
qed auto

lemma balance_trans:
  fixes a :: "'a multiset"
  assumes "b + p = a + s + q" "c + q = b + u + r"
  shows "c + p = a + (s + u) + r"
proof -
  have "(c + q) + p = (b + p) + (u + r)" unfolding assms(2) by (simp add: ac_simps)
  also have "\<dots> = (a + (s + u) + r) + q" unfolding assms(1) by (simp add: ac_simps)
  finally have "(c + p) + q = (a + (s + u) + r) + q" by (simp add: ac_simps)
  then show ?thesis by simp
qed

lemma ar_run_chain:
  assumes "firewall_laws env chain"
  shows "\<forall>x\<in>set xs. \<not> rollback sd x \<Longrightarrow>
    chain_of chain (ar_run env sd cfg xs st) + pending_rules cfg (ar_undos st) =
    chain_of chain st + stays_all env sd cfg xs st + pending_rules cfg (ar_undos (ar_run env sd cfg xs st))"
proof (induction xs arbitrary: st)
  case (Cons x xs)
  let ?s = "ar_step env sd cfg x st"
  have "chain_of chain ?s + pending_rules cfg (ar_undos st) = chain_of chain st + stays env sd cfg x st + pending_rules cfg (ar_undos ?s)"
    using ar_event_chain [OF assms] ar_undo_chain [OF assms] Cons.prems by (cases x) auto
  moreover have "chain_of chain (ar_run env sd cfg xs ?s) + pending_rules cfg (ar_undos ?s) =
      chain_of chain ?s + stays_all env sd cfg xs ?s + pending_rules cfg (ar_undos (ar_run env sd cfg xs ?s))"
    using Cons.prems by (intro Cons.IH) simp
  ultimately show ?case unfolding ar_run.simps stays_all.simps by (rule balance_trans)
qed simp


text \<open>A host whose state is its list of firewall rules, for evaluation.\<close>

definition sample_spawn :: "string \<Rightarrow> string list \<Rightarrow> nat \<Rightarrow> bool \<Rightarrow> (string \<times> string) list \<Rightarrow> CommandOutcome \<times> (string \<times> string) list" where
  "sample_spawn p args t d rs =
     (if iptables_program p \<and> length args = 6 \<and> args = iptables_args ''-I'' (args ! 3) then (Exited (Some 0) [] [], (p, args ! 3) # rs)
      else if iptables_program p \<and> length args = 6 \<and> args = iptables_args ''-D'' (args ! 3)
      then if (p, args ! 3) \<in> set rs then (Exited (Some 0) [] [], remove1 (p, args ! 3) rs) else (Exited (Some 1) [] [], rs)
      else (Exited (Some 1) [] [], rs))"

definition sample_host :: "(string \<times> string) list ArEnv" where
  "sample_host = \<lparr>spawn = sample_spawn, utf8_lossy = (\<lambda>b. b), unicode_alphanumeric = (\<lambda>v. False)\<rparr>"

definition sample_ar_serde :: ArSerde where
  "sample_ar_serde = \<lparr>ar_json_parse = (\<lambda>s. None), params_from_value = (\<lambda>v. None)\<rparr>"

definition sample_ar_cfg :: ActiveResponseConfig where
  "sample_ar_cfg = \<lparr>arc_timeout = 0, arc_actions = [''block_ip'']\<rparr>"

definition ar_idle :: "'os \<Rightarrow> 'os ArState" where
  "ar_idle os = \<lparr>ar_host = \<lparr>host_os = os, spawned = []\<rparr>, ar_results = [], ar_acks = [], ar_undos = []\<rparr>"

lemma sample_host_laws: "firewall_laws sample_host mset"
  by (auto simp: firewall_laws_def sample_host_def sample_spawn_def iptables_args_def succeeded_def split: if_splits)

text \<open>A permanent and a temporary block, the second lifted when its minute is over.\<close>

definition sample_inputs :: "ArInput list" where
  "sample_inputs = [ArIn 0 (ActiveResponseRequest ''firewall-drop'' (JObject [(''ip'', JString ''10.0.0.1'')])),
     ArIn 5 (ActiveResponseRequest ''block-ip'' (JObject [(''ip'', JString ''10.0.0.2''), (''timeout'', JNumber (PosInt 60))])),
     UndoDue 65 0]"


text \<open>The flag of a command is not always told apart from its time limit: a block for two minutes
  whose flag the manager leaves out is read as a reversal.\<close>

lemma two_minute_block_read_as_undo: "extract_action_name ''firewall-drop120'' = (''block_ip'', True)"
  by code_simp

text \<open>A user name may start with a hyphen, which \<open>passwd\<close> reads as an option.\<close>

lemma option_accepted_as_username: "is_valid_username env ''-d''" "\<not> protected_account ''-d''"
proof -
  have "utf8_chars ''-d'' = [''-'', ''d'']" by code_simp
  then show "is_valid_username env ''-d''" by (simp add: is_valid_username_def alphanumeric_def)
qed code_simp

end
