(* ===== verification/LdeQueue.thy ===== *)
theory LdeQueue
  imports Utf8 "HOL-Library.Multiset"
begin

text \<open>
  Delivery of local detections: the event bus's server-bound publication
  (\<open>sda-event-bus/src/bus.rs\<close>), the persistent offline queue
  (\<open>sda-local-detection/src/offline_queue.rs\<close>) and the two functions of \<open>sda-local-detection/src/lib.rs\<close>
  that use them, spooling and replay.

  The queue is the table of the source with its statements read by the meaning SQL gives them: an
  insertion takes the next identifier of the AUTOINCREMENT column, a selection is ordered by
  identifier and limited, a deletion filters. Whether a statement succeeds is an argument; the
  statements are not in a transaction. Serialisation of an event is a parameter.
\<close>

section \<open>The offline queue\<close>

record QueuedDetection =
  qd_id :: nat
  qd_enqueued_at :: int
  qd_payload :: string

record OfflineQueue =
  q_rows :: "QueuedDetection list"
  q_next :: nat
  q_capacity :: nat

definition queue_open :: "QueuedDetection list \<Rightarrow> nat \<Rightarrow> nat \<Rightarrow> OfflineQueue" where
  "queue_open rows nxt capacity = \<lparr>q_rows = rows, q_next = nxt, q_capacity = max capacity 1\<rparr>"

text \<open>\<open>SELECT ... ORDER BY id ASC LIMIT n\<close>.\<close>

definition select_front :: "nat \<Rightarrow> OfflineQueue \<Rightarrow> QueuedDetection list" where
  "select_front n q = take n (sort_key qd_id (q_rows q))"

text \<open>\<open>INSERT INTO detection_queue ...\<close>.\<close>

definition insert_row :: "OfflineQueue \<Rightarrow> string \<Rightarrow> int \<Rightarrow> OfflineQueue" where
  "insert_row q payload ts_secs =
     q\<lparr>q_rows := q_rows q @ [\<lparr>qd_id = q_next q, qd_enqueued_at = ts_secs, qd_payload = payload\<rparr>], q_next := q_next q + 1\<rparr>"

text \<open>Whether the insertion, the count and the deletion of one \<open>enqueue_at\<close> succeed.\<close>

record EnqueueFaults =
  insert_ok :: bool
  count_ok :: bool
  evict_ok :: bool

definition enqueue_at :: "EnqueueFaults \<Rightarrow> OfflineQueue \<Rightarrow> string \<Rightarrow> int \<Rightarrow> (unit, string) result \<times> OfflineQueue" where
  "enqueue_at fl q payload ts_secs =
     (if \<not> insert_ok fl then (Err ''insert'', q)
      else let q1 = insert_row q payload ts_secs
           in if \<not> count_ok fl then (Err ''count'', q1)
              else let count = length (q_rows q1)
                   in if count > q_capacity q1
                      then let to_drop = count - q_capacity q1;
                               victims = map qd_id (select_front to_drop q1)
                           in if \<not> evict_ok fl then (Err ''delete'', q1)
                              else (Ok (), q1\<lparr>q_rows := filter (\<lambda>r. qd_id r \<notin> set victims) (q_rows q1)\<rparr>)
                      else (Ok (), q1))"

definition peek_batch :: "OfflineQueue \<Rightarrow> nat \<Rightarrow> QueuedDetection list" where
  "peek_batch q n = select_front n q"

definition queue_ack :: "OfflineQueue \<Rightarrow> nat \<Rightarrow> OfflineQueue" where
  "queue_ack q i = q\<lparr>q_rows := filter (\<lambda>r. qd_id r \<noteq> i) (q_rows q)\<rparr>"

definition queue_drain :: "OfflineQueue \<Rightarrow> nat \<Rightarrow> QueuedDetection list \<times> OfflineQueue" where
  "queue_drain q n =
     (let rows = select_front n q
      in if rows = [] then (rows, q)
         else let max_id = Max (set (map qd_id rows))
              in (rows, q\<lparr>q_rows := filter (\<lambda>r. \<not> qd_id r \<le> max_id) (q_rows q)\<rparr>))"

section \<open>Publication and replay\<close>

text \<open>What \<open>try_send\<close> on the bounded server channel answers.\<close>

datatype TrySend = Queued | ServerGone | ServerFull

datatype EventBusError = ChannelFull | Closed

record 'e Bus =
  server_queue :: "'e list"
  broadcasts :: "'e list"

definition publish_to_server :: "TrySend \<Rightarrow> 'e \<Rightarrow> 'e Bus \<Rightarrow> (unit, EventBusError) result \<times> 'e Bus" where
  "publish_to_server answer ev bus =
     (let server_result = (case answer of Queued \<Rightarrow> Ok () | ServerGone \<Rightarrow> Ok () | ServerFull \<Rightarrow> Err ChannelFull);
          bus = (if answer = Queued then bus\<lparr>server_queue := server_queue bus @ [ev]\<rparr> else bus)
      in (server_result, bus\<lparr>broadcasts := broadcasts bus @ [ev]\<rparr>))"

text \<open>\<open>serde_json\<close> for the event kind.\<close>

record 'e EventCodec =
  kind_to_json :: "'e \<Rightarrow> string option"
  kind_from_json :: "string \<Rightarrow> 'e option"

definition publish_alert :: "'e EventCodec \<Rightarrow> TrySend \<Rightarrow> EnqueueFaults \<Rightarrow> int \<Rightarrow> 'e \<Rightarrow> 'e Bus \<times> OfflineQueue \<Rightarrow> 'e Bus \<times> OfflineQueue" where
  "publish_alert cd answer fl now kind = (\<lambda>(bus, q).
     case publish_to_server answer kind bus of
       (Ok _, bus) \<Rightarrow> (bus, q)
     | (Err _, bus) \<Rightarrow>
         (case kind_to_json cd kind of
            Some payload \<Rightarrow> (bus, snd (enqueue_at fl q payload now))
          | None \<Rightarrow> (bus, q)))"

text \<open>The loop of \<open>drain_offline_queue\<close>: \<open>answers\<close> and \<open>ack_ok\<close> say, for the row with an identifier, what
  the server channel answers and whether the deletion succeeds.\<close>

fun drain_loop :: "'e EventCodec \<Rightarrow> (nat \<Rightarrow> TrySend) \<Rightarrow> (nat \<Rightarrow> bool) \<Rightarrow> QueuedDetection list \<Rightarrow> 'e Bus \<times> OfflineQueue \<Rightarrow> 'e Bus \<times> OfflineQueue" where
  "drain_loop cd answers ack_ok [] s = s"
| "drain_loop cd answers ack_ok (item # items) (bus, q) =
     (let acked = (if ack_ok (qd_id item) then queue_ack q (qd_id item) else q)
      in case kind_from_json cd (qd_payload item) of
           None \<Rightarrow> drain_loop cd answers ack_ok items (bus, acked)
         | Some kind \<Rightarrow>
             (case publish_to_server (answers (qd_id item)) kind bus of
                (Err _, bus) \<Rightarrow> (bus, q)
              | (Ok _, bus) \<Rightarrow> drain_loop cd answers ack_ok items (bus, acked)))"

definition drain_offline_queue :: "'e EventCodec \<Rightarrow> (nat \<Rightarrow> TrySend) \<Rightarrow> (nat \<Rightarrow> bool) \<Rightarrow> bool \<Rightarrow> nat \<Rightarrow> 'e Bus \<times> OfflineQueue \<Rightarrow> 'e Bus \<times> OfflineQueue" where
  "drain_offline_queue cd answers ack_ok peek_ok batch = (\<lambda>(bus, q).
     if \<not> peek_ok then (bus, q) else drain_loop cd answers ack_ok (peek_batch q batch) (bus, q))"

section \<open>The queue is a bounded FIFO\<close>

text \<open>Identifiers increase along the table and stay below the next one.\<close>

definition queue_inv :: "OfflineQueue \<Rightarrow> bool" where
  "queue_inv q \<longleftrightarrow> sorted_wrt (<) (map qd_id (q_rows q)) \<and> (\<forall>r\<in>set (q_rows q). qd_id r < q_next q) \<and> 1 \<le> q_capacity q"

abbreviation payloads :: "OfflineQueue \<Rightarrow> string list" where
  "payloads q \<equiv> map qd_payload (q_rows q)"

lemma sorted_rows: "queue_inv q \<Longrightarrow> sort_key qd_id (q_rows q) = q_rows q"
  unfolding queue_inv_def by (intro sort_key_id_if_sorted) (metis strict_sorted_imp_sorted)

lemma select_front_take: "queue_inv q \<Longrightarrow> select_front n q = take n (q_rows q)"
  by (simp add: select_front_def sorted_rows)

lemma filter_not_take:
  "distinct (map f xs) \<Longrightarrow> filter (\<lambda>x. f x \<notin> set (map f (take n xs))) xs = drop n xs"
proof (induction xs arbitrary: n)
  case (Cons x xs)
  show ?case
  proof (cases n)
    case (Suc m)
    have "f y \<noteq> f x" if "y \<in> set xs" for y using Cons.prems that by (auto simp: image_iff)
    then have "filter (\<lambda>y. f y \<notin> set (map f (take n (x # xs)))) xs = filter (\<lambda>y. f y \<notin> set (map f (take m xs))) xs"
      unfolding Suc by (intro filter_cong) auto
    also have "\<dots> = drop m xs" using Cons.prems by (intro Cons.IH) simp
    finally show ?thesis by (simp add: Suc)
  qed simp
qed simp

lemma queue_inv_distinct: "queue_inv q \<Longrightarrow> distinct (map qd_id (q_rows q))"
  unfolding queue_inv_def by (simp add: strict_sorted_iff)

lemma queue_inv_filter: "queue_inv q \<Longrightarrow> queue_inv (q\<lparr>q_rows := filter P (q_rows q)\<rparr>)"
  unfolding queue_inv_def by (auto simp: sorted_wrt_map sorted_wrt_filter)

lemma insert_row_rows [simp]:
  "q_rows (insert_row q p t) = q_rows q @ [\<lparr>qd_id = q_next q, qd_enqueued_at = t, qd_payload = p\<rparr>]"
  "q_capacity (insert_row q p t) = q_capacity q"
  by (simp_all add: insert_row_def)

lemma queue_inv_insert: "queue_inv q \<Longrightarrow> queue_inv (insert_row q p t)"
  unfolding queue_inv_def insert_row_def by (auto simp: sorted_wrt_append)

lemma enqueue_at_inv:
  assumes "queue_inv q"
  shows "queue_inv (snd (enqueue_at fl q p t))"
  unfolding enqueue_at_def Let_def
  by (simp del: insert_row_rows add: queue_inv_insert [OF assms] queue_inv_filter [OF queue_inv_insert [OF assms]] assms)

lemma queue_drain_rows:
  assumes "queue_inv q"
  shows "q_rows (snd (queue_drain q n)) = drop n (q_rows q)"
proof (cases "take n (q_rows q) = []")
  case True
  then have "drop n (q_rows q) = q_rows q" by (metis append_Nil append_take_drop_id)
  with True show ?thesis by (simp add: queue_drain_def Let_def select_front_take [OF assms])
next
  case False
  let ?t = "take n (q_rows q)" and ?d = "drop n (q_rows q)"
  let ?m = "Max (set (map qd_id ?t))"
  have "sorted_wrt (<) (map qd_id (?t @ ?d))" using assms unfolding queue_inv_def append_take_drop_id by blast
  then have lt: "qd_id a < qd_id b" if "a \<in> set ?t" "b \<in> set ?d" for a b
    using that unfolding map_append sorted_wrt_append by auto
  have "?m \<in> set (map qd_id ?t)" using False by (intro Max_in) simp_all
  then obtain a where a: "a \<in> set ?t" "qd_id a = ?m" by auto
  have "filter (\<lambda>r. \<not> qd_id r \<le> ?m) ?d = ?d"
    using lt [OF a(1)] unfolding a(2) by (intro filter_True) (simp add: not_le)
  moreover have "filter (\<lambda>r. \<not> qd_id r \<le> ?m) ?t = []" by (simp add: filter_empty_conv)
  ultimately have "filter (\<lambda>r. \<not> qd_id r \<le> ?m) (?t @ ?d) = ?d" unfolding filter_append by simp
  then have "filter (\<lambda>r. \<not> qd_id r \<le> ?m) (q_rows q) = ?d" unfolding append_take_drop_id .
  with False show ?thesis by (simp add: queue_drain_def Let_def select_front_take [OF assms])
qed

text \<open>
  The offline queue is a bounded FIFO: a successful enqueue appends the payload and keeps the
  newest \<open>capacity\<close> entries, dropping from the front whatever exceeds it (also what an earlier failed
  eviction left behind); peeking gives the oldest entries and a drain removes exactly those it returns.
\<close>

theorem queue_refines_fifo:
  assumes "queue_inv q"
  shows "(fst (enqueue_at fl q p t) = Ok () \<longrightarrow>
      payloads (snd (enqueue_at fl q p t)) = drop (length (q_rows q) + 1 - q_capacity q) (payloads q @ [p]) \<and>
      length (q_rows (snd (enqueue_at fl q p t))) \<le> q_capacity q) \<and>
    map qd_payload (peek_batch q n) = take n (payloads q) \<and>
    map qd_payload (fst (queue_drain q n)) = take n (payloads q) \<and>
    payloads (snd (queue_drain q n)) = drop n (payloads q)"
proof (intro conjI impI)
  let ?row = "\<lparr>qd_id = q_next q, qd_enqueued_at = t, qd_payload = p\<rparr>"
  let ?q1 = "insert_row q p t" and ?k = "length (q_rows q) + 1 - q_capacity q"
  have inv1: "queue_inv ?q1" by (rule queue_inv_insert [OF assms])
  have evict: "filter (\<lambda>r. qd_id r \<notin> set (map qd_id (select_front ?k ?q1))) (q_rows ?q1) = drop ?k (q_rows ?q1)"
    unfolding select_front_take [OF inv1] by (rule filter_not_take [OF queue_inv_distinct [OF inv1]])
  assume ok: "fst (enqueue_at fl q p t) = Ok ()"
  have rows: "q_rows (snd (enqueue_at fl q p t)) = drop ?k (q_rows q @ [?row])"
  proof (cases "length (q_rows q) + 1 > q_capacity q")
    case True
    with ok have "q_rows (snd (enqueue_at fl q p t)) = filter (\<lambda>r. qd_id r \<notin> set (map qd_id (select_front ?k ?q1))) (q_rows ?q1)"
      unfolding enqueue_at_def Let_def by (simp split: if_splits)
    then show ?thesis unfolding evict by simp
  next
    case False
    with ok show ?thesis unfolding enqueue_at_def Let_def by (simp split: if_splits)
  qed
  show "payloads (snd (enqueue_at fl q p t)) = drop ?k (payloads q @ [p])"
    unfolding rows by (simp only: drop_map [symmetric] map_append list.map QueuedDetection.select_convs)
  show "length (q_rows (snd (enqueue_at fl q p t))) \<le> q_capacity q" unfolding rows by simp
next
  show "map qd_payload (peek_batch q n) = take n (payloads q)"
    by (simp add: peek_batch_def select_front_take [OF assms] take_map)
  show "map qd_payload (fst (queue_drain q n)) = take n (payloads q)"
    by (simp add: queue_drain_def Let_def select_front_take [OF assms] take_map)
  show "payloads (snd (queue_drain q n)) = drop n (payloads q)"
    by (simp add: queue_drain_rows [OF assms] drop_map)
qed

text \<open>The newest capacity entries of a concrete full queue, and the front of it.\<close>

theorem queue_refines_fifo_witness:
  "payloads (snd (enqueue_at \<lparr>insert_ok = True, count_ok = True, evict_ok = True\<rparr>
     (queue_open [\<lparr>qd_id = 1, qd_enqueued_at = 0, qd_payload = ''a''\<rparr>, \<lparr>qd_id = 2, qd_enqueued_at = 0, qd_payload = ''b''\<rparr>] 3 2) ''c'' 5))
   = [''b'', ''c'']"
proof -
  let ?q = "queue_open [\<lparr>qd_id = 1, qd_enqueued_at = 0, qd_payload = ''a''\<rparr>, \<lparr>qd_id = 2, qd_enqueued_at = 0, qd_payload = ''b''\<rparr>] 3 2"
  let ?fl = "\<lparr>insert_ok = True, count_ok = True, evict_ok = True\<rparr>"
  have inv: "queue_inv ?q" by (simp add: queue_inv_def queue_open_def)
  have ok: "fst (enqueue_at ?fl ?q ''c'' 5) = Ok ()" by (simp add: enqueue_at_def Let_def)
  have "payloads (snd (enqueue_at ?fl ?q ''c'' 5)) = drop (length (q_rows ?q) + 1 - q_capacity ?q) (payloads ?q @ [''c''])"
    using queue_refines_fifo [OF inv, of ?fl "''c''" 5 0] ok by blast
  then show ?thesis by (simp add: queue_open_def)
qed

section \<open>No detection is lost\<close>

text \<open>One step of the engine that touches the queue: an alert, or a tick of the drain timer.\<close>

datatype 'e LdeOp =
    Alert (alert_kind: 'e) (alert_answer: TrySend) (alert_faults: EnqueueFaults) (alert_time: int)
  | DrainTick (tick_answers: "nat \<Rightarrow> TrySend") (tick_acks: "nat \<Rightarrow> bool") bool nat

fun lde_op :: "'e EventCodec \<Rightarrow> 'e LdeOp \<Rightarrow> 'e Bus \<times> OfflineQueue \<Rightarrow> 'e Bus \<times> OfflineQueue" where
  "lde_op cd (Alert kind answer fl now) s = publish_alert cd answer fl now kind s"
| "lde_op cd (DrainTick answers ack_ok peek_ok batch) s = drain_offline_queue cd answers ack_ok peek_ok batch s"

definition raised :: "'e LdeOp list \<Rightarrow> 'e list" where
  "raised ops = map alert_kind (filter is_Alert ops)"

text \<open>The detections handed to the server channel together with those still spooled.\<close>

definition accounted :: "'e EventCodec \<Rightarrow> 'e Bus \<times> OfflineQueue \<Rightarrow> 'e multiset" where
  "accounted cd s = mset (server_queue (fst s)) + mset (List.map_filter (kind_from_json cd) (payloads (snd s)))"

lemma map_filter_simps:
  "List.map_filter f [] = []"
  "List.map_filter f (x # xs) = (case f x of None \<Rightarrow> List.map_filter f xs | Some y \<Rightarrow> y # List.map_filter f xs)"
  "List.map_filter f (xs @ ys) = List.map_filter f xs @ List.map_filter f ys"
  by (simp_all add: List.map_filter_def split: option.split)

lemma mset_map_filter_remove:
  assumes "r \<in> set rows" "distinct (map qd_id rows)"
  shows "mset (List.map_filter f (map qd_payload rows)) =
    mset (List.map_filter f (map qd_payload (filter (\<lambda>x. qd_id x \<noteq> qd_id r) rows)))
    + (case f (qd_payload r) of None \<Rightarrow> {#} | Some k \<Rightarrow> {#k#})"
  using assms
proof (induction rows)
  case (Cons x rows)
  show ?case
  proof (cases "x = r")
    case True
    have "qd_id y \<noteq> qd_id r" if "y \<in> set rows" for y using Cons.prems(2) that unfolding True by (auto simp: image_iff)
    then have "filter (\<lambda>y. qd_id y \<noteq> qd_id r) rows = rows" by (simp add: filter_id_conv)
    with True show ?thesis by (simp add: map_filter_simps split: option.split)
  next
    case False
    with Cons.prems(1) have r: "r \<in> set rows" by simp
    then have "qd_id x \<noteq> qd_id r" using Cons.prems(2) by auto
    moreover have "distinct (map qd_id rows)" using Cons.prems(2) by simp
    ultimately show ?thesis using Cons.IH [OF r] by (auto simp: map_filter_simps split: option.split)
  qed
qed simp

lemma queue_ack_inv: "queue_inv q \<Longrightarrow> queue_inv (queue_ack q i)"
  unfolding queue_ack_def by (rule queue_inv_filter)

lemma accounted_ack:
  assumes "queue_inv q" "item \<in> set (q_rows q)" "kind_from_json cd (qd_payload item) = Some kind"
  shows "accounted cd (bus, q) \<subseteq># accounted cd (bus\<lparr>server_queue := server_queue bus @ [kind], broadcasts := b\<rparr>, queue_ack q (qd_id item))"
  using mset_map_filter_remove [OF assms(2) queue_inv_distinct [OF assms(1)], of "kind_from_json cd"] assms(3)
  by (simp add: accounted_def queue_ack_def)

lemma accounted_ack_corrupt:
  assumes "queue_inv q" "item \<in> set (q_rows q)" "kind_from_json cd (qd_payload item) = None"
  shows "accounted cd (bus, queue_ack q (qd_id item)) = accounted cd (bus, q)"
  using mset_map_filter_remove [OF assms(2) queue_inv_distinct [OF assms(1)], of "kind_from_json cd"] assms(3)
  by (simp add: accounted_def queue_ack_def)

lemma accounted_publish: "accounted cd (bus, q) \<subseteq># accounted cd (snd (publish_to_server answer kind bus), q)"
  by (simp add: accounted_def publish_to_server_def Let_def)

lemma drain_loop_accounted:
  assumes "queue_inv q" "set items \<subseteq> set (q_rows q)" "distinct (map qd_id items)" "\<And>i. answers i \<noteq> ServerGone"
  shows "accounted cd (bus, q) \<subseteq># accounted cd (drain_loop cd answers ack_ok items (bus, q))
    \<and> queue_inv (snd (drain_loop cd answers ack_ok items (bus, q)))
    \<and> length (q_rows (snd (drain_loop cd answers ack_ok items (bus, q)))) \<le> length (q_rows q)
    \<and> q_capacity (snd (drain_loop cd answers ack_ok items (bus, q))) = q_capacity q"
  using assms(1-3)
proof (induction items arbitrary: bus q)
  case (Cons item items)
  let ?q = "if ack_ok (qd_id item) then queue_ack q (qd_id item) else q"
  have inv: "queue_inv ?q" using Cons.prems(1) by (simp add: queue_ack_inv)
  have rest: "set items \<subseteq> set (q_rows ?q)"
    using Cons.prems(2,3) by (auto simp: queue_ack_def image_iff)
  have len: "length (q_rows ?q) \<le> length (q_rows q)" "q_capacity ?q = q_capacity q" by (simp_all add: queue_ack_def)
  have item: "item \<in> set (q_rows q)" using Cons.prems(2) by simp
  note IH = Cons.IH [OF inv rest]
  show ?case
  proof (cases "kind_from_json cd (qd_payload item)")
    case None
    have "accounted cd (bus, ?q) = accounted cd (bus, q)"
      using accounted_ack_corrupt [OF Cons.prems(1) item None, of bus] by simp
    then show ?thesis using IH [of bus] Cons.prems(3) len None by (auto simp: Let_def)
  next
    case (Some kind)
    show ?thesis
    proof (cases "answers (qd_id item)")
      case Queued
      let ?bus = "snd (publish_to_server Queued kind bus)"
      have "accounted cd (bus, q) \<subseteq># accounted cd (?bus, ?q)"
        using accounted_ack [OF Cons.prems(1) item Some] accounted_publish [of cd bus q Queued kind]
        by (simp add: publish_to_server_def Let_def)
      moreover have "drain_loop cd answers ack_ok (item # items) (bus, q) = drain_loop cd answers ack_ok items (?bus, ?q)"
        by (simp add: Some Queued publish_to_server_def Let_def)
      ultimately show ?thesis using IH [of ?bus] Cons.prems(3) len by (auto intro: subset_mset.order_trans)
    next
      case ServerGone
      with assms(4) show ?thesis by blast
    next
      case ServerFull
      then show ?thesis using accounted_publish [of cd bus q ServerFull kind] Cons.prems(1) Some
        by (simp add: publish_to_server_def Let_def)
    qed
  qed
qed simp

text \<open>The codec of the event kind reads back what it writes.\<close>

definition codec_roundtrip :: "'e EventCodec \<Rightarrow> bool" where
  "codec_roundtrip cd \<longleftrightarrow> (\<forall>k. \<exists>s. kind_to_json cd k = Some s \<and> kind_from_json cd s = Some k)"

lemma publish_alert_accounted:
  assumes "codec_roundtrip cd" "queue_inv q" "answer \<noteq> ServerGone" "insert_ok fl" "length (q_rows q) < q_capacity q"
  shows "add_mset kind (accounted cd (bus, q)) \<subseteq># accounted cd (publish_alert cd answer fl now kind (bus, q))
    \<and> queue_inv (snd (publish_alert cd answer fl now kind (bus, q)))
    \<and> length (q_rows (snd (publish_alert cd answer fl now kind (bus, q)))) \<le> length (q_rows q) + 1
    \<and> q_capacity (snd (publish_alert cd answer fl now kind (bus, q))) = q_capacity q"
proof (cases "answer = Queued")
  case True
  then show ?thesis using assms(2) by (simp add: publish_alert_def publish_to_server_def Let_def accounted_def)
next
  case False
  with assms(3) have full: "answer = ServerFull" by (cases answer) simp_all
  obtain s where s: "kind_to_json cd kind = Some s" "kind_from_json cd s = Some kind"
    using assms(1) unfolding codec_roundtrip_def by blast
  have "snd (enqueue_at fl q s now) = insert_row q s now"
    using assms(4,5) by (simp add: enqueue_at_def Let_def)
  then have "publish_alert cd answer fl now kind (bus, q) = (bus\<lparr>broadcasts := broadcasts bus @ [kind]\<rparr>, insert_row q s now)"
    by (simp add: publish_alert_def publish_to_server_def full s Let_def)
  then show ?thesis using queue_inv_insert [OF assms(2)] s by (simp add: accounted_def map_filter_simps)
qed

text \<open>No operation meets a closed server channel or a failing insertion; acknowledgements, counts,
  evictions and peeks may fail.\<close>

definition op_ok :: "'e LdeOp \<Rightarrow> bool" where
  "op_ok op = (case op of
     Alert k answer fl now \<Rightarrow> answer \<noteq> ServerGone \<and> insert_ok fl
   | DrainTick answers ack_ok peek_ok batch \<Rightarrow> (\<forall>i. answers i \<noteq> ServerGone))"

lemma raised_Cons: "raised (op # ops) = (if is_Alert op then [alert_kind op] else []) @ raised ops"
  by (simp add: raised_def)

lemma lde_ops_accounted:
  "codec_roundtrip cd \<Longrightarrow> queue_inv q \<Longrightarrow> list_all op_ok ops \<Longrightarrow> length (q_rows q) + length (raised ops) \<le> q_capacity q \<Longrightarrow>
   mset (raised ops) + accounted cd (bus, q) \<subseteq># accounted cd (fold (lde_op cd) ops (bus, q))"
proof (induction ops arbitrary: bus q)
  case Nil
  then show ?case by (simp add: raised_def)
next
  case (Cons op ops)
  obtain bus' q' where s': "lde_op cd op (bus, q) = (bus', q')" by fastforce
  have ok: "op_ok op" "list_all op_ok ops" using Cons.prems(3) by simp_all
  have step: "mset (if is_Alert op then [alert_kind op] else []) + accounted cd (bus, q) \<subseteq># accounted cd (bus', q')
    \<and> queue_inv q' \<and> length (q_rows q') \<le> length (q_rows q) + (if is_Alert op then 1 else 0) \<and> q_capacity q' = q_capacity q"
  proof (cases op)
    case (Alert k answer fl now)
    have "length (q_rows q) < q_capacity q" using Cons.prems(4) by (simp add: Alert raised_Cons)
    with publish_alert_accounted [OF Cons.prems(1,2), of answer fl k bus now] ok(1) s' show ?thesis
      by (simp add: Alert op_ok_def)
  next
    case (DrainTick answers ack_ok peek_ok batch)
    have answers: "\<And>i. answers i \<noteq> ServerGone" using ok(1) by (simp add: DrainTick op_ok_def)
    have front: "set (peek_batch q batch) \<subseteq> set (q_rows q)" "distinct (map qd_id (peek_batch q batch))"
      using queue_inv_distinct [OF Cons.prems(2)]
      by (simp_all add: peek_batch_def select_front_take [OF Cons.prems(2)] set_take_subset take_map [symmetric])
    from drain_loop_accounted [where answers = answers and cd = cd and bus = bus and ack_ok = ack_ok, OF Cons.prems(2) front answers] s' Cons.prems(2) show ?thesis
      by (cases peek_ok) (simp_all add: DrainTick drain_offline_queue_def)
  qed
  have "mset (raised ops) + accounted cd (bus', q') \<subseteq># accounted cd (fold (lde_op cd) ops (bus', q'))"
    using step Cons.prems(4) ok(2) by (intro Cons.IH [OF Cons.prems(1)]) (auto simp: raised_Cons split: if_splits)
  moreover have "mset (raised (op # ops)) + accounted cd (bus, q) \<subseteq># mset (raised ops) + accounted cd (bus', q')"
    using subset_mset.add_left_mono [OF conjunct1 [OF step], of "mset (raised ops)"] by (simp add: raised_Cons ac_simps)
  ultimately have "mset (raised (op # ops)) + accounted cd (bus, q) \<subseteq># accounted cd (fold (lde_op cd) ops (bus', q'))"
    by (rule subset_mset.order_trans [rotated])
  then show ?case by (simp add: s')
qed

text \<open>
  C11: no detection is lost. Over any interleaving of alerts and drain ticks in which the server
  channel may be full at any moment, and acknowledgements, counts, evictions and peeks may fail, every
  alert raised, and every one spooled before, has been handed to the server channel or is still in
  the offline queue, as often as it was raised; provided the channel is not closed, insertions
  succeed and the queue has room for the alerts.
\<close>

theorem detections_not_lost:
  assumes "codec_roundtrip cd" "queue_inv q" "list_all op_ok ops"
    and "length (q_rows q) + length (raised ops) \<le> q_capacity q"
    and "fold (lde_op cd) ops (bus, q) = (bus', q')"
  shows "mset (raised ops) + mset (server_queue bus) + mset (List.map_filter (kind_from_json cd) (payloads q))
    \<subseteq># mset (server_queue bus') + mset (List.map_filter (kind_from_json cd) (payloads q'))"
  using lde_ops_accounted [OF assms(1-4), of bus] unfolding assms(5) accounted_def by (simp add: add.assoc)

text \<open>A string codec, an alert spooled while the channel is full, and a replay whose acknowledgement
  fails.\<close>

theorem detections_not_lost_witness:
  "mset [''x''] \<subseteq># mset (server_queue \<lparr>server_queue = [''x''], broadcasts = [''x'', ''x'']\<rparr>) + {#''x''#}"
proof -
  let ?cd = "\<lparr>kind_to_json = Some, kind_from_json = Some\<rparr>" and ?q = "queue_open [] 1 5"
  let ?bus = "\<lparr>server_queue = [] :: string list, broadcasts = []\<rparr>"
  let ?ops = "[Alert ''x'' ServerFull \<lparr>insert_ok = True, count_ok = True, evict_ok = True\<rparr> 0,
    DrainTick (\<lambda>i. Queued) (\<lambda>i. False) True 10]"
  have "codec_roundtrip ?cd" by (simp add: codec_roundtrip_def)
  moreover have "queue_inv ?q" by (simp add: queue_inv_def queue_open_def)
  moreover have "list_all op_ok ?ops" by (simp add: op_ok_def)
  moreover have "length (q_rows ?q) + length (raised ?ops) \<le> q_capacity ?q" by (simp add: raised_def queue_open_def)
  moreover have "fold (lde_op ?cd) ?ops (?bus, ?q) = (\<lparr>server_queue = [''x''], broadcasts = [''x'', ''x'']\<rparr>,
      \<lparr>q_rows = [\<lparr>qd_id = 1, qd_enqueued_at = 0, qd_payload = ''x''\<rparr>], q_next = 2, q_capacity = 5\<rparr>)"
    by (simp add: publish_alert_def publish_to_server_def drain_offline_queue_def peek_batch_def select_front_def
        enqueue_at_def insert_row_def queue_open_def Let_def)
  ultimately have "mset (raised ?ops) + mset (server_queue ?bus) + mset (List.map_filter (kind_from_json ?cd) (payloads ?q))
    \<subseteq># mset (server_queue \<lparr>server_queue = [''x''], broadcasts = [''x'', ''x'']\<rparr>)
      + mset (List.map_filter (kind_from_json ?cd) (payloads \<lparr>q_rows = [\<lparr>qd_id = 1, qd_enqueued_at = 0, qd_payload = ''x''\<rparr>], q_next = 2, q_capacity = 5\<rparr>))"
    by (rule detections_not_lost)
  then show ?thesis by (simp add: raised_def queue_open_def map_filter_simps)
qed

end
