(* ===== verification/LdeIoc.thy ===== *)
theory LdeIoc
  imports Json "HOL-Library.AList"
begin

text \<open>
  Indicators of compromise (\<open>sda-local-detection/src/ioc_matcher.rs\<close>, the indicator types of
  \<open>rule_store.rs\<close>) and the two extractors of \<open>lib.rs\<close> that find digests and IPv4 literals in events.

  The Bloom filter and the Aho-Corasick automaton are parameters. The lemmas show that the filter
  only ever saves work (matching equals exact lookup in the bundle, the last of duplicate
  indicators winning), and that the IPv4 scanner finds every delimited dotted quad and nothing else.
\<close>

section \<open>Indicators\<close>

record StringIoc =
  si_id :: string
  si_value :: string
  si_kind :: string
  si_severity :: string
  si_description :: string

record HashIoc =
  hi_id :: string
  hi_sha256 :: string
  hi_severity :: string
  hi_description :: string

record IpIoc =
  ii_id :: string
  ii_ip :: string
  ii_severity :: string
  ii_description :: string

record IocList =
  ioc_strings :: "StringIoc list"
  ioc_hashes :: "HashIoc list"
  ioc_ips :: "IpIoc list"

record IocMatch =
  im_rule_id :: string
  im_rule_type :: string
  im_severity :: string
  im_description :: string
  im_matched_value :: string

text \<open>
  The libraries: whether the automaton for a list of patterns can be built and the patterns
  \<open>find_iter\<close> yields in a text, by index; what a filter filled with some values answers. A
  filter is represented by the values inserted.
\<close>

record MatchLibs =
  ac_build_error :: "string list \<Rightarrow> string option"
  ac_find_iter :: "string list \<Rightarrow> string \<Rightarrow> nat list"
  bloom_check :: "string list \<Rightarrow> string \<Rightarrow> bool"

record IocMatcher =
  im_ac :: "string list option"
  string_rules :: "StringIoc list"
  hash_bloom :: "string list option"
  hash_set :: "string list"
  hash_rules :: "(string \<times> HashIoc) list"
  ip_bloom :: "string list option"
  ip_set :: "string list"
  ip_rules :: "(string \<times> IpIoc) list"

text \<open>Collecting pairs into a \<open>HashMap\<close>: a later pair replaces an earlier one with its key.\<close>

definition collect_map :: "('k \<times> 'v) list \<Rightarrow> ('k \<times> 'v) list" where
  "collect_map kvs = fold (\<lambda>(k, v) m. AList.update k v m) kvs []"

definition build_bloom :: "string list \<Rightarrow> string list option" where
  "build_bloom vs = (if vs = [] then None else Some vs)"

definition matcher_build :: "MatchLibs \<Rightarrow> IocList \<Rightarrow> (IocMatcher, string) result" where
  "matcher_build libs iocs =
     (let patterns = map si_value (ioc_strings iocs);
          hashes = remdups (map (\<lambda>h. to_ascii_lowercase (hi_sha256 h)) (ioc_hashes iocs));
          ips = remdups (map ii_ip (ioc_ips iocs));
          rest = \<lparr>im_ac = None, string_rules = [],
             hash_bloom = build_bloom hashes, hash_set = hashes,
             hash_rules = collect_map (map (\<lambda>h. (to_ascii_lowercase (hi_sha256 h), h)) (ioc_hashes iocs)),
             ip_bloom = build_bloom ips, ip_set = ips,
             ip_rules = collect_map (map (\<lambda>i. (ii_ip i, i)) (ioc_ips iocs))\<rparr>
      in if ioc_strings iocs = [] then Ok rest
         else case ac_build_error libs patterns of
           Some e \<Rightarrow> Err (''Aho-Corasick build failed: '' @ e)
         | None \<Rightarrow> Ok (rest\<lparr>im_ac := Some patterns, string_rules := ioc_strings iocs\<rparr>))"

definition string_match :: "StringIoc \<Rightarrow> IocMatch" where
  "string_match r = \<lparr>im_rule_id = si_id r, im_rule_type = ''string'', im_severity = si_severity r,
     im_description = si_description r, im_matched_value = si_value r\<rparr>"

definition match_strings :: "MatchLibs \<Rightarrow> IocMatcher \<Rightarrow> string list \<Rightarrow> IocMatch list" where
  "match_strings libs m texts =
     (case im_ac m of
        None \<Rightarrow> []
      | Some pats \<Rightarrow> concat (map (\<lambda>field.
          concat (map (\<lambda>i. if i < length (string_rules m) then [string_match (string_rules m ! i)] else [])
            (ac_find_iter libs pats field))) texts))"

definition hash_match :: "HashIoc \<Rightarrow> IocMatch" where
  "hash_match r = \<lparr>im_rule_id = hi_id r, im_rule_type = ''hash'', im_severity = hi_severity r,
     im_description = hi_description r, im_matched_value = hi_sha256 r\<rparr>"

definition match_hash :: "MatchLibs \<Rightarrow> IocMatcher \<Rightarrow> string \<Rightarrow> IocMatch option" where
  "match_hash libs m sha256_hex =
     (let key = to_ascii_lowercase sha256_hex
      in if (case hash_bloom m of Some b \<Rightarrow> \<not> bloom_check libs b key | None \<Rightarrow> hash_set m = []) then None
         else if key \<notin> set (hash_set m) then None
         else map_option hash_match (map_of (hash_rules m) key))"

definition ip_match :: "IpIoc \<Rightarrow> IocMatch" where
  "ip_match r = \<lparr>im_rule_id = ii_id r, im_rule_type = ''ip'', im_severity = ii_severity r,
     im_description = ii_description r, im_matched_value = ii_ip r\<rparr>"

definition match_ip :: "MatchLibs \<Rightarrow> IocMatcher \<Rightarrow> string \<Rightarrow> IocMatch option" where
  "match_ip libs m ip =
     (if (case ip_bloom m of Some b \<Rightarrow> \<not> bloom_check libs b ip | None \<Rightarrow> ip_set m = []) then None
      else if ip \<notin> set (ip_set m) then None
      else map_option ip_match (map_of (ip_rules m) ip))"

definition ioc_matches :: "MatchLibs \<Rightarrow> IocMatcher \<Rightarrow> string list \<Rightarrow> string option \<Rightarrow> string option \<Rightarrow> IocMatch list" where
  "ioc_matches libs m texts sha256_hex ip =
     match_strings libs m texts
     @ (case sha256_hex of None \<Rightarrow> [] | Some h \<Rightarrow> (case match_hash libs m h of None \<Rightarrow> [] | Some x \<Rightarrow> [x]))
     @ (case ip of None \<Rightarrow> [] | Some a \<Rightarrow> (case match_ip libs m a of None \<Rightarrow> [] | Some x \<Rightarrow> [x]))"

definition rule_count :: "IocMatcher \<Rightarrow> nat" where
  "rule_count m = length (string_rules m) + length (hash_rules m) + length (ip_rules m)"

section \<open>Digests in syscheck payloads\<close>

fun find_str :: "string list \<Rightarrow> json \<Rightarrow> string option" where
  "find_str [] v = None"
| "find_str (k # ks) v =
     (case Option.bind (value_get k v) value_str of Some s \<Rightarrow> Some s | None \<Rightarrow> find_str ks v)"

definition is_hexdigit :: "char \<Rightarrow> bool" where
  "is_hexdigit c \<longleftrightarrow> is_digit c \<or> 65 \<le> byte_of c \<and> byte_of c \<le> 70 \<or> 97 \<le> byte_of c \<and> byte_of c \<le> 102"

definition extract_sha256_from_syscheck :: "(string \<Rightarrow> json option) \<Rightarrow> string option \<Rightarrow> string option" where
  "extract_sha256_from_syscheck json_parse payload =
     Option.bind payload (\<lambda>raw.
     Option.bind (json_parse raw) (\<lambda>v.
     let keys = [''hash_sha256'', ''sha256'', ''sha256sum'', ''sha256_after'']
     in Option.bind (or_else (find_str keys v)
          (or_else (Option.bind (value_get ''data'' v) (find_str keys))
             (Option.bind (Option.bind (value_get ''data'' v) (value_get ''attributes'')) (find_str keys)))) (\<lambda>found.
     let lower = to_ascii_lowercase found
     in if length lower = 64 \<and> list_all is_hexdigit lower then Some lower else None)))"

section \<open>IPv4 literals in text\<close>

abbreviation is_dot :: "char \<Rightarrow> bool" where
  "is_dot c \<equiv> c = CHR ''.''"

text \<open>The inner loop: octets completed, digits of the current octet, and the bytes consumed.\<close>

fun scan_quad :: "nat \<Rightarrow> nat \<Rightarrow> string \<Rightarrow> string \<Rightarrow> (nat \<times> nat \<times> bool) \<times> string \<times> string" where
  "scan_quad octets digits acc [] = ((octets, digits, True), acc, [])"
| "scan_quad octets digits acc (c # cs) =
     (if \<not> octets < 4 then ((octets, digits, True), acc, c # cs)
      else if is_digit c
      then if digits + 1 > 3 then ((octets, digits + 1, False), acc, c # cs)
           else scan_quad octets (digits + 1) (acc @ [c]) cs
      else if is_dot c \<and> digits > 0 \<and> octets < 3 then scan_quad (octets + 1) 0 (acc @ [c]) cs
      else ((octets, digits, True), acc, c # cs))"

text \<open>\<open>parse::<u8>\<close> on a run of digits.\<close>

definition parses_u8 :: "string \<Rightarrow> bool" where
  "parses_u8 s \<longleftrightarrow> s \<noteq> [] \<and> list_all is_digit s \<and> read_nat s \<le> 255"

definition followed_by_dot_digit :: "string \<Rightarrow> bool" where
  "followed_by_dot_digit rest = (case rest of a # b # _ \<Rightarrow> is_dot a \<and> is_digit b | _ \<Rightarrow> False)"

lemma scan_quad_split: "scan_quad oc dg acc s = (st, cand, rest) \<Longrightarrow> \<exists>t. cand = acc @ t \<and> s = t @ rest"
  by (induction oc dg acc s rule: scan_quad.induct) (fastforce split: if_splits)+

lemma scan_quad_shrinks:
  assumes "((oc, dg, v), cand, rest) = scan_quad 0 0 [] (c # cs)" "is_digit c"
  shows "length rest < length (c # cs)"
proof -
  have "scan_quad 0 1 [c] cs = ((oc, dg, v), cand, rest)" using assms by simp
  from scan_quad_split [OF this] show ?thesis by auto
qed

function extract_ipv4s :: "string \<Rightarrow> string list" where
  "extract_ipv4s [] = []"
| "extract_ipv4s (c # cs) =
     (if is_digit c
      then (case scan_quad 0 0 [] (c # cs) of ((octets, digits, valid), candidate, rest) \<Rightarrow>
              if valid \<and> octets = 3 \<and> digits > 0 \<and> \<not> followed_by_dot_digit rest
                 \<and> list_all parses_u8 (split_char CHR ''.'' candidate)
              then candidate # extract_ipv4s rest
              else extract_ipv4s (dropWhile (\<lambda>x. is_digit x \<or> is_dot x) rest))
      else extract_ipv4s cs)"
  by pat_completeness auto
termination
  by (relation "measure length")
    (auto simp del: scan_quad.simps dest!: scan_quad_shrinks intro: le_less_trans [OF length_dropWhile_le])

section \<open>Matching is exact lookup\<close>

text \<open>What a Bloom filter promises: no false negatives. False positives are left open.\<close>

definition bloom_sound :: "MatchLibs \<Rightarrow> bool" where
  "bloom_sound libs \<longleftrightarrow> (\<forall>vs v. v \<in> set vs \<longrightarrow> bloom_check libs vs v)"

lemma map_of_fold_update: "map_of (fold (\<lambda>(k, v) m. AList.update k v m) kvs m) x =
  (case map_of (rev kvs) x of Some v \<Rightarrow> Some v | None \<Rightarrow> map_of m x)"
  by (induction kvs arbitrary: m) (auto simp: update_conv' map_add_def split: option.split)

lemma map_of_collect_map: "map_of (collect_map kvs) x = map_of (rev kvs) x"
  by (simp add: collect_map_def map_of_fold_update split: option.split)

lemma map_of_keyed: "map_of (map (\<lambda>r. (f r, r)) rs) x = List.find (\<lambda>r. f r = x) rs"
  by (induction rs) auto

lemma map_of_keyed_rev: "map_of (collect_map (map (\<lambda>r. (f r, r)) rs)) x = List.find (\<lambda>r. f r = x) (rev rs)"
  by (simp add: map_of_collect_map rev_map map_of_keyed)

text \<open>The filter, the set and the map together: the guards never hide a stored rule.\<close>

lemma probe_exact:
  assumes "bloom_sound libs"
  shows "(if (case build_bloom (remdups (map f rs)) of Some b \<Rightarrow> \<not> bloom_check libs b x | None \<Rightarrow> remdups (map f rs) = []) then None
      else if x \<notin> set (remdups (map f rs)) then None
      else map_option g (map_of (collect_map (map (\<lambda>r. (f r, r)) rs)) x)) =
    map_option g (List.find (\<lambda>r. f r = x) (rev rs))"
proof (cases "x \<in> f ` set rs")
  case True
  then have "bloom_check libs (remdups (map f rs)) x" using assms by (simp add: bloom_sound_def)
  then show ?thesis using True by (auto simp: build_bloom_def map_of_keyed_rev)
next
  case False
  then have "List.find (\<lambda>r. f r = x) (rev rs) = None" by (auto simp: find_None_iff)
  then show ?thesis using False by auto
qed

lemma matcher_build_sets:
  assumes "matcher_build libs iocs = Ok m"
  defines "hs \<equiv> map (\<lambda>h. to_ascii_lowercase (hi_sha256 h)) (ioc_hashes iocs)" and "ps \<equiv> map ii_ip (ioc_ips iocs)"
  shows "hash_bloom m = build_bloom (remdups hs)" "hash_set m = remdups hs"
    "hash_rules m = collect_map (map (\<lambda>h. (to_ascii_lowercase (hi_sha256 h), h)) (ioc_hashes iocs))"
    "ip_bloom m = build_bloom (remdups ps)" "ip_set m = remdups ps" "ip_rules m = collect_map (map (\<lambda>i. (ii_ip i, i)) (ioc_ips iocs))"
    "im_ac m = (if ioc_strings iocs = [] then None else Some (map si_value (ioc_strings iocs)))" "string_rules m = ioc_strings iocs"
  using assms by (auto simp: matcher_build_def Let_def split: if_splits option.splits)

lemma match_hash_exact:
  assumes "bloom_sound libs" "matcher_build libs iocs = Ok m"
  shows "match_hash libs m h = map_option hash_match
    (List.find (\<lambda>r. to_ascii_lowercase (hi_sha256 r) = to_ascii_lowercase h) (rev (ioc_hashes iocs)))"
  unfolding match_hash_def matcher_build_sets [OF assms(2)] Let_def by (rule probe_exact [OF assms(1)])

lemma match_ip_exact:
  assumes "bloom_sound libs" "matcher_build libs iocs = Ok m"
  shows "match_ip libs m ip = map_option ip_match (List.find (\<lambda>r. ii_ip r = ip) (rev (ioc_ips iocs)))"
  unfolding match_ip_def matcher_build_sets [OF assms(2)] by (rule probe_exact [OF assms(1)])

text \<open>
  Digest and address matching is exact. The Bloom filters only save work: as long as they
  have no false negatives, a digest (in any letter case) or an address matches exactly when the
  bundle lists it, and the match describes the last indicator the bundle lists for it.
\<close>

theorem matches_exact:
  assumes "bloom_sound libs" "matcher_build libs iocs = Ok m"
  shows "match_hash libs m h = map_option hash_match
      (List.find (\<lambda>r. to_ascii_lowercase (hi_sha256 r) = to_ascii_lowercase h) (rev (ioc_hashes iocs))) \<and>
    match_ip libs m ip = map_option ip_match (List.find (\<lambda>r. ii_ip r = ip) (rev (ioc_ips iocs)))"
  using match_hash_exact [OF assms] match_ip_exact [OF assms] by blast

text \<open>Libraries for evaluation: an automaton that tries every pattern, and a filter that keeps the values.\<close>

definition sample_libs :: MatchLibs where
  "sample_libs = \<lparr>ac_build_error = (\<lambda>ps. None),
     ac_find_iter = (\<lambda>ps s. filter (\<lambda>i. str_contains s (ps ! i)) [0..<length ps]), bloom_check = (\<lambda>vs v. v \<in> set vs)\<rparr>"

definition sample_ip_ioc :: IpIoc where
  "sample_ip_ioc = \<lparr>ii_id = ''i-1'', ii_ip = ''203.0.113.9'', ii_severity = ''medium'', ii_description = ''''\<rparr>"

definition sample_iocs :: IocList where
  "sample_iocs = \<lparr>ioc_strings = [], ioc_hashes = [], ioc_ips = [sample_ip_ioc, sample_ip_ioc\<lparr>ii_id := ''i-2''\<rparr>]\<rparr>"

theorem matches_exact_witness:
  "\<exists>m. matcher_build sample_libs sample_iocs = Ok m \<and>
     match_ip sample_libs m ''203.0.113.9'' = Some (ip_match (sample_ip_ioc\<lparr>ii_id := ''i-2''\<rparr>)) \<and>
     match_ip sample_libs m ''203.0.113.8'' = None"
proof -
  obtain m where m: "matcher_build sample_libs sample_iocs = Ok m"
    by (simp add: matcher_build_def sample_iocs_def Let_def)
  have "bloom_sound sample_libs" by (simp add: bloom_sound_def sample_libs_def)
  note ex = matches_exact [OF this m]
  have "match_ip sample_libs m ''203.0.113.9'' = Some (ip_match (sample_ip_ioc\<lparr>ii_id := ''i-2''\<rparr>))"
    "match_ip sample_libs m ''203.0.113.8'' = None"
    using ex [of _ "''203.0.113.9''"] ex [of _ "''203.0.113.8''"] by (simp_all add: sample_iocs_def sample_ip_ioc_def)
  with m show ?thesis by blast
qed

section \<open>The scanner finds dotted quads\<close>

text \<open>Four groups of one to three digits, each at most 255, separated by dots.\<close>

definition octet :: "string \<Rightarrow> bool" where
  "octet p \<longleftrightarrow> p \<noteq> [] \<and> length p \<le> 3 \<and> list_all is_digit p \<and> read_nat p \<le> 255"

definition dotted_quad :: "string \<Rightarrow> bool" where
  "dotted_quad s \<longleftrightarrow> (\<exists>a b c d. s = a @ CHR ''.'' # b @ CHR ''.'' # c @ CHR ''.'' # d \<and> octet a \<and> octet b \<and> octet c \<and> octet d)"

abbreviation in_run :: "char \<Rightarrow> bool" where
  "in_run x \<equiv> is_digit x \<or> is_dot x"

lemma is_digit_dot [simp]: "\<not> is_digit CHR ''.''"
  by (simp add: is_digit_def)

lemma scan_digits:
  "list_all is_digit p \<Longrightarrow> dg + length p \<le> 3 \<Longrightarrow> oc < 4 \<Longrightarrow>
   scan_quad oc dg acc (p @ rest) = scan_quad oc (dg + length p) (acc @ p) rest"
  by (induction p arbitrary: dg acc) auto

lemma scan_dot: "0 < dg \<Longrightarrow> oc < 3 \<Longrightarrow> scan_quad oc dg acc (CHR ''.'' # rest) = scan_quad (oc + 1) 0 (acc @ ''.'') rest"
  by simp

lemma scan_stop: "post = [] \<or> \<not> in_run (hd post) \<Longrightarrow> scan_quad oc dg acc post = ((oc, dg, True), acc, post)"
  by (cases post) auto

lemma octet_digits: "octet p \<Longrightarrow> list_all is_digit p" "octet p \<Longrightarrow> length p \<le> 3" "octet p \<Longrightarrow> 0 < length p" "octet p \<Longrightarrow> parses_u8 p"
  by (auto simp: octet_def parses_u8_def)

lemma octet_no_dot: "octet p \<Longrightarrow> CHR ''.'' \<notin> set p"
  by (auto simp: octet_def list_all_iff)

lemma split_char_app: "c \<notin> set p \<Longrightarrow> split_char c (p @ c # q) = p # split_char c q" "c \<notin> set p \<Longrightarrow> split_char c p = [p]"
  by (induction p) auto

lemma scan_quad_complete:
  assumes "dotted_quad ip" "post = [] \<or> \<not> in_run (hd post)"
  shows "\<exists>dg>0. scan_quad 0 0 [] (ip @ post) = ((3, dg, True), ip, post)" "list_all parses_u8 (split_char CHR ''.'' ip)"
proof -
  obtain a b c d where ip: "ip = a @ CHR ''.'' # b @ CHR ''.'' # c @ CHR ''.'' # d" and o: "octet a" "octet b" "octet c" "octet d"
    using assms(1) unfolding dotted_quad_def by blast
  show "list_all parses_u8 (split_char CHR ''.'' ip)" using o by (simp add: ip split_char_app octet_no_dot octet_digits(4))
  have "scan_quad 0 0 [] (ip @ post) = ((3, length d, True), ip, post)"
    using o octet_digits(1-3) assms(2) by (simp add: ip scan_digits scan_dot scan_stop del: scan_quad.simps)
  then show "\<exists>dg>0. scan_quad 0 0 [] (ip @ post) = ((3, dg, True), ip, post)" using octet_digits(3) [OF o(4)] by blast
qed

lemma split_char_ne [simp]: "split_char c s \<noteq> []"
  by (cases s) (auto split: list.split)

lemma split_char_join: "split_char c s = p # ps \<Longrightarrow> s = p @ concat (map ((#) c) ps)"
proof (induction s arbitrary: p ps)
  case (Cons x s)
  obtain q qs where q: "split_char c s = q # qs" using split_char_ne by (cases "split_char c s") blast+
  have "p # ps = (if x = c then [] # q # qs else (x # q) # qs)" using Cons.prems by (cases "x = c") (simp_all add: q)
  with Cons.IH [OF q] show ?case by (auto split: if_splits)
qed auto

lemma split_char_snoc:
  "split_char c (s @ [d]) = (if d = c then split_char c s @ [[]] else butlast (split_char c s) @ [last (split_char c s) @ [d]])"
  by (induction s) (auto split: list.split simp: last_ConsR)

text \<open>What the inner loop knows of the bytes it consumed.\<close>

definition quad_shape :: "nat \<Rightarrow> nat \<Rightarrow> string \<Rightarrow> bool" where
  "quad_shape oc dg acc \<longleftrightarrow> length (split_char CHR ''.'' acc) = oc + 1 \<and> length (last (split_char CHR ''.'' acc)) = dg \<and>
     (\<forall>p\<in>set (split_char CHR ''.'' acc). length p \<le> 3)"

lemma quad_shape_digit: "quad_shape oc dg acc \<Longrightarrow> is_digit c \<Longrightarrow> dg + 1 \<le> 3 \<Longrightarrow> quad_shape oc (dg + 1) (acc @ [c])"
  by (auto simp: quad_shape_def split_char_snoc dest: in_set_butlastD)

lemma quad_shape_dot: "quad_shape oc dg acc \<Longrightarrow> quad_shape (oc + 1) 0 (acc @ ''.'')"
  by (auto simp: quad_shape_def split_char_snoc)

lemma scan_quad_shape:
  "scan_quad oc dg acc s = ((oc', dg', True), cand, rest) \<Longrightarrow> quad_shape oc dg acc \<Longrightarrow> oc < 4 \<Longrightarrow>
   quad_shape oc' dg' cand \<and> (rest = [] \<or> \<not> is_digit (hd rest))"
proof (induction oc dg acc s rule: scan_quad.induct)
  case (2 oc dg acc c cs)
  then show ?case
    using quad_shape_digit [OF "2.prems"(2), of c] quad_shape_dot [OF "2.prems"(2)] by (auto split: if_splits)
qed auto

lemma scan_quad_sound:
  assumes "scan_quad 0 0 [] s = ((3, dg, True), cand, rest)" "list_all parses_u8 (split_char CHR ''.'' cand)"
  shows "dotted_quad cand" "rest = [] \<or> \<not> is_digit (hd rest)"
proof -
  have "quad_shape 3 dg cand \<and> (rest = [] \<or> \<not> is_digit (hd rest))"
    by (rule scan_quad_shape [OF assms(1)]) (simp_all add: quad_shape_def)
  then show "rest = [] \<or> \<not> is_digit (hd rest)" by blast
  have sh: "quad_shape 3 dg cand" using \<open>quad_shape 3 dg cand \<and> _\<close> by blast
  then obtain a b c d where sp: "split_char CHR ''.'' cand = [a, b, c, d]"
    unfolding quad_shape_def by (auto simp: length_Suc_conv eval_nat_numeral)
  have "octet a" "octet b" "octet c" "octet d"
    using assms(2) sh unfolding quad_shape_def sp by (auto simp: octet_def parses_u8_def)
  moreover have "cand = a @ CHR ''.'' # b @ CHR ''.'' # c @ CHR ''.'' # d" using split_char_join [OF sp] by simp
  ultimately show "dotted_quad cand" unfolding dotted_quad_def by blast
qed

text \<open>Delimiters: an occurrence is isolated when neither side continues the number, and free when
  neither side is a digit or a dot.\<close>

definition isolated :: "string \<Rightarrow> string \<Rightarrow> bool" where
  "isolated pre post \<longleftrightarrow> (pre = [] \<or> \<not> is_digit (last pre)) \<and> (post = [] \<or> \<not> is_digit (hd post)) \<and> \<not> followed_by_dot_digit post"

definition free :: "string \<Rightarrow> string \<Rightarrow> bool" where
  "free pre post \<longleftrightarrow> (pre = [] \<or> \<not> in_run (last pre)) \<and> (post = [] \<or> \<not> in_run (hd post))"

lemma extract_step:
  assumes "scan_quad 0 0 [] (c # cs) = ((oc, dg, v), cand, rest)"
  shows "extract_ipv4s (c # cs) =
    (if is_digit c
     then if v \<and> oc = 3 \<and> dg > 0 \<and> \<not> followed_by_dot_digit rest \<and> list_all parses_u8 (split_char CHR ''.'' cand)
          then cand # extract_ipv4s rest else extract_ipv4s (dropWhile in_run rest)
     else extract_ipv4s cs)"
  by (simp add: assms del: scan_quad.simps)

lemma extract_sound:
  "ip \<in> set (extract_ipv4s s) \<Longrightarrow> pre0 = [] \<or> \<not> is_digit (last pre0) \<or> s = [] \<or> \<not> is_digit (hd s) \<Longrightarrow>
   dotted_quad ip \<and> (\<exists>pre post. pre0 @ s = pre @ ip @ post \<and> isolated pre post)"
proof (induction s arbitrary: pre0 rule: extract_ipv4s.induct)
  case (2 c cs)
  obtain oc dg v cand rest where sc: "scan_quad 0 0 [] (c # cs) = ((oc, dg, v), cand, rest)" by (metis prod.exhaust)
  have split: "c # cs = cand @ rest" using scan_quad_split [OF sc] by simp
  let ?ok = "v \<and> oc = 3 \<and> dg > 0 \<and> \<not> followed_by_dot_digit rest \<and> list_all parses_u8 (split_char CHR ''.'' cand)"
  show ?case
  proof (cases "is_digit c")
    case False
    then have "ip \<in> set (extract_ipv4s cs)" using "2.prems"(1) by simp
    from "2.IH"(3) [OF False this, of "pre0 @ [c]"] False show ?thesis by simp
  next
    case True
    show ?thesis
    proof (cases ?ok)
      case ok: True
      from scan_quad_sound [of "c # cs"] sc ok have q: "dotted_quad cand" "rest = [] \<or> \<not> is_digit (hd rest)" by auto
      have "ip = cand \<or> ip \<in> set (extract_ipv4s rest)" using "2.prems"(1) True sc ok by (simp del: scan_quad.simps)
      then show ?thesis
      proof
        assume "ip = cand"
        moreover have "isolated pre0 rest" using "2.prems"(2) True ok q(2) by (simp add: isolated_def)
        ultimately show ?thesis using q(1) split by auto
      next
        assume "ip \<in> set (extract_ipv4s rest)"
        from "2.IH"(1) [OF True sc [symmetric] refl refl refl ok this, of "pre0 @ cand"] q(2) split show ?thesis by auto
      qed
    next
      case bad: False
      let ?rest = "dropWhile in_run rest"
      have "ip \<in> set (extract_ipv4s ?rest)" using "2.prems"(1) True sc bad by (simp del: scan_quad.simps split: if_splits)
      moreover have "?rest = [] \<or> \<not> is_digit (hd ?rest)" using hd_dropWhile [of in_run rest] by blast
      ultimately have "dotted_quad ip \<and> (\<exists>pre post. (pre0 @ cand @ takeWhile in_run rest) @ ?rest = pre @ ip @ post \<and> isolated pre post)"
        by (intro "2.IH"(2) [OF True sc [symmetric] refl refl refl bad]) auto
      then show ?thesis using split by simp
    qed
  qed
qed simp

lemma scan_quad_before:
  assumes "scan_quad oc dg acc (p @ x # q) = (st, cand, rest)" "\<not> in_run x"
  shows "\<exists>p'. rest = p' @ x # q"
  using assms by (induction oc dg acc p arbitrary: st rule: scan_quad.induct) (auto split: if_splits)

lemma dropWhile_before: "\<not> P x \<Longrightarrow> \<exists>p'. dropWhile P (p @ x # q) = p' @ x # q"
  by (induction p) auto

lemma extract_complete:
  assumes "dotted_quad ip" "post = [] \<or> \<not> in_run (hd post)"
  shows "s = pre @ ip @ post \<Longrightarrow> pre = [] \<or> \<not> in_run (last pre) \<Longrightarrow> ip \<in> set (extract_ipv4s s)"
proof (induction s arbitrary: pre rule: extract_ipv4s.induct)
  case 1
  then show ?case using assms(1) by (simp add: dotted_quad_def)
next
  case (2 c cs)
  obtain oc dg v cand rest where sc: "scan_quad 0 0 [] (c # cs) = ((oc, dg, v), cand, rest)" by (metis prod.exhaust)
  note unfold = extract_step [OF sc]
  show ?case
  proof (cases pre rule: rev_cases)
    case Nil
    have "is_digit c" using "2.prems"(1) Nil assms(1) unfolding dotted_quad_def by (auto simp: octet_def neq_Nil_conv)
    moreover have "oc = 3" "0 < dg" v "cand = ip" "rest = post" "list_all parses_u8 (split_char CHR ''.'' cand)"
      using scan_quad_complete [OF assms] sc "2.prems"(1) Nil by auto
    moreover have "\<not> followed_by_dot_digit post" using assms(2) by (auto simp: followed_by_dot_digit_def split: list.split)
    ultimately show ?thesis by (simp only: unfold) simp
  next
    case (snoc pre' x)
    then have x: "\<not> in_run x" and s: "c # cs = pre' @ x # ip @ post" using "2.prems" by auto
    show ?thesis
    proof (cases "is_digit c")
      case False
      then show ?thesis using s x "2.IH"(3) [OF False, of "tl pre"] snoc by (cases pre') auto
    next
      case True
      obtain p' where rest: "rest = p' @ x # ip @ post" using scan_quad_before [OF _ x] sc unfolding s by blast
      obtain p'' where drop: "dropWhile in_run rest = p'' @ x # ip @ post" unfolding rest using dropWhile_before [of in_run, OF x] by blast
      show ?thesis
      proof (cases "v \<and> oc = 3 \<and> dg > 0 \<and> \<not> followed_by_dot_digit rest \<and> list_all parses_u8 (split_char CHR ''.'' cand)")
        case ok: True
        have "ip \<in> set (extract_ipv4s rest)"
          using "2.IH"(1) [OF True sc [symmetric] refl refl refl ok, of "p' @ [x]"] rest x by simp
        then show ?thesis unfolding unfold by (simp only: if_P [OF True] if_P [OF ok] list.set insert_iff simp_thms)
      next
        case bad: False
        have "ip \<in> set (extract_ipv4s (dropWhile in_run rest))"
          using "2.IH"(2) [OF True sc [symmetric] refl refl refl bad, of "p'' @ [x]"] drop x by simp
        then show ?thesis unfolding unfold by (simp only: if_P [OF True] if_not_P [OF bad])
      qed
    qed
  qed
qed

text \<open>
  The IPv4 scanner of log messages is sound and complete. Whatever it reports is a dotted quad
  that occurs in the text and is not part of a longer number or dotted number; and every dotted quad
  that stands free in the text, with no digit or dot next to it, is reported.
\<close>

theorem extract_ipv4s_spec:
  "(\<forall>ip\<in>set (extract_ipv4s msg). dotted_quad ip \<and> (\<exists>pre post. msg = pre @ ip @ post \<and> isolated pre post)) \<and>
   (\<forall>ip pre post. msg = pre @ ip @ post \<and> dotted_quad ip \<and> free pre post \<longrightarrow> ip \<in> set (extract_ipv4s msg))"
  using extract_sound [of _ msg "[]"] extract_complete [of _ _ msg] unfolding free_def by auto

theorem extract_ipv4s_spec_witness:
  "''10.0.0.1'' \<in> set (extract_ipv4s ''from 10.0.0.1 at 1.2.3.4.5'')"
proof -
  have "dotted_quad ''10.0.0.1''" unfolding dotted_quad_def
    by (intro exI [of _ "''10''"] exI [of _ "''0''"] exI [of _ "''1''"] exI [of _ "''0''"]) (simp add: octet_def is_digit_def read_nat_def)
  moreover have "free ''from '' '' at 1.2.3.4.5''" by (simp add: free_def is_digit_def)
  moreover have "''from 10.0.0.1 at 1.2.3.4.5'' = ''from '' @ ''10.0.0.1'' @ '' at 1.2.3.4.5''" by simp
  ultimately show ?thesis using conjunct2 [OF extract_ipv4s_spec] by blast
qed

end
