(* ===== verification/LdeBehavioral.thy ===== *)
theory LdeBehavioral
  imports Utf8 "HOL-Library.Sublist"
begin

text \<open>
  The behavioural rule engine of the local detection module
  (\<open>sda-local-detection/src/behavioral.rs\<close>, with the rule types of \<open>rule_store.rs\<close>): threshold rules
  over sliding windows, ordered sequences and process chains, with bounded state per entity.

  An \<open>Instant\<close> is its number of nanoseconds, so \<open>duration_since\<close>, which saturates, is the subtraction of
  natural numbers. The order-preserving \<open>IndexMap\<close> is an association list in insertion order.
  Regular expressions are a parameter: whether one compiles, and whether it matches.
\<close>

section \<open>Rules and events\<close>

datatype BehavioralRuleKind =
    Threshold (th_contains: string) (th_min_count: nat) (th_window_secs: nat)
  | Sequence (sq_sequence: "string list") (sq_window_secs: nat)
  | ProcessChain (name_regex: string) (parent_chain_regex: string)

record BehavioralRule =
  br_id :: string
  br_severity :: string
  br_description :: string
  br_event_source :: string
  br_kind :: BehavioralRuleKind

record BehavioralMatch =
  bm_rule_id :: string
  bm_severity :: string
  bm_description :: string
  bm_entity :: string

text \<open>The structured process fields are the parent chain and the leaf name.\<close>

record BehavioralEvent =
  be_source :: string
  be_entity :: string
  be_text :: string
  be_process :: "(string \<times> string) option"

record SkippedRule =
  sr_rule_id :: string
  sr_reason :: string

record SequenceState =
  ss_position :: nat
  ss_started_at :: nat

type_synonym key = "nat \<times> string"

record RegexEnv =
  regex_error :: "string \<Rightarrow> string option"
  regex_is_match :: "string \<Rightarrow> string \<Rightarrow> bool"

record BehavioralEngine =
  rules :: "BehavioralRule list"
  threshold_state :: "(key \<times> nat list) list"
  sequence_state :: "(key \<times> SequenceState) list"
  process_chain_regex :: "(nat \<times> string \<times> string) list"
  skipped_rules :: "SkippedRule list"
  max_entities :: nat
  max_window :: nat

section \<open>Construction\<close>

definition skip_reason :: "RegexEnv \<Rightarrow> string \<Rightarrow> string \<Rightarrow> string" where
  "skip_reason env n p =
     (let r1 = (case regex_error env n of Some e \<Rightarrow> ''invalid name_regex: '' @ e | None \<Rightarrow> [])
      in case regex_error env p of
           Some e \<Rightarrow> r1 @ (if r1 \<noteq> [] then ''; '' else []) @ ''invalid parent_chain_regex: '' @ e
         | None \<Rightarrow> r1)"

fun load_rules :: "RegexEnv \<Rightarrow> nat \<Rightarrow> BehavioralRule list \<Rightarrow> (nat \<times> string \<times> string) list \<times> SkippedRule list" where
  "load_rules env idx [] = ([], [])"
| "load_rules env idx (rule # rest) =
     (let (regexes, skipped) = load_rules env (Suc idx) rest
      in case br_kind rule of
           ProcessChain n p \<Rightarrow>
             if regex_error env n = None \<and> regex_error env p = None then ((idx, n, p) # regexes, skipped)
             else (regexes, \<lparr>sr_rule_id = br_id rule, sr_reason = skip_reason env n p\<rparr> # skipped)
         | _ \<Rightarrow> (regexes, skipped))"

definition ns_per_sec :: nat where
  "ns_per_sec = 1000000000"

definition engine_new :: "RegexEnv \<Rightarrow> BehavioralRule list \<Rightarrow> nat \<Rightarrow> nat \<Rightarrow> BehavioralEngine" where
  "engine_new env rs max_ents max_window_sec =
     (let (regexes, skipped) = load_rules env 0 rs
      in \<lparr>rules = rs, threshold_state = [], sequence_state = [], process_chain_regex = regexes,
          skipped_rules = skipped, max_entities = max max_ents 1, max_window = max max_window_sec 1 * ns_per_sec\<rparr>)"

definition take_skipped_rules :: "BehavioralEngine \<Rightarrow> SkippedRule list \<times> BehavioralEngine" where
  "take_skipped_rules eng = (skipped_rules eng, eng\<lparr>skipped_rules := []\<rparr>)"

section \<open>Evaluation\<close>

text \<open>\<open>IndexMap\<close>: writing through an entry keeps its place, a new key goes to the end.\<close>

fun im_put :: "'k \<Rightarrow> 'v \<Rightarrow> ('k \<times> 'v) list \<Rightarrow> ('k \<times> 'v) list" where
  "im_put k v [] = [(k, v)]"
| "im_put k v ((k', v') # m) = (if k' = k then (k, v) # m else (k', v') # im_put k v m)"

definition im_remove :: "'k \<Rightarrow> ('k \<times> 'v) list \<Rightarrow> ('k \<times> 'v) list" where
  "im_remove k m = filter (\<lambda>e. fst e \<noteq> k) m"

definition maybe_evict :: "nat \<Rightarrow> ('k \<times> 'v) list \<Rightarrow> ('k \<times> 'v) list" where
  "maybe_evict cap m = (if length m \<le> cap then m else drop (length m - cap) m)"

definition rule_match :: "BehavioralRule \<Rightarrow> BehavioralEvent \<Rightarrow> BehavioralMatch" where
  "rule_match rule ev = \<lparr>bm_rule_id = br_id rule, bm_severity = br_severity rule,
     bm_description = br_description rule, bm_entity = be_entity ev\<rparr>"

definition eval_threshold :: "nat \<Rightarrow> BehavioralRule \<Rightarrow> string \<Rightarrow> nat \<Rightarrow> nat \<Rightarrow> BehavioralEvent \<Rightarrow> nat \<Rightarrow> BehavioralEngine \<Rightarrow> BehavioralMatch list \<times> BehavioralEngine" where
  "eval_threshold idx rule contains min_count window_secs ev now eng =
     (if \<not> str_contains (be_text ev) contains then ([], eng)
      else let window = min (window_secs * ns_per_sec) (max_window eng);
               k = (idx, be_entity ev);
               deque = (case map_of (threshold_state eng) k of None \<Rightarrow> [] | Some d \<Rightarrow> d) @ [now];
               deque = dropWhile (\<lambda>front. now - front > window) deque;
               fires = (length deque mod 2 ^ 32 \<ge> min_count);
               state = im_put k (if fires then [] else deque) (threshold_state eng)
           in (if fires then [rule_match rule ev] else [],
               eng\<lparr>threshold_state := maybe_evict (max_entities eng) state\<rparr>))"

text \<open>The progress an entity has in a sequence at the time of an event, and after the expected text.\<close>

definition seq_current :: "nat \<Rightarrow> nat \<Rightarrow> SequenceState option \<Rightarrow> SequenceState" where
  "seq_current window now found =
     (let fresh = \<lparr>ss_position = 0, ss_started_at = now\<rparr>;
          st = (case found of None \<Rightarrow> fresh | Some s \<Rightarrow> s)
      in if now - ss_started_at st > window then fresh else st)"

definition seq_advance :: "nat \<Rightarrow> SequenceState \<Rightarrow> SequenceState" where
  "seq_advance now st =
     (let st = (if ss_position st = 0 then st\<lparr>ss_started_at := now\<rparr> else st)
      in st\<lparr>ss_position := ss_position st + 1\<rparr>)"

definition eval_sequence :: "nat \<Rightarrow> BehavioralRule \<Rightarrow> string list \<Rightarrow> nat \<Rightarrow> BehavioralEvent \<Rightarrow> nat \<Rightarrow> BehavioralEngine \<Rightarrow> BehavioralMatch list \<times> BehavioralEngine" where
  "eval_sequence idx rule seq window_secs ev now eng =
     (if seq = [] then ([], eng)
      else let window = min (window_secs * ns_per_sec) (max_window eng);
               k = (idx, be_entity ev);
               st = seq_current window now (map_of (sequence_state eng) k);
               removed = im_remove k (sequence_state eng);
               matched = str_contains (be_text ev) (seq ! ss_position st);
               st = (if matched then seq_advance now st else st)
           in if matched \<and> ss_position st \<ge> length seq
              then ([rule_match rule ev], eng\<lparr>sequence_state := removed\<rparr>)
              else ([], eng\<lparr>sequence_state := maybe_evict (max_entities eng) (removed @ [(k, st)])\<rparr>))"

definition eval_chain :: "RegexEnv \<Rightarrow> nat \<Rightarrow> BehavioralRule \<Rightarrow> BehavioralEvent \<Rightarrow> BehavioralEngine \<Rightarrow> BehavioralMatch list" where
  "eval_chain env idx rule ev eng =
     (case map_of (process_chain_regex eng) idx of
        None \<Rightarrow> []
      | Some (name_re, chain_re) \<Rightarrow>
          (case be_process ev of
             None \<Rightarrow> []
           | Some (parent_chain, leaf_name) \<Rightarrow>
               if \<not> regex_is_match env name_re leaf_name then []
               else if \<not> regex_is_match env chain_re parent_chain then []
               else [rule_match rule ev]))"

definition eval_rule :: "RegexEnv \<Rightarrow> BehavioralEvent \<Rightarrow> nat \<Rightarrow> nat \<Rightarrow> BehavioralEngine \<Rightarrow> BehavioralMatch list \<times> BehavioralEngine" where
  "eval_rule env ev now idx eng =
     (let rule = rules eng ! idx
      in if br_event_source rule \<noteq> be_source ev then ([], eng)
         else case br_kind rule of
           Threshold contains min_count window_secs \<Rightarrow> eval_threshold idx rule contains min_count window_secs ev now eng
         | Sequence seq window_secs \<Rightarrow> eval_sequence idx rule seq window_secs ev now eng
         | ProcessChain n p \<Rightarrow> (eval_chain env idx rule ev eng, eng))"

fun eval_from :: "RegexEnv \<Rightarrow> BehavioralEvent \<Rightarrow> nat \<Rightarrow> nat list \<Rightarrow> BehavioralEngine \<Rightarrow> BehavioralMatch list \<times> BehavioralEngine" where
  "eval_from env ev now [] eng = ([], eng)"
| "eval_from env ev now (idx # idxs) eng =
     (let (hits, eng1) = eval_rule env ev now idx eng;
          (rest, eng2) = eval_from env ev now idxs eng1
      in (hits @ rest, eng2))"

definition evaluate_at :: "RegexEnv \<Rightarrow> BehavioralEvent \<Rightarrow> nat \<Rightarrow> BehavioralEngine \<Rightarrow> BehavioralMatch list \<times> BehavioralEngine" where
  "evaluate_at env ev now eng = eval_from env ev now [0..<length (rules eng)] eng"

section \<open>The bounded maps\<close>

named_theorems im_simps \<open>the insertion-ordered maps\<close>

lemma map_of_im_put [im_simps]: "map_of (im_put k v m) = (map_of m)(k \<mapsto> v)"
  by (induction k v m rule: im_put.induct) (auto simp: fun_eq_iff)

lemma keys_im_put [im_simps]: "fst ` set (im_put k v m) = insert k (fst ` set m)"
  by (induction k v m rule: im_put.induct) auto

lemma distinct_im_put [im_simps]: "distinct (map fst m) \<Longrightarrow> distinct (map fst (im_put k v m))"
proof (induction k v m rule: im_put.induct)
  case (2 k v k' v' m)
  then show ?case using keys_im_put [of k v m] by (auto simp: image_iff)
qed simp

lemma set_im_put: "distinct (map fst m) \<Longrightarrow> x \<in> set (im_put k v m) \<Longrightarrow> x = (k, v) \<or> x \<in> set m"
  by (induction k v m rule: im_put.induct) (auto split: if_splits)

lemma map_of_im_remove [im_simps]: "map_of (im_remove k m) = (map_of m)(k := None)"
  unfolding im_remove_def by (induction m) (auto simp: fun_eq_iff)

lemma im_remove_props [im_simps]:
  "k \<notin> fst ` set (im_remove k m)" "set (im_remove k m) \<subseteq> set m" "length (im_remove k m) \<le> length m"
  "distinct (map fst m) \<Longrightarrow> distinct (map fst (im_remove k m))"
  unfolding im_remove_def by (auto simp: distinct_map inj_on_def)

lemma maybe_evict_props [im_simps]:
  "length (maybe_evict cap m) \<le> cap" "set (maybe_evict cap m) \<subseteq> set m"
  "distinct (map fst m) \<Longrightarrow> distinct (map fst (maybe_evict cap m))"
  "length m \<le> cap \<Longrightarrow> maybe_evict cap m = m"
  unfolding maybe_evict_def by (auto simp: set_drop_subset drop_map [symmetric] dest: in_set_dropD)

section \<open>State is bounded\<close>

text \<open>Both maps hold at most \<open>max_entities\<close> entities, each once, and the window kept for a threshold
  rule is shorter than the count that fires it.\<close>

definition deque_ok :: "BehavioralRule list \<Rightarrow> key \<times> nat list \<Rightarrow> bool" where
  "deque_ok rs e \<longleftrightarrow> fst (fst e) < length rs \<and>
     (case br_kind (rs ! fst (fst e)) of Threshold c m w \<Rightarrow> length (snd e) < max m 1 | _ \<Rightarrow> False)"

definition engine_inv :: "BehavioralEngine \<Rightarrow> bool" where
  "engine_inv eng \<longleftrightarrow>
     distinct (map fst (threshold_state eng)) \<and> length (threshold_state eng) \<le> max_entities eng \<and>
     distinct (map fst (sequence_state eng)) \<and> length (sequence_state eng) \<le> max_entities eng \<and>
     (\<forall>e\<in>set (threshold_state eng). deque_ok (rules eng) e)"

definition counts_fit :: "BehavioralRule list \<Rightarrow> bool" where
  "counts_fit rs \<longleftrightarrow> (\<forall>r\<in>set rs. case br_kind r of Threshold c m w \<Rightarrow> m < 2 ^ 32 | _ \<Rightarrow> True)"

definition deque_of :: "BehavioralEngine \<Rightarrow> nat \<Rightarrow> string \<Rightarrow> nat list" where
  "deque_of eng idx e = (case map_of (threshold_state eng) (idx, e) of None \<Rightarrow> [] | Some d \<Rightarrow> d)"

definition window_of :: "BehavioralEngine \<Rightarrow> nat \<Rightarrow> nat" where
  "window_of eng w = min (w * ns_per_sec) (max_window eng)"

definition pruned :: "nat \<Rightarrow> nat list \<Rightarrow> nat \<Rightarrow> nat list" where
  "pruned w d now = dropWhile (\<lambda>front. now - front > w) (d @ [now])"

lemma deque_of_ok:
  assumes "engine_inv eng" "idx < length (rules eng)" "br_kind (rules eng ! idx) = Threshold c m w"
  shows "length (deque_of eng idx e) < max m 1"
proof (cases "map_of (threshold_state eng) (idx, e)")
  case (Some d)
  then have "((idx, e), d) \<in> set (threshold_state eng)" by (rule map_of_SomeD)
  then have "deque_ok (rules eng) ((idx, e), d)" using assms(1) unfolding engine_inv_def by blast
  with Some assms(3) show ?thesis by (simp add: deque_of_def deque_ok_def)
qed (simp add: deque_of_def)

text \<open>The cast of the length to 32 bits never loses anything.\<close>

lemma pruned_length:
  assumes "engine_inv eng" "counts_fit (rules eng)" "idx < length (rules eng)" "br_kind (rules eng ! idx) = Threshold c m w"
  shows "length (pruned v (deque_of eng idx e) now) mod 2 ^ 32 = length (pruned v (deque_of eng idx e) now)"
proof -
  have "length (pruned v (deque_of eng idx e) now) \<le> length (deque_of eng idx e) + 1"
    unfolding pruned_def by (metis length_append length_dropWhile_le list.size(3) list.size(4) One_nat_def add_0)
  moreover have "m < 2 ^ 32" using assms(2-4) unfolding counts_fit_def by (metis BehavioralRuleKind.simps(10) nth_mem)
  ultimately show ?thesis using deque_of_ok [OF assms(1,3,4), of e] by simp
qed

definition fires :: "nat \<Rightarrow> nat list \<Rightarrow> bool" where
  "fires m d \<longleftrightarrow> m \<le> length d mod 2 ^ 32"

lemma eval_threshold_eq:
  "str_contains (be_text ev) c \<Longrightarrow> eval_threshold idx rule c m w ev now eng =
    (let d = pruned (window_of eng w) (deque_of eng idx (be_entity ev)) now
     in (if fires m d then [rule_match rule ev] else [],
         eng\<lparr>threshold_state := maybe_evict (max_entities eng) (im_put (idx, be_entity ev) (if fires m d then [] else d) (threshold_state eng))\<rparr>))"
  by (simp add: eval_threshold_def Let_def pruned_def window_of_def deque_of_def fires_def)

lemma eval_threshold_inv:
  assumes "engine_inv eng" "counts_fit (rules eng)" "idx < length (rules eng)" "br_kind (rules eng ! idx) = Threshold c m w"
  shows "engine_inv (snd (eval_threshold idx rule c m w ev now eng))"
proof (cases "str_contains (be_text ev) c")
  case True
  let ?k = "(idx, be_entity ev)"
  let ?d = "pruned (window_of eng w) (deque_of eng idx (be_entity ev)) now"
  let ?v = "if fires m ?d then [] else ?d"
  let ?m = "maybe_evict (max_entities eng) (im_put ?k ?v (threshold_state eng))"
  have "length ?v < max m 1" using pruned_length [OF assms] by (auto simp: fires_def)
  then have new: "deque_ok (rules eng) (?k, ?v)" using assms(3,4) by (simp add: deque_ok_def)
  have d: "distinct (map fst (threshold_state eng))" using assms(1) by (simp add: engine_inv_def)
  have "deque_ok (rules eng) e" if "e \<in> set ?m" for e
    using that set_im_put [OF d] maybe_evict_props(2) new assms(1) unfolding engine_inv_def by blast
  moreover have "distinct (map fst ?m)" "length ?m \<le> max_entities eng"
    by (intro maybe_evict_props distinct_im_put d, rule maybe_evict_props)
  ultimately show ?thesis
    using assms(1) True by (simp add: eval_threshold_eq Let_def engine_inv_def)
qed (use assms(1) in \<open>simp add: eval_threshold_def\<close>)

lemma eval_sequence_engine:
  "\<exists>m. snd (eval_sequence idx rule seq w ev now eng) = eng\<lparr>sequence_state := m\<rparr> \<and>
    (m = sequence_state eng \<or> m = im_remove (idx, be_entity ev) (sequence_state eng) \<or>
     (\<exists>st. m = maybe_evict (max_entities eng) (im_remove (idx, be_entity ev) (sequence_state eng) @ [((idx, be_entity ev), st)])))"
  by (intro exI [of _ "sequence_state (snd (eval_sequence idx rule seq w ev now eng))"])
    (auto simp: eval_sequence_def Let_def)

lemma eval_sequence_inv:
  assumes "engine_inv eng"
  shows "engine_inv (snd (eval_sequence idx rule seq w ev now eng))"
proof -
  let ?r = "im_remove (idx, be_entity ev) (sequence_state eng)"
  have d: "distinct (map fst (sequence_state eng))" "length (sequence_state eng) \<le> max_entities eng"
    using assms by (simp_all add: engine_inv_def)
  have r: "distinct (map fst ?r)" "length ?r \<le> max_entities eng"
    using im_remove_props(4) [OF d(1)] im_remove_props(3) [of "(idx, be_entity ev)" "sequence_state eng"] d(2) by auto
  have app: "distinct (map fst (?r @ [((idx, be_entity ev), st)]))" for st
    using r(1) im_remove_props(1) [of "(idx, be_entity ev)" "sequence_state eng"] by auto
  have e: "distinct (map fst (maybe_evict (max_entities eng) (?r @ [((idx, be_entity ev), st)])))" for st
    by (rule maybe_evict_props(3) [OF app])
  have l: "length (maybe_evict (max_entities eng) (?r @ [((idx, be_entity ev), st)])) \<le> max_entities eng" for st
    by (rule maybe_evict_props(1))
  obtain m where m: "snd (eval_sequence idx rule seq w ev now eng) = eng\<lparr>sequence_state := m\<rparr>"
    and mc: "m = sequence_state eng \<or> m = ?r \<or> (\<exists>st. m = maybe_evict (max_entities eng) (?r @ [((idx, be_entity ev), st)]))"
    using eval_sequence_engine by blast
  have "distinct (map fst m) \<and> length m \<le> max_entities eng"
    using mc by (elim disjE exE) (simp_all only: d r e l simp_thms)
  then show ?thesis using assms by (simp add: m engine_inv_def)
qed

text \<open>What an evaluation never changes.\<close>

definition same_setup :: "BehavioralEngine \<Rightarrow> BehavioralEngine \<Rightarrow> bool" where
  "same_setup e1 e2 \<longleftrightarrow> rules e2 = rules e1 \<and> max_entities e2 = max_entities e1 \<and> max_window e2 = max_window e1
     \<and> process_chain_regex e2 = process_chain_regex e1 \<and> skipped_rules e2 = skipped_rules e1"

lemma same_setup_trans: "same_setup a b \<Longrightarrow> same_setup b c \<Longrightarrow> same_setup a c"
  by (simp add: same_setup_def)

lemma eval_rule_setup: "same_setup eng (snd (eval_rule env ev now idx eng))"
proof -
  have "same_setup eng (snd (eval_sequence idx rule seq w ev now eng))" for rule seq w
    using eval_sequence_engine [of idx rule seq w ev now eng] by (auto simp: same_setup_def)
  moreover have "same_setup eng (snd (eval_threshold idx rule c m w ev now eng))" for rule c m w
    by (simp add: eval_threshold_def Let_def same_setup_def)
  ultimately show ?thesis
    by (simp add: eval_rule_def Let_def same_setup_def split: BehavioralRuleKind.split)
qed

lemma eval_rule_inv:
  assumes "engine_inv eng" "counts_fit (rules eng)" "idx < length (rules eng)"
  shows "engine_inv (snd (eval_rule env ev now idx eng))"
  using assms eval_threshold_inv [OF assms] eval_sequence_inv [OF assms(1)]
  by (simp add: eval_rule_def Let_def split: BehavioralRuleKind.split)

lemma eval_from_inv:
  "engine_inv eng \<Longrightarrow> counts_fit (rules eng) \<Longrightarrow> \<forall>i\<in>set idxs. i < length (rules eng) \<Longrightarrow>
   engine_inv (snd (eval_from env ev now idxs eng)) \<and> same_setup eng (snd (eval_from env ev now idxs eng))"
proof (induction idxs arbitrary: eng)
  case (Cons idx idxs)
  let ?e = "snd (eval_rule env ev now idx eng)"
  have su: "same_setup eng ?e" by (rule eval_rule_setup)
  have "engine_inv ?e" using Cons.prems by (intro eval_rule_inv) simp_all
  moreover have "rules ?e = rules eng" using su by (simp add: same_setup_def)
  ultimately have "engine_inv (snd (eval_from env ev now idxs ?e)) \<and> same_setup ?e (snd (eval_from env ev now idxs ?e))"
    using Cons.prems by (intro Cons.IH) simp_all
  then show ?case using su same_setup_trans by (auto simp: Let_def split: prod.splits)
qed (simp add: same_setup_def)

text \<open>The engine after a list of timed events.\<close>

primrec engine_after :: "RegexEnv \<Rightarrow> BehavioralEngine \<Rightarrow> (BehavioralEvent \<times> nat) list \<Rightarrow> BehavioralEngine" where
  "engine_after env eng [] = eng"
| "engine_after env eng (e # es) = engine_after env (snd (evaluate_at env (fst e) (snd e) eng)) es"

lemma evaluate_at_inv:
  assumes "engine_inv eng" "counts_fit (rules eng)"
  shows "engine_inv (snd (evaluate_at env ev now eng))" "same_setup eng (snd (evaluate_at env ev now eng))"
  using eval_from_inv [OF assms, of "[0..<length (rules eng)]"] by (simp_all add: evaluate_at_def)

lemma engine_after_inv:
  "engine_inv eng \<Longrightarrow> counts_fit (rules eng) \<Longrightarrow>
   engine_inv (engine_after env eng evs) \<and> same_setup eng (engine_after env eng evs)"
proof (induction evs arbitrary: eng)
  case (Cons e evs)
  let ?e = "snd (evaluate_at env (fst e) (snd e) eng)"
  note s = evaluate_at_inv [OF Cons.prems, of env "fst e" "snd e"]
  have "counts_fit (rules ?e)" using s(2) Cons.prems(2) by (simp add: same_setup_def)
  from Cons.IH [OF s(1) this] show ?case using same_setup_trans [OF s(2)] by simp
qed (simp add: same_setup_def)

lemma engine_new_inv: "engine_inv (engine_new env rs me mw)"
  by (simp add: engine_new_def engine_inv_def split: prod.split)

lemma engine_new_fields [simp]:
  "rules (engine_new env rs me mw) = rs" "max_entities (engine_new env rs me mw) = max me 1"
  "max_window (engine_new env rs me mw) = max mw 1 * ns_per_sec" "threshold_state (engine_new env rs me mw) = []"
  "sequence_state (engine_new env rs me mw) = []"
  by (simp_all add: engine_new_def split: prod.split)

text \<open>
  Whatever events arrive, the engine tracks at most \<open>max_entities\<close> entities per map, and the
  window remembered for an entity is shorter than the count of its rule: its memory is bounded by
  the configuration and the rules, not by the traffic.
\<close>

theorem engine_bounded:
  assumes "counts_fit rs"
  shows "length (threshold_state (engine_after env (engine_new env rs me mw) evs)) \<le> max me 1 \<and>
    length (sequence_state (engine_after env (engine_new env rs me mw) evs)) \<le> max me 1 \<and>
    (\<forall>((idx, e), d) \<in> set (threshold_state (engine_after env (engine_new env rs me mw) evs)).
       \<exists>c m w. br_kind (rs ! idx) = Threshold c m w \<and> length d < max m 1)"
proof -
  let ?e = "engine_after env (engine_new env rs me mw) evs"
  have inv: "engine_inv ?e" and su: "same_setup (engine_new env rs me mw) ?e"
    using engine_after_inv [OF engine_new_inv, of env rs me mw env evs] assms by simp_all
  have "\<exists>c m w. br_kind (rs ! idx) = Threshold c m w \<and> length d < max m 1"
    if "((idx, e), d) \<in> set (threshold_state ?e)" for idx e d
  proof -
    have "deque_ok (rules ?e) ((idx, e), d)" using inv that unfolding engine_inv_def by blast
    then show ?thesis using su by (simp add: deque_ok_def same_setup_def split: BehavioralRuleKind.splits)
  qed
  then show ?thesis using inv su by (auto simp: engine_inv_def same_setup_def)
qed

definition sample_rule :: BehavioralRule where
  "sample_rule = \<lparr>br_id = ''r1'', br_severity = ''high'', br_description = ''burst'', br_event_source = ''fim'',
     br_kind = Threshold ''tmp'' 2 60\<rparr>"

definition sample_event :: "string \<Rightarrow> BehavioralEvent" where
  "sample_event e = \<lparr>be_source = ''fim'', be_entity = e, be_text = ''/tmp/x'', be_process = None\<rparr>"

definition sample_regexes :: RegexEnv where
  "sample_regexes = \<lparr>regex_error = (\<lambda>r. None), regex_is_match = (\<lambda>r s. False)\<rparr>"

theorem engine_bounded_witness:
  "length (threshold_state (engine_after sample_regexes (engine_new sample_regexes [sample_rule] 1 60)
     [(sample_event ''a'', 0), (sample_event ''b'', 1)])) \<le> 1"
  using engine_bounded [of "[sample_rule]" sample_regexes 1 60 "[(sample_event ''a'', 0), (sample_event ''b'', 1)]"]
  by (simp add: counts_fit_def sample_rule_def)

section \<open>Threshold rules are sliding windows\<close>

text \<open>An event the rule counts, and what becomes of the window of its entity.\<close>

definition triggers :: "BehavioralRule \<Rightarrow> BehavioralEvent \<Rightarrow> bool" where
  "triggers rule ev \<longleftrightarrow> br_event_source rule = be_source ev \<and>
     (case br_kind rule of Threshold c m w \<Rightarrow> str_contains (be_text ev) c | _ \<Rightarrow> False)"

definition th_step :: "BehavioralEngine \<Rightarrow> BehavioralRule \<Rightarrow> nat list \<Rightarrow> nat \<Rightarrow> bool \<times> nat list" where
  "th_step eng rule d now = (case br_kind rule of
     Threshold c m w \<Rightarrow> (let d' = pruned (window_of eng w) d now in (fires m d', if fires m d' then [] else d'))
   | _ \<Rightarrow> (False, d))"

text \<open>Room for every entity of a set: nothing is evicted.\<close>

definition room_for :: "string set \<Rightarrow> BehavioralEngine \<Rightarrow> bool" where
  "room_for E eng \<longleftrightarrow> finite E \<and> card E * length (rules eng) \<le> max_entities eng \<and>
     fst ` set (threshold_state eng) \<subseteq> {..<length (rules eng)} \<times> E"

lemma room_for_length:
  assumes "finite E" "card E * n \<le> cap" "fst ` set m \<subseteq> {..<n} \<times> E" "distinct (map fst m)"
  shows "length m \<le> cap"
proof -
  have "length m = card (fst ` set m)" using distinct_card [OF assms(4)] by simp
  also have "\<dots> \<le> card ({..<n} \<times> E)" using assms(1,3) by (intro card_mono) simp_all
  also have "\<dots> = card E * n" by (simp add: card_cartesian_product mult.commute)
  finally show ?thesis using assms(2) by simp
qed

lemma eval_threshold_state:
  assumes "engine_inv eng" "idx < length (rules eng)" "room_for E eng" "be_entity ev \<in> E" "str_contains (be_text ev) c"
  shows "threshold_state (snd (eval_threshold idx rule c m w ev now eng)) =
    im_put (idx, be_entity ev) (let d = pruned (window_of eng w) (deque_of eng idx (be_entity ev)) now in if fires m d then [] else d) (threshold_state eng)"
proof -
  let ?v = "let d = pruned (window_of eng w) (deque_of eng idx (be_entity ev)) now in if fires m d then [] else d"
  let ?m = "im_put (idx, be_entity ev) ?v (threshold_state eng)"
  have r: "finite E" "card E * length (rules eng) \<le> max_entities eng" "fst ` set (threshold_state eng) \<subseteq> {..<length (rules eng)} \<times> E"
    using assms(3) by (simp_all add: room_for_def)
  have "length ?m \<le> max_entities eng"
    using assms(1,2,4) r(3) by (intro room_for_length [OF r(1,2)] distinct_im_put) (auto simp: keys_im_put engine_inv_def)
  then have "maybe_evict (max_entities eng) ?m = ?m" by (rule maybe_evict_props(4))
  then show ?thesis by (simp add: eval_threshold_eq [OF assms(5)] Let_def)
qed

lemma eval_rule_deque:
  assumes "engine_inv eng" "idx < length (rules eng)" "room_for E eng" "be_entity ev \<in> E"
  shows "deque_of (snd (eval_rule env ev now idx eng)) j e =
      (if j = idx \<and> e = be_entity ev \<and> triggers (rules eng ! idx) ev
       then snd (th_step eng (rules eng ! idx) (deque_of eng j e) now) else deque_of eng j e)"
    and "room_for E (snd (eval_rule env ev now idx eng))"
proof -
  let ?rule = "rules eng ! idx" and ?e = "snd (eval_rule env ev now idx eng)"
  have su: "same_setup eng ?e" by (rule eval_rule_setup)
  have "deque_of ?e j e = (if j = idx \<and> e = be_entity ev \<and> triggers ?rule ev
       then snd (th_step eng ?rule (deque_of eng j e) now) else deque_of eng j e) \<and>
     fst ` set (threshold_state ?e) \<subseteq> {..<length (rules eng)} \<times> E"
  proof (cases "triggers ?rule ev")
    case True
    then obtain c m w where k: "br_kind ?rule = Threshold c m w" and c: "str_contains (be_text ev) c"
      and src: "br_event_source ?rule = be_source ev"
      by (auto simp: triggers_def split: BehavioralRuleKind.splits)
    have e: "?e = snd (eval_threshold idx ?rule c m w ev now eng)" by (simp add: eval_rule_def Let_def src k)
    note st = eval_threshold_state [OF assms c, of ?rule m w now, folded e]
    show ?thesis using True assms(2,3,4)
      by (auto simp: deque_of_def [of ?e] st map_of_im_put keys_im_put th_step_def k Let_def room_for_def) (simp_all add: deque_of_def)
  next
    case False
    have "threshold_state ?e = threshold_state eng"
    proof (cases "br_kind ?rule")
      case (Sequence seq w)
      then show ?thesis using eval_sequence_engine [of idx ?rule seq w ev now eng] by (auto simp: eval_rule_def Let_def)
    qed (use False in \<open>auto simp: eval_rule_def eval_threshold_def Let_def triggers_def\<close>)
    with False assms(3) show ?thesis by (simp add: deque_of_def room_for_def)
  qed
  with su assms(3) show "deque_of ?e j e = (if j = idx \<and> e = be_entity ev \<and> triggers ?rule ev
       then snd (th_step eng ?rule (deque_of eng j e) now) else deque_of eng j e)" "room_for E ?e"
    by (auto simp: room_for_def same_setup_def)
qed

lemma th_step_setup: "same_setup eng eng' \<Longrightarrow> th_step eng' = th_step eng"
  by (simp add: th_step_def same_setup_def window_of_def fun_eq_iff split: BehavioralRuleKind.split)

text \<open>The matches of one rule are its own, and those of a threshold rule are decided by the window.\<close>

lemma eval_rule_hits: "x \<in> set (fst (eval_rule env ev now idx eng)) \<Longrightarrow> x = rule_match (rules eng ! idx) ev"
  by (auto simp: eval_rule_def eval_threshold_def eval_sequence_def eval_chain_def Let_def
      split: if_splits BehavioralRuleKind.splits option.splits prod.splits)

lemma eval_rule_threshold_hit:
  assumes "br_kind (rules eng ! idx) = Threshold c m w"
  shows "fst (eval_rule env ev now idx eng) =
    (if triggers (rules eng ! idx) ev \<and> fst (th_step eng (rules eng ! idx) (deque_of eng idx (be_entity ev)) now)
     then [rule_match (rules eng ! idx) ev] else [])"
proof (cases "str_contains (be_text ev) c")
  case True
  then show ?thesis by (simp add: eval_rule_def Let_def assms triggers_def th_step_def eval_threshold_eq)
next
  case False
  then show ?thesis by (simp add: eval_rule_def Let_def assms triggers_def eval_threshold_def)
qed

lemma eval_from_Cons:
  "fst (eval_from env ev now (i # is) eng) = fst (eval_rule env ev now i eng) @ fst (eval_from env ev now is (snd (eval_rule env ev now i eng)))"
  "snd (eval_from env ev now (i # is) eng) = snd (eval_from env ev now is (snd (eval_rule env ev now i eng)))"
  by (simp_all add: Let_def split: prod.split)

lemma eval_from_deque:
  assumes "engine_inv eng" "counts_fit (rules eng)" "room_for E eng" "be_entity ev \<in> E"
    and "distinct idxs" "\<forall>i\<in>set idxs. i < length (rules eng)"
  shows "deque_of (snd (eval_from env ev now idxs eng)) j e =
      (if j \<in> set idxs \<and> e = be_entity ev \<and> triggers (rules eng ! j) ev
       then snd (th_step eng (rules eng ! j) (deque_of eng j e) now) else deque_of eng j e)
    \<and> room_for E (snd (eval_from env ev now idxs eng))"
  using assms
proof (induction idxs arbitrary: eng)
  case (Cons i "is")
  let ?e = "snd (eval_rule env ev now i eng)"
  have i: "i < length (rules eng)" using Cons.prems(6) by simp
  have su: "same_setup eng ?e" by (rule eval_rule_setup)
  then have r: "rules ?e = rules eng" by (simp add: same_setup_def)
  note d = eval_rule_deque [OF Cons.prems(1) i Cons.prems(3,4), of env now]
  have "deque_of (snd (eval_from env ev now is ?e)) j e =
      (if j \<in> set is \<and> e = be_entity ev \<and> triggers (rules ?e ! j) ev
       then snd (th_step ?e (rules ?e ! j) (deque_of ?e j e) now) else deque_of ?e j e)
    \<and> room_for E (snd (eval_from env ev now is ?e))"
    using Cons.prems i d(2) by (intro Cons.IH eval_rule_inv) (simp_all add: r)
  moreover have "deque_of ?e j e = (if j = i \<and> e = be_entity ev \<and> triggers (rules eng ! i) ev
       then snd (th_step eng (rules eng ! i) (deque_of eng j e) now) else deque_of eng j e)" by (rule d(1))
  moreover have "i \<notin> set is" using Cons.prems(5) by simp
  ultimately show ?case unfolding eval_from_Cons(2) th_step_setup [OF su] r by auto
qed simp

lemma eval_from_hits:
  "x \<in> set (fst (eval_from env ev now idxs eng)) \<Longrightarrow> \<exists>i\<in>set idxs. x = rule_match (rules eng ! i) ev"
proof (induction idxs arbitrary: eng)
  case (Cons i "is")
  have r: "rules (snd (eval_rule env ev now i eng)) = rules eng" using eval_rule_setup by (simp add: same_setup_def)
  from Cons.prems consider "x \<in> set (fst (eval_rule env ev now i eng))"
    | "x \<in> set (fst (eval_from env ev now is (snd (eval_rule env ev now i eng))))" unfolding eval_from_Cons by auto
  then show ?case
  proof cases
    case 1
    then show ?thesis using eval_rule_hits by auto
  next
    case 2
    from Cons.IH [OF this] show ?thesis unfolding r by auto
  qed
qed simp

lemma rule_match_inject:
  assumes "distinct (map br_id rs)" "i < length rs" "j < length rs" "rule_match (rs ! i) ev = rule_match (rs ! j) ev"
  shows "i = j"
proof -
  have "map br_id rs ! i = map br_id rs ! j" using assms(2-4) by (simp add: rule_match_def)
  then show ?thesis using nth_eq_iff_index_eq [OF assms(1)] assms(2,3) by simp
qed

lemma eval_from_threshold:
  assumes "engine_inv eng" "counts_fit (rules eng)" "room_for E eng" "be_entity ev \<in> E"
    and "distinct idxs" "\<forall>i\<in>set idxs. i < length (rules eng)" "distinct (map br_id (rules eng))"
    and "j \<in> set idxs" "br_kind (rules eng ! j) = Threshold c m w"
  shows "rule_match (rules eng ! j) ev \<in> set (fst (eval_from env ev now idxs eng)) \<longleftrightarrow>
    triggers (rules eng ! j) ev \<and> fst (th_step eng (rules eng ! j) (deque_of eng j (be_entity ev)) now)"
  using assms
proof (induction idxs arbitrary: eng)
  case (Cons i "is")
  let ?e = "snd (eval_rule env ev now i eng)"
  have i: "i < length (rules eng)" and j: "j < length (rules eng)" using Cons.prems(6,8) by auto
  have su: "same_setup eng ?e" by (rule eval_rule_setup)
  then have r: "rules ?e = rules eng" by (simp add: same_setup_def)
  note d = eval_rule_deque [OF Cons.prems(1) i Cons.prems(3,4), of env now]
  show ?case
  proof (cases "i = j")
    case True
    have "rule_match (rules eng ! j) ev \<notin> set (fst (eval_from env ev now is ?e))"
    proof
      assume "rule_match (rules eng ! j) ev \<in> set (fst (eval_from env ev now is ?e))"
      then obtain i' where "i' \<in> set is" "rule_match (rules eng ! j) ev = rule_match (rules eng ! i') ev"
        using eval_from_hits r by metis
      moreover from this have "j = i'" using Cons.prems(6) by (intro rule_match_inject [OF Cons.prems(7) j]) simp_all
      ultimately show False using Cons.prems(5) True by simp
    qed
    then show ?thesis using eval_rule_threshold_hit [OF Cons.prems(9), of env ev now] unfolding eval_from_Cons(1) True by simp
  next
    case False
    have no: "rule_match (rules eng ! j) ev \<notin> set (fst (eval_rule env ev now i eng))"
      using eval_rule_hits rule_match_inject [OF Cons.prems(7) i j] False by metis
    have "rule_match (rules ?e ! j) ev \<in> set (fst (eval_from env ev now is ?e)) \<longleftrightarrow>
      triggers (rules ?e ! j) ev \<and> fst (th_step ?e (rules ?e ! j) (deque_of ?e j (be_entity ev)) now)"
      using Cons.prems i d(2) False by (intro Cons.IH eval_rule_inv) (simp_all add: r)
    moreover have "deque_of ?e j (be_entity ev) = deque_of eng j (be_entity ev)" using False by (simp add: d(1))
    ultimately show ?thesis using no unfolding eval_from_Cons(1) th_step_setup [OF su] r by simp
  qed
qed simp

text \<open>The times of the events a rule counts for an entity.\<close>

definition counted :: "BehavioralRule \<Rightarrow> string \<Rightarrow> (BehavioralEvent \<times> nat) list \<Rightarrow> nat list" where
  "counted rule e evs = map snd (filter (\<lambda>p. triggers rule (fst p) \<and> be_entity (fst p) = e) evs)"

lemma engine_after_deque:
  assumes "engine_inv eng" "counts_fit (rules eng)" "room_for E eng" "be_entity ` fst ` set evs \<subseteq> E" "j < length (rules eng)"
  shows "deque_of (engine_after env eng evs) j e =
      foldl (\<lambda>d t. snd (th_step eng (rules eng ! j) d t)) (deque_of eng j e) (counted (rules eng ! j) e evs)
    \<and> room_for E (engine_after env eng evs)"
  using assms
proof (induction evs arbitrary: eng)
  case (Cons p evs)
  obtain ev now where p: "p = (ev, now)" by fastforce
  let ?e = "snd (evaluate_at env ev now eng)" and ?rule = "rules eng ! j"
  note s = evaluate_at_inv [OF Cons.prems(1,2), of env ev now]
  have r: "rules ?e = rules eng" using s(2) by (simp add: same_setup_def)
  have ent: "be_entity ev \<in> E" "be_entity ` fst ` set evs \<subseteq> E" using Cons.prems(4) by (simp_all add: p)
  have d: "deque_of ?e j e = (if e = be_entity ev \<and> triggers ?rule ev then snd (th_step eng ?rule (deque_of eng j e) now) else deque_of eng j e)"
    and room: "room_for E ?e"
    using eval_from_deque [OF Cons.prems(1-3) ent(1), of "[0..<length (rules eng)]" env now j e] Cons.prems(5)
    by (simp_all add: evaluate_at_def)
  have "deque_of (engine_after env ?e evs) j e =
      foldl (\<lambda>d t. snd (th_step ?e (rules ?e ! j) d t)) (deque_of ?e j e) (counted (rules ?e ! j) e evs)
    \<and> room_for E (engine_after env ?e evs)"
    using Cons.prems(2,5) ent(2) by (intro Cons.IH s(1) room) (simp_all add: r)
  then show ?case by (simp add: p d r th_step_setup [OF s(2)] counted_def)
qed (simp add: counted_def)

text \<open>The reference: of the events counted since the last alert, those inside the window ending now.\<close>

definition in_window :: "nat \<Rightarrow> nat list \<Rightarrow> nat \<Rightarrow> nat list" where
  "in_window W d now = filter (\<lambda>t. now - t \<le> W) (d @ [now])"

definition window_step :: "nat \<Rightarrow> nat \<Rightarrow> nat list \<Rightarrow> nat \<Rightarrow> nat list" where
  "window_step m W d now = (if m \<le> length (in_window W d now) then [] else in_window W d now)"

lemma dropWhile_sorted_filter:
  "sorted d \<Longrightarrow> dropWhile (\<lambda>t. now - t > W) d = filter (\<lambda>t. now - t \<le> W) (d :: nat list)"
proof (induction d)
  case (Cons t d)
  show ?case
  proof (cases "now - t > W")
    case False
    have "now - u \<le> W" if "u \<in> set d" for u using Cons.prems that False by (auto simp: not_less dest!: bspec)
    then have "filter (\<lambda>u. now - u \<le> W) d = d" by (simp add: filter_id_conv)
    with False show ?thesis by (simp add: not_less)
  qed (use Cons in simp)
qed simp

lemma pruned_in_window: "sorted (d @ [now]) \<Longrightarrow> pruned W d now = in_window W d now"
  unfolding pruned_def in_window_def by (rule dropWhile_sorted_filter)

lemma window_step_sorted:
  assumes "sorted (d @ t # ts)"
  shows "sorted (window_step m W d t @ ts)"
proof -
  have "sorted (filter (\<lambda>x. t - x \<le> W) (d @ [t]) @ ts)"
    using assms by (auto simp: sorted_append sorted_wrt_filter)
  moreover have "sorted ts" using assms by (simp add: sorted_append)
  ultimately show ?thesis by (simp add: window_step_def in_window_def)
qed

text \<open>On sorted times, and while windows stay shorter than their count, the engine's step is the reference.\<close>

lemma th_step_window:
  assumes "br_kind rule = Threshold c m w" "m < 2 ^ 32" "length d < max m 1" "sorted (d @ [now])"
  shows "th_step eng rule d now = (m \<le> length (in_window (window_of eng w) d now), window_step m (window_of eng w) d now)"
proof -
  have "length (in_window (window_of eng w) d now) \<le> length d + 1"
    unfolding in_window_def by (metis length_append_singleton length_filter_le Suc_eq_plus1)
  also have "\<dots> < 2 ^ 32" using assms(2,3) by (simp add: max_def split: if_splits)
  finally have "length (in_window (window_of eng w) d now) mod 2 ^ 32 = length (in_window (window_of eng w) d now)"
    by simp
  then show ?thesis
    using assms(1) pruned_in_window [OF assms(4)] by (simp add: th_step_def fires_def window_step_def Let_def)
qed

lemma th_fold_window:
  assumes "br_kind rule = Threshold c m w" "m < 2 ^ 32"
  shows "length d < max m 1 \<Longrightarrow> sorted (d @ ts) \<Longrightarrow>
    foldl (\<lambda>d t. snd (th_step eng rule d t)) d ts = foldl (window_step m (window_of eng w)) d ts \<and>
    length (foldl (window_step m (window_of eng w)) d ts) < max m 1 \<and>
    (\<forall>u. sorted (d @ ts @ [u]) \<longrightarrow> sorted (foldl (window_step m (window_of eng w)) d ts @ [u]))"
proof (induction ts arbitrary: d)
  case (Cons t ts)
  let ?d = "window_step m (window_of eng w) d t"
  have "sorted (d @ [t])" using Cons.prems(2) by (simp add: sorted_append)
  note step = th_step_window [OF assms Cons.prems(1) this, of eng]
  have len: "length ?d < max m 1" by (auto simp: window_step_def)
  have srt: "sorted (?d @ ts)" using Cons.prems(2) by (intro window_step_sorted) simp
  have "sorted (?d @ ts @ [u])" if "sorted (d @ (t # ts) @ [u])" for u
    using window_step_sorted [of d t "ts @ [u]"] that by simp
  with Cons.IH [OF len srt] show ?case by (simp add: step)
qed simp

text \<open>
  C19: threshold rules are exact sliding windows. With room for the entities seen, and times that
  do not go back, a threshold rule raises its alert on an event exactly when the event counts for
  the rule and, of the events of the same entity counted since the rule's last alert for it, at
  least \<open>min_count\<close> (this one included) lie within the window, the configured maximum applied.
\<close>

theorem threshold_alert_iff:
  assumes "counts_fit rs" "distinct (map br_id rs)" "j < length rs" "br_kind (rs ! j) = Threshold c m w"
    and "sorted (map snd evs @ [now])"
    and "card (be_entity ` fst ` set (evs @ [(ev, now)])) * length rs \<le> max me 1"
    and "W = min (w * ns_per_sec) (max mw 1 * ns_per_sec)"
  shows "rule_match (rs ! j) ev \<in> set (fst (evaluate_at env ev now (engine_after env (engine_new env rs me mw) evs)))
    \<longleftrightarrow> triggers (rs ! j) ev \<and>
       m \<le> length (in_window W (foldl (window_step m W) [] (counted (rs ! j) (be_entity ev) evs)) now)"
proof -
  let ?n = "engine_new env rs me mw" and ?E = "be_entity ` fst ` set (evs @ [(ev, now)])"
  let ?e = "engine_after env ?n evs" and ?ts = "counted (rs ! j) (be_entity ev) evs"
  have m: "m < 2 ^ 32" using assms(1,3,4) unfolding counts_fit_def by (metis BehavioralRuleKind.simps(10) nth_mem)
  have room: "room_for ?E ?n" using assms(6) by (simp add: room_for_def)
  have inv: "engine_inv ?e" and su: "same_setup ?n ?e"
    using engine_after_inv [OF engine_new_inv, of env rs me mw env evs] assms(1) by simp_all
  have W: "window_of ?n w = W" by (simp add: window_of_def assms(7))
  have r: "rules ?e = rs" using su by (simp add: same_setup_def)
  have "deque_of ?e j (be_entity ev) = foldl (\<lambda>d t. snd (th_step ?n (rs ! j) d t)) [] ?ts" and room': "room_for ?E ?e"
    using engine_after_deque [OF engine_new_inv _ room, of evs j env "be_entity ev"] assms(1,3) by (auto simp: deque_of_def)
  moreover have srt: "sorted (?ts @ [now])"
    using assms(5) unfolding counted_def by (auto simp: sorted_append sorted_wrt_map sorted_wrt_filter)
  then have "sorted ?ts" by (simp add: sorted_append)
  ultimately have d: "deque_of ?e j (be_entity ev) = foldl (window_step m W) [] ?ts"
    and len: "length (deque_of ?e j (be_entity ev)) < max m 1" and s: "sorted (deque_of ?e j (be_entity ev) @ [now])"
    using th_fold_window [OF assms(4) m, of "[]" ?ts ?n] srt unfolding W by auto
  have "rule_match (rs ! j) ev \<in> set (fst (evaluate_at env ev now ?e)) \<longleftrightarrow>
    triggers (rs ! j) ev \<and> fst (th_step ?e (rs ! j) (deque_of ?e j (be_entity ev)) now)"
    using eval_from_threshold [OF inv _ room', of ev "[0..<length rs]" j c m w env now] assms(1-4) r
    by (simp add: evaluate_at_def)
  also have "fst (th_step ?e (rs ! j) (deque_of ?e j (be_entity ev)) now) \<longleftrightarrow> m \<le> length (in_window W (deque_of ?e j (be_entity ev)) now)"
    using th_step_window [OF assms(4) m len s, of ?n] unfolding th_step_setup [OF su] W by simp
  finally show ?thesis unfolding d .
qed

text \<open>Two writes to the same file within a minute raise the sample rule's alert.\<close>

theorem threshold_alert_iff_witness:
  "rule_match sample_rule (sample_event ''a'') \<in> set (fst (evaluate_at sample_regexes (sample_event ''a'') 5
     (engine_after sample_regexes (engine_new sample_regexes [sample_rule] 4 60) [(sample_event ''a'', 1)])))"
proof -
  have W: "60 * ns_per_sec = min (60 * ns_per_sec) (max 60 1 * ns_per_sec)" by simp
  have t: "triggers sample_rule (sample_event ''a'')" by code_simp
  have c: "counted sample_rule ''a'' [(sample_event ''a'', 1)] = [1]" using t by (simp add: counted_def sample_event_def)
  have "in_window (60 * ns_per_sec) (foldl (window_step 2 (60 * ns_per_sec)) [] [1]) 5 = [1, 5]"
    by (simp add: in_window_def window_step_def ns_per_sec_def)
  with threshold_alert_iff [of "[sample_rule]" 0 "''tmp''" 2 60 "[(sample_event ''a'', 1)]" 5 "sample_event ''a''" 4 "60 * ns_per_sec" 60 sample_regexes] t c
  show ?thesis by (simp add: counts_fit_def sample_rule_def [THEN arg_cong, of br_kind] sample_rule_def sample_event_def)
qed

section \<open>Sequence alerts are sound\<close>

text \<open>An event of the entity, from the rule's source, whose text has the expected substring.\<close>

definition seq_hit :: "BehavioralRule \<Rightarrow> string \<Rightarrow> BehavioralEvent \<times> nat \<Rightarrow> string \<Rightarrow> bool" where
  "seq_hit rule e p t \<longleftrightarrow> be_source (fst p) = br_event_source rule \<and> be_entity (fst p) = e \<and> str_contains (be_text (fst p)) t"

text \<open>The progress stored for an entity is witnessed by events of the past, in order, the first of them
  at the stored start.\<close>

definition seq_trace :: "BehavioralRule \<Rightarrow> string list \<Rightarrow> string \<Rightarrow> (BehavioralEvent \<times> nat) list \<Rightarrow> SequenceState \<Rightarrow> bool" where
  "seq_trace rule seq e evs st \<longleftrightarrow> ss_position st < length seq \<and>
     (\<exists>xs. subseq xs evs \<and> list_all2 (seq_hit rule e) xs (take (ss_position st) seq) \<and>
        (xs \<noteq> [] \<longrightarrow> snd (hd xs) = ss_started_at st))"

definition seq_entry :: "BehavioralRule list \<Rightarrow> (BehavioralEvent \<times> nat) list \<Rightarrow> key \<times> SequenceState \<Rightarrow> bool" where
  "seq_entry rs evs p \<longleftrightarrow> (case br_kind (rs ! fst (fst p)) of
     Sequence seq w \<Rightarrow> seq_trace (rs ! fst (fst p)) seq (snd (fst p)) evs (snd p) | _ \<Rightarrow> False)"

lemma seq_trace_fresh: "seq \<noteq> [] \<Longrightarrow> seq_trace rule seq e evs \<lparr>ss_position = 0, ss_started_at = now\<rparr>"
  by (simp add: seq_trace_def)

lemma seq_trace_mono: "seq_trace rule seq e evs st \<Longrightarrow> seq_trace rule seq e (evs @ [x]) st"
  unfolding seq_trace_def using subseq_rev_drop_many [of _ evs "[x]"] by blast

lemma seq_entry_mono: "seq_entry rs evs p \<Longrightarrow> seq_entry rs (evs @ [x]) p"
  by (auto simp: seq_entry_def seq_trace_mono split: BehavioralRuleKind.splits)

lemma seq_current_trace:
  assumes "seq \<noteq> []" "\<And>st. found = Some st \<Longrightarrow> seq_trace rule seq e evs st"
  shows "seq_trace rule seq e evs (seq_current W now found)" "now - ss_started_at (seq_current W now found) \<le> W"
  using assms seq_trace_fresh [OF assms(1)] by (auto simp: seq_current_def Let_def split: option.split)

lemma list_all2_snoc: "list_all2 P xs ys \<Longrightarrow> P x y \<Longrightarrow> list_all2 P (xs @ [x]) (ys @ [y])"
  by (rule list_all2_appendI) simp_all

lemma seq_advance_trace:
  assumes "seq_trace rule seq e evs st" "seq_hit rule e (ev, now) (seq ! ss_position st)"
  shows "\<exists>xs. subseq xs (evs @ [(ev, now)]) \<and> xs \<noteq> [] \<and> last xs = (ev, now) \<and>
    list_all2 (seq_hit rule e) xs (take (ss_position (seq_advance now st)) seq) \<and>
    snd (hd xs) = ss_started_at (seq_advance now st)"
proof -
  obtain xs where xs: "subseq xs evs" "list_all2 (seq_hit rule e) xs (take (ss_position st) seq)"
    "xs \<noteq> [] \<longrightarrow> snd (hd xs) = ss_started_at st" and pos: "ss_position st < length seq"
    using assms(1) unfolding seq_trace_def by blast
  have t: "take (Suc (ss_position st)) seq = take (ss_position st) seq @ [seq ! ss_position st]"
    using pos by (rule take_Suc_conv_app_nth)
  have "list_all2 (seq_hit rule e) (xs @ [(ev, now)]) (take (Suc (ss_position st)) seq)"
    unfolding t by (rule list_all2_snoc [OF xs(2) assms(2)])
  moreover have "subseq (xs @ [(ev, now)]) (evs @ [(ev, now)])" using xs(1) by (simp add: subseq_append')
  moreover have "xs = [] \<longleftrightarrow> ss_position st = 0" using list_all2_lengthD [OF xs(2)] pos by auto
  moreover from this have "snd (hd (xs @ [(ev, now)])) = ss_started_at (seq_advance now st)"
    using xs(3) by (cases xs) (auto simp: seq_advance_def Let_def)
  moreover have "ss_position (seq_advance now st) = Suc (ss_position st)" by (simp add: seq_advance_def Let_def)
  ultimately show ?thesis by (intro exI [of _ "xs @ [(ev, now)]"]) simp
qed

text \<open>A full trace: the events of a match of the whole sequence, within the window.\<close>

definition seq_witness :: "BehavioralRule \<Rightarrow> string list \<Rightarrow> nat \<Rightarrow> (BehavioralEvent \<times> nat) list \<Rightarrow> BehavioralEvent \<Rightarrow> nat \<Rightarrow> bool" where
  "seq_witness rule seq W evs ev now \<longleftrightarrow> (\<exists>xs. subseq xs evs \<and> xs \<noteq> [] \<and> last xs = (ev, now) \<and>
     list_all2 (seq_hit rule (be_entity ev)) xs seq \<and> now - snd (hd xs) \<le> W)"

lemma stored_choice:
  assumes "p \<in> set (if e then A else if f then R else M)" "p \<in> set R \<longrightarrow> p \<in> set A \<and> n" "set M \<subseteq> insert x (set R)"
  shows "e \<and> p \<in> set A \<or> \<not> e \<and> p \<in> set A \<and> n \<or> \<not> e \<and> \<not> f \<and> p = x"
  using assms by (auto split: if_splits)

lemma eval_sequence_trace:
  assumes "br_event_source rule = be_source ev"
    and "\<And>st. map_of (sequence_state eng) (idx, be_entity ev) = Some st \<Longrightarrow> seq_trace rule seq (be_entity ev) evs st"
  shows "p \<in> set (sequence_state (snd (eval_sequence idx rule seq w ev now eng))) \<Longrightarrow>
      p \<in> set (sequence_state eng) \<and> (seq \<noteq> [] \<longrightarrow> fst p \<noteq> (idx, be_entity ev)) \<or>
      fst p = (idx, be_entity ev) \<and> seq_trace rule seq (be_entity ev) (evs @ [(ev, now)]) (snd p)"
    and "fst (eval_sequence idx rule seq w ev now eng) \<noteq> [] \<Longrightarrow>
      seq_witness rule seq (window_of eng w) (evs @ [(ev, now)]) ev now"
proof -
  let ?k = "(idx, be_entity ev)" and ?W = "window_of eng w"
  let ?st = "seq_current ?W now (map_of (sequence_state eng) ?k)"
  let ?hit = "str_contains (be_text ev) (seq ! ss_position ?st)"
  let ?st' = "if ?hit then seq_advance now ?st else ?st"
  have removed: "p \<in> set (im_remove ?k (sequence_state eng)) \<longrightarrow> p \<in> set (sequence_state eng) \<and> fst p \<noteq> ?k" for p
    by (auto simp: im_remove_def)
  have tr: "seq_trace rule seq (be_entity ev) evs ?st" "now - ss_started_at ?st \<le> ?W" if "seq \<noteq> []"
    by (rule seq_current_trace(1) [OF that assms(2)], assumption) (rule seq_current_trace(2) [OF that assms(2)])
  have adv: "\<exists>xs. subseq xs (evs @ [(ev, now)]) \<and> xs \<noteq> [] \<and> last xs = (ev, now) \<and>
      list_all2 (seq_hit rule (be_entity ev)) xs (take (ss_position (seq_advance now ?st)) seq) \<and>
      snd (hd xs) = ss_started_at (seq_advance now ?st)" if "seq \<noteq> []" ?hit
    using that assms(1) by (intro seq_advance_trace tr(1)) (simp_all add: seq_hit_def)
  have kept: "seq_trace rule seq (be_entity ev) (evs @ [(ev, now)]) ?st'"
    if "seq \<noteq> []" "\<not> (?hit \<and> length seq \<le> ss_position ?st')"
  proof (cases ?hit)
    case True
    with adv [OF that(1)] that(2) show ?thesis unfolding seq_trace_def by auto
  next
    case False
    with seq_trace_mono [OF tr(1) [OF that(1)]] show ?thesis by simp
  qed
  have W: "min (w * ns_per_sec) (max_window eng) = ?W" by (simp add: window_of_def)
  have state: "sequence_state (snd (eval_sequence idx rule seq w ev now eng)) =
    (if seq = [] then sequence_state eng
     else if ?hit \<and> length seq \<le> ss_position ?st' then im_remove ?k (sequence_state eng)
     else maybe_evict (max_entities eng) (im_remove ?k (sequence_state eng) @ [(?k, ?st')]))"
    unfolding eval_sequence_def Let_def W by simp
  have new_entries: "set (maybe_evict (max_entities eng) (im_remove ?k (sequence_state eng) @ [(?k, ?st')])) \<subseteq>
      insert (?k, ?st') (set (im_remove ?k (sequence_state eng)))"
    using maybe_evict_props(2) [of "max_entities eng" "im_remove ?k (sequence_state eng) @ [(?k, ?st')]"] by auto
  show "p \<in> set (sequence_state eng) \<and> (seq \<noteq> [] \<longrightarrow> fst p \<noteq> ?k) \<or>
      fst p = ?k \<and> seq_trace rule seq (be_entity ev) (evs @ [(ev, now)]) (snd p)"
    if "p \<in> set (sequence_state (snd (eval_sequence idx rule seq w ev now eng)))"
    using stored_choice [OF that [unfolded state] removed [of p] new_entries]
  proof (elim disjE conjE)
    assume "seq \<noteq> []" "\<not> (?hit \<and> length seq \<le> ss_position ?st')" "p = (?k, ?st')"
    with kept show ?thesis by (simp only: fst_conv snd_conv) blast
  qed simp_all
  assume fired: "fst (eval_sequence idx rule seq w ev now eng) \<noteq> []"
  then have ne: "seq \<noteq> []" and hit: ?hit and full: "length seq \<le> ss_position (seq_advance now ?st)"
    unfolding eval_sequence_def Let_def W by (auto split: if_splits)
  have "now - ss_started_at (seq_advance now ?st) \<le> ?W"
    using tr(2) [OF ne] by (simp add: seq_advance_def Let_def)
  with adv [OF ne hit] full show "seq_witness rule seq ?W (evs @ [(ev, now)]) ev now"
    unfolding seq_witness_def by auto
qed

lemma eval_rule_entries:
  assumes "\<forall>p\<in>set (sequence_state eng). fst (fst p) = idx \<longrightarrow> seq_entry (rules eng) evs p"
  shows "p \<in> set (sequence_state (snd (eval_rule env ev now idx eng))) \<Longrightarrow>
      p \<in> set (sequence_state eng) \<or> fst (fst p) = idx \<and> seq_entry (rules eng) (evs @ [(ev, now)]) p"
    and "br_kind (rules eng ! idx) = Sequence seq w \<Longrightarrow> fst (eval_rule env ev now idx eng) \<noteq> [] \<Longrightarrow>
      seq_witness (rules eng ! idx) seq (window_of eng w) (evs @ [(ev, now)]) ev now"
proof -
  let ?rule = "rules eng ! idx"
  have found: "seq_trace ?rule seq (be_entity ev) evs st"
    if "map_of (sequence_state eng) (idx, be_entity ev) = Some st" "br_kind ?rule = Sequence seq w" for st seq w
    using bspec [OF assms map_of_SomeD [OF that(1)]] that(2) by (simp add: seq_entry_def)
  have other: "sequence_state (snd (eval_rule env ev now idx eng)) = sequence_state eng"
    if "br_event_source ?rule \<noteq> be_source ev \<or> \<not> is_Sequence (br_kind ?rule)"
    using that by (auto simp: eval_rule_def eval_threshold_def Let_def split: BehavioralRuleKind.split)
  have same: "eval_rule env ev now idx eng = eval_sequence idx ?rule seq w ev now eng"
    if "br_event_source ?rule = be_source ev" "br_kind ?rule = Sequence seq w" for seq w
    using that by (simp add: eval_rule_def Let_def)
  show "p \<in> set (sequence_state eng) \<or> fst (fst p) = idx \<and> seq_entry (rules eng) (evs @ [(ev, now)]) p"
    if p: "p \<in> set (sequence_state (snd (eval_rule env ev now idx eng)))"
  proof (cases "br_event_source ?rule = be_source ev \<and> is_Sequence (br_kind ?rule)")
    case True
    then obtain seq w where k: "br_kind ?rule = Sequence seq w" by (cases "br_kind ?rule") auto
    from eval_sequence_trace(1) [OF _ found [OF _ k] p [unfolded same [OF conjunct1 [OF True] k]]] True
    show ?thesis by (auto simp: seq_entry_def k)
  next
    case False
    then show ?thesis using p other by auto
  qed
  assume k: "br_kind ?rule = Sequence seq w" and fired: "fst (eval_rule env ev now idx eng) \<noteq> []"
  then have src: "br_event_source ?rule = be_source ev" by (auto simp: eval_rule_def Let_def split: if_splits)
  show "seq_witness ?rule seq (window_of eng w) (evs @ [(ev, now)]) ev now"
    by (rule eval_sequence_trace(2) [OF src found [OF _ k] fired [unfolded same [OF src k]]])
qed

lemma eval_from_entries:
  assumes "distinct idxs" "\<forall>p\<in>set (sequence_state eng). seq_entry (rules eng) (if fst (fst p) \<in> set idxs then evs else evs @ [(ev, now)]) p"
  shows "(\<forall>p\<in>set (sequence_state (snd (eval_from env ev now idxs eng))). seq_entry (rules eng) (evs @ [(ev, now)]) p) \<and>
    (\<forall>x\<in>set (fst (eval_from env ev now idxs eng)). \<exists>i\<in>set idxs. x = rule_match (rules eng ! i) ev \<and>
       (\<forall>seq w. br_kind (rules eng ! i) = Sequence seq w \<longrightarrow> seq_witness (rules eng ! i) seq (window_of eng w) (evs @ [(ev, now)]) ev now))"
  using assms
proof (induction idxs arbitrary: eng)
  case (Cons i "is")
  let ?e = "snd (eval_rule env ev now i eng)"
  have su: "same_setup eng ?e" by (rule eval_rule_setup)
  then have r: "rules ?e = rules eng" and w: "window_of ?e = window_of eng" by (auto simp: same_setup_def window_of_def)
  have mine: "\<forall>p\<in>set (sequence_state eng). fst (fst p) = i \<longrightarrow> seq_entry (rules eng) evs p"
    using Cons.prems(2) by fastforce
  have "seq_entry (rules ?e) (if fst (fst p) \<in> set is then evs else evs @ [(ev, now)]) p" if p: "p \<in> set (sequence_state ?e)" for p
    using eval_rule_entries(1) [OF mine p]
  proof (elim disjE conjE)
    assume old: "p \<in> set (sequence_state eng)"
    with Cons.prems mine seq_entry_mono show ?thesis unfolding r by (cases "fst (fst p) = i") auto
  next
    assume "fst (fst p) = i" "seq_entry (rules eng) (evs @ [(ev, now)]) p"
    with Cons.prems(1) show ?thesis unfolding r by simp
  qed
  with Cons.IH [of ?e] Cons.prems(1)
  have IH: "\<forall>p\<in>set (sequence_state (snd (eval_from env ev now is ?e))). seq_entry (rules eng) (evs @ [(ev, now)]) p"
    "\<forall>x\<in>set (fst (eval_from env ev now is ?e)). \<exists>i\<in>set is. x = rule_match (rules eng ! i) ev \<and>
       (\<forall>seq w. br_kind (rules eng ! i) = Sequence seq w \<longrightarrow> seq_witness (rules eng ! i) seq (window_of eng w) (evs @ [(ev, now)]) ev now)"
    unfolding r w by simp_all
  have "x = rule_match (rules eng ! i) ev \<and>
      (\<forall>seq w. br_kind (rules eng ! i) = Sequence seq w \<longrightarrow> seq_witness (rules eng ! i) seq (window_of eng w) (evs @ [(ev, now)]) ev now)"
    if "x \<in> set (fst (eval_rule env ev now i eng))" for x
  proof (intro conjI allI impI)
    fix seq w
    assume k: "br_kind (rules eng ! i) = Sequence seq w"
    have "fst (eval_rule env ev now i eng) \<noteq> []" using that by auto
    from eval_rule_entries(2) [OF mine k this] show "seq_witness (rules eng ! i) seq (window_of eng w) (evs @ [(ev, now)]) ev now" .
  qed (rule eval_rule_hits [OF that])
  with IH show ?case unfolding eval_from_Cons by auto
qed simp

lemma engine_after_entries:
  assumes "counts_fit (rules eng)" "engine_inv eng" "\<forall>p\<in>set (sequence_state eng). seq_entry (rules eng) pre p"
  shows "\<forall>p\<in>set (sequence_state (engine_after env eng evs)). seq_entry (rules eng) (pre @ evs) p"
  using assms
proof (induction evs arbitrary: eng pre)
  case (Cons e evs)
  let ?e = "snd (evaluate_at env (fst e) (snd e) eng)"
  note inv = evaluate_at_inv [OF Cons.prems(2,1), of env "fst e" "snd e"]
  then have r: "rules ?e = rules eng" by (simp add: same_setup_def)
  have "\<forall>p\<in>set (sequence_state eng). seq_entry (rules eng) (if fst (fst p) \<in> set [0..<length (rules eng)] then pre else pre @ [(fst e, snd e)]) p"
    using Cons.prems(3) seq_entry_mono by simp
  from eval_from_entries [OF distinct_upt this]
  have "\<forall>p\<in>set (sequence_state ?e). seq_entry (rules ?e) (pre @ [e]) p" unfolding r by (simp add: evaluate_at_def)
  with Cons.IH [of ?e "pre @ [e]"] inv(1) Cons.prems(1) show ?case unfolding r by simp
qed simp

text \<open>
  C20: sequence alerts are sound. When a sequence rule raises its alert on an event, the events seen
  contain, in this order and ending with the event itself, one event per step of the sequence, all
  from the rule's source and of the alert's entity, each holding its step's text, and the first at
  most the window (the configured maximum applied) before the last.
\<close>

theorem sequence_alert_sound:
  assumes "counts_fit rs" "distinct (map br_id rs)" "j < length rs" "br_kind (rs ! j) = Sequence seq w"
    and "rule_match (rs ! j) ev \<in> set (fst (evaluate_at env ev now (engine_after env (engine_new env rs me mw) evs)))"
  shows "\<exists>xs. subseq xs (evs @ [(ev, now)]) \<and> xs \<noteq> [] \<and> last xs = (ev, now) \<and>
    list_all2 (seq_hit (rs ! j) (be_entity ev)) xs seq \<and>
    now - snd (hd xs) \<le> min (w * ns_per_sec) (max mw 1 * ns_per_sec)"
proof -
  let ?n = "engine_new env rs me mw"
  let ?e = "engine_after env ?n evs"
  have su: "same_setup ?n ?e" using engine_after_inv [OF engine_new_inv, of env rs me mw env evs] assms(1) by simp
  then have r: "rules ?e = rs" and w: "window_of ?e w = min (w * ns_per_sec) (max mw 1 * ns_per_sec)"
    by (simp_all add: same_setup_def window_of_def)
  have "\<forall>p\<in>set (sequence_state ?e). seq_entry rs evs p"
    using engine_after_entries [OF _ engine_new_inv, of env rs me mw "[]" env evs] assms(1) by simp
  then have "\<forall>p\<in>set (sequence_state ?e). seq_entry (rules ?e) (if fst (fst p) \<in> set [0..<length rs] then evs else evs @ [(ev, now)]) p"
    using seq_entry_mono r by simp
  from eval_from_entries [where env = env, OF distinct_upt this] assms(5) obtain i where i: "i < length rs" "rule_match (rs ! j) ev = rule_match (rs ! i) ev"
    "\<forall>seq w. br_kind (rs ! i) = Sequence seq w \<longrightarrow> seq_witness (rs ! i) seq (window_of ?e w) (evs @ [(ev, now)]) ev now"
    unfolding r evaluate_at_def by auto
  have "j = i" by (rule rule_match_inject [OF assms(2,3) i(1,2)])
  with i(3) assms(4) have "seq_witness (rs ! j) seq (window_of ?e w) (evs @ [(ev, now)]) ev now" by simp
  then show ?thesis unfolding seq_witness_def w .
qed

text \<open>The same file staged and then executed raises the alert of a two-step sequence.\<close>

definition sample_sequence :: BehavioralRule where
  "sample_sequence = sample_rule\<lparr>br_kind := Sequence [''tm'', ''mp''] 60\<rparr>"

theorem sequence_alert_sound_witness:
  "\<exists>xs. subseq xs [(sample_event ''b'', 1), (sample_event ''a'', 3), (sample_event ''a'', 5)] \<and> xs \<noteq> [] \<and>
     last xs = (sample_event ''a'', 5) \<and> list_all2 (seq_hit sample_sequence ''a'') xs [''tm'', ''mp''] \<and>
     5 - snd (hd xs) \<le> 60 * ns_per_sec"
proof -
  have "rule_match sample_sequence (sample_event ''a'') \<in> set (fst (evaluate_at sample_regexes (sample_event ''a'') 5
     (engine_after sample_regexes (engine_new sample_regexes [sample_sequence] 4 60)
        [(sample_event ''b'', 1), (sample_event ''a'', 3)])))" by code_simp
  with sequence_alert_sound [of "[sample_sequence]" 0 "[''tm'', ''mp'']" 60 "sample_event ''a''" sample_regexes 5 4 60
      "[(sample_event ''b'', 1), (sample_event ''a'', 3)]"]
  show ?thesis by (simp add: counts_fit_def sample_sequence_def sample_rule_def sample_event_def)
qed

end
