(* ===== verification/LdeTrds.thy ===== *)
theory LdeTrds
  imports LdeIoc LdeBehavioral
begin

text \<open>
  Rule bundles and where they come from: the bundle of \<open>sda-local-detection/src/rule_store.rs\<close>, the
  client and verifier of the rule distribution service (\<open>trds_client.rs\<close>) and the configured
  signing keys (\<open>build_signing_keys\<close> of \<open>lib.rs\<close>).

  Hex, Base64, Ed25519, MessagePack and JSON decoding are parameters, and so is the reply of the
  HTTP client. The main lemma says exactly which envelopes are accepted.
\<close>

section \<open>Bundles and keys\<close>

record RuleBundle =
  rb_version :: nat
  rb_generated_at :: string
  rb_iocs :: IocList
  rb_behavioral :: "BehavioralRule list"
  rb_yara_paths :: "string list"

record SignedBundleEnvelope =
  se_version :: nat
  se_key_id :: string
  se_bundle_b64 :: string
  se_signature_b64 :: string

record SigningKey =
  sk_key_id :: string
  sk_public_hex :: string

record VerifiedBundle =
  vb_version :: nat
  vb_key_id :: string
  vb_bundle :: RuleBundle

datatype TrdsError =
    BadEndpoint string
  | Http string
  | HttpStatus nat
  | BadEnvelope string
  | BadBase64 string
  | BadBundle string
  | VersionMismatch nat nat
  | UnknownKeyId string
  | BadKeyHex string
  | SignatureInvalid string

definition is_security_alert :: "TrdsError \<Rightarrow> bool" where
  "is_security_alert e = (case e of SignatureInvalid _ \<Rightarrow> True | UnknownKeyId _ \<Rightarrow> True | VersionMismatch _ _ \<Rightarrow> True | _ \<Rightarrow> False)"

text \<open>The decoders, with the text of their errors, and the signature check.\<close>

record TrdsLibs =
  hex_decode :: "string \<Rightarrow> (bytes, string) result"
  key_from_bytes :: "bytes \<Rightarrow> (bytes, string) result"
  b64_decode :: "string \<Rightarrow> (bytes, string) result"
  ed_verify :: "bytes \<Rightarrow> bytes \<Rightarrow> bytes \<Rightarrow> bool"
  rmp_from_slice :: "bytes \<Rightarrow> (RuleBundle, string) result"
  rmp_to_vec :: "RuleBundle \<Rightarrow> (bytes, string) result"
  envelope_from_slice :: "bytes \<Rightarrow> (SignedBundleEnvelope, string) result"
  url_error :: "string \<Rightarrow> string option"

definition bundle_load :: "TrdsLibs \<Rightarrow> string \<Rightarrow> (bytes, string) result \<Rightarrow> (RuleBundle, string) result" where
  "bundle_load libs path file =
     bind_result (map_err (\<lambda>e. ''failed to read rule bundle '' @ path @ '': '' @ e) file) (\<lambda>bytes.
     map_err (\<lambda>e. ''failed to decode rule bundle: '' @ e) (rmp_from_slice libs bytes))"

definition is_newer_than :: "RuleBundle \<Rightarrow> RuleBundle \<Rightarrow> bool" where
  "is_newer_than a b \<longleftrightarrow> rb_version a > rb_version b"

definition verifying_key :: "TrdsLibs \<Rightarrow> SigningKey \<Rightarrow> (bytes, TrdsError) result" where
  "verifying_key libs k =
     bind_result (map_err (\<lambda>e. BadKeyHex (sk_key_id k @ '': '' @ e)) (hex_decode libs (sk_public_hex k))) (\<lambda>bytes.
     if length bytes \<noteq> 32 then Err (BadKeyHex (sk_key_id k @ '': expected 32 raw bytes''))
     else map_err (\<lambda>e. BadKeyHex (sk_key_id k @ '': '' @ e)) (key_from_bytes libs bytes))"

text \<open>One configured entry, with its position in the list.\<close>

definition signing_key_entry :: "nat \<Rightarrow> string \<Rightarrow> SigningKey" where
  "signing_key_entry i raw =
     (case split_once CHR '':'' raw of
        Some (kid, hex) \<Rightarrow>
          if kid \<noteq> [] \<and> hex \<noteq> [] then \<lparr>sk_key_id = kid, sk_public_hex = hex\<rparr>
          else \<lparr>sk_key_id = ''rotation-'' @ nat_str i, sk_public_hex = raw\<rparr>
      | None \<Rightarrow> \<lparr>sk_key_id = ''rotation-'' @ nat_str i, sk_public_hex = raw\<rparr>)"

definition build_signing_keys :: "TrdsLibs \<Rightarrow> string list \<Rightarrow> SigningKey list" where
  "build_signing_keys libs entries =
     filter (\<lambda>k. is_ok (verifying_key libs k)) (map2 signing_key_entry [0..<length entries] entries)"

section \<open>Fetching and verifying\<close>

text \<open>What the HTTP client answers: a transport error, or a status and the outcome of reading the body.\<close>

datatype HttpReply = SendFailed string | Reply nat "(bytes, string) result"

definition client_new :: "string \<Rightarrow> string option \<Rightarrow> (string, TrdsError) result" where
  "client_new endpoint build_error =
     (if endpoint = [] then Err (BadEndpoint ''empty URL'')
      else case build_error of Some e \<Rightarrow> Err (Http e) | None \<Rightarrow> Ok endpoint)"

definition fetch_envelope :: "TrdsLibs \<Rightarrow> string \<Rightarrow> HttpReply \<Rightarrow> (SignedBundleEnvelope option, TrdsError) result" where
  "fetch_envelope libs endpoint reply =
     (case url_error libs endpoint of
        Some e \<Rightarrow> Err (BadEndpoint (endpoint @ '': '' @ e))
      | None \<Rightarrow>
          (case reply of
             SendFailed e \<Rightarrow> Err (Http e)
           | Reply status body \<Rightarrow>
               if status = 304 \<or> status = 204 then Ok None
               else if \<not> (200 \<le> status \<and> status < 300) then Err (HttpStatus status)
               else bind_result (map_err Http body) (\<lambda>b.
                    map_ok Some (map_err BadEnvelope (envelope_from_slice libs b)))))"

definition verify_envelope :: "TrdsLibs \<Rightarrow> SignedBundleEnvelope \<Rightarrow> SigningKey list \<Rightarrow> (VerifiedBundle, TrdsError) result" where
  "verify_envelope libs env keys =
     (case List.find (\<lambda>k. sk_key_id k = se_key_id env) keys of
        None \<Rightarrow> Err (UnknownKeyId (se_key_id env))
      | Some k \<Rightarrow>
          bind_result (verifying_key libs k) (\<lambda>vk.
          bind_result (map_err (\<lambda>e. BadBase64 (''bundle_b64: '' @ e)) (b64_decode libs (se_bundle_b64 env))) (\<lambda>bundle_bytes.
          bind_result (map_err (\<lambda>e. BadBase64 (''signature_b64: '' @ e)) (b64_decode libs (se_signature_b64 env))) (\<lambda>sig_bytes.
          if length sig_bytes \<noteq> 64 then Err (BadBase64 ''signature_b64: expected 64 raw bytes'')
          else if \<not> ed_verify libs vk bundle_bytes sig_bytes then Err (SignatureInvalid (se_key_id env))
          else bind_result (map_err (\<lambda>e. BadBundle (''failed to decode rule bundle: '' @ e)) (rmp_from_slice libs bundle_bytes)) (\<lambda>bundle.
          if rb_version bundle \<noteq> se_version env then Err (VersionMismatch (se_version env) (rb_version bundle))
          else Ok \<lparr>vb_version = se_version env, vb_key_id = se_key_id env, vb_bundle = bundle\<rparr>)))))"

section \<open>What is accepted\<close>

text \<open>A bundle some key of a list vouches for: bytes that decode to it, with a signature that verifies
  under the first key with the identifier.\<close>

definition vouched :: "TrdsLibs \<Rightarrow> SigningKey list \<Rightarrow> string \<Rightarrow> bytes \<Rightarrow> bytes \<Rightarrow> RuleBundle \<Rightarrow> bool" where
  "vouched libs keys kid bs sig bundle \<longleftrightarrow>
     (\<exists>k vk. List.find (\<lambda>k. sk_key_id k = kid) keys = Some k \<and> verifying_key libs k = Ok vk \<and>
        length sig = 64 \<and> ed_verify libs vk bs sig \<and> rmp_from_slice libs bs = Ok bundle)"

lemma verify_envelope_Ok_iff:
  "verify_envelope libs env keys = Ok v \<longleftrightarrow>
     (\<exists>bs sig bundle. b64_decode libs (se_bundle_b64 env) = Ok bs \<and> b64_decode libs (se_signature_b64 env) = Ok sig \<and>
        vouched libs keys (se_key_id env) bs sig bundle \<and> rb_version bundle = se_version env \<and>
        v = \<lparr>vb_version = se_version env, vb_key_id = se_key_id env, vb_bundle = bundle\<rparr>)"
  by (auto simp: verify_envelope_def vouched_def result_simps split: option.splits if_splits)

end
