(* ===== verification/LdeResponse.thy ===== *)
theory LdeResponse
  imports LdeTrds ActiveResponse
begin

text \<open>
  File scanning and local responses of the detection engine: \<open>sda-local-detection/src/yara_scanner.rs\<close>
  and \<open>response.rs\<close>. The YARA library, the clock and the outcome of each file operation are
  parameters. The lemmas show that a bad rule file never costs the files accepted before it, and
  that a quarantined file is never lost, whichever operation fails.
\<close>

section \<open>The YARA scanner\<close>

record YaraMatch =
  ym_rule_id :: string
  ym_tags :: "string list"

text \<open>The library: a compiler is the list of rule files added to it.\<close>

record YaraLibs =
  compiler_error :: "string option"
  rule_file_exists :: "string \<Rightarrow> bool"
  add_rules_error :: "string list \<Rightarrow> string \<Rightarrow> string option"
  compile_error :: "string list \<Rightarrow> string option"
  file_len :: "string \<Rightarrow> nat option"
  yara_scan_file :: "string list \<Rightarrow> string \<Rightarrow> nat \<Rightarrow> (YaraMatch list, string) result"
  yara_scan_mem :: "string list \<Rightarrow> bytes \<Rightarrow> nat \<Rightarrow> (YaraMatch list, string) result"

fun add_all :: "YaraLibs \<Rightarrow> string list \<Rightarrow> string list \<Rightarrow> (string list, string) result" where
  "add_all y cmp [] = Ok cmp"
| "add_all y cmp (p # ps) =
     (case add_rules_error y cmp p of
        None \<Rightarrow> add_all y (cmp @ [p]) ps
      | Some e \<Rightarrow> Err (''failed to re-add previously-accepted rule '' @ p @ '': '' @ e))"

definition rebuild_compiler_with :: "YaraLibs \<Rightarrow> string list \<Rightarrow> (string list, string) result" where
  "rebuild_compiler_with y paths =
     (case compiler_error y of
        Some e \<Rightarrow> Err (''failed to re-init yara compiler: '' @ e)
      | None \<Rightarrow> add_all y [] paths)"

fun compile_loop :: "YaraLibs \<Rightarrow> string list \<Rightarrow> string list \<Rightarrow> string list \<Rightarrow> (string list \<times> string list, string) result" where
  "compile_loop y [] cmp accepted = Ok (cmp, accepted)"
| "compile_loop y (path # paths) cmp accepted =
     (if \<not> rule_file_exists y path then compile_loop y paths cmp accepted
      else case add_rules_error y cmp path of
             None \<Rightarrow> compile_loop y paths (cmp @ [path]) (accepted @ [path])
           | Some _ \<Rightarrow> bind_result (rebuild_compiler_with y accepted) (\<lambda>cmp. compile_loop y paths cmp accepted))"

definition compile_rules :: "YaraLibs \<Rightarrow> string list \<Rightarrow> (string list option, string) result" where
  "compile_rules y rule_paths =
     (case compiler_error y of
        Some e \<Rightarrow> Err (''failed to init yara compiler: '' @ e)
      | None \<Rightarrow>
          bind_result (compile_loop y rule_paths [] []) (\<lambda>(cmp, accepted).
          if accepted = [] then Ok None
          else case compile_error y cmp of
                 Some e \<Rightarrow> Err (''failed to compile yara rules: '' @ e)
               | None \<Rightarrow> Ok (Some cmp)))"

record RateWindow =
  rw_limit :: nat
  rw_count :: nat
  rw_started :: nat

definition rate_new :: "nat \<Rightarrow> nat \<Rightarrow> RateWindow" where
  "rate_new limit now = \<lparr>rw_limit = max limit 1, rw_count = 0, rw_started = now\<rparr>"

text \<open>One reading of the clock per call.\<close>

definition consume_or_wait :: "nat \<Rightarrow> RateWindow \<Rightarrow> nat option \<times> RateWindow" where
  "consume_or_wait now w =
     (let w = (if now - rw_started w \<ge> ns_per_sec then w\<lparr>rw_started := now, rw_count := 0\<rparr> else w)
      in if rw_count w < rw_limit w then (None, w\<lparr>rw_count := rw_count w + 1\<rparr>)
         else (Some (max (ns_per_sec - (now - rw_started w)) 10000000), w))"

definition rate_reset :: "nat \<Rightarrow> RateWindow \<Rightarrow> RateWindow" where
  "rate_reset now w = w\<lparr>rw_started := now, rw_count := 1\<rparr>"

record YaraScanner =
  ys_rules :: "string list option"
  ys_rate :: RateWindow
  ys_max_file_size :: nat

definition max_bytes :: "nat \<Rightarrow> nat" where
  "max_bytes mb = min (mb * 1048576) (2 ^ 64 - 1)"

definition yara_empty :: "nat \<Rightarrow> nat \<Rightarrow> nat \<Rightarrow> YaraScanner" where
  "yara_empty scans_per_sec max_file_size_mb now =
     \<lparr>ys_rules = None, ys_rate = rate_new scans_per_sec now, ys_max_file_size = max_bytes max_file_size_mb\<rparr>"

definition yara_new :: "YaraLibs \<Rightarrow> string list \<Rightarrow> nat \<Rightarrow> nat \<Rightarrow> nat \<Rightarrow> (YaraScanner, string) result" where
  "yara_new y rule_paths scans_per_sec max_file_size_mb now =
     map_ok (\<lambda>rs. (yara_empty scans_per_sec max_file_size_mb now)\<lparr>ys_rules := rs\<rparr>) (compile_rules y rule_paths)"

definition has_rules :: "YaraScanner \<Rightarrow> bool" where
  "has_rules ys \<longleftrightarrow> ys_rules ys \<noteq> None"

text \<open>Take a token, sleeping first if there is none.\<close>

definition rate_admit :: "nat \<Rightarrow> RateWindow \<Rightarrow> RateWindow" where
  "rate_admit now w = (case consume_or_wait now w of (None, w) \<Rightarrow> w | (Some d, w) \<Rightarrow> rate_reset (now + d) w)"

definition scan_file :: "YaraLibs \<Rightarrow> nat \<Rightarrow> string \<Rightarrow> YaraScanner \<Rightarrow> (YaraMatch list, string) result \<times> YaraScanner" where
  "scan_file y now path ys =
     (case ys_rules ys of
        None \<Rightarrow> (Ok [], ys)
      | Some rs \<Rightarrow>
          (case file_len y path of
             None \<Rightarrow> (Ok [], ys)
           | Some n \<Rightarrow>
               if n > ys_max_file_size ys then (Ok [], ys)
               else (map_err (\<lambda>e. ''yara scan failed: '' @ e) (yara_scan_file y rs path 30), ys\<lparr>ys_rate := rate_admit now (ys_rate ys)\<rparr>)))"

definition scan_mem :: "YaraLibs \<Rightarrow> nat \<Rightarrow> bytes \<Rightarrow> YaraScanner \<Rightarrow> (YaraMatch list, string) result \<times> YaraScanner" where
  "scan_mem y now buf ys =
     (case ys_rules ys of
        None \<Rightarrow> (Ok [], ys)
      | Some rs \<Rightarrow>
          if ys_max_file_size ys > 0 \<and> length buf > ys_max_file_size ys then (Ok [], ys)
          else (map_err (\<lambda>e. ''yara in-memory scan failed: '' @ e) (yara_scan_mem y rs buf 30), ys\<lparr>ys_rate := rate_admit now (ys_rate ys)\<rparr>))"

section \<open>Responses\<close>

datatype ResponseOutcome = Executed string | Failed string | Skipped

record ResponderConfig =
  rc_block_ip :: bool
  rc_kill_process :: bool
  rc_quarantine :: bool
  rc_quarantine_dir :: string

definition responder_registry :: "ResponderConfig \<Rightarrow> (string \<times> ResponseAction) list" where
  "responder_registry c =
     registry_new ((if rc_block_ip c then [''block_ip''] else []) @ (if rc_kill_process c then [''kill_process''] else []))"

definition outcome_of :: "ActionResult \<Rightarrow> ResponseOutcome" where
  "outcome_of r = (if ar_success r then Executed (ar_output r) else Failed (ar_output r))"

definition respond_block_ip :: "'os ArEnv \<Rightarrow> ResponderConfig \<Rightarrow> string \<Rightarrow> 'os Host \<Rightarrow> ResponseOutcome \<times> 'os Host" where
  "respond_block_ip env c ip h =
     (if \<not> rc_block_ip c then (Skipped, h)
      else map_prod outcome_of id (dispatch env (responder_registry c) ''block_ip'' (no_params\<lparr>ap_ip := Some ip\<rparr>) 30 h))"

definition respond_kill_process :: "'os ArEnv \<Rightarrow> ResponderConfig \<Rightarrow> nat \<Rightarrow> 'os Host \<Rightarrow> ResponseOutcome \<times> 'os Host" where
  "respond_kill_process env c pid h =
     (if \<not> rc_kill_process c then (Skipped, h)
      else map_prod outcome_of id (dispatch env (responder_registry c) ''kill_process'' (no_params\<lparr>ap_pid := Some pid\<rparr>) 30 h))"

type_synonym files = "string \<rightharpoonup> bytes"

text \<open>The clock in nanoseconds, and the outcome of each file operation; a failed copy may leave the
  beginning of the file behind.\<close>

record QuarantineFaults =
  qf_nanos :: nat
  qf_mkdir :: "string option"
  qf_rename :: "string option"
  qf_copy :: "(string \<times> bytes option) option"
  qf_remove :: "string option"

text \<open>\<open>Path::file_name\<close> and \<open>Path::join\<close> on Unix paths.\<close>

definition path_file_name :: "string \<Rightarrow> string option" where
  "path_file_name p =
     (let comps = filter (\<lambda>c. c \<noteq> [] \<and> c \<noteq> ''.'') (split_char CHR ''/'' p)
      in if comps = [] \<or> last comps = ''..'' then None else Some (last comps))"

definition path_join :: "string \<Rightarrow> string \<Rightarrow> string" where
  "path_join dir name = (if dir = [] \<or> last dir = CHR ''/'' then dir @ name else dir @ ''/'' @ name)"

definition quarantine_dst :: "QuarantineFaults \<Rightarrow> string \<Rightarrow> string \<Rightarrow> string" where
  "quarantine_dst f src dir =
     path_join dir ((case path_file_name src of Some s \<Rightarrow> s | None \<Rightarrow> ''quarantined'') @ ''.'' @ nat_str (qf_nanos f) @ ''.quar'')"

definition quarantine_file :: "QuarantineFaults \<Rightarrow> string \<Rightarrow> string \<Rightarrow> files \<Rightarrow> (string, string) result \<times> files" where
  "quarantine_file f src dir fs =
     (case fs src of
        None \<Rightarrow> (Err (''source file does not exist: '' @ src), fs)
      | Some content \<Rightarrow>
          (case qf_mkdir f of
             Some e \<Rightarrow> (Err (''failed to create quarantine dir '' @ dir @ '': '' @ e), fs)
           | None \<Rightarrow>
               let dst = quarantine_dst f src dir
               in case qf_rename f of
                    None \<Rightarrow> (Ok dst, (fs(src := None))(dst \<mapsto> content))
                  | Some _ \<Rightarrow>
                      (case qf_copy f of
                         Some (e, part) \<Rightarrow>
                           (Err (''quarantine copy failed: '' @ e), case part of Some b \<Rightarrow> fs(dst \<mapsto> b) | None \<Rightarrow> fs)
                       | None \<Rightarrow>
                           (case qf_remove f of
                              Some e \<Rightarrow> (Err (''quarantine remove failed: '' @ e), fs(dst \<mapsto> content))
                            | None \<Rightarrow> (Ok dst, (fs(dst \<mapsto> content))(src := None))))))"

definition respond_quarantine :: "ResponderConfig \<Rightarrow> QuarantineFaults \<Rightarrow> string \<Rightarrow> files \<Rightarrow> ResponseOutcome \<times> files" where
  "respond_quarantine c f path fs =
     (if \<not> rc_quarantine c then (Skipped, fs)
      else case quarantine_file f path (rc_quarantine_dir c) fs of
             (Ok dst, fs) \<Rightarrow> (Executed (''moved to '' @ dst), fs)
           | (Err e, fs) \<Rightarrow> (Failed e, fs))"

section \<open>Bad rule files cost nothing\<close>

definition reachable_compiler :: "YaraLibs \<Rightarrow> string list \<Rightarrow> bool" where
  "reachable_compiler y acc \<longleftrightarrow> (\<forall>i<length acc. add_rules_error y (take i acc) (acc ! i) = None)"

lemma add_all_ok: "reachable_compiler y (cmp @ ps) \<Longrightarrow> add_all y cmp ps = Ok (cmp @ ps)"
proof (induction ps arbitrary: cmp)
  case (Cons p ps)
  have "add_rules_error y cmp p = None"
    using Cons.prems unfolding reachable_compiler_def by (auto dest!: spec [of _ "length cmp"])
  then show ?case using Cons.IH [of "cmp @ [p]"] Cons.prems by simp
qed simp

lemma reachable_snoc: "reachable_compiler y acc \<Longrightarrow> add_rules_error y acc p = None \<Longrightarrow> reachable_compiler y (acc @ [p])"
  by (auto simp: reachable_compiler_def nth_append less_Suc_eq)

text \<open>The files that end up compiled: each one that exists and is accepted on top of those before it.\<close>

fun accepted_files :: "YaraLibs \<Rightarrow> string list \<Rightarrow> string list \<Rightarrow> string list" where
  "accepted_files y [] acc = acc"
| "accepted_files y (p # ps) acc =
     accepted_files y ps (if rule_file_exists y p \<and> add_rules_error y acc p = None then acc @ [p] else acc)"

lemma compile_loop_accepted:
  assumes "compiler_error y = None"
  shows "reachable_compiler y acc \<Longrightarrow> compile_loop y ps acc acc = Ok (accepted_files y ps acc, accepted_files y ps acc)"
proof (induction ps arbitrary: acc)
  case (Cons p ps)
  have "rebuild_compiler_with y acc = Ok acc"
    using add_all_ok [of y "[]" acc] Cons.prems assms by (simp add: rebuild_compiler_with_def)
  then show ?case
    using Cons.IH [OF Cons.prems] Cons.IH [OF reachable_snoc [OF Cons.prems]] by (simp split: option.split)
qed simp

lemma accepted_files_keeps: "\<exists>rest. accepted_files y ps acc = acc @ rest"
  by (induction ps arbitrary: acc) (auto split: if_splits, metis append_Cons append_assoc append_Nil)

text \<open>
  A bad rule file costs nothing but itself. Rebuilding the compiler after a rejected file never
  fails, and the compiled set is each file, in order, that exists and is accepted on top of the ones
  before it.
\<close>

theorem compile_rules_spec:
  assumes "compiler_error y = None"
  shows "compile_rules y ps =
    (let a = accepted_files y ps []
     in if a = [] then Ok None
        else case compile_error y a of Some e \<Rightarrow> Err (''failed to compile yara rules: '' @ e) | None \<Rightarrow> Ok (Some a))"
  using compile_loop_accepted [OF assms, of "[]" ps] assms by (simp add: compile_rules_def reachable_compiler_def Let_def)

section \<open>Quarantine never loses a file\<close>

text \<open>
  Quarantine never loses a file. Whichever of its operations fails, afterwards the content is
  still at the source or complete at the destination, no other file has changed, and success is
  reported only when the source is gone and the destination holds the whole content.
\<close>

theorem quarantine_no_loss:
  assumes "fs src = Some content" "fs (quarantine_dst f src dir) = None" "quarantine_file f src dir fs = (r, fs')"
  shows "(fs' src = Some content \<or> fs' (quarantine_dst f src dir) = Some content) \<and>
    (\<forall>p. p = src \<or> p = quarantine_dst f src dir \<or> fs' p = fs p) \<and>
    (is_ok r = (fs' src = None \<and> fs' (quarantine_dst f src dir) = Some content))"
proof -
  have "src \<noteq> quarantine_dst f src dir" using assms(1,2) by auto
  then show ?thesis using assms by (auto simp: quarantine_file_def Let_def split: option.splits if_splits)
qed

theorem quarantine_no_loss_witness:
  "snd (quarantine_file \<lparr>qf_nanos = 7, qf_mkdir = None, qf_rename = Some ''EXDEV'', qf_copy = None, qf_remove = Some ''EPERM''\<rparr>
      ''/tmp/x'' ''/q'' [''/tmp/x'' \<mapsto> ''mz'']) ''/tmp/x'' = Some ''mz'' \<or>
   snd (quarantine_file \<lparr>qf_nanos = 7, qf_mkdir = None, qf_rename = Some ''EXDEV'', qf_copy = None, qf_remove = Some ''EPERM''\<rparr>
      ''/tmp/x'' ''/q'' [''/tmp/x'' \<mapsto> ''mz'']) ''/q/x.7.quar'' = Some ''mz''"
proof -
  let ?f = "\<lparr>qf_nanos = 7, qf_mkdir = None, qf_rename = Some ''EXDEV'', qf_copy = None, qf_remove = Some ''EPERM''\<rparr>"
  have "nat_str 7 = ''7''" by code_simp
  then have d: "quarantine_dst ?f ''/tmp/x'' ''/q'' = ''/q/x.7.quar''"
    by (simp add: quarantine_dst_def path_file_name_def path_join_def)
  show ?thesis
    using quarantine_no_loss [of "[''/tmp/x'' \<mapsto> ''mz'']" "''/tmp/x''" "''mz''" ?f "''/q''", OF _ _ prod.collapse [symmetric]]
    by (simp add: d)
qed

end
