(* ===== verification/LdeModule.thy ===== *)
theory LdeModule
  imports LdeQueue LdeResponse
begin

text \<open>
  The local detection module (\<open>sda-local-detection/src/lib.rs\<close>, the baseline of \<open>default_bundle.rs\<close>):
  what each kind of event is searched for, the pipeline of indicators, behavioural rules and file
  scans with its local responses, delivery of the alerts, and the hot reload of signed bundles.

  The world of the module is its pipeline, the bus, the host that responses act on, the files, and
  a count of the answers taken from the environment so far: the environment tells, for the n-th
  question, what the server channel answers, how a spooling statement or a quarantine goes, and
  what the clocks read.
\<close>

section \<open>What an event is searched for\<close>

datatype LdeEventKind =
    FileCreated string "string option"
  | FileModified string "string option"
  | FileDeleted string "string option"
  | FileMetadataChanged string "string option"
  | LogCollected string string
  | ProcessCreated string
  | ProcessTerminated string
  | ImageLoaded string
  | NetworkConnection string
  | DnsQuery string
  | MemoryScanAlert string
  | IdentityAlert string
  | OtherKind

record EventFields =
  ef_source :: string
  ef_entity :: string
  ef_text :: string
  ef_fim_path :: "string option"
  ef_sha256 :: "string option"
  ef_ips :: "string list"
  ef_process :: "(string \<times> string) option"

text \<open>\<open>unwrap_or_default\<close> of a parse, and \<open>unwrap_or\<close> of a string member.\<close>

definition parse_or_null :: "(string \<Rightarrow> json option) \<Rightarrow> string \<Rightarrow> json" where
  "parse_or_null json_parse s = (case json_parse s of Some v \<Rightarrow> v | None \<Rightarrow> JNull)"

definition str_member :: "string \<Rightarrow> json \<Rightarrow> string" where
  "str_member k v = (case get_str k v of Some s \<Rightarrow> s | None \<Rightarrow> [])"

definition value_array :: "json \<Rightarrow> json list option" where
  "value_array v = (case v of JArray vs \<Rightarrow> Some vs | _ \<Rightarrow> None)"

definition value_i64 :: "json \<Rightarrow> int option" where
  "value_i64 v = (case v of JNumber n \<Rightarrow> as_i64 n | _ \<Rightarrow> None)"

definition array_strings :: "(json \<Rightarrow> string option) \<Rightarrow> string \<Rightarrow> json \<Rightarrow> string list" where
  "array_strings f k v = (case Option.bind (value_get k v) value_array of Some vs \<Rightarrow> List.map_filter f vs | None \<Rightarrow> [])"

fun join_with :: "string \<Rightarrow> string list \<Rightarrow> string" where
  "join_with sep [] = []"
| "join_with sep [s] = s"
| "join_with sep (s # t # ts) = s @ sep @ join_with sep (t # ts)"

definition plain_fields :: "string \<Rightarrow> string \<Rightarrow> string \<Rightarrow> EventFields" where
  "plain_fields source entity txt = \<lparr>ef_source = source, ef_entity = entity, ef_text = txt, ef_fim_path = None,
     ef_sha256 = None, ef_ips = [], ef_process = None\<rparr>"

definition process_created_fields :: "json \<Rightarrow> EventFields" where
  "process_created_fields v =
     (let name = str_member ''name'' v;
          exe_path = str_member ''exe_path'' v;
          entity = (if exe_path \<noteq> [] then exe_path else name);
          cmdline = join_with '' '' (array_strings value_str ''cmdline'' v);
          parent_chain = join_with '' > '' (array_strings (get_str ''name'') ''parent_chain'' v);
          primary_text = (if parent_chain = [] then trim_str (name @ '' '' @ cmdline)
                          else trim_str (parent_chain @ '' > '' @ name @ '' '' @ cmdline))
      in (plain_fields ''process_created'' entity primary_text)\<lparr>ef_process := Some (parent_chain, name)\<rparr>)"

definition process_terminated_fields :: "json \<Rightarrow> EventFields" where
  "process_terminated_fields v =
     plain_fields ''process_terminated'' (str_member ''name'' v)
       (''terminated exit_code='' @ (case Option.bind (value_get ''exit_code'' v) value_i64 of Some c \<Rightarrow> int_str c | None \<Rightarrow> ''?''))"

definition image_loaded_fields :: "json \<Rightarrow> EventFields" where
  "image_loaded_fields v =
     (let image_path = str_member ''image_path'' v
      in (plain_fields ''process_image_loaded'' image_path image_path)\<lparr>ef_sha256 := get_str ''image_hash'' v\<rparr>)"

definition network_fields :: "json \<Rightarrow> EventFields" where
  "network_fields v =
     (let remote_addr = str_member ''remote_addr'' v;
          remote_port = (case get_u64 ''remote_port'' v of Some p \<Rightarrow> nat_str p | None \<Rightarrow> ''?'')
      in (plain_fields ''network'' (str_member ''process_name'' v) (remote_addr @ '':'' @ remote_port))
           \<lparr>ef_ips := if remote_addr \<noteq> [] then [remote_addr] else []\<rparr>)"

definition dns_fields :: "json \<Rightarrow> EventFields" where
  "dns_fields v =
     (plain_fields ''dns'' (str_member ''process_name'' v) (str_member ''query_name'' v))
       \<lparr>ef_ips := array_strings value_str ''response_ips'' v\<rparr>"

definition event_fields :: "(string \<Rightarrow> json option) \<Rightarrow> LdeEventKind \<Rightarrow> EventFields option" where
  "event_fields json_parse ek =
     (let parsed = parse_or_null json_parse;
          fim = (\<lambda>path payload. (plain_fields ''fim'' path path)\<lparr>ef_sha256 := extract_sha256_from_syscheck json_parse payload\<rparr>)
      in case ek of
           FileCreated path payload \<Rightarrow> Some ((fim path payload)\<lparr>ef_fim_path := Some path\<rparr>)
         | FileModified path payload \<Rightarrow> Some ((fim path payload)\<lparr>ef_fim_path := Some path\<rparr>)
         | FileDeleted path payload \<Rightarrow> Some (fim path payload)
         | FileMetadataChanged path payload \<Rightarrow> Some (fim path payload)
         | LogCollected source message \<Rightarrow> Some ((plain_fields ''logcollector'' source message)\<lparr>ef_ips := extract_ipv4s message\<rparr>)
         | ProcessCreated payload \<Rightarrow> Some (process_created_fields (parsed payload))
         | ProcessTerminated payload \<Rightarrow> Some (process_terminated_fields (parsed payload))
         | ImageLoaded payload \<Rightarrow> Some (image_loaded_fields (parsed payload))
         | NetworkConnection payload \<Rightarrow> Some (network_fields (parsed payload))
         | DnsQuery payload \<Rightarrow> Some (dns_fields (parsed payload))
         | MemoryScanAlert payload \<Rightarrow>
             Some (plain_fields ''memory'' (str_member ''process_name'' (parsed payload)) (str_member ''description'' (parsed payload)))
         | IdentityAlert payload \<Rightarrow>
             Some (plain_fields ''identity'' (str_member ''user'' (parsed payload)) (str_member ''technique'' (parsed payload)))
         | OtherKind \<Rightarrow> None)"

section \<open>Alerts\<close>

record LocalAlert =
  la_rule_id :: string
  la_rule_type :: string
  la_severity :: string
  la_description :: string
  la_matched_value :: string

definition alert_from_ioc :: "IocMatch \<Rightarrow> LocalAlert" where
  "alert_from_ioc m = \<lparr>la_rule_id = im_rule_id m, la_rule_type = im_rule_type m, la_severity = im_severity m,
     la_description = im_description m, la_matched_value = im_matched_value m\<rparr>"

definition alert_from_behavioral :: "BehavioralMatch \<Rightarrow> LocalAlert" where
  "alert_from_behavioral m = \<lparr>la_rule_id = bm_rule_id m, la_rule_type = ''behavioral'', la_severity = bm_severity m,
     la_description = bm_description m, la_matched_value = bm_entity m\<rparr>"

definition alert_from_yara :: "string \<Rightarrow> YaraMatch \<Rightarrow> string \<Rightarrow> LocalAlert" where
  "alert_from_yara path m severity = \<lparr>la_rule_id = ym_rule_id m, la_rule_type = ''yara'', la_severity = severity,
     la_description = ''YARA rule '' @ ym_rule_id m @ '' matched file'', la_matched_value = path\<rparr>"

section \<open>The pipeline\<close>

record LocalDetectionConfig =
  ld_offline_queue_max :: nat
  ld_yara_rate :: nat
  ld_yara_max_mb :: nat
  ld_max_window_sec :: nat
  ld_max_entities :: nat
  ld_responder :: ResponderConfig
  ld_bundle_path :: string
  ld_drain_batch :: nat
  ld_trds_endpoint :: "string option"
  ld_signing_keys :: "string list"

record DetectionPipeline =
  dp_iocs :: IocMatcher
  dp_behavioral :: BehavioralEngine
  dp_yara :: YaraScanner
  dp_offline :: OfflineQueue
  dp_version :: nat

text \<open>The environment. The offline queue opens with the rows on disk and the next identifier, or fails.\<close>

record 'os LdeEnv =
  le_match :: MatchLibs
  le_regex :: RegexEnv
  le_yara :: YaraLibs
  le_trds :: TrdsLibs
  le_json :: "string \<Rightarrow> json option"
  le_codec :: "LocalAlert EventCodec"
  le_ar :: "'os ArEnv"
  le_answer :: "nat \<Rightarrow> TrySend"
  le_spool :: "nat \<Rightarrow> EnqueueFaults"
  le_quarantine :: "nat \<Rightarrow> QuarantineFaults"
  le_instant :: "nat \<Rightarrow> nat"
  le_wall :: "nat \<Rightarrow> int"
  le_open_queue :: "nat \<Rightarrow> (QueuedDetection list \<times> nat) option"

record 'os LdeWorld =
  lw_pipeline :: DetectionPipeline
  lw_bus :: "LocalAlert Bus"
  lw_host :: "'os Host"
  lw_files :: files
  lw_n :: nat

definition tick :: "'os LdeWorld \<Rightarrow> 'os LdeWorld" where
  "tick w = w\<lparr>lw_n := Suc (lw_n w)\<rparr>"

definition pipeline_new :: "'os LdeEnv \<Rightarrow> LocalDetectionConfig \<Rightarrow> nat \<Rightarrow> RuleBundle \<Rightarrow> (DetectionPipeline, string) result" where
  "pipeline_new env cfg n bundle =
     bind_result (matcher_build (le_match env) (rb_iocs bundle)) (\<lambda>iocs.
     Ok \<lparr>dp_iocs = iocs,
         dp_behavioral = engine_new (le_regex env) (rb_behavioral bundle) (ld_max_entities cfg) (ld_max_window_sec cfg),
         dp_yara = (case yara_new (le_yara env) (rb_yara_paths bundle) (ld_yara_rate cfg) (ld_yara_max_mb cfg) (le_instant env n) of
                      Ok ys \<Rightarrow> ys
                    | Err _ \<Rightarrow> yara_empty (ld_yara_rate cfg) (ld_yara_max_mb cfg) (le_instant env n)),
         dp_offline = (case le_open_queue env n of
                         Some (rows, nxt) \<Rightarrow> queue_open rows nxt (ld_offline_queue_max cfg)
                       | None \<Rightarrow> queue_open [] 1 (ld_offline_queue_max cfg)),
         dp_version = rb_version bundle\<rparr>)"

definition lde_publish_alert :: "'os LdeEnv \<Rightarrow> LocalAlert \<Rightarrow> 'os LdeWorld \<Rightarrow> 'os LdeWorld" where
  "lde_publish_alert env a w =
     (case publish_alert (le_codec env) (le_answer env (lw_n w)) (le_spool env (lw_n w)) (le_wall env (lw_n w)) a
             (lw_bus w, dp_offline (lw_pipeline w)) of
        (bus, q) \<Rightarrow> tick (w\<lparr>lw_bus := bus, lw_pipeline := (lw_pipeline w)\<lparr>dp_offline := q\<rparr>\<rparr>))"

definition maybe_respond :: "'os LdeEnv \<Rightarrow> LocalDetectionConfig \<Rightarrow> LocalAlert \<Rightarrow> string option \<Rightarrow> 'os LdeWorld \<Rightarrow> 'os LdeWorld" where
  "maybe_respond env cfg a fim_path w =
     (let w = (if la_rule_type a = ''ip''
               then w\<lparr>lw_host := snd (respond_block_ip (le_ar env) (ld_responder cfg) (la_matched_value a) (lw_host w))\<rparr>
               else w)
      in if la_rule_type a = ''yara''
         then (case fim_path of
                 Some path \<Rightarrow> w\<lparr>lw_files := snd (respond_quarantine (ld_responder cfg) (le_quarantine env (lw_n w)) path (lw_files w))\<rparr>
               | None \<Rightarrow> w)
         else w)"

definition raise_alert :: "'os LdeEnv \<Rightarrow> LocalDetectionConfig \<Rightarrow> string option \<Rightarrow> LocalAlert \<Rightarrow> 'os LdeWorld \<Rightarrow> 'os LdeWorld" where
  "raise_alert env cfg fim_path a w = lde_publish_alert env a (maybe_respond env cfg a fim_path w)"

definition ioc_hits :: "'os LdeEnv \<Rightarrow> IocMatcher \<Rightarrow> EventFields \<Rightarrow> IocMatch list" where
  "ioc_hits env m x =
     ioc_matches (le_match env) m [ef_text x] (ef_sha256 x) None @ List.map_filter (match_ip (le_match env) m) (ef_ips x)"

definition ioc_phase :: "'os LdeEnv \<Rightarrow> LocalDetectionConfig \<Rightarrow> EventFields \<Rightarrow> 'os LdeWorld \<Rightarrow> 'os LdeWorld" where
  "ioc_phase env cfg x w =
     fold (raise_alert env cfg (ef_fim_path x)) (map alert_from_ioc (ioc_hits env (dp_iocs (lw_pipeline w)) x)) w"

definition behavioral_phase :: "'os LdeEnv \<Rightarrow> LocalDetectionConfig \<Rightarrow> EventFields \<Rightarrow> 'os LdeWorld \<Rightarrow> 'os LdeWorld" where
  "behavioral_phase env cfg x w =
     (case evaluate_at (le_regex env)
             \<lparr>be_source = ef_source x, be_entity = ef_entity x, be_text = ef_text x, be_process = ef_process x\<rparr>
             (le_instant env (lw_n w)) (dp_behavioral (lw_pipeline w)) of
        (hits, eng) \<Rightarrow>
          fold (raise_alert env cfg (ef_fim_path x)) (map alert_from_behavioral hits)
            (tick (w\<lparr>lw_pipeline := (lw_pipeline w)\<lparr>dp_behavioral := eng\<rparr>\<rparr>)))"

definition yara_phase :: "'os LdeEnv \<Rightarrow> LocalDetectionConfig \<Rightarrow> string \<Rightarrow> 'os LdeWorld \<Rightarrow> 'os LdeWorld" where
  "yara_phase env cfg path w =
     (if \<not> has_rules (dp_yara (lw_pipeline w)) then w
      else case scan_file (le_yara env) (le_instant env (lw_n w)) path (dp_yara (lw_pipeline w)) of
             (r, ys) \<Rightarrow>
               let w = tick (w\<lparr>lw_pipeline := (lw_pipeline w)\<lparr>dp_yara := ys\<rparr>\<rparr>)
               in case r of
                    Ok ms \<Rightarrow> fold (raise_alert env cfg (Some path)) (map (\<lambda>m. alert_from_yara path m ''high'') ms) w
                  | Err _ \<Rightarrow> w)"

definition handle_event :: "'os LdeEnv \<Rightarrow> LocalDetectionConfig \<Rightarrow> LdeEventKind \<Rightarrow> 'os LdeWorld \<Rightarrow> 'os LdeWorld" where
  "handle_event env cfg ek w =
     (case event_fields (le_json env) ek of
        None \<Rightarrow> w
      | Some x \<Rightarrow>
          (let w = behavioral_phase env cfg x (ioc_phase env cfg x w)
           in case ef_fim_path x of None \<Rightarrow> w | Some path \<Rightarrow> yara_phase env cfg path w))"

section \<open>Hot reload\<close>

text \<open>A notice of the module itself; a failed publication of it is only logged.\<close>

definition publish_notice :: "'os LdeEnv \<Rightarrow> LocalAlert \<Rightarrow> 'os LdeWorld \<Rightarrow> 'os LdeWorld" where
  "publish_notice env a w = tick (w\<lparr>lw_bus := snd (publish_to_server (le_answer env (lw_n w)) a (lw_bus w))\<rparr>)"

definition applied_notice :: "nat \<Rightarrow> LocalAlert" where
  "applied_notice version = \<lparr>la_rule_id = ''system.trds.applied'', la_rule_type = ''system'', la_severity = ''info'',
     la_description = ''LDE rule bundle v'' @ nat_str version @ '' applied'', la_matched_value = nat_str version\<rparr>"

text \<open>The \<open>Display\<close> and \<open>Debug\<close> texts of the error are parameters.\<close>

definition rejected_notice :: "(TrdsError \<Rightarrow> string) \<Rightarrow> (TrdsError \<Rightarrow> string) \<Rightarrow> TrdsError \<Rightarrow> LocalAlert" where
  "rejected_notice display debug e = \<lparr>la_rule_id = ''system.trds.rejected'', la_rule_type = ''system'', la_severity = ''high'',
     la_description = ''LDE rejected TRDS bundle: '' @ display e, la_matched_value = debug e\<rparr>"

definition disabled_notice :: "nat \<Rightarrow> SkippedRule \<Rightarrow> LocalAlert" where
  "disabled_notice version r = \<lparr>la_rule_id = ''system.lde.rule_disabled'', la_rule_type = ''system'', la_severity = ''high'',
     la_description = ''LDE rule '' @ sr_rule_id r @ '' permanently disabled at bundle v'' @ nat_str version @ '' load: '' @ sr_reason r,
     la_matched_value = sr_rule_id r\<rparr>"

definition publish_skipped_rule_alerts :: "'os LdeEnv \<Rightarrow> DetectionPipeline \<Rightarrow> nat \<Rightarrow> 'os LdeWorld \<Rightarrow> DetectionPipeline \<times> 'os LdeWorld" where
  "publish_skipped_rule_alerts env p version w =
     (case take_skipped_rules (dp_behavioral p) of (skipped, eng) \<Rightarrow>
        (p\<lparr>dp_behavioral := eng\<rparr>, fold (\<lambda>r. publish_notice env (disabled_notice version r)) skipped w))"

record TrdsText =
  trds_display :: "TrdsError \<Rightarrow> string"
  trds_debug :: "TrdsError \<Rightarrow> string"

definition pull_and_install :: "'os LdeEnv \<Rightarrow> TrdsText \<Rightarrow> LocalDetectionConfig \<Rightarrow> string \<Rightarrow> SigningKey list \<Rightarrow> HttpReply \<Rightarrow> nat \<Rightarrow> 'os LdeWorld \<Rightarrow> nat \<times> 'os LdeWorld" where
  "pull_and_install env tx cfg endpoint keys reply current_version w =
     (case fetch_envelope (le_trds env) endpoint reply of
        Ok None \<Rightarrow> (current_version, w)
      | Err _ \<Rightarrow> (current_version, w)
      | Ok (Some envelope) \<Rightarrow>
          if se_version envelope \<le> current_version then (current_version, w)
          else (case verify_envelope (le_trds env) envelope keys of
                  Err e \<Rightarrow>
                    (current_version,
                     if is_security_alert e then publish_notice env (rejected_notice (trds_display tx) (trds_debug tx) e) w else w)
                | Ok verified \<Rightarrow>
                    (case pipeline_new env cfg (lw_n w) (vb_bundle verified) of
                       Err _ \<Rightarrow> (current_version, w)
                     | Ok p \<Rightarrow>
                         (let new_version = dp_version p;
                              (p, w) = publish_skipped_rule_alerts env p new_version (tick w);
                              w = w\<lparr>lw_pipeline := p\<rparr>
                          in (new_version, publish_notice env (applied_notice new_version) w)))))"

section \<open>Start-up and the loop\<close>

definition backslash :: char where
  "backslash = CHR 0x5C"

definition default_bundle :: RuleBundle where
  "default_bundle =
     (let domain = (\<lambda>i v. \<lparr>si_id = i, si_value = v, si_kind = ''domain'', si_severity = ''high'',
                           si_description = ''Default baseline domain IOC (synthetic)''\<rparr>);
          chain = (\<lambda>i d n p. \<lparr>br_id = i, br_severity = ''high'', br_description = d, br_event_source = ''process_created'',
                              br_kind = ProcessChain n p\<rparr>)
      in \<lparr>rb_version = 1, rb_generated_at = ''2026-05-01T00:00:00Z'',
          rb_iocs = \<lparr>ioc_strings = [domain ''edr-default-domain-001'' ''evil.example.com'', domain ''edr-default-domain-002'' ''malware.invalid''],
            ioc_hashes = [],
            ioc_ips = [\<lparr>ii_id = ''edr-default-ip-001'', ii_ip = ''203.0.113.9'', ii_severity = ''medium'',
                        ii_description = ''TEST-NET-3 sample IOC (RFC 5737)''\<rparr>]\<rparr>,
          rb_behavioral =
            [chain ''edr-process-chain-001'' ''Office application spawned PowerShell / cmd''
               (''^(powershell|cmd)'' @ [backslash] @ ''.exe$'') (''.*(winword|excel|outlook|powerpnt)'' @ [backslash] @ ''.exe.*''),
             chain ''edr-process-chain-002'' ''wmiprvse.exe spawned rundll32.exe''
               (''^rundll32'' @ [backslash] @ ''.exe$'') (''.*wmiprvse'' @ [backslash] @ ''.exe.*''),
             chain ''edr-process-chain-003'' ''lsass.exe accessed by non-system process''
               (''^lsass'' @ [backslash] @ ''.exe$'') (''^(?!.*'' @ [backslash] @ ''b(services|wininit|smss)'' @ [backslash] @ ''.exe).*$'')],
          rb_yara_paths = []\<rparr>)"

definition load_initial_bundle :: "TrdsLibs \<Rightarrow> string \<Rightarrow> (bytes, string) result \<Rightarrow> RuleBundle" where
  "load_initial_bundle libs path file =
     (case bundle_load libs path file of Ok b \<Rightarrow> b | Err _ \<Rightarrow> default_bundle)"

datatype LdeInput = LdeEvent LdeEventKind | DrainTick "nat \<Rightarrow> TrySend" "nat \<Rightarrow> bool" bool | PullTick HttpReply

text \<open>One turn of the loop. On a drain tick the answers of the channel and of the acknowledgements are
  given per row; on a pull tick the reply of the service.\<close>

fun lde_step :: "'os LdeEnv \<Rightarrow> TrdsText \<Rightarrow> LocalDetectionConfig \<Rightarrow> string option \<Rightarrow> LdeInput \<Rightarrow> 'os LdeWorld \<Rightarrow> 'os LdeWorld" where
  "lde_step env tx cfg client (LdeEvent ek) w = handle_event env cfg ek w"
| "lde_step env tx cfg client (DrainTick answers ack_ok peek_ok) w =
     (case drain_offline_queue (le_codec env) answers ack_ok peek_ok (max (ld_drain_batch cfg) 1) (lw_bus w, dp_offline (lw_pipeline w)) of
        (bus, q) \<Rightarrow> w\<lparr>lw_bus := bus, lw_pipeline := (lw_pipeline w)\<lparr>dp_offline := q\<rparr>\<rparr>)"
| "lde_step env tx cfg client (PullTick reply) w =
     (case client of
        None \<Rightarrow> w
      | Some endpoint \<Rightarrow>
          snd (pull_and_install env tx cfg endpoint (build_signing_keys (le_trds env) (ld_signing_keys cfg)) reply
                 (dp_version (lw_pipeline w)) w))"

text \<open>The module from start to shutdown: the file of the bundle, the error of building the HTTP
  client if any, the state of the host, and the inputs until shutdown or the closing of the bus.\<close>

definition lde_start :: "'os LdeEnv \<Rightarrow> LocalDetectionConfig \<Rightarrow> (bytes, string) result \<Rightarrow> 'os Host \<Rightarrow> files \<Rightarrow> ('os LdeWorld, string) result" where
  "lde_start env cfg file h fs =
     bind_result (pipeline_new env cfg 0 (load_initial_bundle (le_trds env) (ld_bundle_path cfg) file)) (\<lambda>p.
     let w0 = \<lparr>lw_pipeline = p, lw_bus = \<lparr>server_queue = [], broadcasts = []\<rparr>, lw_host = h, lw_files = fs, lw_n = 1\<rparr>;
         (p, w) = publish_skipped_rule_alerts env p (dp_version p) w0
     in Ok (w\<lparr>lw_pipeline := p\<rparr>))"

definition trds_client :: "LocalDetectionConfig \<Rightarrow> string option \<Rightarrow> string option" where
  "trds_client cfg build_error =
     (case ld_trds_endpoint cfg of
        Some endpoint \<Rightarrow> (case client_new endpoint build_error of Ok c \<Rightarrow> Some c | Err _ \<Rightarrow> None)
      | None \<Rightarrow> None)"

definition lde_run :: "'os LdeEnv \<Rightarrow> TrdsText \<Rightarrow> LocalDetectionConfig \<Rightarrow> (bytes, string) result \<Rightarrow> string option \<Rightarrow> 'os Host \<Rightarrow> files \<Rightarrow> LdeInput list \<Rightarrow> ('os LdeWorld, string) result" where
  "lde_run env tx cfg file build_error h fs inputs =
     map_ok (fold (lde_step env tx cfg (trds_client cfg build_error)) inputs) (lde_start env cfg file h fs)"

section \<open>What a turn of the loop leaves alone\<close>

text \<open>Relations between the worlds before and after, closed under the steps that handling an event is made
  of: raising one alert, and storing the new state of the behavioural engine or of the scanner.\<close>

locale alert_relation =
  fixes env :: "'os LdeEnv" and cfg :: LocalDetectionConfig and R :: "'os LdeWorld \<Rightarrow> 'os LdeWorld \<Rightarrow> bool"
  assumes refl: "R w w"
    and trans: "R u v \<Longrightarrow> R v w \<Longrightarrow> R u w"
    and alert: "R w (raise_alert env cfg path a w)"
    and engine: "R w (tick (w\<lparr>lw_pipeline := (lw_pipeline w)\<lparr>dp_behavioral := snd (evaluate_at rx ev now (dp_behavioral (lw_pipeline w)))\<rparr>\<rparr>))"
    and scanner: "R w (tick (w\<lparr>lw_pipeline := (lw_pipeline w)\<lparr>dp_yara := ys\<rparr>\<rparr>))"
begin

lemma alerts: "R w (fold (raise_alert env cfg path) as w)"
  by (induction as arbitrary: w) (auto intro: refl trans alert)

lemma phases:
  "R w (ioc_phase env cfg x w)" "R w (behavioral_phase env cfg x w)" "R w (yara_phase env cfg path w)"
proof -
  show "R w (ioc_phase env cfg x w)" unfolding ioc_phase_def by (rule alerts)
  show "R w (behavioral_phase env cfg x w)"
    unfolding behavioral_phase_def case_prod_beta by (rule trans [OF engine alerts])
  show "R w (yara_phase env cfg path w)"
    using refl [of w] scanner trans [OF scanner alerts] by (simp add: yara_phase_def Let_def case_prod_beta split: result.split)
qed

lemma event: "R w (handle_event env cfg ek w)"
proof (cases "event_fields (le_json env) ek")
  case (Some x)
  note two = trans [OF phases(1) phases(2)]
  show ?thesis by (simp add: handle_event_def Some Let_def two trans [OF two phases(3)] split: option.split)
qed (simp add: handle_event_def refl)

end

text \<open>The rules a pipeline runs.\<close>

definition runs_bundle :: "'os LdeEnv \<Rightarrow> DetectionPipeline \<Rightarrow> RuleBundle \<Rightarrow> bool" where
  "runs_bundle env p b \<longleftrightarrow> dp_version p = rb_version b \<and> matcher_build (le_match env) (rb_iocs b) = Ok (dp_iocs p) \<and>
     rules (dp_behavioral p) = rb_behavioral b"

definition same_rules :: "'os LdeWorld \<Rightarrow> 'os LdeWorld \<Rightarrow> bool" where
  "same_rules w w' \<longleftrightarrow> dp_iocs (lw_pipeline w') = dp_iocs (lw_pipeline w) \<and> dp_version (lw_pipeline w') = dp_version (lw_pipeline w) \<and>
     rules (dp_behavioral (lw_pipeline w')) = rules (dp_behavioral (lw_pipeline w))"

lemma same_rules_refl [simp]: "same_rules w w"
  by (simp add: same_rules_def)

lemma same_rules_trans: "same_rules a b \<Longrightarrow> same_rules b c \<Longrightarrow> same_rules a c"
  by (simp add: same_rules_def)

lemma runs_bundle_same: "same_rules w w' \<Longrightarrow> runs_bundle env (lw_pipeline w) b \<Longrightarrow> runs_bundle env (lw_pipeline w') b"
  by (simp add: same_rules_def runs_bundle_def)

lemma eval_from_setup: "same_setup eng (snd (eval_from env ev now idxs eng))"
proof (induction idxs arbitrary: eng)
  case (Cons i "is")
  show ?case unfolding eval_from_Cons by (rule same_setup_trans [OF eval_rule_setup Cons.IH])
qed (simp add: same_setup_def)

lemma evaluate_at_setup: "same_setup eng (snd (evaluate_at env ev now eng))"
  by (simp add: evaluate_at_def eval_from_setup)

lemma raise_alert_same: "same_rules w (raise_alert env cfg path a w)"
  by (simp add: same_rules_def raise_alert_def lde_publish_alert_def maybe_respond_def tick_def Let_def split: prod.split option.split)

interpretation rules_kept: alert_relation env cfg same_rules
  for env :: "'os LdeEnv" and cfg
proof
  show "same_rules w (tick (w\<lparr>lw_pipeline := (lw_pipeline w)\<lparr>dp_behavioral := snd (evaluate_at rx ev now (dp_behavioral (lw_pipeline w)))\<rparr>\<rparr>))"
    for w :: "'os LdeWorld" and rx ev now
    using evaluate_at_setup [of "dp_behavioral (lw_pipeline w)" rx ev now] by (simp add: same_rules_def tick_def same_setup_def)
qed (auto simp: same_rules_def tick_def raise_alert_same [unfolded same_rules_def])

section \<open>Only authentic rules are installed\<close>

lemma pipeline_new_runs: "pipeline_new env cfg n b = Ok p \<Longrightarrow> runs_bundle env p b"
  by (auto simp: pipeline_new_def result_simps runs_bundle_def)

lemma publish_notice_pipeline [simp]: "lw_pipeline (publish_notice env a w) = lw_pipeline w"
  by (simp add: publish_notice_def tick_def)

lemma skipped_rule_alerts_runs:
  "runs_bundle env (fst (publish_skipped_rule_alerts env' p v w)) b = runs_bundle env p b"
  by (simp add: publish_skipped_rule_alerts_def take_skipped_rules_def runs_bundle_def)

text \<open>What a pull does to the pipeline: nothing, or it installs a newer bundle that a key vouches for.\<close>

lemma pull_cases:
  assumes "dp_version (lw_pipeline w) = cur"
  shows "same_rules w (snd (pull_and_install env tx cfg ep keys reply cur w)) \<or>
    (\<exists>b kid bs sig. runs_bundle env (lw_pipeline (snd (pull_and_install env tx cfg ep keys reply cur w))) b \<and>
       vouched (le_trds env) keys kid bs sig b \<and> cur < rb_version b)"
proof (cases "fetch_envelope (le_trds env) ep reply")
  case (Ok e)
  show ?thesis
  proof (cases e)
    case (Some envelope)
    show ?thesis
    proof (cases "se_version envelope \<le> cur")
      case False
      show ?thesis
      proof (cases "verify_envelope (le_trds env) envelope keys")
        case v: (Ok v)
        then obtain bs sig b where vb: "vouched (le_trds env) keys (se_key_id envelope) bs sig b" "rb_version b = se_version envelope" "vb_bundle v = b"
          by (auto simp: verify_envelope_Ok_iff)
        show ?thesis
        proof (cases "pipeline_new env cfg (lw_n w) b")
          case p: (Ok p)
          have "runs_bundle env (lw_pipeline (snd (pull_and_install env tx cfg ep keys reply cur w))) b"
            using pipeline_new_runs [OF p] False
            by (simp add: pull_and_install_def Ok Some v vb p Let_def case_prod_beta skipped_rule_alerts_runs)
          moreover have "cur < rb_version b" using vb(2) False by simp
          ultimately show ?thesis using vb(1) by blast
        qed (use False in \<open>simp add: pull_and_install_def Ok Some v vb\<close>)
      qed (use False in \<open>simp add: pull_and_install_def Ok Some same_rules_def\<close>)
    qed (simp add: pull_and_install_def Ok Some)
  qed (simp add: pull_and_install_def Ok)
qed (simp add: pull_and_install_def)

text \<open>The rules in force are the ones the module started with, or newer ones that a configured key
  vouches for.\<close>

definition authentic :: "'os LdeEnv \<Rightarrow> LocalDetectionConfig \<Rightarrow> RuleBundle \<Rightarrow> RuleBundle \<Rightarrow> bool" where
  "authentic env cfg b0 b \<longleftrightarrow> b = b0 \<or>
     rb_version b0 < rb_version b \<and>
     (\<exists>kid bs sig. vouched (le_trds env) (build_signing_keys (le_trds env) (ld_signing_keys cfg)) kid bs sig b)"

lemma lde_step_rules:
  assumes "runs_bundle env (lw_pipeline w) b" "authentic env cfg b0 b"
  shows "\<exists>b'. runs_bundle env (lw_pipeline (lde_step env tx cfg client x w)) b' \<and> authentic env cfg b0 b' \<and> rb_version b \<le> rb_version b'"
proof -
  have keep: ?thesis if "same_rules w (lde_step env tx cfg client x w)"
    using runs_bundle_same [OF that assms(1)] assms(2) by blast
  have v: "dp_version (lw_pipeline w) = rb_version b" using assms(1) by (simp add: runs_bundle_def)
  show ?thesis
  proof (cases x)
    case (PullTick reply)
    show ?thesis
    proof (cases client)
      case (Some ep)
      from pull_cases [OF v, of env tx cfg ep "build_signing_keys (le_trds env) (ld_signing_keys cfg)" reply] show ?thesis
      proof
        assume "\<exists>b' kid bs sig. runs_bundle env (lw_pipeline (snd (pull_and_install env tx cfg ep
            (build_signing_keys (le_trds env) (ld_signing_keys cfg)) reply (rb_version b) w))) b' \<and>
          vouched (le_trds env) (build_signing_keys (le_trds env) (ld_signing_keys cfg)) kid bs sig b' \<and> rb_version b < rb_version b'"
        then obtain b' kid bs sig where b': "runs_bundle env (lw_pipeline (lde_step env tx cfg client x w)) b'"
          "vouched (le_trds env) (build_signing_keys (le_trds env) (ld_signing_keys cfg)) kid bs sig b'" "rb_version b < rb_version b'"
          using PullTick Some v by auto
        moreover have "rb_version b0 \<le> rb_version b" using assms(2) by (auto simp: authentic_def)
        ultimately show ?thesis by (intro exI [of _ b']) (auto simp: authentic_def)
      qed (rule keep, simp add: PullTick Some v)
    qed (rule keep, simp add: PullTick)
  next
    case (DrainTick a k p)
    then show ?thesis by (intro keep) (simp add: same_rules_def case_prod_beta)
  qed (rule keep, simp add: rules_kept.event)
qed

lemma lde_steps_rules:
  "runs_bundle env (lw_pipeline w) b \<Longrightarrow> authentic env cfg b0 b \<Longrightarrow>
   \<exists>b'. runs_bundle env (lw_pipeline (fold (lde_step env tx cfg client) xs w)) b' \<and> authentic env cfg b0 b' \<and> rb_version b \<le> rb_version b'"
proof (induction xs arbitrary: w b)
  case (Cons x xs)
  obtain b1 where b1: "runs_bundle env (lw_pipeline (lde_step env tx cfg client x w)) b1" "authentic env cfg b0 b1" "rb_version b \<le> rb_version b1"
    using lde_step_rules [OF Cons.prems] by blast
  from Cons.IH [OF b1(1,2)] b1(3) show ?case by (auto intro: le_trans)
qed auto


section \<open>Responses happen only when allowed\<close>

definition allowed_responses :: "ResponderConfig \<Rightarrow> string list" where
  "allowed_responses c = (if rc_block_ip c then [''block_ip''] else []) @ (if rc_kill_process c then [''kill_process''] else [])"

definition responses_ok :: "'os LdeEnv \<Rightarrow> LocalDetectionConfig \<Rightarrow> 'os LdeWorld \<Rightarrow> 'os LdeWorld \<Rightarrow> bool" where
  "responses_ok env cfg w w' \<longleftrightarrow> runs (guarded (le_ar env) (allowed_responses (ld_responder cfg))) (lw_host w) (lw_host w') \<and>
     (\<not> rc_block_ip (ld_responder cfg) \<longrightarrow> lw_host w' = lw_host w) \<and> (\<not> rc_quarantine (ld_responder cfg) \<longrightarrow> lw_files w' = lw_files w)"

lemma responses_ok_quiet: "lw_host w' = lw_host w \<Longrightarrow> lw_files w' = lw_files w \<Longrightarrow> responses_ok env cfg w w'"
  by (simp add: responses_ok_def)

lemma responses_ok_trans: "responses_ok env cfg u v \<Longrightarrow> responses_ok env cfg v w \<Longrightarrow> responses_ok env cfg u w"
  by (auto simp: responses_ok_def intro: runs_trans)

lemma dispatch_allowed: "runs (guarded e (allowed_responses c)) h (snd (dispatch e (responder_registry c) n p t h))"
proof -
  have "responder_registry c = registry_new (allowed_responses c)" by (simp add: responder_registry_def allowed_responses_def)
  then show ?thesis by (simp add: dispatch_runs)
qed

lemma raise_alert_responses: "responses_ok env cfg w (raise_alert env cfg path a w)"
  by (simp add: responses_ok_def raise_alert_def lde_publish_alert_def maybe_respond_def respond_block_ip_def
      respond_quarantine_def tick_def Let_def dispatch_allowed split: prod.split option.split)

interpretation responses: alert_relation env cfg "responses_ok env cfg"
  for env :: "'os LdeEnv" and cfg
  by unfold_locales (auto simp: responses_ok_quiet tick_def raise_alert_responses intro: responses_ok_trans)

lemma publish_notice_quiet [simp]: "lw_host (publish_notice env a w) = lw_host w" "lw_files (publish_notice env a w) = lw_files w"
  by (simp_all add: publish_notice_def tick_def)

lemma skipped_alerts_quiet [simp]:
  "lw_host (snd (publish_skipped_rule_alerts env p v w)) = lw_host w" "lw_files (snd (publish_skipped_rule_alerts env p v w)) = lw_files w"
proof -
  have "lw_host (fold (\<lambda>r. publish_notice env (disabled_notice v r)) rs w) = lw_host w \<and>
    lw_files (fold (\<lambda>r. publish_notice env (disabled_notice v r)) rs w) = lw_files w" for rs
    by (induction rs arbitrary: w) simp_all
  then show "lw_host (snd (publish_skipped_rule_alerts env p v w)) = lw_host w" "lw_files (snd (publish_skipped_rule_alerts env p v w)) = lw_files w"
    by (simp_all add: publish_skipped_rule_alerts_def take_skipped_rules_def)
qed

lemma pull_quiet: "responses_ok env cfg w (snd (pull_and_install env tx cfg ep keys reply cur w))"
  by (rule responses_ok_quiet)
    (simp_all add: pull_and_install_def Let_def case_prod_beta tick_def split: result.split option.split)

lemma lde_step_responses: "responses_ok env cfg w (lde_step env tx cfg client x w)"
proof (cases x)
  case (PullTick reply)
  then show ?thesis by (simp add: pull_quiet responses_ok_quiet split: option.split)
next
  case (DrainTick a k p)
  then show ?thesis by (simp add: responses_ok_quiet case_prod_beta)
qed (simp add: responses.event)

text \<open>
  C21: local responses are gated. Over any run of the module, whatever events and bundles arrive, the
  only commands run on the host are guarded ones of the responses the configuration switches on: with
  address blocking off the host is untouched, and with quarantine off no file is moved.
\<close>

theorem responses_gated:
  assumes "lde_run env tx cfg file build_error h fs inputs = Ok w"
  shows "(\<exists>cs. spawned (lw_host w) = spawned h @ cs \<and> list_all (guarded (le_ar env) (allowed_responses (ld_responder cfg))) cs) \<and>
    (rc_block_ip (ld_responder cfg) \<or> lw_host w = h) \<and> (rc_quarantine (ld_responder cfg) \<or> lw_files w = fs)"
proof -
  obtain w0 where w0: "lde_start env cfg file h fs = Ok w0" "w = fold (lde_step env tx cfg (trds_client cfg build_error)) inputs w0"
    using assms by (auto simp: lde_run_def result_simps)
  have start: "lw_host w0 = h" "lw_files w0 = fs"
    using w0(1) by (auto simp: lde_start_def result_simps Let_def case_prod_beta)
  have "responses_ok env cfg v (fold (lde_step env tx cfg (trds_client cfg build_error)) xs v)" for xs v
    by (induction xs arbitrary: v) (auto intro: responses_ok_trans lde_step_responses simp: responses_ok_quiet)
  from this [of w0 inputs] start w0(2) show ?thesis by (auto simp: responses_ok_def runs_def)
qed

section \<open>Listed addresses in logs are reported\<close>

definition bus_grows :: "'os LdeWorld \<Rightarrow> 'os LdeWorld \<Rightarrow> bool" where
  "bus_grows w w' \<longleftrightarrow> set (broadcasts (lw_bus w)) \<subseteq> set (broadcasts (lw_bus w')) \<and> set (server_queue (lw_bus w)) \<subseteq> set (server_queue (lw_bus w'))"

lemma raise_alert_bus:
  "a \<in> set (broadcasts (lw_bus (raise_alert env cfg path a w)))"
  "\<forall>n. le_answer env n = Queued \<Longrightarrow> a \<in> set (server_queue (lw_bus (raise_alert env cfg path a w)))"
  "bus_grows w (raise_alert env cfg path a w)"
  by (auto simp: bus_grows_def raise_alert_def lde_publish_alert_def maybe_respond_def publish_alert_def publish_to_server_def
      tick_def Let_def split: prod.split option.split TrySend.split result.split)

interpretation bus: alert_relation env cfg bus_grows
  for env :: "'os LdeEnv" and cfg
  by unfold_locales (auto simp: raise_alert_bus, auto simp: bus_grows_def tick_def)

lemma alerts_on_bus:
  assumes "a \<in> set as"
  shows "a \<in> set (broadcasts (lw_bus (fold (raise_alert env cfg path) as w)))"
    "\<forall>n. le_answer env n = Queued \<Longrightarrow> a \<in> set (server_queue (lw_bus (fold (raise_alert env cfg path) as w)))"
proof -
  obtain pre post where as: "as = pre @ a # post" using split_list [OF assms] by blast
  let ?v = "raise_alert env cfg path a (fold (raise_alert env cfg path) pre w)"
  have "bus_grows ?v (fold (raise_alert env cfg path) as w)" unfolding as using bus.alerts by simp
  then show "a \<in> set (broadcasts (lw_bus (fold (raise_alert env cfg path) as w)))"
    "\<forall>n. le_answer env n = Queued \<Longrightarrow> a \<in> set (server_queue (lw_bus (fold (raise_alert env cfg path) as w)))"
    using raise_alert_bus(1) [of a env cfg path "fold (raise_alert env cfg path) pre w"]
      raise_alert_bus(2) [of env a cfg path "fold (raise_alert env cfg path) pre w"] unfolding bus_grows_def by blast+
qed

lemma ioc_alert_reported:
  assumes "event_fields (le_json env) ek = Some x" "m \<in> set (ioc_hits env (dp_iocs (lw_pipeline w)) x)"
  shows "alert_from_ioc m \<in> set (broadcasts (lw_bus (handle_event env cfg ek w)))"
    "\<forall>n. le_answer env n = Queued \<Longrightarrow> alert_from_ioc m \<in> set (server_queue (lw_bus (handle_event env cfg ek w)))"
proof -
  have a: "alert_from_ioc m \<in> set (map alert_from_ioc (ioc_hits env (dp_iocs (lw_pipeline w)) x))" using assms(2) by simp
  have "bus_grows (ioc_phase env cfg x w) (behavioral_phase env cfg x (ioc_phase env cfg x w))" by (rule bus.phases)
  then have "bus_grows (ioc_phase env cfg x w) (handle_event env cfg ek w)"
    using bus.trans [OF _ bus.phases(3) [of _ env cfg]] by (simp add: handle_event_def assms(1) Let_def split: option.split)
  then show "alert_from_ioc m \<in> set (broadcasts (lw_bus (handle_event env cfg ek w)))"
    "\<forall>n. le_answer env n = Queued \<Longrightarrow> alert_from_ioc m \<in> set (server_queue (lw_bus (handle_event env cfg ek w)))"
    using alerts_on_bus [OF a, of env cfg "ef_fim_path x" w] unfolding ioc_phase_def [symmetric] bus_grows_def by blast+
qed

lemma find_rev_member: "\<exists>r\<in>set rs. f r = x \<Longrightarrow> \<exists>r\<in>set rs. f r = x \<and> List.find (\<lambda>r. f r = x) (rev rs) = Some r"
  using find_Some_iff2 [of _ "\<lambda>r. f r = x" "rev rs"] find_None_iff [of "\<lambda>r. f r = x" "rev rs"]
  by (metis (mono_tags, lifting) nth_mem option.exhaust set_rev)

text \<open>
  C18: a listed address in a log line is always reported. When the message of a collected log line
  contains, free of neighbouring digits and dots, an IPv4 address that the bundle in force lists, the
  event raises an alert for an indicator of that address: every local subscriber sees it, and the
  server queue holds it whenever the queue has room.
\<close>

theorem logged_address_reported:
  assumes "bloom_sound (le_match env)" "runs_bundle env (lw_pipeline w) b"
    and "dotted_quad ip" "free pre post" "ip \<in> set (map ii_ip (ioc_ips (rb_iocs b)))"
  shows "\<exists>r\<in>set (ioc_ips (rb_iocs b)). ii_ip r = ip \<and>
    (let w' = handle_event env cfg (LogCollected source (pre @ ip @ post)) w; a = alert_from_ioc (ip_match r)
     in a \<in> set (broadcasts (lw_bus w')) \<and> ((\<forall>n. le_answer env n = Queued) \<longrightarrow> a \<in> set (server_queue (lw_bus w'))))"
proof -
  let ?ek = "LogCollected source (pre @ ip @ post)"
  obtain x where x: "event_fields (le_json env) ?ek = Some x" "ef_ips x = extract_ipv4s (pre @ ip @ post)"
    by (simp add: event_fields_def Let_def plain_fields_def)
  have "ip \<in> set (extract_ipv4s (pre @ ip @ post))"
    by (rule extract_complete) (use assms(3,4) in \<open>auto simp: free_def\<close>)
  obtain r where r: "r \<in> set (ioc_ips (rb_iocs b))" "ii_ip r = ip" "List.find (\<lambda>r. ii_ip r = ip) (rev (ioc_ips (rb_iocs b))) = Some r"
    using find_rev_member [of "ioc_ips (rb_iocs b)" ii_ip ip] assms(5) by auto
  have "match_ip (le_match env) (dp_iocs (lw_pipeline w)) ip = Some (ip_match r)"
    using match_ip_exact [OF assms(1), of "rb_iocs b" "dp_iocs (lw_pipeline w)" ip] assms(2) r(3) by (simp add: runs_bundle_def)
  then have "ip_match r \<in> set (ioc_hits env (dp_iocs (lw_pipeline w)) x)"
    using \<open>ip \<in> set (extract_ipv4s (pre @ ip @ post))\<close> x(2) by (force simp: ioc_hits_def List.map_filter_def)
  from ioc_alert_reported [OF x(1) this] r(1,2) show ?thesis unfolding Let_def by blast
qed

section \<open>A concrete run\<close>

text \<open>Libraries for evaluation: one signed bundle, version 2 of the baseline, and a channel with room.\<close>

definition sample_trds :: TrdsLibs where
  "sample_trds = \<lparr>hex_decode = (\<lambda>s. Ok (replicate 32 CHR ''k'')), key_from_bytes = Ok, b64_decode = Ok,
     ed_verify = (\<lambda>k m s. s = replicate 64 CHR ''s''),
     rmp_from_slice = (\<lambda>b. if b = ''v2'' then Ok (default_bundle\<lparr>rb_version := 2\<rparr>) else Err ''rmp''), rmp_to_vec = (\<lambda>b. Ok ''v2''),
     envelope_from_slice = (\<lambda>b. Ok \<lparr>se_version = 2, se_key_id = ''k'', se_bundle_b64 = b, se_signature_b64 = replicate 64 CHR ''s''\<rparr>),
     url_error = (\<lambda>u. None)\<rparr>"

definition sample_lde :: "(string \<times> string) list LdeEnv" where
  "sample_lde = \<lparr>le_match = sample_libs, le_regex = sample_regexes,
     le_yara = \<lparr>compiler_error = None, rule_file_exists = (\<lambda>p. False), add_rules_error = (\<lambda>c p. None), compile_error = (\<lambda>c. None),
       file_len = (\<lambda>p. None), yara_scan_file = (\<lambda>r p t. Ok []), yara_scan_mem = (\<lambda>r b t. Ok [])\<rparr>,
     le_trds = sample_trds, le_json = (\<lambda>s. None), le_codec = \<lparr>kind_to_json = (\<lambda>a. None), kind_from_json = (\<lambda>s. None)\<rparr>,
     le_ar = sample_host, le_answer = (\<lambda>n. Queued), le_spool = (\<lambda>n. \<lparr>insert_ok = True, count_ok = True, evict_ok = True\<rparr>),
     le_quarantine = (\<lambda>n. \<lparr>qf_nanos = n, qf_mkdir = None, qf_rename = None, qf_copy = None, qf_remove = None\<rparr>),
     le_instant = (\<lambda>n. n), le_wall = int, le_open_queue = (\<lambda>n. None)\<rparr>"

definition sample_lde_cfg :: LocalDetectionConfig where
  "sample_lde_cfg = \<lparr>ld_offline_queue_max = 10, ld_yara_rate = 1, ld_yara_max_mb = 1, ld_max_window_sec = 60, ld_max_entities = 4,
     ld_responder = \<lparr>rc_block_ip = False, rc_kill_process = True, rc_quarantine = False, rc_quarantine_dir = ''/q''\<rparr>,
     ld_bundle_path = ''/b'', ld_drain_batch = 1, ld_trds_endpoint = Some ''https://trds'', ld_signing_keys = [''k:00'']\<rparr>"

abbreviation sample_texts :: TrdsText where
  "sample_texts \<equiv> \<lparr>trds_display = (\<lambda>e. []), trds_debug = (\<lambda>e. [])\<rparr>"

abbreviation sample_lde_run :: "LdeInput list \<Rightarrow> ((string \<times> string) list LdeWorld, string) result" where
  "sample_lde_run inputs \<equiv> lde_run sample_lde sample_texts sample_lde_cfg (Err ''missing'') None \<lparr>host_os = [], spawned = []\<rparr> Map.empty inputs"

lemma sample_lde_bundle [simp]: "load_initial_bundle (le_trds sample_lde) (ld_bundle_path sample_lde_cfg) (Err ''missing'') = default_bundle"
  by (simp add: load_initial_bundle_def bundle_load_def)

lemma sample_matcher: "\<exists>m. matcher_build (le_match sample_lde) iocs = Ok m"
  by (simp add: matcher_build_def sample_lde_def sample_libs_def Let_def)

lemma sample_lde_runs: "\<exists>w. sample_lde_run inputs = Ok w"
  using sample_matcher [of "rb_iocs default_bundle"]
  by (auto simp: lde_run_def lde_start_def pipeline_new_def result_simps case_prod_beta Let_def)

text \<open>A run that installs version 2.\<close>

lemma sample_keys: "build_signing_keys (le_trds sample_lde) (ld_signing_keys sample_lde_cfg) = [\<lparr>sk_key_id = ''k'', sk_public_hex = ''00''\<rparr>]"
  by code_simp


text \<open>With blocking and quarantine off, a log line with a listed address leaves the host as it is.\<close>

theorem responses_gated_witness:
  "\<exists>w. sample_lde_run [LdeEvent (LogCollected ''syslog'' ''from 203.0.113.9'')] = Ok w \<and>
     lw_host w = \<lparr>host_os = [], spawned = []\<rparr> \<and> lw_files w = Map.empty"
proof -
  obtain w where w: "sample_lde_run [LdeEvent (LogCollected ''syslog'' ''from 203.0.113.9'')] = Ok w" using sample_lde_runs by blast
  from responses_gated [OF this] w show ?thesis by (auto simp: sample_lde_cfg_def)
qed

text \<open>The same line is reported on the bus.\<close>

theorem logged_address_reported_witness:
  "\<exists>w. sample_lde_run [] = Ok w \<and>
     (let w' = handle_event sample_lde sample_lde_cfg (LogCollected ''syslog'' (''from '' @ ''203.0.113.9'' @ '' port 22'')) w;
          a = alert_from_ioc (ip_match (hd (ioc_ips (rb_iocs default_bundle))))
      in a \<in> set (broadcasts (lw_bus w')) \<and> a \<in> set (server_queue (lw_bus w')))"
proof -
  let ?msg = "''from '' @ ''203.0.113.9'' @ '' port 22''"
  obtain w where w: "sample_lde_run [] = Ok w" using sample_lde_runs by blast
  then have start: "lde_start sample_lde sample_lde_cfg (Err ''missing'') \<lparr>host_os = [], spawned = []\<rparr> Map.empty = Ok w"
    by (simp add: lde_run_def result_simps)
  have b: "runs_bundle sample_lde (lw_pipeline w) default_bundle"
    using start by (auto simp: lde_start_def result_simps Let_def case_prod_beta skipped_rule_alerts_runs dest!: pipeline_new_runs)
  have q: "dotted_quad ''203.0.113.9''" unfolding dotted_quad_def
    by (rule exI [of _ "''203''"], rule exI [of _ "''0''"], rule exI [of _ "''113''"], rule exI [of _ "''9''"])
      (intro conjI; (simp | code_simp))
  have "\<forall>n. le_answer sample_lde n = Queued" by (simp add: sample_lde_def)
  have f: "free ''from '' '' port 22''" by code_simp
  have s: "bloom_sound (le_match sample_lde)" by (simp add: bloom_sound_def sample_lde_def sample_libs_def)
  have one: "\<And>r. r \<in> set (ioc_ips (rb_iocs default_bundle)) \<Longrightarrow> r = hd (ioc_ips (rb_iocs default_bundle))"
    and "''203.0.113.9'' \<in> set (map ii_ip (ioc_ips (rb_iocs default_bundle)))" by (simp_all add: default_bundle_def Let_def)
  from logged_address_reported [OF s b q f this(2), of sample_lde_cfg "''syslog''"]
  have "let w' = handle_event sample_lde sample_lde_cfg (LogCollected ''syslog'' ?msg) w; a = alert_from_ioc (ip_match (hd (ioc_ips (rb_iocs default_bundle))))
    in a \<in> set (broadcasts (lw_bus w')) \<and> a \<in> set (server_queue (lw_bus w'))"
    unfolding Let_def using one \<open>\<forall>n. le_answer sample_lde n = Queued\<close> by blast
  with w show ?thesis by blast
qed

section \<open>The baseline rule on lsass\<close>

text \<open>The last rule of the baseline uses negative look-ahead. Under a regular-expression library without
  look-around it is never armed, and the module reports it as disabled at every start.\<close>

lemma lsass_rule_never_armed:
  assumes "regex_error rx (''^(?!.*'' @ [backslash] @ ''b(services|wininit|smss)'' @ [backslash] @ ''.exe).*$'') = Some e"
  shows "2 \<notin> fst ` set (process_chain_regex (engine_new rx (rb_behavioral default_bundle) n m)) \<and>
    ''edr-process-chain-003'' \<in> sr_rule_id ` set (skipped_rules (engine_new rx (rb_behavioral default_bundle) n m))"
  using assms by (simp add: engine_new_def default_bundle_def Let_def)

end
