(* ===== verification/HostIsolation.thy ===== *)
theory HostIsolation
  imports Router ActiveResponse LdeQueue
begin

text \<open>
  Host isolation: the module (\<open>sda-host-isolation/src/lib.rs\<close>) that carries out signed
  \<open>IsolateHost\<close> and \<open>UnisolateHost\<close> jobs, and the Linux firewall behind it
  (\<open>sda-pal/src/host_isolation.rs\<close>), which runs the \<open>nft\<close> program.

  The crate for networks is a parameter: how a CIDR is read and printed, whether it is an IPv6 one,
  and the network of one address. So is the program \<open>nft\<close>: what it answers to its arguments, and what
  it does to the state of the host. Turning the payload of a notice into JSON cannot fail for its
  fields of text and is left out.
\<close>

section \<open>Networks and allow-lists\<close>

record 'n NetLib =
  net_parse :: "string \<Rightarrow> ('n, string) result"
  net_text :: "'n \<Rightarrow> string"
  net_v6 :: "'n \<Rightarrow> bool"
  net_new :: "string \<Rightarrow> nat \<Rightarrow> 'n option"

definition loopback_cidrs :: "'n NetLib \<Rightarrow> 'n list run" where
  "loopback_cidrs nl =
     bind_run (expect (net_parse nl ''127.0.0.0/8'')) (\<lambda>a.
     bind_run (expect (net_parse nl ''::1/128'')) (\<lambda>b. Ret [a, b]))"

text \<open>Appending what is not there yet.\<close>

definition push_new :: "'n \<Rightarrow> 'n list \<Rightarrow> 'n list" where
  "push_new x out = (if x \<in> set out then out else out @ [x])"

definition normalize_allow_ips :: "'n NetLib \<Rightarrow> 'n list \<Rightarrow> 'n list run" where
  "normalize_allow_ips nl allow_ips =
     bind_run (loopback_cidrs nl) (\<lambda>lbs.
     Ret (remdups_adj (sort_key (\<lambda>n. (net_v6 nl n, net_text nl n)) (fold push_new lbs allow_ips))))"

section \<open>The Linux firewall\<close>

datatype HostIsolationError = Io string | Command string | Unsupported string | SafetyViolation string

record 'n IsolationState =
  st_isolated :: bool
  st_allow_ips :: "'n list"

text \<open>The answer of the program: it could not be started, or its success and its error output.\<close>

type_synonym 'os nft_exec = "string list \<Rightarrow> 'os \<Rightarrow> (bool \<times> string, string) result \<times> 'os"

record ('n, 'os) LinuxHostIsolation =
  li_state :: "'n IsolationState"
  li_os :: 'os

definition run_nft :: "'os nft_exec \<Rightarrow> string list \<Rightarrow> 'os \<Rightarrow> (unit, HostIsolationError) result \<times> 'os" where
  "run_nft nft av s =
     (case nft av s of
        (Err e, s) \<Rightarrow> (Err (Io e), s)
      | (Ok (success, stderr), s) \<Rightarrow> (if success then Ok () else Err (Command stderr), s))"

abbreviation add_table_args :: "string list" where
  "add_table_args \<equiv> [''add'', ''table'', ''inet'', ''sn360_isolation'']"

definition add_chain_args :: "string \<Rightarrow> string list" where
  "add_chain_args chain = [''add'', ''chain'', ''inet'', ''sn360_isolation'', chain,
     ''{ type filter hook '' @ chain @ '' priority 0 ; policy drop ; }'']"

definition add_rule_args :: "string \<Rightarrow> string \<Rightarrow> string \<Rightarrow> string \<Rightarrow> string list" where
  "add_rule_args chain family dir cidr = [''add'', ''rule'', ''inet'', ''sn360_isolation'', chain, family, dir, cidr, ''accept'']"

fun add_rules :: "'os nft_exec \<Rightarrow> 'n NetLib \<Rightarrow> 'n list \<Rightarrow> 'os \<Rightarrow> (unit, HostIsolationError) result \<times> 'os" where
  "add_rules nft nl [] s = (Ok (), s)"
| "add_rules nft nl (net # nets) s =
     (let cidr = net_text nl net; family = (if net_v6 nl net then ''ip6'' else ''ip'')
      in case run_nft nft (add_rule_args ''output'' family ''daddr'' cidr) s of
           (Err e, s) \<Rightarrow> (Err e, s)
         | (Ok _, s) \<Rightarrow>
             (case run_nft nft (add_rule_args ''input'' family ''saddr'' cidr) s of
                (Err e, s) \<Rightarrow> (Err e, s)
              | (Ok _, s) \<Rightarrow> add_rules nft nl nets s))"

definition isolate :: "'os nft_exec \<Rightarrow> 'n NetLib \<Rightarrow> 'n list \<Rightarrow> ('n, 'os) LinuxHostIsolation
    \<Rightarrow> ((unit, HostIsolationError) result \<times> ('n, 'os) LinuxHostIsolation) run" where
  "isolate nft nl allow_ips h =
     bind_run (normalize_allow_ips nl allow_ips) (\<lambda>allow.
     Ret (if st_isolated (li_state h) \<and> st_allow_ips (li_state h) = allow then (Ok (), h)
          else let s = snd (run_nft nft add_table_args (li_os h));
                   s = snd (run_nft nft (add_chain_args ''input'') s);
                   s = snd (run_nft nft (add_chain_args ''output'') s)
               in case add_rules nft nl allow s of
                    (Err e, s) \<Rightarrow> (Err e, h\<lparr>li_os := s\<rparr>)
                  | (Ok _, s) \<Rightarrow> (Ok (), \<lparr>li_state = \<lparr>st_isolated = True, st_allow_ips = allow\<rparr>, li_os = s\<rparr>)))"

definition unisolate :: "'os nft_exec \<Rightarrow> ('n, 'os) LinuxHostIsolation \<Rightarrow> (unit, HostIsolationError) result \<times> ('n, 'os) LinuxHostIsolation" where
  "unisolate nft h =
     (Ok (), \<lparr>li_state = \<lparr>st_isolated = False, st_allow_ips = []\<rparr>,
              li_os = snd (run_nft nft [''delete'', ''table'', ''inet'', ''sn360_isolation''] (li_os h))\<rparr>)"

definition is_isolated :: "'os nft_exec \<Rightarrow> 'os \<Rightarrow> (bool, HostIsolationError) result \<times> 'os" where
  "is_isolated nft s =
     (case nft [''list'', ''table'', ''inet'', ''sn360_isolation''] s of
        (Err e, s) \<Rightarrow> (Err (Io e), s)
      | (Ok (success, _), s) \<Rightarrow> (Ok success, s))"

definition current_allowed_ips :: "('n, 'os) LinuxHostIsolation \<Rightarrow> ('n list, HostIsolationError) result" where
  "current_allowed_ips h = Ok (st_allow_ips (li_state h))"

section \<open>The module\<close>

record HostIsolationConfig =
  hi_enabled :: bool
  control_plane_cidrs :: "string list"
  always_allow_dns :: bool

record HostIsolationStateChangedPayload =
  hp_isolated :: bool
  hp_allowed_ips :: "string list"
  hp_action :: string
  hp_reason :: "string option"
  hp_job_id :: uuid
  hp_observed_at :: datetime
  hp_schema_version :: nat

definition PAYLOAD_SCHEMA_VERSION :: nat where
  "PAYLOAD_SCHEMA_VERSION = 1"

record HostIsolationVitals =
  v_submitted :: nat
  v_isolated :: nat
  v_unisolated :: nat
  v_refused :: nat
  v_pal_errors :: nat

record ('n, 'os) HiState =
  hi_host :: "('n, 'os) LinuxHostIsolation"
  hi_last :: bool
  hi_bus :: "HostIsolationStateChangedPayload Bus"
  hi_vitals :: HostIsolationVitals

text \<open>The outside: the networks, the program, the decoders of the router, and the hooks.\<close>

record ('n, 'os) HiEnv =
  he_net :: "'n NetLib"
  he_nft :: "'os nft_exec"
  he_range :: chrono_range
  he_args :: args_env
  he_hooks :: JobValidationHooks

text \<open>A job with what is read while it is handled: the clock at its validation and at its notice, the text of \<open>resolv.conf\<close> unless it cannot
  be read, and the answer of the server channel.\<close>

record HiInput =
  hj_job :: SignedActionJob
  hj_now :: datetime
  hj_resolv :: "string option"
  hj_observed :: datetime
  hj_answer :: TrySend

fun parse_extra_allow_ips :: "'n NetLib \<Rightarrow> (string \<Rightarrow> string) \<Rightarrow> string list \<Rightarrow> ('n list, string) result" where
  "parse_extra_allow_ips nl debug [] = Ok []"
| "parse_extra_allow_ips nl debug (s # ss) =
     bind_result (map_err (\<lambda>e. ''invalid CIDR '' @ debug s @ '': '' @ e) (net_parse nl s)) (\<lambda>n.
     map_ok (\<lambda>ns. n # ns) (parse_extra_allow_ips nl debug ss))"

text \<open>One line of \<open>resolv.conf\<close>.\<close>

definition resolv_line :: "'n NetLib \<Rightarrow> string \<Rightarrow> 'n option" where
  "resolv_line nl raw =
     (let line = trim_str raw
      in if line = [] \<or> hd line = CHR ''#'' \<or> hd line = CHR '';'' then None
         else case split_whitespace line of
                word # addr # _ \<Rightarrow>
                  if word \<noteq> ''nameserver'' then None
                  else let addr_no_scope = takeWhile (\<lambda>c. c \<noteq> CHR ''%'') addr
                       in (case parse_ip addr_no_scope of
                             None \<Rightarrow> None
                           | Some V4 \<Rightarrow> net_new nl addr_no_scope 32
                           | Some V6 \<Rightarrow> net_new nl addr_no_scope 128)
              | _ \<Rightarrow> None)"

definition parse_resolv_conf :: "'n NetLib \<Rightarrow> string option \<Rightarrow> 'n list" where
  "parse_resolv_conf nl contents =
     (case contents of None \<Rightarrow> [] | Some s \<Rightarrow> List.map_filter (resolv_line nl) (str_lines s))"

definition build_allow_ips :: "'n NetLib \<Rightarrow> HostIsolationConfig \<Rightarrow> string option \<Rightarrow> 'n list \<Rightarrow> 'n list" where
  "build_allow_ips nl cfg resolv extras =
     (let out = fold (\<lambda>raw out. case net_parse nl raw of Ok c \<Rightarrow> push_new c out | Err _ \<Rightarrow> out) (control_plane_cidrs cfg) extras;
          out = (if always_allow_dns cfg then fold push_new (parse_resolv_conf nl resolv) out else out)
      in remdups_adj (sort_key (net_text nl) out))"

definition emit_state_changed :: "TrySend \<Rightarrow> HostIsolationStateChangedPayload \<Rightarrow> ('n, 'os) HiState \<Rightarrow> ('n, 'os) HiState" where
  "emit_state_changed answer payload st = st\<lparr>hi_bus := snd (publish_to_server answer payload (hi_bus st))\<rparr>"

abbreviation count_refused :: "('n, 'os) HiState \<Rightarrow> ('n, 'os) HiState" where
  "count_refused st \<equiv> st\<lparr>hi_vitals := (hi_vitals st)\<lparr>v_refused := v_refused (hi_vitals st) + 1\<rparr>\<rparr>"

abbreviation count_pal_error :: "('n, 'os) HiState \<Rightarrow> ('n, 'os) HiState" where
  "count_pal_error st \<equiv> st\<lparr>hi_vitals := (hi_vitals st)\<lparr>v_pal_errors := v_pal_errors (hi_vitals st) + 1\<rparr>\<rparr>"

definition isolate_job :: "('n, 'os) HiEnv \<Rightarrow> HostIsolationConfig \<Rightarrow> HiInput \<Rightarrow> IsolateHostArgs \<Rightarrow> ('n, 'os) HiState \<Rightarrow> ('n, 'os) HiState run" where
  "isolate_job env cfg i as st =
     (case parse_extra_allow_ips (he_net env) (debug_str (he_args env)) (extra_allow_ips as) of
        Err _ \<Rightarrow> Ret (count_refused st)
      | Ok extras \<Rightarrow>
          (let allow = build_allow_ips (he_net env) cfg (hj_resolv i) extras
           in bind_run (isolate (he_nft env) (he_net env) allow (hi_host st)) (\<lambda>(r, h).
              case r of
                Err _ \<Rightarrow> Ret (count_pal_error (st\<lparr>hi_host := h\<rparr>))
              | Ok _ \<Rightarrow>
                  (let transitioned = \<not> hi_last st;
                       st = st\<lparr>hi_host := h, hi_last := True, hi_vitals := (hi_vitals st)\<lparr>v_isolated := v_isolated (hi_vitals st) + 1\<rparr>\<rparr>;
                       allow_ips = (case current_allowed_ips h of Ok ips \<Rightarrow> ips | Err _ \<Rightarrow> allow)
                   in Ret (if transitioned
                           then emit_state_changed (hj_answer i)
                                  \<lparr>hp_isolated = True, hp_allowed_ips = map (net_text (he_net env)) allow_ips, hp_action = ''isolate_host'',
                                   hp_reason = IsolateHostArgs.reason as, hp_job_id = SignedActionJob.job_id (hj_job i), hp_observed_at = hj_observed i,
                                   hp_schema_version = PAYLOAD_SCHEMA_VERSION\<rparr> st
                           else st)))))"

definition unisolate_job :: "('n, 'os) HiEnv \<Rightarrow> HiInput \<Rightarrow> UnisolateHostArgs \<Rightarrow> ('n, 'os) HiState \<Rightarrow> ('n, 'os) HiState" where
  "unisolate_job env i as st =
     (case unisolate (he_nft env) (hi_host st) of
        (Err _, h) \<Rightarrow> count_pal_error (st\<lparr>hi_host := h\<rparr>)
      | (Ok _, h) \<Rightarrow>
          (let transitioned = hi_last st;
               st = st\<lparr>hi_host := h, hi_last := False, hi_vitals := (hi_vitals st)\<lparr>v_unisolated := v_unisolated (hi_vitals st) + 1\<rparr>\<rparr>
           in if transitioned
              then emit_state_changed (hj_answer i)
                     \<lparr>hp_isolated = False, hp_allowed_ips = [], hp_action = ''unisolate_host'',
                      hp_reason = UnisolateHostArgs.reason as, hp_job_id = SignedActionJob.job_id (hj_job i), hp_observed_at = hj_observed i,
                      hp_schema_version = PAYLOAD_SCHEMA_VERSION\<rparr> st
              else st))"

definition handle_job :: "('n, 'os) HiEnv \<Rightarrow> HostIsolationConfig \<Rightarrow> AgentIdentity \<Rightarrow> HiInput \<Rightarrow> ('n, 'os) HiState \<Rightarrow> ('n, 'os) HiState run" where
  "handle_job env cfg me i st =
     bind_run (validate (he_range env) (he_args env) (hj_job i) me (hj_now i) (he_hooks env)) (\<lambda>r.
     case r of
       Err _ \<Rightarrow> Ret (count_refused st)
     | Ok validated \<Rightarrow>
         if SignedActionJob.action (hj_job i) \<noteq> ActionKind.IsolateHost \<and> SignedActionJob.action (hj_job i) \<noteq> ActionKind.UnisolateHost then Ret st
         else if \<not> hi_enabled cfg then Ret (count_refused st)
         else if SignedActionJob.action (hj_job i) = ActionKind.IsolateHost \<and> control_plane_cidrs cfg = [] then Ret (count_refused st)
         else case job_args validated of
                JobArgs.IsolateHost as \<Rightarrow> isolate_job env cfg i as st
              | JobArgs.UnisolateHost as \<Rightarrow> Ret (unisolate_job env i as st)
              | _ \<Rightarrow> Ret st)"

fun hi_loop :: "('n, 'os) HiEnv \<Rightarrow> HostIsolationConfig \<Rightarrow> AgentIdentity \<Rightarrow> HiInput list \<Rightarrow> ('n, 'os) HiState \<Rightarrow> ('n, 'os) HiState run" where
  "hi_loop env cfg me [] st = Ret st"
| "hi_loop env cfg me (i # is) st =
     bind_run (handle_job env cfg me i (st\<lparr>hi_vitals := (hi_vitals st)\<lparr>v_submitted := v_submitted (hi_vitals st) + 1\<rparr>\<rparr>))
       (hi_loop env cfg me is)"

definition hi_start :: "('n, 'os) HiEnv \<Rightarrow> 'os \<Rightarrow> ('n, 'os) HiState" where
  "hi_start env s =
     (case is_isolated (he_nft env) s of (r, s) \<Rightarrow>
        \<lparr>hi_host = \<lparr>li_state = \<lparr>st_isolated = False, st_allow_ips = []\<rparr>, li_os = s\<rparr>,
         hi_last = (case r of Ok b \<Rightarrow> b | Err _ \<Rightarrow> False),
         hi_bus = \<lparr>server_queue = [], broadcasts = []\<rparr>,
         hi_vitals = \<lparr>v_submitted = 0, v_isolated = 0, v_unisolated = 0, v_refused = 0, v_pal_errors = 0\<rparr>\<rparr>)"

definition hi_run :: "('n, 'os) HiEnv \<Rightarrow> HostIsolationConfig \<Rightarrow> AgentIdentity \<Rightarrow> HiInput list \<Rightarrow> 'os \<Rightarrow> ('n, 'os) HiState run" where
  "hi_run env cfg me inputs s = hi_loop env cfg me inputs (hi_start env s)"

section \<open>Only authorised jobs act\<close>

definition authorised :: "('n, 'os) HiEnv \<Rightarrow> HostIsolationConfig \<Rightarrow> AgentIdentity \<Rightarrow> HiInput \<Rightarrow> bool" where
  "authorised env cfg me i \<longleftrightarrow>
     (\<exists>v. validate (he_range env) (he_args env) (hj_job i) me (hj_now i) (he_hooks env) = Ret (Ok v)) \<and> hi_enabled cfg \<and>
     (SignedActionJob.action (hj_job i) = ActionKind.UnisolateHost \<or>
      SignedActionJob.action (hj_job i) = ActionKind.IsolateHost \<and> control_plane_cidrs cfg \<noteq> [])"

text \<open>What handling a job publishes, if anything.\<close>

definition publishes :: "('n, 'os) HiState \<Rightarrow> ('n, 'os) HiState \<Rightarrow> HostIsolationStateChangedPayload list \<Rightarrow> bool" where
  "publishes st st' ns \<longleftrightarrow> broadcasts (hi_bus st') = broadcasts (hi_bus st) @ ns"

lemma publish_broadcasts [simp]: "broadcasts (snd (publish_to_server a e b)) = broadcasts b @ [e]"
  by (simp add: publish_to_server_def Let_def)

text \<open>The effect of a job that acts, on the firewall, the last state and the notices.\<close>

lemma isolate_job_cases:
  assumes "isolate_job env cfg i as st = Ret st'"
  obtains "hi_host st' = hi_host st" "hi_last st' = hi_last st" "publishes st st' []"
  | extras e h where "isolate (he_nft env) (he_net env) (build_allow_ips (he_net env) cfg (hj_resolv i) extras) (hi_host st) = Ret (Err e, h)"
      "hi_host st' = h" "hi_last st' = hi_last st" "publishes st st' []"
  | extras h ns where "isolate (he_nft env) (he_net env) (build_allow_ips (he_net env) cfg (hj_resolv i) extras) (hi_host st) = Ret (Ok (), h)"
      "hi_host st' = h" "hi_last st'" "publishes st st' ns"
      "if hi_last st then ns = [] else \<exists>n. ns = [n] \<and> hp_isolated n \<and> hp_job_id n = SignedActionJob.job_id (hj_job i)"
proof (cases "parse_extra_allow_ips (he_net env) (debug_str (he_args env)) (extra_allow_ips as)")
  case (Err e)
  with assms that(1) show ?thesis by (auto simp: isolate_job_def publishes_def)
next
  case (Ok extras)
  obtain r h where iso: "isolate (he_nft env) (he_net env) (build_allow_ips (he_net env) cfg (hj_resolv i) extras) (hi_host st) = Ret (r, h)"
    using assms Ok by (auto simp: isolate_job_def Let_def result_simps)
  show ?thesis
  proof (cases r)
    case (Err e)
    show ?thesis by (rule that(2) [OF iso [unfolded Err]]) (use assms Ok iso Err in \<open>auto simp: isolate_job_def publishes_def\<close>)
  next
    case [simp]: (Ok u)
    let ?ns = "drop (length (broadcasts (hi_bus st))) (broadcasts (hi_bus st'))"
    show ?thesis
      by (rule that(3) [of extras h ?ns])
        (use assms \<open>_ = Ok extras\<close> iso in \<open>auto simp: isolate_job_def publishes_def emit_state_changed_def Let_def\<close>)
  qed
qed

lemma unisolate_job_effect:
  "hi_host (unisolate_job env i as st) = snd (unisolate (he_nft env) (hi_host st)) \<and> \<not> hi_last (unisolate_job env i as st) \<and>
   (\<exists>ns. publishes st (unisolate_job env i as st) ns \<and>
     (if hi_last st then \<exists>n. ns = [n] \<and> \<not> hp_isolated n \<and> hp_job_id n = SignedActionJob.job_id (hj_job i) else ns = []))"
  by (auto simp: unisolate_job_def unisolate_def emit_state_changed_def publishes_def Let_def)

lemma handle_job_cases:
  assumes "handle_job env cfg me i st = Ret st'"
  obtains "hi_host st' = hi_host st" "hi_last st' = hi_last st" "publishes st st' []"
  | as where "authorised env cfg me i" "isolate_job env cfg i as st = Ret st'"
  | as where "authorised env cfg me i" "st' = unisolate_job env i as st"
proof -
  obtain r where v: "validate (he_range env) (he_args env) (hj_job i) me (hj_now i) (he_hooks env) = Ret r"
    using assms by (auto simp: handle_job_def result_simps)
  show ?thesis
  proof (cases "authorised env cfg me i \<and> is_ok r")
    case False
    then have "hi_host st' = hi_host st \<and> hi_last st' = hi_last st \<and> publishes st st' []"
      using assms v by (cases r) (auto simp: handle_job_def authorised_def publishes_def split: if_splits)
    with that(1) show ?thesis by blast
  next
    case True
    then obtain w where r: "r = Ok w" and a: "authorised env cfg me i" by (cases r) auto
    then have "st' = st \<or> (\<exists>as. isolate_job env cfg i as st = Ret st') \<or> (\<exists>as. st' = unisolate_job env i as st)"
      using assms v by (cases "job_args w") (auto simp: handle_job_def authorised_def)
    with a that show ?thesis by (auto simp: publishes_def)
  qed
qed

lemma hi_loop_invariant:
  assumes "hi_loop env cfg me inputs st = Ret st'" "P st"
    and "\<And>i st st'. i \<in> set inputs \<Longrightarrow> P st \<Longrightarrow> handle_job env cfg me i st = Ret st' \<Longrightarrow> P st'"
    and "\<And>st v. P st \<Longrightarrow> P (st\<lparr>hi_vitals := v\<rparr>)"
  shows "P st'"
  using assms
proof (induction inputs arbitrary: st)
  case (Cons i "is")
  let ?v = "st\<lparr>hi_vitals := (hi_vitals st)\<lparr>v_submitted := v_submitted (hi_vitals st) + 1\<rparr>\<rparr>"
  obtain u where u: "handle_job env cfg me i ?v = Ret u" "hi_loop env cfg me is u = Ret st'"
    using Cons.prems(1) by (auto simp: result_simps)
  have "P u" by (rule Cons.prems(3) [OF _ Cons.prems(4) [OF Cons.prems(2)] u(1)]) simp
  then show ?case
  proof (rule Cons.IH [OF u(2)])
    show "P v'" if "j \<in> set is" "P v" "handle_job env cfg me j v = Ret v'" for j v v'
      using Cons.prems(3) [OF _ that(2,3)] that(1) by simp
  qed (rule Cons.prems(4))
qed simp

lemma hi_start_bus [simp]: "broadcasts (hi_bus (hi_start env s)) = []"
  by (simp add: hi_start_def case_prod_beta)

text \<open>
  C16: only a signed job isolates. With the production hooks, every notice of an isolation change carries
  the identifier of a submitted job that the router accepted under a verified signature while the
  module was enabled, and the firewall of the host is as it was at the start unless there was such a job.
\<close>

theorem isolation_signed:
  assumes "hi_run env cfg me inputs s = Ret st" "he_hooks env = production_hooks ed w p"
  shows "(\<forall>n. n \<in> set (broadcasts (hi_bus st)) \<longrightarrow>
      (\<exists>i\<in>set inputs. authorised env cfg me i \<and> hp_job_id n = SignedActionJob.job_id (hj_job i) \<and>
         production_verified ed w p (SignedActionJob.key_id (hj_job i)) (hj_job i) (SignedActionJob.signature (hj_job i)))) \<and>
    (hi_host st = hi_host (hi_start env s) \<or>
      (\<exists>i\<in>set inputs. authorised env cfg me i \<and>
         production_verified ed w p (SignedActionJob.key_id (hj_job i)) (hj_job i) (SignedActionJob.signature (hj_job i))))"
proof -
  have signed: "production_verified ed w p (SignedActionJob.key_id (hj_job i)) (hj_job i) (SignedActionJob.signature (hj_job i))"
    if "authorised env cfg me i" for i
    using that production.accepted_signed unfolding authorised_def assms(2) by blast
  let ?P = "\<lambda>st. (\<forall>n \<in> set (broadcasts (hi_bus st)). \<exists>i\<in>set inputs. authorised env cfg me i \<and> hp_job_id n = SignedActionJob.job_id (hj_job i)) \<and>
    (hi_host st = hi_host (hi_start env s) \<or> (\<exists>i\<in>set inputs. authorised env cfg me i))"
  have "?P st"
  proof (rule hi_loop_invariant [OF assms(1) [unfolded hi_run_def], where P = ?P])
    fix i v v'
    assume i: "i \<in> set inputs" and v: "?P v" and h: "handle_job env cfg me i v = Ret v'"
    from h show "?P v'"
    proof (cases rule: handle_job_cases)
      case 1
      with v show ?thesis by (simp add: publishes_def)
    next
      case (2 as)
      from 2(2) show ?thesis by (cases rule: isolate_job_cases) (use i v 2(1) in \<open>auto simp: publishes_def split: if_splits\<close>)
    next
      case (3 as)
      then show ?thesis using i v unisolate_job_effect [of env i as v] by (auto simp: publishes_def split: if_splits)
    qed
  qed auto
  with signed show ?thesis by blast
qed

section \<open>Notices are transitions\<close>

fun alternating :: "bool \<Rightarrow> bool list \<Rightarrow> bool" where
  "alternating b [] = True"
| "alternating b (x # xs) = (x \<noteq> b \<and> alternating x xs)"

lemma alternating_snoc: "alternating b (xs @ [x]) \<longleftrightarrow> alternating b xs \<and> x \<noteq> last (b # xs)"
  by (induction xs arbitrary: b) auto

text \<open>The notices alternate, beginning with the opposite of the state found at the start, and the last
  one is the state the module holds.\<close>

theorem notices_alternate:
  assumes "hi_run env cfg me inputs s = Ret st"
  shows "alternating (hi_last (hi_start env s)) (map hp_isolated (broadcasts (hi_bus st))) \<and>
    hi_last st = last (hi_last (hi_start env s) # map hp_isolated (broadcasts (hi_bus st)))"
proof (rule hi_loop_invariant [OF assms [unfolded hi_run_def]])
  let ?b = "hi_last (hi_start env s)"
  fix i v v'
  assume v: "alternating ?b (map hp_isolated (broadcasts (hi_bus v))) \<and> hi_last v = last (?b # map hp_isolated (broadcasts (hi_bus v)))"
    and h: "handle_job env cfg me i v = Ret v'"
  from h show "alternating ?b (map hp_isolated (broadcasts (hi_bus v'))) \<and> hi_last v' = last (?b # map hp_isolated (broadcasts (hi_bus v')))"
  proof (cases rule: handle_job_cases)
    case 1
    with v show ?thesis by (simp add: publishes_def)
  next
    case (2 as)
    from 2(2) show ?thesis
      by (cases rule: isolate_job_cases) (use v in \<open>auto simp: publishes_def alternating_snoc split: if_splits\<close>)
  next
    case (3 as)
    then show ?thesis using v unisolate_job_effect [of env i as v] by (auto simp: publishes_def alternating_snoc split: if_splits)
  qed
qed auto

section \<open>The management channel stays open\<close>

definition nft_succeeded :: "(bool \<times> string, string) result \<Rightarrow> bool" where
  "nft_succeeded a = (case a of Ok (b, _) \<Rightarrow> b | Err _ \<Rightarrow> False)"

text \<open>
  What the code relies on of \<open>nft\<close>, for the networks a chain of the table accepts, if the chain is
  there: adding the table keeps the chains; adding a chain that is there keeps it; a rule is
  added to a chain that is there, and to that chain alone; a failed command changes no chain.
\<close>

definition nft_laws :: "'os nft_exec \<Rightarrow> (string \<Rightarrow> 'os \<Rightarrow> string set option) \<Rightarrow> bool" where
  "nft_laws nft rules \<longleftrightarrow>
     (\<forall>s ch. rules ch (snd (nft add_table_args s)) = rules ch s) \<and>
     (\<forall>s c ch r. rules ch s = Some r \<longrightarrow> rules ch (snd (nft (add_chain_args c) s)) = Some r) \<and>
     (\<forall>s c f d t. nft_succeeded (fst (nft (add_rule_args c f d t) s)) \<longrightarrow>
        (\<exists>r. rules c s = Some r \<and> rules c (snd (nft (add_rule_args c f d t) s)) = Some (insert t r)) \<and>
        (\<forall>ch. ch \<noteq> c \<longrightarrow> rules ch (snd (nft (add_rule_args c f d t) s)) = rules ch s)) \<and>
     (\<forall>s c f d t ch. \<not> nft_succeeded (fst (nft (add_rule_args c f d t) s)) \<longrightarrow>
        rules ch (snd (nft (add_rule_args c f d t) s)) = rules ch s)"

definition grows :: "(string \<Rightarrow> 'os \<Rightarrow> string set option) \<Rightarrow> 'os \<Rightarrow> 'os \<Rightarrow> bool" where
  "grows rules s s' \<longleftrightarrow> (\<forall>ch r. rules ch s = Some r \<longrightarrow> (\<exists>r'. rules ch s' = Some r' \<and> r \<subseteq> r'))"

definition lets_through :: "(string \<Rightarrow> 'os \<Rightarrow> string set option) \<Rightarrow> 'os \<Rightarrow> string \<Rightarrow> bool" where
  "lets_through rules s t \<longleftrightarrow> (\<forall>ch. ch = ''input'' \<or> ch = ''output'' \<longrightarrow> (\<exists>r. rules ch s = Some r \<and> t \<in> r))"

lemma grows_refl [simp]: "grows rules s s"
  by (simp add: grows_def)

lemma grows_trans: "grows rules s t \<Longrightarrow> grows rules t u \<Longrightarrow> grows rules s u"
  unfolding grows_def by (meson order_trans)

lemma lets_through_grows: "grows rules s s' \<Longrightarrow> lets_through rules s t \<Longrightarrow> lets_through rules s' t"
  unfolding lets_through_def
proof (intro allI impI)
  fix ch :: string
  assume g: "grows rules s s'" and l: "\<forall>ch. ch = ''input'' \<or> ch = ''output'' \<longrightarrow> (\<exists>r. rules ch s = Some r \<and> t \<in> r)"
    and c: "ch = ''input'' \<or> ch = ''output''"
  obtain r where "rules ch s = Some r" "t \<in> r" using l c by blast
  with g show "\<exists>r. rules ch s' = Some r \<and> t \<in> r" unfolding grows_def by blast
qed

lemma run_nft_state [simp]: "snd (run_nft nft av s) = snd (nft av s)"
  by (auto simp: run_nft_def split: prod.split result.split)

lemma run_nft_ok [simp]: "fst (run_nft nft av s) = Ok u \<longleftrightarrow> nft_succeeded (fst (nft av s))"
  by (auto simp: run_nft_def nft_succeeded_def split: prod.split result.split)

lemma rule_grows:
  assumes "nft_laws nft rules" "run_nft nft (add_rule_args c f d t) s = (res, s')"
  shows "grows rules s s' \<and> (res = Ok () \<longrightarrow> (\<exists>r. rules c s' = Some r \<and> t \<in> r))"
proof -
  have s': "s' = snd (nft (add_rule_args c f d t) s)" and res: "res = Ok () \<longleftrightarrow> nft_succeeded (fst (nft (add_rule_args c f d t) s))"
    using run_nft_state [of nft "add_rule_args c f d t" s] run_nft_ok [of nft "add_rule_args c f d t" s "()"] assms(2) by simp_all
  show ?thesis
  proof (cases "nft_succeeded (fst (nft (add_rule_args c f d t) s))")
    case True
    then obtain r where "rules c s = Some r" "rules c s' = Some (insert t r)" "\<forall>ch. ch \<noteq> c \<longrightarrow> rules ch s' = rules ch s"
      using assms(1) unfolding nft_laws_def s' by meson
    moreover have "grows rules s s'" unfolding grows_def
    proof (intro allI impI)
      fix ch q assume "rules ch s = Some q"
      then show "\<exists>r'. rules ch s' = Some r' \<and> q \<subseteq> r'" using calculation by (cases "ch = c") auto
    qed
    ultimately show ?thesis by simp
  next
    case False
    then have "rules ch s' = rules ch s" for ch using assms(1) unfolding nft_laws_def s' by meson
    with False res show ?thesis by (simp add: grows_def)
  qed
qed

lemma setup_grows:
  assumes "nft_laws nft rules"
  shows "grows rules s (snd (nft (add_chain_args b) (snd (nft (add_chain_args a) (snd (nft add_table_args s))))))"
proof -
  have table: "rules ch (snd (nft add_table_args s)) = rules ch s" for ch s using assms unfolding nft_laws_def by blast
  have chain: "rules ch s = Some r \<Longrightarrow> rules ch (snd (nft (add_chain_args c) s)) = Some r" for s c ch r
    using assms unfolding nft_laws_def by blast
  show ?thesis unfolding grows_def using chain [OF chain] table by auto
qed

lemma add_rules_grow:
  assumes "nft_laws nft rules" "add_rules nft nl nets s = (res, s')"
  shows "grows rules s s' \<and> (res = Ok () \<longrightarrow> (\<forall>n\<in>set nets. lets_through rules s' (net_text nl n)))"
  using assms(2)
proof (induction nets arbitrary: s)
  case (Cons n nets)
  let ?t = "net_text nl n" and ?f = "if net_v6 nl n then ''ip6'' else ''ip''"
  obtain r1 s1 where 1: "run_nft nft (add_rule_args ''output'' ?f ''daddr'' ?t) s = (r1, s1)" by fastforce
  note g1 = rule_grows [OF assms(1) 1]
  show ?case
  proof (cases r1)
    case (Err e)
    with Cons.prems 1 g1 show ?thesis by (auto simp: Let_def)
  next
    case [simp]: (Ok u)
    obtain r2 s2 where 2: "run_nft nft (add_rule_args ''input'' ?f ''saddr'' ?t) s1 = (r2, s2)" by fastforce
    note g2 = rule_grows [OF assms(1) 2]
    show ?thesis
    proof (cases r2)
      case (Err e)
      with Cons.prems 1 2 g1 g2 show ?thesis by (auto simp: Let_def intro: grows_trans)
    next
      case [simp]: (Ok v)
      have rest: "add_rules nft nl nets s2 = (res, s')" using Cons.prems 1 2 by (simp add: Let_def)
      note ih = Cons.IH [OF rest]
      have "\<exists>r. rules ''output'' s2 = Some r \<and> ?t \<in> r" using g1 g2 unfolding grows_def by fastforce
      then have "lets_through rules s2 ?t" using g2 unfolding lets_through_def by auto
      then have "lets_through rules s' ?t" by (rule lets_through_grows [OF conjunct1 [OF ih]])
      moreover have "grows rules s s'" using ih g1 g2 by (blast intro: grows_trans)
      ultimately show ?thesis using ih by simp
    qed
  qed
qed simp

lemma set_fold_push_new [simp]: "set (fold push_new xs ys) = set xs \<union> set ys"
  by (induction xs arbitrary: ys) (auto simp: push_new_def)

lemma normalize_allow_set:
  assumes "normalize_allow_ips nl ips = Ret allow"
  shows "set ips \<subseteq> set allow" "raw = ''127.0.0.0/8'' \<or> raw = ''::1/128'' \<Longrightarrow> net_parse nl raw = Ok n \<Longrightarrow> n \<in> set allow"
  using assms by (auto simp: normalize_allow_ips_def loopback_cidrs_def push_new_def result_simps)

lemma control_plane_allowed:
  assumes "raw \<in> set (control_plane_cidrs cfg)" "net_parse nl raw = Ok n"
  shows "n \<in> set (build_allow_ips nl cfg resolv extras)"
proof -
  have "n \<in> set (fold (\<lambda>raw out. case net_parse nl raw of Ok c \<Rightarrow> push_new c out | Err _ \<Rightarrow> out) cs out)"
    if "n \<in> set out \<or> raw \<in> set cs" for cs out
    using that assms(2) by (induction cs arbitrary: out) (auto simp: push_new_def split: result.split)
  then show ?thesis using assms(1) by (simp add: build_allow_ips_def Let_def)
qed

text \<open>What has to stay reachable: the control plane and the loopback networks.\<close>

definition reach_needed :: "HostIsolationConfig \<Rightarrow> string list" where
  "reach_needed cfg = control_plane_cidrs cfg @ [''127.0.0.0/8'', ''::1/128'']"

definition reachable :: "(string \<Rightarrow> 'os \<Rightarrow> string set option) \<Rightarrow> 'n NetLib \<Rightarrow> HostIsolationConfig \<Rightarrow> 'os \<Rightarrow> bool" where
  "reachable rules nl cfg s \<longleftrightarrow> (\<forall>raw n. raw \<in> set (reach_needed cfg) \<longrightarrow> net_parse nl raw = Ok n \<longrightarrow> lets_through rules s (net_text nl n))"

lemma isolate_reachable:
  assumes laws: "nft_laws nft rules" and iso: "isolate nft nl (build_allow_ips nl cfg resolv extras) h = Ret (res, h')"
    and inv: "st_isolated (li_state h) \<Longrightarrow> reachable rules nl cfg (li_os h)"
  shows "(st_isolated (li_state h') \<longrightarrow> reachable rules nl cfg (li_os h')) \<and> (res = Ok () \<longrightarrow> st_isolated (li_state h')) \<and>
    (res \<noteq> Ok () \<longrightarrow> li_state h' = li_state h)"
proof -
  obtain allow where a: "normalize_allow_ips nl (build_allow_ips nl cfg resolv extras) = Ret allow" using iso by (auto simp: isolate_def result_simps)
  have needed: "n \<in> set allow" if "raw \<in> set (reach_needed cfg)" "net_parse nl raw = Ok n" for raw n
    using that normalize_allow_set [OF a] control_plane_allowed by (fastforce simp: reach_needed_def)
  let ?s0 = "snd (nft (add_chain_args ''output'') (snd (nft (add_chain_args ''input'') (snd (nft add_table_args (li_os h))))))"
  obtain r s' where r: "add_rules nft nl allow ?s0 = (r, s')" by fastforce
  note g = add_rules_grow [OF laws r]
  have "grows rules (li_os h) s'" by (rule grows_trans [OF setup_grows [OF laws] conjunct1 [OF g]])
  then have keep: "reachable rules nl cfg (li_os h) \<Longrightarrow> reachable rules nl cfg s'"
    unfolding reachable_def by (intro allI impI, elim allE impE) (auto intro: lets_through_grows)
  have "reachable rules nl cfg s'" if "r = Ok ()" unfolding reachable_def using conjunct2 [OF g, rule_format, OF that needed] by simp
  with keep inv iso a r show ?thesis by (cases r) (auto simp: isolate_def Let_def split: if_splits)
qed


section \<open>A concrete isolation\<close>

text \<open>Networks as their own text, and an \<open>nft\<close> whose state lists the rules of each chain. Rules for the
  networks of a list are refused.\<close>

definition sample_nets :: "string NetLib" where
  "sample_nets = \<lparr>net_parse = (\<lambda>s. if CHR ''/'' \<in> set s then Ok s else Err ''invalid''), net_text = (\<lambda>s. s),
     net_v6 = (\<lambda>s. CHR '':'' \<in> set s), net_new = (\<lambda>a p. Some (a @ ''/'' @ nat_str p))\<rparr>"

fun sample_nft :: "string list \<Rightarrow> (string \<times> string list) list nft_exec" where
  "sample_nft bad [op, t, f, n] s =
     (if op = ''add'' then (Ok (True, []), s) else (Ok (s \<noteq> [], []), if op = ''delete'' then [] else s))"
| "sample_nft bad [op, t, f, n, ch, spec] s = (Ok (True, []), if map_of s ch = None then (ch, []) # s else s)"
| "sample_nft bad [op, t, f, n, ch, fam, d, c, ac] s =
     (case map_of s ch of
        None \<Rightarrow> (Ok (False, ''no such chain''), s)
      | Some r \<Rightarrow> if c \<in> set bad then (Ok (False, ''refused''), s) else (Ok (True, []), (ch, c # r) # s))"
| "sample_nft bad av s = (Err ''usage'', s)"

definition sample_rules :: "string \<Rightarrow> (string \<times> string list) list \<Rightarrow> string set option" where
  "sample_rules ch s = map_option set (map_of s ch)"

lemma sample_nft_laws: "nft_laws (sample_nft bad) sample_rules"
  by (auto simp: nft_laws_def sample_rules_def add_chain_args_def add_rule_args_def nft_succeeded_def split: option.splits if_splits)

definition sample_hi :: "string list \<Rightarrow> (string, (string \<times> string list) list) HiEnv" where
  "sample_hi bad = \<lparr>he_net = sample_nets, he_nft = sample_nft bad, he_range = sample_range,
     he_args = sample_args_env\<lparr>de_IsolateHost := (\<lambda>v. Ok \<lparr>extra_allow_ips = [], reason = None\<rparr>)\<rparr>,
     he_hooks = production_hooks sample_ed sample_wire sample_hooks\<rparr>"

definition sample_hi_cfg :: HostIsolationConfig where
  "sample_hi_cfg = \<lparr>hi_enabled = True, control_plane_cidrs = [''10.0.0.0/8''], always_allow_dns = False\<rparr>"

definition sample_isolation :: HiInput where
  "sample_isolation = \<lparr>hj_job = sample_signed_job\<lparr>SignedActionJob.action := ActionKind.IsolateHost\<rparr>, hj_now = 0, hj_resolv = None,
     hj_observed = 1, hj_answer = Queued\<rparr>"

lemma sample_isolation_valid:
  "validate (he_range (sample_hi bad)) (he_args (sample_hi bad)) (hj_job sample_isolation) sample_identity (hj_now sample_isolation) (he_hooks (sample_hi bad))
     = Ret (Ok \<lparr>job_args = JobArgs.IsolateHost \<lparr>extra_allow_ips = [], reason = None\<rparr>\<rparr>)"
proof -
  have "production_verified sample_ed sample_wire sample_hooks ''k1'' (hj_job sample_isolation) (replicate 64 CHR ''a'')"
    by (rule sample_verified) (simp_all add: sample_isolation_def sample_defs)
  then have "verify_signature (he_hooks (sample_hi bad)) (hj_job sample_isolation) = Ok ()"
    by (auto simp: sample_hi_def production_hooks_def production_verified_def verify_with_Ok_iff sample_isolation_def sample_defs)
  moreover have "validate_structure (he_args (sample_hi bad)) (hj_job sample_isolation) = Ok ()"
    "parse_args (he_args (sample_hi bad)) (hj_job sample_isolation) = Ok (JobArgs.IsolateHost \<lparr>extra_allow_ips = [], reason = None\<rparr>)"
    by (simp add: sample_hi_def, code_simp)+
  moreover have "dual_control (he_hooks (sample_hi bad)) (hj_job sample_isolation) = Ok ()" "local_key_gate (he_hooks (sample_hi bad)) (hj_job sample_isolation) = Ok ()"
    by (simp_all add: dual_control_def local_key_gate_def sample_isolation_def sample_hi_def sample_defs production_hooks_def)
  moreover have "action_permitted (he_hooks (sample_hi bad)) a" "in_window (he_hooks (sample_hi bad)) t" for a t
    by (simp_all add: sample_hi_def sample_defs production_hooks_def)
  ultimately show ?thesis unfolding validate_Ok_iff
    by (simp add: seconds_def sample_isolation_def sample_hi_def sample_defs)
qed

lemma hi_loop_Nil: "bind_run r (hi_loop env cfg me []) = r"
  by (cases r) simp_all

lemma sample_isolation_step:
  "hi_run (sample_hi bad) sample_hi_cfg sample_identity [sample_isolation] s =
     isolate_job (sample_hi bad) sample_hi_cfg sample_isolation \<lparr>extra_allow_ips = [], reason = None\<rparr>
       ((hi_start (sample_hi bad) s)\<lparr>hi_vitals := \<lparr>v_submitted = 1, v_isolated = 0, v_unisolated = 0, v_refused = 0, v_pal_errors = 0\<rparr>\<rparr>)"
  by (simp add: hi_run_def handle_job_def sample_isolation_valid hi_loop_Nil)
    (simp add: sample_isolation_def sample_hi_cfg_def hi_start_def case_prod_beta)

abbreviation sample_isolate :: "string list \<Rightarrow> ((unit, HostIsolationError) result \<times> (string, (string \<times> string list) list) LinuxHostIsolation) run" where
  "sample_isolate bad \<equiv> isolate (sample_nft bad) sample_nets (build_allow_ips sample_nets sample_hi_cfg None [])
     \<lparr>li_state = \<lparr>st_isolated = False, st_allow_ips = []\<rparr>, li_os = []\<rparr>"

lemma sample_isolation_effect:
  assumes "sample_isolate bad = Ret (r, h)"
  shows "\<exists>st. hi_run (sample_hi bad) sample_hi_cfg sample_identity [sample_isolation] [] = Ret st \<and> hi_host st = h \<and>
    hi_last st = is_ok r \<and> map hp_isolated (broadcasts (hi_bus st)) = (if is_ok r then [True] else [])"
  using assms unfolding sample_isolation_step
  by (simp add: isolate_job_def hi_start_def is_isolated_def emit_state_changed_def Let_def sample_hi_def [of bad] sample_isolation_def split: result.split)

lemma sample_isolation_notice:
  "\<exists>st. hi_run (sample_hi []) sample_hi_cfg sample_identity [sample_isolation] [] = Ret st \<and> map hp_isolated (broadcasts (hi_bus st)) = [True]"
proof -
  have "case sample_isolate [] of Ret (r, h) \<Rightarrow> is_ok r | Panic \<Rightarrow> False" by code_simp
  then obtain r h where "sample_isolate [] = Ret (r, h)" "is_ok r" by (auto split: run.splits)
  with sample_isolation_effect [OF this(1)] show ?thesis by auto
qed

text \<open>The concrete job is signed by a known key, and it isolates the host.\<close>

theorem isolation_signed_witness:
  "\<exists>st. hi_run (sample_hi []) sample_hi_cfg sample_identity [sample_isolation] [] = Ret st \<and> broadcasts (hi_bus st) \<noteq> [] \<and>
     production_verified sample_ed sample_wire sample_hooks ''k1'' (hj_job sample_isolation) (SignedActionJob.signature (hj_job sample_isolation))"
proof -
  obtain st where st: "hi_run (sample_hi []) sample_hi_cfg sample_identity [sample_isolation] [] = Ret st" "map hp_isolated (broadcasts (hi_bus st)) = [True]"
    using sample_isolation_notice by (elim exE conjE)
  have k: "SignedActionJob.key_id (hj_job sample_isolation) = ''k1''" by (simp add: sample_isolation_def sample_defs)
  have hooks: "he_hooks (sample_hi []) = production_hooks sample_ed sample_wire sample_hooks" by (simp add: sample_hi_def)
  obtain n where n: "n \<in> set (broadcasts (hi_bus st))" using st(2) by (cases "broadcasts (hi_bus st)") simp_all
  from conjunct1 [OF isolation_signed [OF st(1) hooks], rule_format, OF n] k
  have "production_verified sample_ed sample_wire sample_hooks ''k1'' (hj_job sample_isolation) (SignedActionJob.signature (hj_job sample_isolation))" by simp
  with n st(1) show ?thesis by fastforce
qed


section \<open>Where the firewall and the notices part\<close>

text \<open>When the first rule is refused the chains are already there, dropping everything; the module takes
  the host for not isolated and reports nothing.\<close>

lemma failed_isolation_cuts_off:
  "\<exists>st. hi_run (sample_hi [''10.0.0.0/8'']) sample_hi_cfg sample_identity [sample_isolation] [] = Ret st \<and>
     \<not> hi_last st \<and> broadcasts (hi_bus st) = [] \<and> map_of (li_os (hi_host st)) ''output'' = Some []"
proof -
  have "case sample_isolate [''10.0.0.0/8''] of Ret (r, h) \<Rightarrow> \<not> is_ok r \<and> map_of (li_os h) ''output'' = Some [] | Panic \<Rightarrow> False" by code_simp
  then obtain r h where "sample_isolate [''10.0.0.0/8''] = Ret (r, h)" "\<not> is_ok r" "map_of (li_os h) ''output'' = Some []" by (auto split: run.splits)
  with sample_isolation_effect [OF this(1)] show ?thesis by auto
qed

text \<open>Ending the isolation succeeds whatever the program answers, and a configuration in which no entry of
  the control plane can be read passes the guard against isolating without one.\<close>

lemma unisolate_always_ok: "fst (unisolate nft h) = Ok () \<and> \<not> st_isolated (li_state (snd (unisolate nft h)))"
  by (simp add: unisolate_def)

lemma unreadable_control_plane:
  "control_plane_cidrs \<lparr>hi_enabled = True, control_plane_cidrs = [''mgmt''], always_allow_dns = False\<rparr> \<noteq> [] \<and>
   build_allow_ips sample_nets \<lparr>hi_enabled = True, control_plane_cidrs = [''mgmt''], always_allow_dns = False\<rparr> None [] = []"
  by code_simp

text \<open>As \<open>HostIsolationModule::start\<close> wires it, with the stub hooks, the module refuses every job.\<close>

lemma stub_never_authorised: "he_hooks env = Phase1Stub \<Longrightarrow> \<not> authorised env cfg me i"
  using stub.accepted_signed unfolding authorised_def by metis

end
