(* ===== verification/ScriptRunner.thy ===== *)
theory ScriptRunner
  imports LdeResponse LdeQueue "HOL-Library.Sublist"
begin

text \<open>
  The script runner (\<open>sda-script-runner/src/allowlist.rs\<close>, \<open>runner.rs\<close>, \<open>module.rs\<close>): the allow-list
  of names, the checks before a script runs, the file it is run from, the collection of its
  output under a byte budget, and the supervisor that reports every request.

  Ed25519, SHA-256, the JSON of an outcome and of its evidence, and what the operating system
  answers are parameters. The two output pipes are the lists of blocks read from them until their
  end; a run whose pipes never end does not return, and is not a run here.
\<close>

section \<open>The allow-list\<close>

abbreviation star :: char where
  "star \<equiv> CHR ''*''"

abbreviation dot :: char where
  "dot \<equiv> CHR ''.''"

text \<open>The loops over the suffixes of the name stop, for one star, behind the first dot.\<close>

function matches_recursive :: "string \<Rightarrow> string \<Rightarrow> bool" where
  "matches_recursive pattern name =
     (case pattern of
        [] \<Rightarrow> name = []
      | p # rest1 \<Rightarrow>
          if take 2 pattern = [star, star] then
            (let rest = drop 2 pattern
             in rest = [] \<or> list_ex (\<lambda>i. matches_recursive rest (drop i name)) [0..<Suc (length name)])
          else if p = star then
            (if rest1 = [] then dot \<notin> set name
             else list_ex (\<lambda>i. matches_recursive rest1 (drop i name)) [0..<Suc (length (takeWhile (\<lambda>c. c \<noteq> dot) name))])
          else name \<noteq> [] \<and> p = hd name \<and> matches_recursive rest1 (tl name))"
  by pat_completeness auto
termination
  by (relation "measure (\<lambda>(p, n). length p)") auto

declare matches_recursive.simps [simp del]

record Allowlist =
  patterns :: "string list"

definition is_allowed :: "Allowlist \<Rightarrow> string \<Rightarrow> bool" where
  "is_allowed a canonical_name \<longleftrightarrow> list_ex (\<lambda>pat. matches_recursive pat canonical_name) (patterns a)"

section \<open>Configuration and requests\<close>

definition MAX_JOB_ID_LEN :: nat where
  "MAX_JOB_ID_LEN = 64"

definition MAX_EXTENSION_LEN :: nat where
  "MAX_EXTENSION_LEN = 16"

definition path_safe :: "char \<Rightarrow> bool" where
  "path_safe c \<longleftrightarrow> CHR ''a'' \<le> c \<and> c \<le> CHR ''z'' \<or> CHR ''A'' \<le> c \<and> c \<le> CHR ''Z'' \<or> is_digit c \<or> c = CHR ''-'' \<or> c = CHR ''_''"

text \<open>The bytes of a character outside ASCII are none of those kept.\<close>

definition sanitize_path_component :: "string \<Rightarrow> nat \<Rightarrow> string" where
  "sanitize_path_component input max_len = take max_len (filter path_safe input)"

datatype ScriptRunnerError =
    MissingPinnedKey
  | MalformedPinnedKey
  | MalformedSignature
  | SignatureMismatch
  | NotAllowlisted string
  | ScriptIo string
  | Spawn string

record ScriptRunnerConfig =
  pinned_signing_key :: bytes
  allowlist :: Allowlist
  max_duration :: nat
  max_output_bytes :: nat

record ScriptRequest =
  sq_job_id :: string
  sq_canonical_name :: string
  sq_body :: bytes
  sq_signature :: bytes
  sq_extension :: "string option"
  sq_args :: "string list"

record ScriptOutcome =
  so_job_id :: string
  so_canonical_name :: string
  so_exit_code :: "int option"
  so_timed_out :: bool
  so_output_truncated :: bool
  so_truncation_reason :: "string option"
  so_stdout_truncated :: string
  so_stderr_truncated :: string
  so_stdout_sha256 :: string
  so_stderr_sha256 :: string
  so_duration :: nat
  so_started_at :: int
  so_finished_at :: int

record ScriptLibs =
  sl_hex_decode :: "string \<Rightarrow> bytes option"
  sl_key_valid :: "bytes \<Rightarrow> bool"
  sl_verify :: "bytes \<Rightarrow> bytes \<Rightarrow> bytes \<Rightarrow> bool"
  sl_sha256 :: "bytes \<Rightarrow> bytes"
  sl_lossy :: "bytes \<Rightarrow> string"
  sl_outcome_json :: "ScriptOutcome \<Rightarrow> string option"
  sl_error_text :: "ScriptRunnerError \<Rightarrow> string"

definition from_parts :: "ScriptLibs \<Rightarrow> string option \<Rightarrow> string list \<Rightarrow> nat \<Rightarrow> nat \<Rightarrow> (ScriptRunnerConfig, ScriptRunnerError) result" where
  "from_parts libs key_hex pats max_duration_secs out_bytes =
     (case key_hex of
        None \<Rightarrow> Err MissingPinnedKey
      | Some hex \<Rightarrow>
          (case sl_hex_decode libs hex of
             None \<Rightarrow> Err MalformedPinnedKey
           | Some key \<Rightarrow>
               if length key \<noteq> 32 then Err MalformedPinnedKey
               else if \<not> sl_key_valid libs key then Err MalformedPinnedKey
               else Ok \<lparr>pinned_signing_key = key, allowlist = \<lparr>patterns = pats\<rparr>,
                        max_duration = max max_duration_secs 1, max_output_bytes = max out_bytes 1\<rparr>))"

definition verify_script :: "ScriptLibs \<Rightarrow> ScriptRunnerConfig \<Rightarrow> ScriptRequest \<Rightarrow> (unit, ScriptRunnerError) result" where
  "verify_script libs cfg rq =
     (if length (sq_signature rq) \<noteq> 64 then Err MalformedSignature
      else if \<not> sl_key_valid libs (pinned_signing_key cfg) then Err MalformedPinnedKey
      else if \<not> sl_verify libs (pinned_signing_key cfg) (sq_body rq) (sq_signature rq) then Err SignatureMismatch
      else Ok ())"

section \<open>The file a script runs from\<close>

text \<open>The outcome of each file operation; a failed write may leave the beginning of the file behind.\<close>

record MaterializeFaults =
  mf_mkdir :: "string option"
  mf_write :: "(string \<times> bytes option) option"
  mf_chmod :: "string option"
  mf_remove :: "string option"

definition script_filename :: "ScriptLibs \<Rightarrow> ScriptRequest \<Rightarrow> string" where
  "script_filename libs rq =
     (let body_sha = hex_str (sl_sha256 libs (sq_body rq));
          safe_job_id = sanitize_path_component (sq_job_id rq) MAX_JOB_ID_LEN;
          filename = (if safe_job_id = [] then ''script-'' @ body_sha else ''script-'' @ safe_job_id @ ''-'' @ body_sha)
      in case sq_extension rq of
           None \<Rightarrow> filename
         | Some ext \<Rightarrow>
             (let safe_ext = sanitize_path_component ext MAX_EXTENSION_LEN
              in if safe_ext = [] then filename else filename @ ''.'' @ safe_ext))"

definition materialize_script :: "ScriptLibs \<Rightarrow> MaterializeFaults \<Rightarrow> string \<Rightarrow> ScriptRequest \<Rightarrow> files \<Rightarrow> (string, ScriptRunnerError) result \<times> files" where
  "materialize_script libs f work_dir rq fs =
     (case mf_mkdir f of
        Some e \<Rightarrow> (Err (ScriptIo e), fs)
      | None \<Rightarrow>
          (let path = path_join work_dir (script_filename libs rq)
           in case mf_write f of
                Some (e, part) \<Rightarrow> (Err (ScriptIo e), case part of Some b \<Rightarrow> fs(path \<mapsto> b) | None \<Rightarrow> fs)
              | None \<Rightarrow>
                  (let fs = fs(path \<mapsto> sq_body rq)
                   in case mf_chmod f of Some e \<Rightarrow> (Err (ScriptIo e), fs) | None \<Rightarrow> (Ok path, fs))))"

section \<open>Running it\<close>

record Drained =
  dr_captured :: bytes
  dr_hit_limit :: bool
  dr_full :: bytes

text \<open>One pass of the loop per block read; the bytes hashed are kept as they are.\<close>

fun drain_loop_capped :: "nat \<Rightarrow> bytes list \<Rightarrow> Drained \<Rightarrow> Drained" where
  "drain_loop_capped cap [] d = d"
| "drain_loop_capped cap (buf # bufs) d =
     (if buf = [] then d
      else let room = cap - length (dr_captured d);
               d = d\<lparr>dr_full := dr_full d @ buf\<rparr>
           in drain_loop_capped cap bufs
                (if dr_hit_limit d then d
                 else if room = 0 then d\<lparr>dr_hit_limit := True\<rparr>
                 else if length buf \<le> room then d\<lparr>dr_captured := dr_captured d @ buf\<rparr>
                 else d\<lparr>dr_captured := dr_captured d @ take room buf, dr_hit_limit := True\<rparr>))"

type_synonym pipe = "(bytes list, string) result"

definition drain_capped :: "nat \<Rightarrow> pipe \<Rightarrow> (Drained, string) result" where
  "drain_capped cap p = map_ok (\<lambda>bufs. drain_loop_capped cap bufs \<lparr>dr_captured = [], dr_hit_limit = False, dr_full = []\<rparr>) p"

definition clamp_to :: "bytes \<Rightarrow> nat \<Rightarrow> bytes" where
  "clamp_to bs cap = (if length bs > cap then take cap bs else bs)"

text \<open>What the system answers to one run: the error of starting the process, the two pipes, and how
  waiting for it under the limit ends.\<close>

datatype WaitOutcome = Exited "int option" | WaitFailed string | TimedOut

record ScriptRunEnv =
  re_spawn :: "string option"
  re_stdout :: pipe
  re_stderr :: pipe
  re_wait :: WaitOutcome
  re_started :: int
  re_finished :: int
  re_elapsed :: nat
  re_files :: MaterializeFaults

definition script_outcome :: "ScriptLibs \<Rightarrow> nat \<Rightarrow> ScriptRequest \<Rightarrow> ScriptRunEnv \<Rightarrow> int option \<Rightarrow> bool \<Rightarrow> Drained \<Rightarrow> Drained \<Rightarrow> ScriptOutcome" where
  "script_outcome libs cap rq re exit_code timed_out stdout stderr =
     (let total_len = length (dr_captured stdout) + length (dr_captured stderr);
          output_truncated = (timed_out \<or> total_len > cap \<or> dr_hit_limit stdout \<or> dr_hit_limit stderr);
          stdout_capped = clamp_to (dr_captured stdout) cap;
          stderr_capped = clamp_to (dr_captured stderr) (cap - length stdout_capped)
      in \<lparr>so_job_id = sq_job_id rq, so_canonical_name = sq_canonical_name rq, so_exit_code = exit_code, so_timed_out = timed_out,
          so_output_truncated = output_truncated,
          so_truncation_reason = (if timed_out then Some ''timeout'' else if output_truncated then Some ''size_limit'' else None),
          so_stdout_truncated = sl_lossy libs stdout_capped, so_stderr_truncated = sl_lossy libs stderr_capped,
          so_stdout_sha256 = hex_str (sl_sha256 libs (dr_full stdout)), so_stderr_sha256 = hex_str (sl_sha256 libs (dr_full stderr)),
          so_duration = re_elapsed re, so_started_at = re_started re, so_finished_at = re_finished re\<rparr>)"

definition execute_script :: "ScriptLibs \<Rightarrow> ScriptRunnerConfig \<Rightarrow> ScriptRequest \<Rightarrow> ScriptRunEnv \<Rightarrow> (ScriptOutcome, ScriptRunnerError) result" where
  "execute_script libs cfg rq re =
     (case re_spawn re of
        Some e \<Rightarrow> Err (Spawn e)
      | None \<Rightarrow>
          bind_result (case re_wait re of
                         Exited c \<Rightarrow> Ok (c, False)
                       | WaitFailed e \<Rightarrow> Err (Spawn e)
                       | TimedOut \<Rightarrow> Ok (None, True)) (\<lambda>(exit_code, timed_out).
          bind_result (map_err ScriptIo (drain_capped (max_output_bytes cfg) (re_stdout re))) (\<lambda>stdout.
          bind_result (map_err ScriptIo (drain_capped (max_output_bytes cfg) (re_stderr re))) (\<lambda>stderr.
          Ok (script_outcome libs (max_output_bytes cfg) rq re exit_code timed_out stdout stderr)))))"

text \<open>The state: the files, and every program started so far with the content of its file and its
  arguments.\<close>

record ScriptWorld =
  sw_files :: files
  sw_started :: "(string \<times> bytes option \<times> string list) list"

definition run_script :: "ScriptLibs \<Rightarrow> ScriptRunnerConfig \<Rightarrow> string \<Rightarrow> ScriptRequest \<Rightarrow> ScriptRunEnv \<Rightarrow> ScriptWorld
    \<Rightarrow> (ScriptOutcome, ScriptRunnerError) result \<times> ScriptWorld" where
  "run_script libs cfg work_dir rq re w =
     (case verify_script libs cfg rq of
        Err e \<Rightarrow> (Err e, w)
      | Ok _ \<Rightarrow>
          if \<not> is_allowed (allowlist cfg) (sq_canonical_name rq) then (Err (NotAllowlisted (sq_canonical_name rq)), w)
          else (case materialize_script libs (re_files re) work_dir rq (sw_files w) of
                  (Err e, fs) \<Rightarrow> (Err e, w\<lparr>sw_files := fs\<rparr>)
                | (Ok path, fs) \<Rightarrow>
                    (let started = (if re_spawn re = None then [(path, fs path, sq_args rq)] else []);
                         fs' = (if mf_remove (re_files re) = None then fs(path := None) else fs)
                     in (execute_script libs cfg rq re, w\<lparr>sw_files := fs', sw_started := sw_started w @ started\<rparr>))))"

section \<open>The supervisor\<close>

record ScriptEvidence =
  sv_schema_version :: nat
  sv_job_id :: string
  sv_canonical_name :: string
  sv_exit_code :: "int option"
  sv_timed_out :: bool
  sv_output_truncated :: bool
  sv_stdout_sha256 :: string
  sv_stderr_sha256 :: string
  sv_started_at :: int
  sv_finished_at :: int
  sv_outcome_sha256 :: string

datatype ScriptEvent = ScriptRunResult string | EvidenceEvent ScriptEvidence

text \<open>The outcome reported for a request that was refused or failed.\<close>

definition stub_outcome :: "ScriptLibs \<Rightarrow> ScriptRequest \<Rightarrow> ScriptRunEnv \<Rightarrow> ScriptRunnerError \<Rightarrow> ScriptOutcome" where
  "stub_outcome libs rq re err =
     \<lparr>so_job_id = sq_job_id rq, so_canonical_name = sq_canonical_name rq, so_exit_code = None, so_timed_out = False,
      so_output_truncated = False, so_truncation_reason = Some (''error:'' @ sl_error_text libs err),
      so_stdout_truncated = [], so_stderr_truncated = [], so_stdout_sha256 = [], so_stderr_sha256 = [],
      so_duration = 0, so_started_at = re_started re, so_finished_at = re_finished re\<rparr>"

definition script_evidence :: "ScriptLibs \<Rightarrow> ScriptOutcome \<Rightarrow> string \<Rightarrow> ScriptEvidence" where
  "script_evidence libs out outcome_json =
     \<lparr>sv_schema_version = 1, sv_job_id = so_job_id out, sv_canonical_name = so_canonical_name out, sv_exit_code = so_exit_code out,
      sv_timed_out = so_timed_out out, sv_output_truncated = so_output_truncated out, sv_stdout_sha256 = so_stdout_sha256 out,
      sv_stderr_sha256 = so_stderr_sha256 out, sv_started_at = so_started_at out, sv_finished_at = so_finished_at out,
      sv_outcome_sha256 = hex_str (sl_sha256 libs outcome_json)\<rparr>"

text \<open>A request, what the system answers to it, and what the server channel answers to the two events;
  the JSON of the evidence, a record of plain fields, always exists.\<close>

record ScriptInput =
  si_request :: ScriptRequest
  si_env :: ScriptRunEnv
  si_answers :: "TrySend \<times> TrySend"

definition handle_script :: "ScriptLibs \<Rightarrow> ScriptRunnerConfig \<Rightarrow> string \<Rightarrow> ScriptInput \<Rightarrow> ScriptEvent Bus \<times> ScriptWorld \<Rightarrow> ScriptEvent Bus \<times> ScriptWorld" where
  "handle_script libs cfg work_dir i = (\<lambda>(bus, w).
     case run_script libs cfg work_dir (si_request i) (si_env i) w of
       (r, w) \<Rightarrow>
         (let out = (case r of Ok out \<Rightarrow> out | Err err \<Rightarrow> stub_outcome libs (si_request i) (si_env i) err)
          in case sl_outcome_json libs out of
               None \<Rightarrow> (bus, w)
             | Some js \<Rightarrow>
                 (let bus = snd (publish_to_server (fst (si_answers i)) (ScriptRunResult js) bus);
                      bus = snd (publish_to_server (snd (si_answers i)) (EvidenceEvent (script_evidence libs out js)) bus)
                  in (bus, w))))"

text \<open>The supervisor is parked, and takes no request, unless its configuration is complete.\<close>

definition script_module :: "ScriptLibs \<Rightarrow> bool \<Rightarrow> (ScriptRunnerConfig, ScriptRunnerError) result \<Rightarrow> string \<Rightarrow> ScriptInput list
    \<Rightarrow> ScriptEvent Bus \<times> ScriptWorld \<Rightarrow> ScriptEvent Bus \<times> ScriptWorld" where
  "script_module libs enabled parts work_dir inputs s =
     (if \<not> enabled then s
      else case parts of
             Err _ \<Rightarrow> s
           | Ok cfg \<Rightarrow> if patterns (allowlist cfg) = [] then s else fold (handle_script libs cfg work_dir) inputs s)"

section \<open>What the patterns mean\<close>

text \<open>The language of a pattern: two stars stand for any text, one for any text without a dot.\<close>

inductive glob :: "string \<Rightarrow> string \<Rightarrow> bool" where
  glob_end: "glob [] []"
| glob_any: "glob p s \<Longrightarrow> glob (star # star # p) (t @ s)"
| glob_segment: "p = [] \<or> hd p \<noteq> star \<Longrightarrow> dot \<notin> set t \<Longrightarrow> glob p s \<Longrightarrow> glob (star # p) (t @ s)"
| glob_char: "c \<noteq> star \<Longrightarrow> glob p s \<Longrightarrow> glob (c # p) (c # s)"

inductive_cases glob_NilE: "glob [] s"
inductive_cases glob_ConsE: "glob (c # p) s"

lemma glob_Nil [simp]: "glob [] s \<longleftrightarrow> s = []"
  by (auto elim: glob_NilE intro: glob_end)

lemma glob_any_iff: "glob (star # star # p) s \<longleftrightarrow> (\<exists>i\<le>length s. glob p (drop i s))"
proof
  assume "glob (star # star # p) s"
  then obtain t u where "s = t @ u" "glob p u" by (auto elim: glob_ConsE)
  then show "\<exists>i\<le>length s. glob p (drop i s)" by (intro exI [of _ "length t"]) simp
next
  assume "\<exists>i\<le>length s. glob p (drop i s)"
  then obtain i where "glob p (drop i s)" by blast
  from glob_any [OF this, of "take i s"] show "glob (star # star # p) s" by simp
qed

lemma no_dot_prefix: "i \<le> length s \<Longrightarrow> dot \<notin> set (take i s) \<longleftrightarrow> i \<le> length (takeWhile (\<lambda>c. c \<noteq> dot) s)"
proof (induction s arbitrary: i)
  case (Cons c s)
  then show ?case by (cases i) auto
qed simp

lemma glob_segment_iff:
  assumes "p = [] \<or> hd p \<noteq> star"
  shows "glob (star # p) s \<longleftrightarrow> (\<exists>i\<le>length (takeWhile (\<lambda>c. c \<noteq> dot) s). glob p (drop i s))"
proof
  assume "glob (star # p) s"
  then obtain t u where "s = t @ u" "dot \<notin> set t" "glob p u" using assms by (auto elim!: glob_ConsE)
  then show "\<exists>i\<le>length (takeWhile (\<lambda>c. c \<noteq> dot) s). glob p (drop i s)"
    using no_dot_prefix [of "length t" "t @ u"] by (intro exI [of _ "length t"]) simp
next
  assume "\<exists>i\<le>length (takeWhile (\<lambda>c. c \<noteq> dot) s). glob p (drop i s)"
  then obtain i where i: "i \<le> length (takeWhile (\<lambda>c. c \<noteq> dot) s)" "glob p (drop i s)" by blast
  then have "dot \<notin> set (take i s)" using no_dot_prefix [of i s] length_takeWhile_le [of "\<lambda>c. c \<noteq> dot" s] by simp
  from glob_segment [OF assms this i(2)] show "glob (star # p) s" by simp
qed

lemma glob_char_iff: "c \<noteq> star \<Longrightarrow> glob (c # p) s \<longleftrightarrow> s \<noteq> [] \<and> c = hd s \<and> glob p (tl s)"
  by (cases s) (auto elim: glob_ConsE intro: glob_char)

lemma upto_ex: "list_ex P [0..<Suc n] \<longleftrightarrow> (\<exists>i\<le>n. P i)"
  by (auto simp: list_ex_iff atLeastLessThanSuc_atLeastAtMost simp del: upt_Suc)

text \<open>The matcher decides exactly the documented language of the patterns.\<close>

theorem matches_iff_glob: "matches_recursive p s \<longleftrightarrow> glob p s"
proof (induction p s rule: matches_recursive.induct)
  case (1 p s)
  show ?case
  proof (cases p)
    case [simp]: (Cons c rest)
    consider (any) rest2 where "c = star" "rest = star # rest2" | (seg) "c = star" "rest = [] \<or> hd rest \<noteq> star" | (lit) "c \<noteq> star"
      by (cases rest) auto
    then show ?thesis
    proof cases
      case any
      show ?thesis
      proof (cases "rest2 = []")
        case True
        have "glob (star # star # []) s" using glob_any [OF glob_end, of s] by simp
        with any True show ?thesis by (subst matches_recursive.simps) simp
      next
        case False
        have "matches_recursive rest2 (drop i s) = glob rest2 (drop i s)" if "i \<le> length s" for i
          by (rule 1(1) [OF Cons]) (use any False that in auto)
        then show ?thesis using any False by (subst matches_recursive.simps) (auto simp: glob_any_iff upto_ex simp del: upt_Suc)
      qed
    next
      case seg
      then have not2: "take 2 p \<noteq> [star, star]" by (cases rest) auto
      show ?thesis
      proof (cases "rest = []")
        case True
        have "glob [star] s \<longleftrightarrow> dot \<notin> set s"
          using glob_segment_iff [of "[]" s] by (auto simp: no_dot_prefix [of "length s" s, simplified] intro: exI [of _ "length s"])
        with True seg not2 show ?thesis by (subst matches_recursive.simps) simp
      next
        case False
        have "matches_recursive rest (drop i s) = glob rest (drop i s)" if "i \<le> length (takeWhile (\<lambda>c. c \<noteq> dot) s)" for i
          by (rule 1(2) [OF Cons]) (use seg not2 False that in auto)
        then show ?thesis using seg not2 False by (subst matches_recursive.simps) (auto simp: glob_segment_iff upto_ex simp del: upt_Suc)
      qed
    next
      case lit
      then show ?thesis using 1(3) by (subst matches_recursive.simps) (auto simp: glob_char_iff)
    qed
  qed (simp add: matches_recursive.simps)
qed

section \<open>Only signed, listed scripts, from the scratch directory\<close>

text \<open>A name of one path component that is neither hidden nor a way up.\<close>

definition plain_name :: "string \<Rightarrow> bool" where
  "plain_name n \<longleftrightarrow> take 7 n = ''script-'' \<and> list_all (\<lambda>c. path_safe c \<or> c = dot) n"

lemma hex_safe: "list_all path_safe (hex_str b)"
proof -
  have "list_all (\<lambda>d. path_safe (hex_digit d)) [0..<16]" by code_simp
  then have "path_safe (hex_digit d)" if "d < 16" for d using that by (simp add: list_all_iff)
  moreover have "byte_of c div 16 < 16" for c by (simp add: less_mult_imp_div_less)
  ultimately show ?thesis by (auto simp: hex_str_def hex_byte_def list_all_iff)
qed

lemma sanitize_safe: "list_all path_safe (sanitize_path_component s n)"
  by (auto simp: sanitize_path_component_def list_all_iff dest: in_set_takeD)

lemma script_filename_plain: "plain_name (script_filename libs rq)"
proof -
  have safe: "list_all (\<lambda>c. path_safe c \<or> c = dot) (hex_str b)" "list_all (\<lambda>c. path_safe c \<or> c = dot) (sanitize_path_component s n)" for b s n
    using hex_safe [of b] sanitize_safe [of s n] by (auto elim: list.pred_mono_strong)
  have lit: "list_all (\<lambda>c. path_safe c \<or> c = dot) ''script-''" "path_safe CHR ''-''" by code_simp+
  show ?thesis using safe lit by (simp add: plain_name_def script_filename_def Let_def split: option.split)
qed

definition in_scratch :: "string \<Rightarrow> string \<Rightarrow> bool" where
  "in_scratch work_dir path \<longleftrightarrow> (\<exists>n. plain_name n \<and> path = path_join work_dir n)"

text \<open>A request the runner lets through.\<close>

definition permitted :: "ScriptLibs \<Rightarrow> ScriptRunnerConfig \<Rightarrow> ScriptRequest \<Rightarrow> bool" where
  "permitted libs cfg rq \<longleftrightarrow> length (sq_signature rq) = 64 \<and> sl_verify libs (pinned_signing_key cfg) (sq_body rq) (sq_signature rq) \<and>
     (\<exists>pat\<in>set (patterns (allowlist cfg)). glob pat (sq_canonical_name rq))"

text \<open>A program started for a request.\<close>

definition started_for :: "ScriptLibs \<Rightarrow> ScriptRunnerConfig \<Rightarrow> string \<Rightarrow> ScriptRequest \<Rightarrow> string \<times> bytes option \<times> string list \<Rightarrow> bool" where
  "started_for libs cfg wd rq x \<longleftrightarrow> permitted libs cfg rq \<and> in_scratch wd (fst x) \<and> snd x = (Some (sq_body rq), sq_args rq)"

lemma run_script_effect:
  assumes "run_script libs cfg wd rq re w = (r, w')"
  shows "(\<forall>p. in_scratch wd p \<or> sw_files w' p = sw_files w p) \<and>
    (\<exists>new. sw_started w' = sw_started w @ new \<and>
       (\<forall>x\<in>set new. started_for libs cfg wd rq x))"
proof (cases "verify_script libs cfg rq = Ok () \<and> is_allowed (allowlist cfg) (sq_canonical_name rq)")
  case True
  then have p: "permitted libs cfg rq"
    by (auto simp: permitted_def verify_script_def is_allowed_def matches_iff_glob list_ex_iff split: if_splits)
  have here: "in_scratch wd (path_join wd (script_filename libs rq))" using script_filename_plain in_scratch_def by blast
  show ?thesis
    using assms True p here
    by (auto simp: started_for_def run_script_def materialize_script_def Let_def split: option.splits prod.splits if_splits)
next
  case False
  then show ?thesis using assms by (auto simp: run_script_def split: result.splits if_splits)
qed

text \<open>
  C15: only signed, listed scripts run. Whatever requests arrive, every program the supervisor starts is a
  file of its scratch directory whose content is the body of a request with a 64-byte signature that
  verifies under the pinned key and with a name some allow-list pattern admits, started with the
  arguments of that request; and no file outside the scratch directory is touched, whatever the
  identifier and the extension of the request.
\<close>

theorem scripts_authentic:
  assumes "script_module libs enabled (from_parts libs key pats secs out) wd inputs (bus, w) = (bus', w')" "sw_started w = []"
  shows "(\<forall>p. in_scratch wd p \<or> sw_files w' p = sw_files w p) \<and>
    (\<forall>x. x \<in> set (sw_started w') \<longrightarrow>
      (\<exists>i\<in>set inputs. \<exists>cfg. from_parts libs key pats secs out = Ok cfg \<and> started_for libs cfg wd (si_request i) x))"
proof (cases "enabled \<and> is_ok (from_parts libs key pats secs out)")
  case True
  then obtain cfg where cfg: "from_parts libs key pats secs out = Ok cfg" by (cases "from_parts libs key pats secs out") auto
  let ?P = "\<lambda>is v. (\<forall>p. in_scratch wd p \<or> sw_files v p = sw_files w p) \<and>
    (\<forall>x\<in>set (sw_started v). \<exists>i\<in>set is. started_for libs cfg wd (si_request i) x)"
  have loop: "?P (pre @ is) (snd (fold (handle_script libs cfg wd) is s))" if "?P pre (snd s)" for pre "is" s
    using that
  proof (induction "is" arbitrary: pre s)
    case (Cons i "is")
    obtain b v where s: "s = (b, v)" by fastforce
    obtain r v' where run: "run_script libs cfg wd (si_request i) (si_env i) v = (r, v')" by fastforce
    have v': "snd (handle_script libs cfg wd i s) = v'" using s run by (auto simp: handle_script_def Let_def split: option.split)
    obtain new where new: "sw_started v' = sw_started v @ new" "\<forall>x\<in>set new. started_for libs cfg wd (si_request i) x"
      and files: "\<And>p. in_scratch wd p \<or> sw_files v' p = sw_files v p" using run_script_effect [OF run] by blast
    have prem: "?P pre v" using Cons.prems s by simp
    have "in_scratch wd p \<or> sw_files v' p = sw_files w p" for p using files [of p] prem by auto
    moreover have "\<forall>x\<in>set (sw_started v'). \<exists>i\<in>set (pre @ [i]). started_for libs cfg wd (si_request i) x"
      using new prem by auto
    ultimately have "?P (pre @ [i]) v'" by blast
    then have "?P (pre @ [i]) (snd (handle_script libs cfg wd i s))" unfolding v' .
    from Cons.IH [OF this] show ?case by simp
  qed simp
  have "w' = w \<or> w' = snd (fold (handle_script libs cfg wd) inputs (bus, w))"
    using assms(1) True cfg by (auto simp: script_module_def split: if_splits)
  moreover have "?P [] (snd (bus, w))" using assms(2) by simp
  then have "?P ([] @ inputs) (snd (fold (handle_script libs cfg wd) inputs (bus, w)))" by (rule loop)
  ultimately have "?P inputs w'" using assms(2) by auto
  with cfg show ?thesis by auto
next
  case False
  then show ?thesis using assms by (cases "from_parts libs key pats secs out") (auto simp: script_module_def split: if_splits)
qed

section \<open>Truncation is reported exactly\<close>

lemma drain_loop_spec:
  assumes "list_all (\<lambda>b. b \<noteq> []) bufs" "dr_captured d = take cap (dr_full d)" "dr_hit_limit d \<longleftrightarrow> length (dr_full d) > cap"
  shows "dr_full (drain_loop_capped cap bufs d) = dr_full d @ concat bufs \<and>
    dr_captured (drain_loop_capped cap bufs d) = take cap (dr_full d @ concat bufs) \<and>
    (dr_hit_limit (drain_loop_capped cap bufs d) \<longleftrightarrow> length (dr_full d @ concat bufs) > cap)"
  using assms
proof (induction bufs arbitrary: d)
  case (Cons b bufs)
  let ?room = "cap - length (dr_captured d)"
  let ?e = "d\<lparr>dr_full := dr_full d @ b\<rparr>"
  let ?d = "if dr_hit_limit ?e then ?e
    else if ?room = 0 then ?e\<lparr>dr_hit_limit := True\<rparr>
    else if length b \<le> ?room then ?e\<lparr>dr_captured := dr_captured ?e @ b\<rparr>
    else ?e\<lparr>dr_captured := dr_captured ?e @ take ?room b, dr_hit_limit := True\<rparr>"
  have step: "drain_loop_capped cap (b # bufs) d = drain_loop_capped cap bufs ?d" using Cons.prems(1) by (simp add: Let_def)
  have b: "0 < length b" using Cons.prems(1) by simp
  have "dr_full ?d = dr_full d @ b" by simp
  moreover have "dr_captured ?d = take cap (dr_full d @ b)" using Cons.prems(2,3) by (auto simp: min_def not_less)
  moreover have "dr_hit_limit ?d \<longleftrightarrow> length (dr_full d @ b) > cap" using Cons.prems(2,3) b by (auto simp: min_def not_less)
  ultimately show ?case unfolding step using Cons.IH [of ?d] Cons.prems(1) by simp
qed simp

lemma drain_capped_spec:
  assumes "drain_capped cap (Ok bufs) = Ok d" "list_all (\<lambda>b. b \<noteq> []) bufs"
  shows "dr_full d = concat bufs" "dr_captured d = take cap (concat bufs)" "dr_hit_limit d \<longleftrightarrow> length (concat bufs) > cap"
  using assms drain_loop_spec [OF assms(2), of "\<lparr>dr_captured = [], dr_hit_limit = False, dr_full = []\<rparr>" cap]
  by (auto simp: drain_capped_def)

lemma clamp_to_take: "clamp_to bs n = take n bs"
  by (simp add: clamp_to_def)

text \<open>
  C31: the report of a run is exact. What is kept of the two outputs is a prefix of each, together within
  the byte budget; the digests are those of the whole outputs; and truncation is reported if and only
  if the run timed out or some byte of an output was dropped.
\<close>

theorem truncation_exact:
  assumes "execute_script libs cfg rq re = Ok out" "re_stdout re = Ok outs" "re_stderr re = Ok errs"
    and "list_all (\<lambda>b. b \<noteq> []) outs" "list_all (\<lambda>b. b \<noteq> []) errs"
  shows "\<exists>kept_out kept_err.
    so_stdout_truncated out = sl_lossy libs kept_out \<and> so_stderr_truncated out = sl_lossy libs kept_err \<and>
    prefix kept_out (concat outs) \<and> prefix kept_err (concat errs) \<and> length kept_out + length kept_err \<le> max_output_bytes cfg \<and>
    so_stdout_sha256 out = hex_str (sl_sha256 libs (concat outs)) \<and> so_stderr_sha256 out = hex_str (sl_sha256 libs (concat errs)) \<and>
    (so_output_truncated out \<longleftrightarrow> so_timed_out out \<or> kept_out \<noteq> concat outs \<or> kept_err \<noteq> concat errs)"
proof -
  let ?cap = "max_output_bytes cfg"
  obtain d e code timed where d: "drain_capped ?cap (Ok outs) = Ok d" and e: "drain_capped ?cap (Ok errs) = Ok e"
    and out: "out = script_outcome libs ?cap rq re code timed d e"
    using assms(1-3) by (auto simp: execute_script_def result_simps split: option.splits)
  note ds = drain_capped_spec [OF d assms(4)] and es = drain_capped_spec [OF e assms(5)]
  let ?o = "clamp_to (dr_captured d) ?cap" and ?e = "clamp_to (dr_captured e) (?cap - length (clamp_to (dr_captured d) ?cap))"
  have o: "?o = take ?cap (concat outs)" and e': "?e = take (?cap - length ?o) (concat errs)"
    unfolding ds(2) es(2) clamp_to_take by (simp_all add: min_def)
  have "so_output_truncated out \<longleftrightarrow> so_timed_out out \<or> ?o \<noteq> concat outs \<or> ?e \<noteq> concat errs"
    using ds es by (auto simp: out script_outcome_def Let_def o e' clamp_to_def min_def split: if_splits)
  moreover have "length ?o + length ?e \<le> ?cap" using o e' by simp
  moreover have "prefix ?o (concat outs)" "prefix ?e (concat errs)" using o e' take_is_prefix by metis+
  moreover have "so_stdout_truncated out = sl_lossy libs ?o" "so_stderr_truncated out = sl_lossy libs ?e"
    "so_stdout_sha256 out = hex_str (sl_sha256 libs (concat outs))" "so_stderr_sha256 out = hex_str (sl_sha256 libs (concat errs))"
    using ds(1) es(1) by (simp_all add: out script_outcome_def Let_def)
  ultimately show ?thesis by blast
qed

section \<open>Concrete runs\<close>

definition sample_scripts :: ScriptLibs where
  "sample_scripts = \<lparr>sl_hex_decode = (\<lambda>h. Some (replicate 32 CHR ''k'')), sl_key_valid = (\<lambda>k. True),
     sl_verify = (\<lambda>k m s. hd s = hd m), sl_sha256 = take 2, sl_lossy = (\<lambda>b. b), sl_outcome_json = (\<lambda>out. Some (so_job_id out)),
     sl_error_text = (\<lambda>e. ''refused'')\<rparr>"

definition sample_request :: ScriptRequest where
  "sample_request = \<lparr>sq_job_id = ''../7'', sq_canonical_name = ''sn360.net.ping'', sq_body = ''echo'', sq_signature = replicate 64 CHR ''e'',
     sq_extension = Some ''/sh'', sq_args = [''-c'']\<rparr>"

definition sample_run :: ScriptRunEnv where
  "sample_run = \<lparr>re_spawn = None, re_stdout = Ok [''abc'', ''de''], re_stderr = Ok [''xyz''], re_wait = Exited (Some 0), re_started = 1,
     re_finished = 2, re_elapsed = 1, re_files = \<lparr>mf_mkdir = None, mf_write = None, mf_chmod = None, mf_remove = None\<rparr>\<rparr>"

definition sample_cfg :: ScriptRunnerConfig where
  "sample_cfg = \<lparr>pinned_signing_key = replicate 32 CHR ''k'', allowlist = \<lparr>patterns = [''sn360.*.ping'']\<rparr>, max_duration = 1, max_output_bytes = 6\<rparr>"

abbreviation sample_module :: "ScriptEvent Bus \<times> ScriptWorld" where
  "sample_module \<equiv> script_module sample_scripts True (from_parts sample_scripts (Some ''00'') [''sn360.*.ping''] 1 6) ''/var/s''
     [\<lparr>si_request = sample_request, si_env = sample_run, si_answers = (Queued, Queued)\<rparr>]
     (\<lparr>server_queue = [], broadcasts = []\<rparr>, \<lparr>sw_files = Map.empty, sw_started = []\<rparr>)"

text \<open>A signed script with a name the list admits is started from the scratch directory.\<close>

theorem scripts_authentic_witness:
  "\<exists>x cfg. sw_started (snd sample_module) = [x] \<and> fst x = ''/var/s/script-7-6563.sh'' \<and>
     started_for sample_scripts cfg ''/var/s'' sample_request x"
proof -
  obtain bus' w' where m: "sample_module = (bus', w')" by fastforce
  have "map fst (sw_started (snd sample_module)) = [''/var/s/script-7-6563.sh'']" by code_simp
  then obtain x where x: "sw_started w' = [x]" "fst x = ''/var/s/script-7-6563.sh''" using m by auto
  from scripts_authentic [OF m] x obtain cfg where "started_for sample_scripts cfg ''/var/s'' sample_request x" by auto
  with m x show ?thesis by auto
qed

text \<open>Eight bytes of output under a budget of six: five and one are kept, and truncation is reported.\<close>

theorem truncation_exact_witness:
  "\<exists>out. execute_script sample_scripts sample_cfg sample_request sample_run = Ok out \<and> so_output_truncated out \<and>
     (\<exists>kept. so_stderr_truncated out = kept \<and> prefix kept ''xyz'' \<and> kept \<noteq> ''xyz'')"
proof -
  have "case execute_script sample_scripts sample_cfg sample_request sample_run of
      Ok out \<Rightarrow> so_output_truncated out \<and> \<not> so_timed_out out \<and> so_stdout_truncated out = ''abcde'' | Err _ \<Rightarrow> False" by code_simp
  then obtain out where out: "execute_script sample_scripts sample_cfg sample_request sample_run = Ok out" "so_output_truncated out"
    "\<not> so_timed_out out" "so_stdout_truncated out = ''abcde''" by (auto split: result.splits)
  have p: "re_stdout sample_run = Ok [''abc'', ''de'']" "re_stderr sample_run = Ok [''xyz'']" by (simp_all add: sample_run_def)
  have l: "sl_lossy sample_scripts b = b" for b by (simp add: sample_scripts_def)
  from truncation_exact [OF out(1) p] out(2-4) have "\<exists>kept. so_stderr_truncated out = kept \<and> prefix kept ''xyz'' \<and> kept \<noteq> ''xyz''"
    by (auto simp: l)
  with out(1,2) show ?thesis by blast
qed

text \<open>The signature covers the body alone: under a list that admits two names, the same signed body is
  permitted under either, with any arguments.\<close>

lemma name_not_signed:
  assumes "permitted libs cfg rq" "pat \<in> set (patterns (allowlist cfg))" "glob pat name"
  shows "permitted libs cfg (rq\<lparr>sq_canonical_name := name, sq_args := other\<rparr>)"
  using assms by (auto simp: permitted_def)

end
