(* ===== verification/Updater.thy ===== *)
theory Updater
  imports LdeResponse
begin

text \<open>
  The self-updater (\<open>sda-updater/src/checker.rs\<close>, \<open>installer.rs\<close>, \<open>lib.rs\<close>): comparison of versions,
  the check of the server, download and verification, the replacement of the agent's binary with
  its backup, the smoke test and the rollback, and the loop that repeats them.

  SHA-256, Ed25519, hexadecimal decoding and the JSON of a manifest are parameters. Files are a map
  from paths to contents; what the server, the file system and the smoke test answer in one
  cycle is an argument, fault by fault, each with the text it is reported with.
\<close>

section \<open>Versions\<close>

text \<open>\<open>digits.parse::<u64>().unwrap_or(0)\<close> of the leading digits of a segment.\<close>

definition version_segment :: "string \<Rightarrow> nat" where
  "version_segment seg =
     (let digits = takeWhile is_digit seg
      in if digits \<noteq> [] \<and> read_nat digits < 2 ^ 64 then read_nat digits else 0)"

definition parse_version :: "string \<Rightarrow> nat list" where
  "parse_version s = map version_segment (split_char CHR ''.'' s)"

definition resize_zero :: "nat \<Rightarrow> nat list \<Rightarrow> nat list" where
  "resize_zero n v = take n v @ replicate (n - length v) 0"

definition is_newer :: "string \<Rightarrow> string \<Rightarrow> bool" where
  "is_newer candidate current =
     (let a = parse_version candidate; b = parse_version current; len = max (length a) (length b)
      in resize_zero len a > resize_zero len b)"

section \<open>Checking\<close>

record UpdateManifest =
  um_version :: string
  um_url :: string
  um_sha256 :: string
  um_signature :: string

record UpdateConfig =
  uc_enabled :: bool
  uc_server_url :: string
  uc_check_interval :: nat
  uc_public_key :: string
  uc_smoke_test_timeout :: nat

record UpdateLibs =
  ul_manifest :: "bytes \<Rightarrow> (UpdateManifest, string) result"
  ul_status :: "nat \<Rightarrow> string"
  ul_hex :: "string \<Rightarrow> bytes option"
  ul_key :: "bytes \<Rightarrow> bool"
  ul_sha256 :: "bytes \<Rightarrow> bytes"
  ul_verify :: "bytes \<Rightarrow> bytes \<Rightarrow> bytes \<Rightarrow> (unit, string) result"

definition effective_check_interval :: "UpdateConfig \<Rightarrow> nat" where
  "effective_check_interval cfg = max (uc_check_interval cfg) 60"

definition check_for_update :: "UpdateLibs \<Rightarrow> string option \<Rightarrow> HttpReply \<Rightarrow> string \<Rightarrow> (UpdateManifest option, string) result" where
  "check_for_update libs client_error reply current_version =
     (case client_error of
        Some e \<Rightarrow> Err e
      | None \<Rightarrow>
          (case reply of
             SendFailed e \<Rightarrow> Err e
           | Reply status body \<Rightarrow>
               if \<not> (200 \<le> status \<and> status < 300) then Err (''update server returned status '' @ ul_status libs status)
               else bind_result body (\<lambda>b. bind_result (ul_manifest libs b) (\<lambda>m.
                    Ok (if is_newer (um_version m) current_version then Some m else None)))))"

section \<open>Installing\<close>

definition decode_fixed :: "UpdateLibs \<Rightarrow> nat \<Rightarrow> string \<Rightarrow> string \<Rightarrow> string \<Rightarrow> (bytes, string) result" where
  "decode_fixed libs n hex_text length_text s =
     (case ul_hex libs (trim_str s) of
        None \<Rightarrow> Err hex_text
      | Some b \<Rightarrow> if length b = n then Ok b else Err length_text)"

definition parse_public_key :: "UpdateLibs \<Rightarrow> string \<Rightarrow> (bytes, string) result" where
  "parse_public_key libs s =
     bind_result (decode_fixed libs 32 ''hex-decoding public_key'' ''public_key must be 32 bytes (got != 32)'' s) (\<lambda>b.
     if ul_key libs b then Ok b else Err ''invalid Ed25519 public key bytes'')"

definition decode_hex_digest :: "UpdateLibs \<Rightarrow> string \<Rightarrow> (bytes, string) result" where
  "decode_hex_digest libs s = decode_fixed libs 32 ''hex-decoding sha256'' ''sha256 digest must be 32 bytes'' s"

definition decode_signature :: "UpdateLibs \<Rightarrow> string \<Rightarrow> (bytes, string) result" where
  "decode_signature libs s = decode_fixed libs 64 ''hex-decoding signature'' ''Ed25519 signature must be 64 bytes'' s"

text \<open>A block of the download: it does not arrive, or it arrives and is written, or only a part of it is.\<close>

datatype Chunk = ChunkLost string | ChunkHere bytes "(string \<times> bytes) option"

text \<open>What one cycle meets, in the order of the code.\<close>

record UpdateEnv =
  ue_check_client :: "string option"
  ue_check :: HttpReply
  ue_exe :: "(string, string) result"
  ue_pid :: nat
  ue_client :: "string option"
  ue_send :: "(nat, string) result"
  ue_create :: "string option"
  ue_chunks :: "Chunk list"
  ue_sync :: "string option"
  ue_remove_temp :: bool
  ue_mode :: "string option"
  ue_remove_backup :: "string option"
  ue_copy :: "(string \<times> bytes option) option"
  ue_rename :: "string option"
  ue_smoke :: "nat \<Rightarrow> string option"
  ue_restore :: "string option"

fun receive_chunks :: "Chunk list \<Rightarrow> bytes \<Rightarrow> (bytes, string \<times> bytes) result" where
  "receive_chunks [] got = Ok got"
| "receive_chunks (ChunkLost e # cs) got = Err (e, got)"
| "receive_chunks (ChunkHere b w # cs) got =
     (case w of Some (e, part) \<Rightarrow> Err (e, got @ part) | None \<Rightarrow> receive_chunks cs (got @ b))"

definition download_and_verify :: "UpdateLibs \<Rightarrow> UpdateEnv \<Rightarrow> string \<Rightarrow> bytes \<Rightarrow> bytes \<Rightarrow> bytes \<Rightarrow> files \<Rightarrow> (unit, string) result \<times> files" where
  "download_and_verify libs ue dest expected_digest sig key fs =
     (case ue_client ue of
        Some e \<Rightarrow> (Err e, fs)
      | None \<Rightarrow>
          (case ue_send ue of
             Err e \<Rightarrow> (Err e, fs)
           | Ok status \<Rightarrow>
               if \<not> (200 \<le> status \<and> status < 300) then (Err (''update download returned status '' @ ul_status libs status), fs)
               else (case ue_create ue of
                       Some e \<Rightarrow> (Err e, fs)
                     | None \<Rightarrow>
                         (case receive_chunks (ue_chunks ue) [] of
                            Err (e, got) \<Rightarrow> (Err e, fs(dest \<mapsto> got))
                          | Ok got \<Rightarrow>
                              (let fs = fs(dest \<mapsto> got)
                               in case ue_sync ue of
                                    Some e \<Rightarrow> (Err e, fs)
                                  | None \<Rightarrow>
                                      if ul_sha256 libs got \<noteq> expected_digest then (Err ''downloaded binary SHA-256 mismatch'', fs)
                                      else (case ul_verify libs key expected_digest sig of
                                              Err e \<Rightarrow> (Err (''Ed25519 signature verification failed: '' @ e), fs)
                                            | Ok _ \<Rightarrow> (Ok (), fs)))))))"

definition backup_path_for :: "string \<Rightarrow> string" where
  "backup_path_for current = current @ ''.bak''"

definition copy_file :: "UpdateEnv \<Rightarrow> string \<Rightarrow> string \<Rightarrow> files \<Rightarrow> (unit, string) result \<times> files" where
  "copy_file ue src dst fs =
     (if fs dst \<noteq> None \<and> ue_remove_backup ue \<noteq> None then (Err (the (ue_remove_backup ue)), fs)
      else let fs = fs(dst := None)
           in case fs src of
                None \<Rightarrow> (Err ''No such file or directory'', fs)
              | Some content \<Rightarrow>
                  (case ue_copy ue of
                     Some (e, part) \<Rightarrow> (Err e, fs(dst := part))
                   | None \<Rightarrow> (Ok (), fs(dst \<mapsto> content))))"

definition rollback :: "UpdateEnv \<Rightarrow> string \<Rightarrow> string \<Rightarrow> files \<Rightarrow> (unit, string) result \<times> files" where
  "rollback ue current backup fs =
     (case fs backup of
        None \<Rightarrow> (Err (''no rollback copy at '' @ backup), fs)
      | Some content \<Rightarrow>
          (case ue_restore ue of
             Some e \<Rightarrow> (Err e, fs)
           | None \<Rightarrow> (Ok (), (fs(backup := None))(current \<mapsto> content))))"

datatype InstallOutcome = Installed | RolledBack

text \<open>\<open>Path::parent\<close> of an absolute path.\<close>

definition path_parent :: "string \<Rightarrow> string option" where
  "path_parent p =
     (let q = rev (dropWhile (\<lambda>c. c = CHR ''/'') (rev p))
      in if q = [] then None
         else let d = rev (dropWhile (\<lambda>c. c = CHR ''/'') (dropWhile (\<lambda>c. c \<noteq> CHR ''/'') (rev q)))
              in Some (if d = [] then (if CHR ''/'' \<in> set q then ''/'' else []) else d))"

definition temp_path_for :: "nat \<Rightarrow> string \<Rightarrow> string" where
  "temp_path_for pid parent = path_join parent (''.sda-agent.update.'' @ nat_str pid)"

text \<open>The key, the digest, the signature and the directory of the binary, each with the context of its error.\<close>

definition install_inputs :: "UpdateLibs \<Rightarrow> UpdateConfig \<Rightarrow> UpdateManifest \<Rightarrow> string \<Rightarrow> (bytes \<times> bytes \<times> bytes \<times> string, string) result" where
  "install_inputs libs cfg m current =
     (if trim_str (uc_public_key cfg) = []
      then Err (''updater has no public_key configured '' @ [CHR 0xE2, CHR 0x80, CHR 0x94] @ '' refusing to install unsigned binaries'')
      else bind_result (map_err (\<lambda>_. ''parsing updater public_key'') (parse_public_key libs (uc_public_key cfg))) (\<lambda>key.
           bind_result (map_err (\<lambda>_. ''decoding expected sha256 digest from manifest'') (decode_hex_digest libs (um_sha256 m))) (\<lambda>digest.
           bind_result (map_err (\<lambda>_. ''decoding Ed25519 signature from manifest'') (decode_signature libs (um_signature m))) (\<lambda>sig.
           case path_parent current of
             None \<Rightarrow> Err ''current_binary has no parent directory''
           | Some parent \<Rightarrow> Ok (key, digest, sig, parent)))))"

definition swap_binary :: "UpdateConfig \<Rightarrow> UpdateEnv \<Rightarrow> string \<Rightarrow> string \<Rightarrow> files \<Rightarrow> (InstallOutcome, string) result \<times> files" where
  "swap_binary cfg ue temp current fs =
     (case ue_mode ue of
        Some e \<Rightarrow> (Err e, fs)
      | None \<Rightarrow>
          (case copy_file ue current (backup_path_for current) fs of
             (Err e, fs) \<Rightarrow> (Err e, fs)
           | (Ok _, fs) \<Rightarrow>
               (case ue_rename ue of
                  Some e \<Rightarrow> (Err e, fs)
                | None \<Rightarrow>
                    (let fs = (fs(temp := None))(current := fs temp)
                     in case ue_smoke ue (max (uc_smoke_test_timeout cfg) 1) of
                          None \<Rightarrow> (Ok Installed, fs)
                        | Some _ \<Rightarrow>
                            (case rollback ue current (backup_path_for current) fs of
                               (Err e, fs) \<Rightarrow> (Err e, fs)
                             | (Ok _, fs) \<Rightarrow> (Ok RolledBack, fs))))))"

definition install_update :: "UpdateLibs \<Rightarrow> UpdateConfig \<Rightarrow> UpdateManifest \<Rightarrow> UpdateEnv \<Rightarrow> string \<Rightarrow> files \<Rightarrow> (InstallOutcome, string) result \<times> files" where
  "install_update libs cfg m ue current fs =
     (case install_inputs libs cfg m current of
        Err e \<Rightarrow> (Err e, fs)
      | Ok (key, digest, sig, parent) \<Rightarrow>
          (let temp = temp_path_for (ue_pid ue) parent
           in case download_and_verify libs ue temp digest sig key fs of
                (Err e, fs) \<Rightarrow> (Err e, if ue_remove_temp ue then fs(temp := None) else fs)
              | (Ok _, fs) \<Rightarrow> swap_binary cfg ue temp current fs))"

section \<open>The loop\<close>

definition run_once :: "UpdateLibs \<Rightarrow> UpdateConfig \<Rightarrow> UpdateEnv \<Rightarrow> string \<Rightarrow> files \<Rightarrow> string option \<times> files" where
  "run_once libs cfg ue current_version fs =
     (case check_for_update libs (ue_check_client ue) (ue_check ue) current_version of
        Err _ \<Rightarrow> (None, fs)
      | Ok None \<Rightarrow> (None, fs)
      | Ok (Some m) \<Rightarrow>
          (case ue_exe ue of
             Err _ \<Rightarrow> (None, fs)
           | Ok current \<Rightarrow>
               (case install_update libs cfg m ue current fs of
                  (Ok Installed, fs) \<Rightarrow> (Some (um_version m), fs)
                | (Ok RolledBack, fs) \<Rightarrow> (None, fs)
                | (Err _, fs) \<Rightarrow> (None, fs))))"

fun update_cycles :: "UpdateLibs \<Rightarrow> UpdateConfig \<Rightarrow> UpdateEnv list \<Rightarrow> string \<times> files \<Rightarrow> string \<times> files" where
  "update_cycles libs cfg [] s = s"
| "update_cycles libs cfg (ue # ues) (current_version, fs) =
     (case run_once libs cfg ue current_version fs of
        (Some installed, fs) \<Rightarrow> update_cycles libs cfg ues (installed, fs)
      | (None, fs) \<Rightarrow> update_cycles libs cfg ues (current_version, fs))"

text \<open>The agent starts the module only when it is enabled.\<close>

definition updater_run :: "UpdateLibs \<Rightarrow> UpdateConfig \<Rightarrow> UpdateEnv list \<Rightarrow> string \<times> files \<Rightarrow> string \<times> files" where
  "updater_run libs cfg ues s = (if uc_enabled cfg then update_cycles libs cfg ues s else s)"

section \<open>Versions are compared segment by segment\<close>

definition segment_at :: "string \<Rightarrow> nat \<Rightarrow> nat" where
  "segment_at v i = (let p = parse_version v in if i < length p then p ! i else 0)"

lemma list_less_iff:
  fixes xs ys :: "nat list"
  assumes "length ys = length xs"
  shows "ys < xs \<longleftrightarrow> (\<exists>k<length xs. (\<forall>j<k. xs ! j = ys ! j) \<and> ys ! k < xs ! k)"
  using assms
proof (induction ys xs rule: list_induct2)
  case (Cons y ys x xs)
  show ?case
  proof
    assume "y # ys < x # xs"
    then consider "y < x" | "y = x" "ys < xs" by auto
    then show "\<exists>k<length (x # xs). (\<forall>j<k. (x # xs) ! j = (y # ys) ! j) \<and> (y # ys) ! k < (x # xs) ! k"
    proof cases
      case 2
      then obtain k where "k < length xs" "\<forall>j<k. xs ! j = ys ! j" "ys ! k < xs ! k" using Cons.IH by blast
      with 2 show ?thesis by (intro exI [of _ "Suc k"]) (auto simp: less_Suc_eq_0_disj)
    qed auto
  next
    assume "\<exists>k<length (x # xs). (\<forall>j<k. (x # xs) ! j = (y # ys) ! j) \<and> (y # ys) ! k < (x # xs) ! k"
    then obtain k where k: "k < Suc (length xs)" "\<forall>j<k. (x # xs) ! j = (y # ys) ! j" "(y # ys) ! k < (x # xs) ! k" by auto
    show "y # ys < x # xs"
    proof (cases k)
      case (Suc i)
      then have "x = y" "\<forall>j<i. xs ! j = ys ! j" using k(2) by fastforce+
      with Suc k Cons.IH show ?thesis by auto
    qed (use k in simp)
  qed
qed simp

lemma nth_resize_zero: "length v \<le> n \<Longrightarrow> i < n \<Longrightarrow> resize_zero n v ! i = (if i < length v then v ! i else 0)"
  by (auto simp: resize_zero_def nth_append)

text \<open>One version is newer than another if and only if, at the first segment in which they differ, its
  number is the greater one; missing segments count as zero.\<close>

lemma is_newer_iff:
  "is_newer a b \<longleftrightarrow> (\<exists>k. (\<forall>j<k. segment_at a j = segment_at b j) \<and> segment_at b k < segment_at a k)"
proof -
  let ?a = "parse_version a" and ?b = "parse_version b" and ?n = "max (length (parse_version a)) (length (parse_version b))"
  have at: "resize_zero ?n ?a ! i = segment_at a i" "resize_zero ?n ?b ! i = segment_at b i" if "i < ?n" for i
    using that by (auto simp: nth_resize_zero segment_at_def Let_def)
  have "length (resize_zero ?n ?b) = length (resize_zero ?n ?a)" "length (resize_zero ?n ?a) = ?n" by (simp_all add: resize_zero_def)
  then have "is_newer a b \<longleftrightarrow> (\<exists>k<?n. (\<forall>j<k. segment_at a j = segment_at b j) \<and> segment_at b k < segment_at a k)"
    using list_less_iff [of "resize_zero ?n ?b" "resize_zero ?n ?a"] by (auto simp: is_newer_def Let_def at)
  moreover have "k < ?n" if "segment_at b k < segment_at a k" for k
    using that by (auto simp: segment_at_def Let_def split: if_splits)
  ultimately show ?thesis by blast
qed

lemma is_newer_trans: "is_newer a b \<Longrightarrow> is_newer b c \<Longrightarrow> is_newer a c"
proof -
  assume "is_newer a b" "is_newer b c"
  then obtain i k where i: "\<forall>j<i. segment_at a j = segment_at b j" "segment_at b i < segment_at a i"
    and k: "\<forall>j<k. segment_at b j = segment_at c j" "segment_at c k < segment_at b k" unfolding is_newer_iff by blast
  have "(\<forall>j<min i k. segment_at a j = segment_at c j) \<and> segment_at c (min i k) < segment_at a (min i k)"
    using i k by (cases i k rule: linorder_cases) auto
  then show ?thesis unfolding is_newer_iff by blast
qed

section \<open>The binary stays whole and authentic\<close>

definition signed_binary :: "UpdateLibs \<Rightarrow> UpdateConfig \<Rightarrow> bytes \<Rightarrow> bool" where
  "signed_binary libs cfg b \<longleftrightarrow>
     (\<exists>key sig. parse_public_key libs (uc_public_key cfg) = Ok key \<and> length sig = 64 \<and> is_ok (ul_verify libs key (ul_sha256 libs b) sig))"

lemma nat_str_last: "nat_str n \<noteq> []" "is_digit (last (nat_str n))"
proof -
  show "nat_str n \<noteq> []" by (subst nat_str.simps) simp
  then show "is_digit (last (nat_str n))" using nat_str_digits [of n] by (metis last_in_set list_all_iff)
qed

lemma temp_not_backup: "temp_path_for pid parent \<noteq> backup_path_for current"
proof
  assume "temp_path_for pid parent = backup_path_for current"
  then have "last (temp_path_for pid parent) = last (backup_path_for current)" by simp
  moreover have "last (temp_path_for pid parent) = last (nat_str pid)" using nat_str_last(1) [of pid] by (simp add: temp_path_for_def path_join_def)
  ultimately show False using nat_str_last(2) [of pid] by (simp add: backup_path_for_def is_digit_def)
qed

lemma download_effect:
  assumes "download_and_verify libs ue temp digest sig key fs = (r, fs')"
  shows "(\<forall>p. p \<noteq> temp \<longrightarrow> fs' p = fs p) \<and>
    (r = Ok () \<longrightarrow> (\<exists>b. fs' temp = Some b \<and> ul_sha256 libs b = digest \<and> is_ok (ul_verify libs key digest sig)))"
  using assms
  by (auto simp: download_and_verify_def Let_def split: option.splits result.splits if_splits prod.splits)

lemma swap_effect:
  assumes "swap_binary cfg ue temp current fs = (r, fs')" "fs current = Some b0" "fs temp = Some b" "temp \<noteq> current" "temp \<noteq> backup_path_for current"
  shows "(fs' current = Some b0 \<or> fs' current = Some b) \<and> (r = Ok RolledBack \<longrightarrow> fs' current = Some b0) \<and> (r = Ok Installed \<longrightarrow> fs' current = Some b)"
proof -
  have "backup_path_for current \<noteq> current" by (simp add: backup_path_for_def)
  with assms show ?thesis
    by (auto simp: swap_binary_def copy_file_def rollback_def Let_def split: option.splits result.splits if_splits prod.splits)
qed

lemma install_effect:
  assumes "install_update libs cfg m ue current fs = (r, fs')" "fs current = Some b0"
    and "\<And>parent. path_parent current = Some parent \<Longrightarrow> temp_path_for (ue_pid ue) parent \<noteq> current"
  shows "\<exists>b. fs' current = Some b \<and> (b = b0 \<or> signed_binary libs cfg b) \<and> (r = Ok RolledBack \<longrightarrow> b = b0) \<and> (r = Ok Installed \<longrightarrow> signed_binary libs cfg b)"
proof (cases "install_inputs libs cfg m current")
  case (Err e)
  with assms(1,2) show ?thesis by (auto simp: install_update_def)
next
  case (Ok i)
  obtain key digest sig parent where i: "i = (key, digest, sig, parent)" by (cases i)
  have in_ok: "parse_public_key libs (uc_public_key cfg) = Ok key" "length sig = 64" "path_parent current = Some parent"
    using Ok unfolding i by (auto simp: install_inputs_def decode_signature_def decode_fixed_def result_simps split: if_splits option.splits)
  let ?temp = "temp_path_for (ue_pid ue) parent"
  obtain r1 fs1 where d: "download_and_verify libs ue ?temp digest sig key fs = (r1, fs1)" by fastforce
  note de = download_effect [OF d]
  have temp: "?temp \<noteq> current" by (rule assms(3) [OF in_ok(3)])
  have cur: "fs1 current = Some b0" using de temp assms(2) by auto
  show ?thesis
  proof (cases r1)
    case (Err e)
    with assms(1) Ok i d cur temp show ?thesis by (auto simp: install_update_def Let_def)
  next
    case [simp]: (Ok u)
    obtain b where b: "fs1 ?temp = Some b" "ul_sha256 libs b = digest" "is_ok (ul_verify libs key digest sig)" using de by auto
    then have "signed_binary libs cfg b" using in_ok unfolding signed_binary_def by blast
    moreover have "swap_binary cfg ue ?temp current fs1 = (r, fs')"
      using assms(1) \<open>install_inputs libs cfg m current = Ok i\<close> i d by (simp add: install_update_def Let_def)
    ultimately show ?thesis using swap_effect [OF _ cur b(1) temp temp_not_backup] by blast
  qed
qed

lemma install_frame:
  assumes "install_update libs cfg m ue p fs = (r, fs')" "q \<noteq> p" "q \<noteq> backup_path_for p"
    and "\<And>parent. path_parent p = Some parent \<Longrightarrow> temp_path_for (ue_pid ue) parent \<noteq> q"
  shows "fs' q = fs q"
proof (cases "install_inputs libs cfg m p")
  case (Err e)
  with assms(1) show ?thesis by (simp add: install_update_def)
next
  case (Ok i)
  obtain key digest sig parent where i: "i = (key, digest, sig, parent)" by (cases i)
  let ?temp = "temp_path_for (ue_pid ue) parent"
  have "path_parent p = Some parent" using Ok unfolding i by (auto simp: install_inputs_def result_simps split: if_splits option.splits)
  then have q: "?temp \<noteq> q" by (rule assms(4))
  obtain r1 fs1 where d: "download_and_verify libs ue ?temp digest sig key fs = (r1, fs1)" by fastforce
  have "fs1 q = fs q" using download_effect [OF d] q by metis
  with assms(1-3) Ok i d q show ?thesis
    by (auto simp: install_update_def swap_binary_def copy_file_def rollback_def Let_def split: option.splits result.splits if_splits prod.splits)
qed

text \<open>Where there is no binary to keep a copy of, nothing is installed.\<close>

lemma install_missing:
  assumes "install_update libs cfg m ue p fs = (r, fs')" "fs p = None"
    and "\<And>parent. path_parent p = Some parent \<Longrightarrow> temp_path_for (ue_pid ue) parent \<noteq> p"
  shows "fs' p = None \<and> \<not> is_ok r"
proof (cases "install_inputs libs cfg m p")
  case (Err e)
  with assms(1,2) show ?thesis by (auto simp: install_update_def)
next
  case (Ok i)
  obtain key digest sig parent where i: "i = (key, digest, sig, parent)" by (cases i)
  let ?temp = "temp_path_for (ue_pid ue) parent"
  have "path_parent p = Some parent" using Ok unfolding i by (auto simp: install_inputs_def result_simps split: if_splits option.splits)
  then have q: "?temp \<noteq> p" by (rule assms(3))
  obtain r1 fs1 where d: "download_and_verify libs ue ?temp digest sig key fs = (r1, fs1)" by fastforce
  have "fs1 p = None" using download_effect [OF d] q assms(2) by metis
  with assms(1) Ok i d q show ?thesis
    by (auto simp: install_update_def swap_binary_def copy_file_def Let_def split: option.splits result.splits if_splits prod.splits)
qed

text \<open>The path under which a process finds its own binary: the path of the binary or, as Linux shows it once
  the binary it was started from has been replaced, that path with a remark. Downloads into the
  same directory have another name.\<close>

definition deleted_path :: "string \<Rightarrow> string" where
  "deleted_path current = current @ '' (deleted)''"

definition binary_at :: "string \<Rightarrow> UpdateEnv \<Rightarrow> bool" where
  "binary_at current ue \<longleftrightarrow> (\<forall>p. ue_exe ue = Ok p \<longrightarrow> (p = current \<or> p = deleted_path current) \<and>
     (\<forall>parent. path_parent p = Some parent \<longrightarrow> temp_path_for (ue_pid ue) parent \<noteq> current))"

lemma temp_not_deleted: "temp_path_for pid parent \<noteq> deleted_path current"
proof
  assume "temp_path_for pid parent = deleted_path current"
  then have "last (temp_path_for pid parent) = last (deleted_path current)" by simp
  moreover have "last (temp_path_for pid parent) = last (nat_str pid)" using nat_str_last(1) [of pid] by (simp add: temp_path_for_def path_join_def)
  ultimately show False using nat_str_last(2) [of pid] by (simp add: deleted_path_def is_digit_def)
qed

lemma deleted_path_other [simp]:
  "deleted_path current \<noteq> current" "current \<noteq> deleted_path current"
  "current \<noteq> backup_path_for (deleted_path current)" "deleted_path current \<noteq> backup_path_for current"
  by (simp_all add: deleted_path_def backup_path_for_def)

text \<open>One installation, under either path.\<close>

lemma install_at:
  assumes i: "install_update libs cfg m ue p fs = (r, fs')" and "ue_exe ue = Ok p" "binary_at current ue"
    and fs: "fs current = Some b0" "fs (deleted_path current) = None"
  shows "\<exists>b. fs' current = Some b \<and> (b = b0 \<or> signed_binary libs cfg b) \<and> fs' (deleted_path current) = None \<and>
    (r = Ok Installed \<longrightarrow> signed_binary libs cfg b)"
proof -
  have p: "p = current \<or> p = deleted_path current"
    and temp: "\<And>parent. path_parent p = Some parent \<Longrightarrow> temp_path_for (ue_pid ue) parent \<noteq> current"
    using assms(2,3) unfolding binary_at_def by blast+
  from p show ?thesis
  proof
    assume [simp]: "p = current"
    have "fs' (deleted_path current) = fs (deleted_path current)"
      by (rule install_frame [OF i]) (simp_all add: temp_not_deleted)
    with install_effect [OF i [unfolded \<open>p = current\<close>] fs(1)] temp fs(2) show ?thesis by auto
  next
    assume [simp]: "p = deleted_path current"
    have "fs' current = fs current" by (rule install_frame [OF i]) (use temp in simp_all)
    moreover have "fs' p = None \<and> \<not> is_ok r" by (rule install_missing [OF i]) (simp_all add: fs temp_not_deleted)
    ultimately show ?thesis using fs by auto
  qed
qed

lemma run_once_effect:
  assumes "run_once libs cfg ue v fs = (r, fs')" "fs current = Some b0" "fs (deleted_path current) = None" "binary_at current ue"
  shows "\<exists>b. fs' current = Some b \<and> (b = b0 \<or> signed_binary libs cfg b) \<and> fs' (deleted_path current) = None \<and>
    (\<forall>w. r = Some w \<longrightarrow> is_newer w v \<and> signed_binary libs cfg b)"
proof (cases "\<exists>m p. check_for_update libs (ue_check_client ue) (ue_check ue) v = Ok (Some m) \<and> ue_exe ue = Ok p")
  case True
  then obtain m p where m: "check_for_update libs (ue_check_client ue) (ue_check ue) v = Ok (Some m)" "ue_exe ue = Ok p" by blast
  obtain oc fs1 where i: "install_update libs cfg m ue p fs = (oc, fs1)" by fastforce
  have newer: "is_newer (um_version m) v"
    using m(1) by (auto simp: check_for_update_def result_simps split: option.splits HttpReply.splits if_splits)
  note b = install_at [OF i m(2) assms(4,2,3)]
  have "fs' = fs1" "r = (if oc = Ok Installed then Some (um_version m) else None)"
    using assms(1) m i by (auto simp: run_once_def split: result.splits InstallOutcome.splits)
  with b newer show ?thesis by auto
next
  case False
  then have "r = None" "fs' = fs" using assms(1) by (auto simp: run_once_def split: result.splits option.splits)
  with assms(2,3) show ?thesis by simp
qed

text \<open>
  C14: the agent's binary is never lost and never forged. After any number of update cycles, with any answers
  of the server and any faults of the file system, there is a complete binary at its path: the one of
  the beginning, or one whose digest carries a signature of the pinned key; and the version the
  updater takes for installed never goes back.
\<close>

theorem binary_authentic:
  assumes "updater_run libs cfg ues (v, fs) = (v', fs')" "fs current = Some b0" "fs (deleted_path current) = None"
    and "list_all (binary_at current) ues"
  shows "\<exists>b. fs' current = Some b \<and> (b = b0 \<or> signed_binary libs cfg b) \<and>
    (v' = v \<or> is_newer v' v \<and> signed_binary libs cfg b)"
proof -
  have "\<exists>b. fs' current = Some b \<and> (b = b0 \<or> signed_binary libs cfg b) \<and> (v' = v \<or> is_newer v' v \<and> signed_binary libs cfg b)"
    if "update_cycles libs cfg ues (w, gs) = (v', fs')" "gs current = Some b1" "gs (deleted_path current) = None"
      "b1 = b0 \<or> signed_binary libs cfg b1" "w = v \<or> is_newer w v \<and> signed_binary libs cfg b1" for w gs b1
    using that assms(4)
  proof (induction ues arbitrary: w gs b1)
    case (Cons ue ues)
    obtain r hs where once: "run_once libs cfg ue w gs = (r, hs)" by fastforce
    obtain b where b: "hs current = Some b" "b = b1 \<or> signed_binary libs cfg b" "hs (deleted_path current) = None"
      "\<forall>u. r = Some u \<longrightarrow> is_newer u w \<and> signed_binary libs cfg b"
      using run_once_effect [OF once Cons.prems(2,3)] Cons.prems(6) by auto
    have keep: "b = b0 \<or> signed_binary libs cfg b" using b(2) Cons.prems(4) by blast
    show ?case
    proof (cases r)
      case None
      then have "update_cycles libs cfg ues (w, hs) = (v', fs')" using Cons.prems(1) once by simp
      from Cons.IH [OF this b(1,3) keep] show ?thesis using b(2) Cons.prems(5,6) by auto
    next
      case (Some u)
      then have run: "update_cycles libs cfg ues (u, hs) = (v', fs')" using Cons.prems(1) once by simp
      have "is_newer u v" using b(4) Some Cons.prems(5) is_newer_trans by blast
      with Cons.IH [OF run b(1,3) keep] b(4) Some Cons.prems(6) show ?thesis by auto
    qed
  qed auto
  from this [of v fs b0] assms(1-3) show ?thesis by (auto simp: updater_run_def split: if_splits)
qed

text \<open>A process that still runs from a replaced binary installs nothing more: it looks for its binary under a
  path at which there is none.\<close>

lemma replaced_process_never_updates:
  assumes "ue_exe ue = Ok (deleted_path current)" "fs (deleted_path current) = None"
  shows "fst (run_once libs cfg ue v fs) = None"
proof -
  have "\<not> is_ok (fst (install_update libs cfg m ue (deleted_path current) fs))" for m
    using install_missing [of libs cfg m ue "deleted_path current" fs, OF _ assms(2) temp_not_deleted] by (metis prod.collapse)
  moreover have "is_ok (Ok x)" for x :: InstallOutcome by simp
  ultimately show ?thesis
    using assms(1) by (auto simp: run_once_def split: result.splits option.splits prod.splits InstallOutcome.splits) (metis fst_conv is_ok.simps)+
qed

section \<open>A sample cycle\<close>

definition sample_libs :: UpdateLibs where
  "sample_libs = \<lparr> ul_manifest = (\<lambda>_. Ok \<lparr> um_version = ''2'', um_url = ''u'', um_sha256 = ''d'', um_signature = ''s'' \<rparr>), ul_status = (\<lambda>_. []),
     ul_hex = (\<lambda>t. Some (if t = ''k'' then replicate 32 CHR ''K'' else if t = ''d'' then CHR ''N'' # replicate 31 CHR ''0'' else replicate 32 CHR ''K'' @ CHR ''N'' # replicate 31 CHR ''0'')),
     ul_key = (\<lambda>_. True), ul_sha256 = (\<lambda>b. take 32 (b @ replicate 32 CHR ''0'')), ul_verify = (\<lambda>key digest sig. if sig = key @ digest then Ok () else Err []) \<rparr>"

definition sample_config :: UpdateConfig where
  "sample_config = \<lparr> uc_enabled = True, uc_server_url = ''u'', uc_check_interval = 3600, uc_public_key = ''k'', uc_smoke_test_timeout = 10 \<rparr>"

definition sample_env :: UpdateEnv where
  "sample_env = \<lparr> ue_check_client = None, ue_check = Reply 200 (Ok []), ue_exe = Ok ''/a/g'', ue_pid = 7, ue_client = None, ue_send = Ok 200,
     ue_create = None, ue_chunks = [ChunkHere ''N'' None], ue_sync = None, ue_remove_temp = True, ue_mode = None, ue_remove_backup = None,
     ue_copy = None, ue_rename = None, ue_smoke = (\<lambda>_. None), ue_restore = None \<rparr>"

lemma sample_newer: "is_newer ''2'' ''1''"
  by (simp add: is_newer_def parse_version_def version_segment_def is_digit_def read_nat_def resize_zero_def Let_def)

lemma sample_check: "check_for_update sample_libs None (Reply 200 (Ok [])) ''1'' =
    Ok (Some \<lparr> um_version = ''2'', um_url = ''u'', um_sha256 = ''d'', um_signature = ''s'' \<rparr>)"
  using sample_newer by (simp add: check_for_update_def sample_libs_def result_simps)

lemma sample_temp: "path_parent ''/a/g'' = Some ''/a''" "temp_path_for 7 ''/a'' = ''/a/.sda-agent.update.7''"
  by code_simp+

lemma sample_inputs: "install_inputs sample_libs sample_config m ''/a/g'' =
    Ok (replicate 32 CHR ''K'', CHR ''N'' # replicate 31 CHR ''0'', replicate 32 CHR ''K'' @ CHR ''N'' # replicate 31 CHR ''0'', ''/a'')"
  if "m = \<lparr> um_version = ''2'', um_url = ''u'', um_sha256 = ''d'', um_signature = ''s'' \<rparr>"
  unfolding that by code_simp

lemma sample_run:
  "updater_run sample_libs sample_config [sample_env] (''1'', [''/a/g'' \<mapsto> ''O'']) = (''2'', [''/a/g'' \<mapsto> ''N'', ''/a/g.bak'' \<mapsto> ''O''])"
proof -
  let ?m = "\<lparr> um_version = ''2'', um_url = ''u'', um_sha256 = ''d'', um_signature = ''s'' \<rparr>"
  have d: "download_and_verify sample_libs sample_env ''/a/.sda-agent.update.7'' (CHR ''N'' # replicate 31 CHR ''0'')
      (replicate 32 CHR ''K'' @ CHR ''N'' # replicate 31 CHR ''0'') (replicate 32 CHR ''K'') [''/a/g'' \<mapsto> ''O''] =
      (Ok (), [''/a/g'' \<mapsto> ''O'', ''/a/.sda-agent.update.7'' \<mapsto> ''N''])"
    by (simp add: download_and_verify_def sample_libs_def sample_env_def)
  have "swap_binary sample_config sample_env ''/a/.sda-agent.update.7'' ''/a/g'' [''/a/g'' \<mapsto> ''O'', ''/a/.sda-agent.update.7'' \<mapsto> ''N''] =
      (Ok Installed, [''/a/g'' \<mapsto> ''N'', ''/a/g.bak'' \<mapsto> ''O''])"
    by (auto simp: swap_binary_def copy_file_def sample_env_def backup_path_for_def Let_def)
  with d have "install_update sample_libs sample_config ?m sample_env ''/a/g'' [''/a/g'' \<mapsto> ''O''] =
      (Ok Installed, [''/a/g'' \<mapsto> ''N'', ''/a/g.bak'' \<mapsto> ''O''])"
    using sample_inputs [of ?m] sample_temp(2) by (simp add: install_update_def Let_def sample_env_def)
  then show ?thesis using sample_check by (simp add: updater_run_def sample_config_def run_once_def sample_env_def)
qed

theorem binary_authentic_witness:
  "updater_run sample_libs sample_config [sample_env] (''1'', [''/a/g'' \<mapsto> ''O'']) = (''2'', [''/a/g'' \<mapsto> ''N'', ''/a/g.bak'' \<mapsto> ''O'']) \<and>
   list_all (binary_at ''/a/g'') [sample_env] \<and> is_newer ''2'' ''1'' \<and> signed_binary sample_libs sample_config ''N''"
proof -
  have at: "list_all (binary_at ''/a/g'') [sample_env]"
    using sample_temp by (simp add: binary_at_def sample_env_def deleted_path_def)
  from binary_authentic [OF sample_run _ _ at, of "''O''"] sample_run at show ?thesis by simp
qed

end
