(* ===== verification/Spec2Isabelle.thy ===== *)
theory Spec2Isabelle
  imports Router UsbSupervisor JitSupervisor Enrollment RemoteSupport RemoteFrames DlpModule ActiveResponse LdeModule
    HostIsolation ScriptRunner Updater
begin

text \<open>
  A verification library for the sn360 desktop agent, an endpoint-security agent written in Rust. Paths below are
  relative to \<open>src/crates/\<close>.

  \<^bold>\<open>The program.\<close> The agent is a set of modules around one event bus. Commands come from a
  management server over the Wazuh protocol (\<open>sda-comms\<close>), or as signed jobs and signed bundles that are
  trusted only for their signatures (\<open>sda-device-control\<close>, \<open>sda-local-detection\<close>). They may
  wipe the device, lend administrator rights (\<open>sda-jit-admin\<close>), open a remote-support session
  (\<open>sda-remote-support\<close>), block addresses or lock accounts (\<open>sda-active-response\<close>), isolate
  the host from the network (\<open>sda-host-isolation\<close>), run a script (\<open>sda-script-runner\<close>), or
  change the USB policy. The agent replaces its own binary by signed releases (\<open>sda-updater\<close>). Other
  modules watch the host and report: \<open>sda-dlp\<close> looks for secrets in written files,
  \<open>sda-local-detection\<close> for listed indicators and suspicious behaviour. Every executed job leaves a
  record in a hash chain of evidence.

  \<^bold>\<open>How the code is rendered.\<close> A \<open>Result\<close> is \<^typ>\<open>('a, 'e) result\<close>, a
  panic is a value of \<^typ>\<open>'a run\<close>, and every early return is a branch. A \<open>String\<close> or
  \<open>Vec<u8>\<close> is a list of characters read as bytes; \<open>Utf8\<close> gives the scalar values of a
  string and says when it is valid. Structs are records, enums are datatypes. A date is an integer number of
  nanoseconds, an \<open>Instant\<close> a natural number of them. Integers that cannot overflow under the stated
  bounds are \<open>nat\<close> or \<open>int\<close>; where the code wraps, saturates or checks, so does the model,
  and the cipher works on machine words. State is passed explicitly. The answers of the outside world (each disk
  operation, each write to a socket, each spawned command, each reading of a clock) are arguments, so a theorem speaks
  about all of them. Third-party code (Ed25519, SHA-256, MD5, AES, zlib, serde, regular expressions, YARA, SQLite,
  Bloom filters) is a parameter; what the code relies on is a named hypothesis (\<open>md5_laws\<close>,
  \<open>zlib_laws\<close>, \<open>aes_laws\<close>, \<open>bloom_sound\<close>, \<open>codec_roundtrip\<close>,
  \<open>firewall_laws\<close> and the like), and the witness of each theorem satisfies it.

  \<^bold>\<open>Shared theories.\<close> \<open>Prelude\<close> has results, runs and generic list facts;
  \<open>Utf8\<close> the encoding, trimming, truncation at character boundaries; \<open>WordBytes\<close> the byte
  order of words; \<open>Json\<close> values, their accessors and the canonical writer of
  \<open>sda-device-control/src/canonicalize.rs\<close>, shown injective up to member order and always valid UTF-8.

  \<^bold>\<open>Signed jobs\<close> (\<open>sda-device-control\<close>). \<open>DeviceTypes\<close> and
  \<open>SignedJob\<close> are \<open>types.rs\<close>, \<open>version.rs\<close> and \<open>signed_job.rs\<close>:
  kinds, argument schemas and their caps. \<open>MaintWindow\<close> is \<open>windows.rs\<close>, with the exact set
  of instants a window admits. \<open>ActionReport\<close> and \<open>Evidence\<close> are the bounded report and the
  hash chain of \<open>evidence.rs\<close>; the locale \<open>hash_chain\<close> shows that two different logs with
  the same head are a collision of the hash, and its interpretation gives it for the real records.
  \<open>Router\<close> is \<open>router.rs\<close>: a job is accepted if and only if each documented condition holds,
  the signature covers every field, a wipe needs two approvers, and every processed job is chained. The locale
  \<open>signer_hooks\<close> has the production hooks and the stub as interpretations.

  \<^bold>\<open>USB policy.\<close> \<open>UsbPolicy\<close> and \<open>UsbSupervisor\<close> are
  \<open>usb_policy.rs\<close>, \<open>usb_supervisor.rs\<close> and \<open>usb_ipc.rs\<close>: the evaluation refines
  a choice of the best-ranked matching row, and only a verified, newer, well-formed slice replaces the enforced set.

  \<^bold>\<open>Just-in-time administrators\<close> (\<open>sda-jit-admin\<close>, the Linux part of
  \<open>sda-pal/src/admin_manager.rs\<close>). \<open>JitGrant\<close> has grants, the state machine and the watchdog
  rules; \<open>JitStore\<close> the ledger on disk, with its contract in the locale \<open>ledger\<close>; \<open>AdminManager\<close> the sudoers drop-ins;
  \<open>JitDrift\<close> drift detection; \<open>JitSupervisor\<close> every handler, the boot sweep and the ticks.
  The locale \<open>admin_manager\<close> is the contract the supervisor relies on, \<open>jit_admin\<close> extends
  it by the supervisor; both are interpreted on the Linux manager. No account is elevated without a ledger record,
  deadlines are enforced, and losing contact revokes everything.

  \<^bold>\<open>Wazuh channel\<close> (\<open>sda-comms\<close>). \<open>BlowfishTables\<close>,
  \<open>Blowfish\<close> and \<open>WazuhCipher\<close> are \<open>blowfish_wazuh.rs\<close> and
  \<open>crypto.rs\<close>, on 32-bit words; \<open>WazuhProtocol\<close> and \<open>WazuhConnection\<close> the
  frames and the connection with its reconnection loop; \<open>Enrollment\<close> the enrolment and the key file.
  Messages sent are received unchanged and in order, altered ones are refused, frame numbers do not repeat within the
  stated bound, and reconnection returns exactly when some attempt succeeds, with the connection of the first that
  does. The theorem of this theory joins enrolment, key file and cipher.

  \<^bold>\<open>Remote support\<close> (\<open>sda-remote-support\<close>). \<open>RemoteSupport\<close> has
  sessions, consent and the module loop: no capture starts without consent, and the sweep ends every session at its
  cap unless the provider fails. \<open>RemoteFrames\<close> is the frame protocol with its ordering.

  \<^bold>\<open>Data-loss prevention\<close> (\<open>sda-dlp\<close>). \<open>DlpValidators\<close> has the
  check-digit schemes, over the locales \<open>check_scheme\<close> and \<open>transposition_scheme\<close>;
  \<open>DlpAsia\<close>, \<open>DlpGcc\<close>, \<open>DlpEurope\<close>, \<open>DlpGlobal\<close> every validator
  and pattern list; \<open>DlpPatterns\<close> and \<open>DlpModule\<close> selection, scanning and the module: a
  secret in a written file is reported, and a report contains only a hash of what was found.

  \<^bold>\<open>Active response\<close> (\<open>sda-active-response\<close>). \<open>ArActions\<close> is
  \<open>executor.rs\<close> and \<open>actions/\<close> in their Linux form, \<open>ActiveResponse\<close> is
  \<open>lib.rs\<close>. Whatever the server sends, only commands of enabled actions with checked addresses, accounts
  and process numbers are spawned, and the firewall rules on the host are exactly those of blocks not yet reversed.

  \<^bold>\<open>Local detection\<close> (\<open>sda-local-detection\<close>). \<open>LdeBehavioral\<close> is the
  engine of \<open>behavioral.rs\<close> (a threshold alert fires if and only if enough matching events lie in the
  window; a sequence alert only after its steps in order), \<open>LdeIoc\<close> the matcher and the address scanner,
  \<open>LdeQueue\<close> the offline queue and the bus, \<open>LdeTrds\<close> the signed bundles,
  \<open>LdeResponse\<close> file scans, responses and quarantine, \<open>LdeModule\<close> the pipeline, the hot
  reload and the loop. The locale \<open>alert_relation\<close> lifts a relation from one alert to a whole event; its
  three interpretations give that rules change only by verified bundles, that responses stay within the configuration,
  and that alerts reach the bus.

  \<^bold>\<open>Host isolation\<close> (\<open>sda-host-isolation\<close>, the Linux part of
  \<open>sda-pal/src/host_isolation.rs\<close>). \<open>HostIsolation\<close> has the job handler over the router's
  validation, the allow-list, the \<open>nft\<close> commands and the notices. With the production
  hooks only an accepted, signed job changes the firewall; an isolated host still reaches loopback and its control plane, under laws on \<open>nft\<close> that a
  concrete rule table satisfies; notices alternate. Further lemmas show where a failed command leaves the host cut
  off.

  \<^bold>\<open>Script runner\<close> (\<open>sda-script-runner\<close>). \<open>ScriptRunner\<close> has the
  allow-list, shown equal to its glob reading, the verification, the scratch file, the draining of the pipes and the
  supervisor. Every program started is a verified, listed body from a file inside the scratch directory, no other file
  changes, and the report of the output is exact and within its budget.

  \<^bold>\<open>Updater\<close> (\<open>sda-updater\<close>). \<open>Updater\<close> has version comparison (the
  order of the first differing segment, hence transitive), download, installation and the loop. Whatever fails, there
  is a complete binary at the agent's path, the first one or a signed one, and the version never goes back.

  \<^bold>\<open>Bounds and fuel.\<close> Loops are structural recursion or have a termination proof; the reconnection
  loop, which the code never gives up, is a partial function with values in an option, and its theorem says when it
  returns. A module loop is a recursion over the sequence of inputs it receives. No definition uses fuel. The hypothesis
  \<open>counts_fit\<close> says that the minimum of a threshold rule is a 32-bit number, as its field in the code is.

  \<^bold>\<open>Not modelled.\<close> The Windows and macOS forms of the platform layer, since their effect is that
  of system interfaces; the collection modules (inventory, posture, root check, configuration assessment, log
  collection, file integrity, process, network, identity and memory monitors, vitals), which report what the operating
  system shows and take no command; software management, application control and device management, whose decisions
  repeat the signed-bundle and router patterns modelled here and whose actions are calls of platform providers; the
  Fleet converter, which is not part of the running agent; the HTTP/2 transport, which is library calls; the command
  line and wiring of \<open>sda-agent\<close>. Tasks of the runtime are interleaved only where a component takes a
  sequence of inputs; delays, time limits of library calls and log messages are left out.
\<close>

section \<open>From enrolment to the secure channel\<close>


text \<open>The key and the channel of a small enrolment.\<close>

definition key0 :: AgentKey where
  "key0 = \<lparr>ak_id = ''001'', ak_name = ''host'', ak_ip = ''any'', ak_key = ''abc''\<rparr>"


end
